(* ===== verification/Go_Prelude.thy ===== *)
theory Go_Prelude
  imports Main "HOL-Library.Char_ord" "HOL-Library.List_Lexorder" "HOL-Library.AList"
begin

text \<open>
  The vocabulary of the development: Go strings and byte slices as \<^typ>\<open>string\<close> (a Go string
  is a sequence of bytes, and a \<^typ>\<open>char\<close> is a byte), the functions of the packages
  \<^verbatim>\<open>strings\<close>, \<^verbatim>\<open>strconv\<close> and \<^verbatim>\<open>unicode/utf8\<close> that the sources call, written out on bytes,
  Go maps as association lists, and the generic lemmas the components share.

  \<^item> \<open>go_string\<close> collects the definitions of the string functions, for proofs that unfold them;
  \<^item> \<open>white space\<close> is the set of \<^verbatim>\<open>unicode.IsSpace\<close>, recognised on its UTF-8 encodings, so that
    \<open>trim_space\<close> and \<open>fields\<close> agree with \<^verbatim>\<open>strings.TrimSpace\<close> and \<^verbatim>\<open>strings.Fields\<close> on every
    byte sequence;
  \<^item> \<open>atoi\<close> keeps the saturated value that \<^verbatim>\<open>strconv.Atoi\<close> returns beside a range error,
    because some callers ignore the error.
\<close>

named_theorems go_string "definitions of the Go string functions"
named_theorems go_map "lookup and size laws of the association lists that stand for Go maps"

type_synonym bytes = "char list"

abbreviation byte_val :: "char \<Rightarrow> nat" where
  "byte_val c \<equiv> of_char c"

section \<open>Prefixes, suffixes, substrings\<close>

fun has_prefix :: "string \<Rightarrow> string \<Rightarrow> bool" where
  "has_prefix s [] = True"
| "has_prefix [] (p # ps) = False"
| "has_prefix (c # cs) (p # ps) = (c = p \<and> has_prefix cs ps)"

definition has_suffix :: "string \<Rightarrow> string \<Rightarrow> bool" where
  "has_suffix s p = has_prefix (rev s) (rev p)"

definition trim_prefix :: "string \<Rightarrow> string \<Rightarrow> string" where
  "trim_prefix s p = (if has_prefix s p then drop (length p) s else s)"

definition trim_suffix :: "string \<Rightarrow> string \<Rightarrow> string" where
  "trim_suffix s p = (if has_suffix s p then take (length s - length p) s else s)"

fun contains :: "string \<Rightarrow> string \<Rightarrow> bool" where
  "contains [] p = has_prefix [] p"
| "contains (c # cs) p = (has_prefix (c # cs) p \<or> contains cs p)"

lemma has_prefix_iff: "has_prefix s p \<longleftrightarrow> (\<exists>t. s = p @ t)"
  by (induction s p rule: has_prefix.induct) auto

lemma has_prefix_append [simp]: "has_prefix (p @ t) p"
  by (auto simp: has_prefix_iff)

lemma trim_prefix_append [simp]: "trim_prefix (p @ t) p = t"
  by (simp add: trim_prefix_def)

lemma has_suffix_iff: "has_suffix s p \<longleftrightarrow> (\<exists>t. s = t @ p)"
proof
  assume "has_suffix s p"
  then obtain t where "rev s = rev p @ t"
    by (auto simp: has_suffix_def has_prefix_iff)
  then have "s = rev t @ p"
    by (metis rev_append rev_rev_ident)
  then show "\<exists>t. s = t @ p" by blast
qed (auto simp: has_suffix_def)

lemma contains_iff: "contains s p \<longleftrightarrow> (\<exists>u v. s = u @ p @ v)"
proof (induction s)
  case Nil
  then show ?case by (auto simp: has_prefix_iff)
next
  case (Cons c cs)
  show ?case
  proof
    assume "contains (c # cs) p"
    then show "\<exists>u v. c # cs = u @ p @ v"
      by (metis Cons.IH append_Cons append_Nil contains.simps(2) has_prefix_iff)
  next
    assume "\<exists>u v. c # cs = u @ p @ v"
    then obtain u v where "c # cs = u @ p @ v" by blast
    then have "has_prefix (c # cs) p \<or> (\<exists>u v. cs = u @ p @ v)"
      by (cases u) (auto simp: has_prefix_iff)
    then show "contains (c # cs) p"
      using Cons.IH by auto
  qed
qed

section \<open>Splitting and joining\<close>

text \<open>\<^verbatim>\<open>strings.Split\<close> at a separator of one byte; the result is never empty.\<close>

fun split_char :: "char \<Rightarrow> string \<Rightarrow> string list" where
  "split_char c [] = [[]]"
| "split_char c (x # xs) =
     (if x = c then [] # split_char c xs
      else case split_char c xs of [] \<Rightarrow> [[x]] | y # ys \<Rightarrow> (x # y) # ys)"

text \<open>\<^verbatim>\<open>strings.Cut\<close> at a separator of one byte: \<open>None\<close> is "not found".\<close>

fun cut_char :: "char \<Rightarrow> string \<Rightarrow> (string \<times> string) option" where
  "cut_char c [] = None"
| "cut_char c (x # xs) =
     (if x = c then Some ([], xs)
      else map_option (\<lambda>(a, b). (x # a, b)) (cut_char c xs))"

text \<open>The first part of \<^verbatim>\<open>strings.SplitN(s, sep, 2)\<close>.\<close>

definition before_char :: "char \<Rightarrow> string \<Rightarrow> string" where
  "before_char c s = takeWhile (\<lambda>x. x \<noteq> c) s"

fun join :: "string \<Rightarrow> string list \<Rightarrow> string" where
  "join sep [] = []"
| "join sep [s] = s"
| "join sep (s # t # ts) = s @ sep @ join sep (t # ts)"

lemma split_char_nonempty [simp]: "split_char c s \<noteq> []"
  by (induction s) (auto split: list.splits)

lemma split_char_no_sep: "c \<notin> set s \<Longrightarrow> split_char c s = [s]"
  by (induction s) auto

lemma split_char_append_sep:
  "c \<notin> set s \<Longrightarrow> split_char c (s @ c # t) = s # split_char c t"
  by (induction s) auto

lemma join_Cons: "ts \<noteq> [] \<Longrightarrow> join sep (s # ts) = s @ sep @ join sep ts"
  by (cases ts) auto

lemma join_split_char: "join [c] (split_char c s) = s"
proof (induction s)
  case (Cons x xs)
  then show ?case
    by (cases "split_char c xs" rule: remdups_adj.cases) (auto simp: join_Cons)
qed simp

lemma split_char_join:
  assumes "\<forall>w \<in> set ws. c \<notin> set w" and "ws \<noteq> []"
  shows "split_char c (join [c] ws) = ws"
  using assms
proof (induction ws)
  case (Cons w ws)
  then show ?case
    by (cases ws) (auto simp: split_char_no_sep split_char_append_sep)
qed simp

lemma split_char_parts_no_sep: "w \<in> set (split_char c s) \<Longrightarrow> c \<notin> set w"
  by (induction s arbitrary: w) (auto split: if_splits list.splits)

lemma set_before_char: "set (before_char c s) \<subseteq> set s - {c}"
  by (auto simp: before_char_def dest: set_takeWhileD)

section \<open>White space on UTF-8 bytes\<close>

definition space3 :: "nat \<Rightarrow> nat \<Rightarrow> nat \<Rightarrow> bool" where
  "space3 x y z \<longleftrightarrow>
     x = 0xE1 \<and> y = 0x9A \<and> z = 0x80 \<or>
     x = 0xE2 \<and> y = 0x80 \<and> (0x80 \<le> z \<and> z \<le> 0x8A \<or> z = 0xA8 \<or> z = 0xA9 \<or> z = 0xAF) \<or>
     x = 0xE2 \<and> y = 0x81 \<and> z = 0x9F \<or>
     x = 0xE3 \<and> y = 0x80 \<and> z = 0x80"

definition space1 :: "nat \<Rightarrow> bool" where
  "space1 x \<longleftrightarrow> 9 \<le> x \<and> x \<le> 13 \<or> x = 32"

definition space2 :: "nat \<Rightarrow> nat \<Rightarrow> bool" where
  "space2 x y \<longleftrightarrow> x = 0xC2 \<and> (y = 0x85 \<or> y = 0xA0)"

text \<open>The number of bytes of the space rune at the head of a string, 0 when there is none.\<close>

fun space_width :: "string \<Rightarrow> nat" where
  "space_width [] = 0"
| "space_width [a] = (if space1 (byte_val a) then 1 else 0)"
| "space_width [a, b] =
     (if space1 (byte_val a) then 1
      else if space2 (byte_val a) (byte_val b) then 2 else 0)"
| "space_width (a # b # c # s) =
     (if space1 (byte_val a) then 1
      else if space2 (byte_val a) (byte_val b) then 2
      else if space3 (byte_val a) (byte_val b) (byte_val c) then 3 else 0)"

text \<open>The same at the end of the string, given reversed.\<close>

fun space_width_rev :: "string \<Rightarrow> nat" where
  "space_width_rev [] = 0"
| "space_width_rev [a] = (if space1 (byte_val a) then 1 else 0)"
| "space_width_rev [a, b] =
     (if space1 (byte_val a) then 1
      else if space2 (byte_val b) (byte_val a) then 2 else 0)"
| "space_width_rev (a # b # c # s) =
     (if space1 (byte_val a) then 1
      else if space2 (byte_val b) (byte_val a) then 2
      else if space3 (byte_val c) (byte_val b) (byte_val a) then 3 else 0)"

lemma space_width_le: "space_width s \<le> length s"
  by (induction s rule: space_width.induct) auto

lemma space_width_rev_le: "space_width_rev s \<le> length s"
  by (induction s rule: space_width_rev.induct) auto

function trim_left :: "string \<Rightarrow> string" where
  "trim_left s =
     (if space_width s = 0 then s else trim_left (drop (space_width s) s))"
  by pat_completeness auto
termination
proof (relation "measure length")
  fix s :: string
  assume "space_width s \<noteq> 0"
  with space_width_le [of s] show "(drop (space_width s) s, s) \<in> measure length"
    by auto
qed auto

function trim_left_rev :: "string \<Rightarrow> string" where
  "trim_left_rev s =
     (if space_width_rev s = 0 then s else trim_left_rev (drop (space_width_rev s) s))"
  by pat_completeness auto
termination
proof (relation "measure length")
  fix s :: string
  assume "space_width_rev s \<noteq> 0"
  with space_width_rev_le [of s] show "(drop (space_width_rev s) s, s) \<in> measure length"
    by auto
qed auto

declare trim_left.simps [simp del] trim_left_rev.simps [simp del]

definition trim_space :: "string \<Rightarrow> string" where
  "trim_space s = rev (trim_left_rev (rev (trim_left s)))"

lemma trim_left_length: "length (trim_left s) \<le> length s"
proof (induction s rule: trim_left.induct)
  case (1 s)
  then show ?case by (subst trim_left.simps) auto
qed

lemma trim_left_head: "space_width (trim_left s) = 0"
proof (induction s rule: trim_left.induct)
  case (1 s)
  then show ?case by (subst trim_left.simps) auto
qed

lemma trim_left_id: "space_width s = 0 \<Longrightarrow> trim_left s = s"
  by (subst trim_left.simps) simp

lemma trim_left_rev_id: "space_width_rev s = 0 \<Longrightarrow> trim_left_rev s = s"
  by (subst trim_left_rev.simps) simp

text \<open>\<^verbatim>\<open>strings.Fields\<close>: the maximal runs of bytes that hold no space rune.\<close>

fun take_word :: "string \<Rightarrow> string \<times> string" where
  "take_word [] = ([], [])"
| "take_word (c # cs) =
     (if space_width (c # cs) \<noteq> 0 then ([], c # cs)
      else (let (w, r) = take_word cs in (c # w, r)))"

lemma take_word_append: "take_word s = (w, r) \<Longrightarrow> s = w @ r"
  by (induction s arbitrary: w r) (auto split: if_splits prod.splits)

lemma take_word_progress:
  "s \<noteq> [] \<Longrightarrow> space_width s = 0 \<Longrightarrow> take_word s = (w, r) \<Longrightarrow> length r < length s"
  by (cases s) (auto split: prod.splits dest!: take_word_append)

function fields :: "string \<Rightarrow> string list" where
  "fields s =
     (if trim_left s = [] then []
      else fst (take_word (trim_left s)) # fields (snd (take_word (trim_left s))))"
  by pat_completeness auto
termination
proof (relation "measure length")
  fix s :: string
  assume "trim_left s \<noteq> []"
  then have "length (snd (take_word (trim_left s))) < length (trim_left s)"
    using take_word_progress [of "trim_left s"] trim_left_head [of s]
    by (metis prod.collapse)
  also have "\<dots> \<le> length s" by (rule trim_left_length)
  finally show "(snd (take_word (trim_left s)), s) \<in> measure length" by simp
qed auto

declare fields.simps [simp del]

section \<open>ASCII letters and digits\<close>

definition in_range :: "char \<Rightarrow> char \<Rightarrow> char \<Rightarrow> bool" where
  "in_range lo hi c \<longleftrightarrow> byte_val lo \<le> byte_val c \<and> byte_val c \<le> byte_val hi"

definition is_digit :: "char \<Rightarrow> bool" where
  "is_digit c \<longleftrightarrow> in_range CHR ''0'' CHR ''9'' c"

definition is_lower :: "char \<Rightarrow> bool" where
  "is_lower c \<longleftrightarrow> in_range CHR ''a'' CHR ''z'' c"

definition is_upper :: "char \<Rightarrow> bool" where
  "is_upper c \<longleftrightarrow> in_range CHR ''A'' CHR ''Z'' c"

definition is_alnum :: "char \<Rightarrow> bool" where
  "is_alnum c \<longleftrightarrow> is_digit c \<or> is_lower c \<or> is_upper c"

definition lower_char :: "char \<Rightarrow> char" where
  "lower_char c = (if is_upper c then char_of (byte_val c + 32) else c)"

definition upper_char :: "char \<Rightarrow> char" where
  "upper_char c = (if is_lower c then char_of (byte_val c - 32) else c)"

declare has_suffix_def [go_string] trim_prefix_def [go_string] trim_suffix_def [go_string]
  in_range_def [go_string] is_digit_def [go_string] is_lower_def [go_string]
  is_upper_def [go_string] is_alnum_def [go_string]

section \<open>Decimal numbers\<close>

definition digit_char :: "nat \<Rightarrow> char" where
  "digit_char d = char_of (48 + d)"

fun decimal_acc :: "nat \<Rightarrow> string \<Rightarrow> nat option" where
  "decimal_acc n [] = Some n"
| "decimal_acc n (c # cs) =
     (if is_digit c then decimal_acc (10 * n + (byte_val c - 48)) cs else None)"

text \<open>A non-empty run of decimal digits.\<close>

definition parse_decimal :: "string \<Rightarrow> nat option" where
  "parse_decimal s = (if s = [] then None else decimal_acc 0 s)"

abbreviation max_int64 :: int where "max_int64 \<equiv> 9223372036854775807"
abbreviation min_int64 :: int where "min_int64 \<equiv> -9223372036854775808"

text \<open>
  \<^verbatim>\<open>strconv.Atoi\<close> and \<^verbatim>\<open>strconv.ParseInt(s, 10, 64)\<close>: the value and whether the error is nil.
  A syntax error gives 0, a range error the nearest bound.
\<close>

definition atoi :: "string \<Rightarrow> int \<times> bool" where
  "atoi s =
     (let neg = (case s of c # _ \<Rightarrow> c = CHR ''-'' | [] \<Rightarrow> False);
          body = (case s of c # cs \<Rightarrow> if c = CHR ''-'' \<or> c = CHR ''+'' then cs else s | [] \<Rightarrow> [])
      in case parse_decimal body of
           None \<Rightarrow> (0, False)
         | Some n \<Rightarrow>
             if neg then (if int n \<le> - min_int64 then (- int n, True) else (min_int64, False))
             else (if int n \<le> max_int64 then (int n, True) else (max_int64, False)))"

fun decimal :: "nat \<Rightarrow> string" where
  "decimal n = (if n < 10 then [digit_char n] else decimal (n div 10) @ [digit_char (n mod 10)])"

declare decimal.simps [simp del]

text \<open>\<^verbatim>\<open>strconv.Itoa\<close>.\<close>

definition itoa :: "int \<Rightarrow> string" where
  "itoa i = (if i < 0 then CHR ''-'' # decimal (nat (- i)) else decimal (nat i))"

lemma byte_val_digit_char: "d < 10 \<Longrightarrow> byte_val (digit_char d) = 48 + d"
  by (simp add: digit_char_def)

lemma is_digit_digit_char [simp]: "d < 10 \<Longrightarrow> is_digit (digit_char d)"
  by (simp add: is_digit_def in_range_def byte_val_digit_char)

lemma decimal_acc_append:
  "decimal_acc n (s @ t) = Option.bind (decimal_acc n s) (\<lambda>m. decimal_acc m t)"
  by (induction s arbitrary: n) auto

lemma decimal_nonempty [simp]: "decimal n \<noteq> []"
  by (subst decimal.simps) simp

lemma decimal_digits: "list_all is_digit (decimal n)"
proof (induction n rule: decimal.induct)
  case (1 n)
  then show ?case by (subst decimal.simps) auto
qed

lemma decimal_acc_decimal: "decimal_acc 0 (decimal n) = Some n"
proof (induction n rule: decimal.induct)
  case (1 n)
  show ?case
  proof (cases "n < 10")
    case True
    then show ?thesis by (subst decimal.simps) (simp add: byte_val_digit_char)
  next
    case False
    then have "decimal_acc 0 (decimal (n div 10)) = Some (n div 10)"
      using 1 by simp
    with False show ?thesis
      by (subst decimal.simps) (simp add: decimal_acc_append byte_val_digit_char)
  qed
qed

lemma parse_decimal_decimal [simp]: "parse_decimal (decimal n) = Some n"
  by (simp add: parse_decimal_def decimal_acc_decimal)

lemma parse_decimal_digits: "parse_decimal s = Some n \<Longrightarrow> list_all is_digit s \<and> s \<noteq> []"
proof -
  have "decimal_acc m s = Some n \<Longrightarrow> list_all is_digit s" for m
    by (induction s arbitrary: m) (auto split: if_splits)
  then show "parse_decimal s = Some n \<Longrightarrow> list_all is_digit s \<and> s \<noteq> []"
    by (auto simp: parse_decimal_def split: if_splits)
qed

lemma is_digit_not_sign: "is_digit c \<Longrightarrow> c \<noteq> CHR ''-'' \<and> c \<noteq> CHR ''+''"
  by (auto simp: is_digit_def in_range_def)

lemma atoi_decimal: "int n \<le> max_int64 \<Longrightarrow> atoi (decimal n) = (int n, True)"
proof -
  assume n: "int n \<le> max_int64"
  obtain c cs where d: "decimal n = c # cs" by (cases "decimal n") auto
  then have "is_digit c" using decimal_digits [of n] by simp
  then have "c \<noteq> CHR ''-'' \<and> c \<noteq> CHR ''+''" by (rule is_digit_not_sign)
  moreover have "parse_decimal (c # cs) = Some n" using d parse_decimal_decimal [of n] by simp
  ultimately show ?thesis using n d by (simp add: atoi_def)
qed

lemma atoi_itoa: "min_int64 \<le> i \<Longrightarrow> i \<le> max_int64 \<Longrightarrow> atoi (itoa i) = (i, True)"
  by (auto simp: itoa_def atoi_decimal) (simp add: atoi_def)

lemma atoi_bounds: "min_int64 \<le> fst (atoi s) \<and> fst (atoi s) \<le> max_int64"
  by (auto simp: atoi_def Let_def split: option.splits)

section \<open>UTF-8 runes\<close>

definition cont_byte :: "nat \<Rightarrow> bool" where
  "cont_byte b \<longleftrightarrow> 0x80 \<le> b \<and> b \<le> 0xBF"

text \<open>
  \<^verbatim>\<open>utf8.DecodeRuneInString\<close>: the rune and its width in bytes; an invalid byte is the
  replacement rune 0xFFFD with width 1.
\<close>

definition decode_rune :: "string \<Rightarrow> nat \<times> nat" where
  "decode_rune s =
     (case map byte_val (take 4 s) of
        [] \<Rightarrow> (0xFFFD, 0)
      | b0 # bs \<Rightarrow>
          if b0 < 0x80 then (b0, 1)
          else if 0xC2 \<le> b0 \<and> b0 \<le> 0xDF then
            (case bs of
               b1 # _ \<Rightarrow> if cont_byte b1 then ((b0 - 0xC0) * 64 + (b1 - 0x80), 2) else (0xFFFD, 1)
             | [] \<Rightarrow> (0xFFFD, 1))
          else if 0xE0 \<le> b0 \<and> b0 \<le> 0xEF then
            (case bs of
               b1 # b2 # _ \<Rightarrow>
                 if (if b0 = 0xE0 then 0xA0 else 0x80) \<le> b1 \<and>
                    b1 \<le> (if b0 = 0xED then 0x9F else 0xBF) \<and> cont_byte b2
                 then ((b0 - 0xE0) * 4096 + (b1 - 0x80) * 64 + (b2 - 0x80), 3)
                 else (0xFFFD, 1)
             | _ \<Rightarrow> (0xFFFD, 1))
          else if 0xF0 \<le> b0 \<and> b0 \<le> 0xF4 then
            (case bs of
               b1 # b2 # b3 # _ \<Rightarrow>
                 if (if b0 = 0xF0 then 0x90 else 0x80) \<le> b1 \<and>
                    b1 \<le> (if b0 = 0xF4 then 0x8F else 0xBF) \<and> cont_byte b2 \<and> cont_byte b3
                 then ((b0 - 0xF0) * 262144 + (b1 - 0x80) * 4096 + (b2 - 0x80) * 64 + (b3 - 0x80), 4)
                 else (0xFFFD, 1)
             | _ \<Rightarrow> (0xFFFD, 1))
          else (0xFFFD, 1))"

lemma decode_rune_width_pos: "s \<noteq> [] \<Longrightarrow> 0 < snd (decode_rune s)"
  by (cases s) (auto simp: decode_rune_def split: list.splits)

function runes :: "string \<Rightarrow> (nat \<times> nat) list" where
  "runes s = (if s = [] then [] else decode_rune s # runes (drop (snd (decode_rune s)) s))"
  by pat_completeness auto
termination
proof (relation "measure length")
  fix s :: string
  assume "s \<noteq> []"
  then show "(drop (snd (decode_rune s)) s, s) \<in> measure length"
    using decode_rune_width_pos [of s] by simp
qed auto

declare runes.simps [simp del]

lemma runes_Nil [simp]: "runes [] = []"
  by (subst runes.simps) simp

text \<open>\<^verbatim>\<open>utf8.RuneCountInString\<close> and \<^verbatim>\<open>utf8.ValidString\<close>.\<close>

definition rune_count :: "string \<Rightarrow> nat" where
  "rune_count s = length (runes s)"

definition valid_utf8 :: "string \<Rightarrow> bool" where
  "valid_utf8 s \<longleftrightarrow> list_all (\<lambda>rw. rw \<noteq> (0xFFFD, 1)) (runes s)"

lemma rune_count_le_length: "rune_count s \<le> length s"
proof -
  have "length (runes s) \<le> length s"
  proof (induction s rule: runes.induct)
    case (1 s)
    show ?case
    proof (cases "s = []")
      case False
      with 1 have "length (runes (drop (snd (decode_rune s)) s)) \<le> length s - snd (decode_rune s)"
        by simp
      moreover have "0 < length s" and "0 < snd (decode_rune s)"
        using False decode_rune_width_pos by auto
      ultimately have "Suc (length (runes (drop (snd (decode_rune s)) s))) \<le> length s"
        by linarith
      then show ?thesis using False by (simp add: runes.simps [of s])
    qed simp
  qed
  then show ?thesis by (simp add: rune_count_def)
qed

lemma runes_ascii:
  "list_all (\<lambda>c. byte_val c < 0x80) s \<Longrightarrow> runes s = map (\<lambda>c. (byte_val c, 1)) s"
proof (induction s)
  case (Cons c cs)
  then have "decode_rune (c # cs) = (byte_val c, 1)" by (simp add: decode_rune_def)
  with Cons show ?case by (simp add: runes.simps [of "c # cs"])
qed simp

lemma rune_count_ascii: "list_all (\<lambda>c. byte_val c < 0x80) s \<Longrightarrow> rune_count s = length s"
  by (simp add: rune_count_def runes_ascii)

lemma valid_utf8_ascii: "list_all (\<lambda>c. byte_val c < 0x80) s \<Longrightarrow> valid_utf8 s"
  by (auto simp: valid_utf8_def runes_ascii list_all_iff)

text \<open>
  \<^verbatim>\<open>utf8.AppendRune\<close>, and \<^verbatim>\<open>strings.ToLower\<close>, \<^verbatim>\<open>strings.ToUpper\<close>: on an ASCII string the case of
  each byte, on any other string the rune map \<open>u\<close> (\<^verbatim>\<open>unicode.ToLower\<close> or \<^verbatim>\<open>unicode.ToUpper\<close>, the
  Unicode tables, which are an argument) on each rune.
\<close>

definition encode_rune :: "nat \<Rightarrow> string" where
  "encode_rune r =
     (if r < 0x80 then [char_of r]
      else if r < 0x800 then map char_of [0xC0 + r div 64, 0x80 + r mod 64]
      else if 0x10FFFF < r \<or> (0xD800 \<le> r \<and> r \<le> 0xDFFF) then map char_of [0xEF, 0xBF, 0xBD :: nat]
      else if r < 0x10000 then map char_of [0xE0 + r div 4096, 0x80 + r div 64 mod 64, 0x80 + r mod 64]
      else map char_of [0xF0 + r div 262144, 0x80 + r div 4096 mod 64, 0x80 + r div 64 mod 64, 0x80 + r mod 64])"

definition is_ascii :: "string \<Rightarrow> bool" where
  "is_ascii s \<longleftrightarrow> list_all (\<lambda>c. byte_val c < 0x80) s"

definition to_lower :: "(nat \<Rightarrow> nat) \<Rightarrow> string \<Rightarrow> string" where
  "to_lower u s = (if is_ascii s then map lower_char s else concat (map (encode_rune \<circ> u \<circ> fst) (runes s)))"

definition to_upper :: "(nat \<Rightarrow> nat) \<Rightarrow> string \<Rightarrow> string" where
  "to_upper u s = (if is_ascii s then map upper_char s else concat (map (encode_rune \<circ> u \<circ> fst) (runes s)))"

section \<open>Go maps as association lists\<close>

text \<open>
  A Go map is an association list with distinct keys: \<open>map_of\<close> looks up, \<open>AList.update\<close> assigns,
  \<open>AList.delete\<close> deletes, \<open>length\<close> is \<^verbatim>\<open>len\<close>.
\<close>

abbreviation distinct_keys :: "('k \<times> 'v) list \<Rightarrow> bool" where
  "distinct_keys m \<equiv> distinct (map fst m)"

lemma map_of_update [go_map, simp]:
  "map_of (AList.update k v m) j = (if j = k then Some v else map_of m j)"
  by (simp add: update_conv')

lemma map_of_delete [go_map, simp]:
  "map_of (AList.delete k m) j = (if j = k then None else map_of m j)"
  by (simp add: delete_conv')

lemma distinct_keys_update [go_map, simp]:
  "distinct_keys m \<Longrightarrow> distinct_keys (AList.update k v m)"
  by (rule distinct_update)

lemma distinct_keys_delete [go_map, simp]:
  "distinct_keys m \<Longrightarrow> distinct_keys (AList.delete k m)"
  by (rule distinct_delete)

lemma distinct_keys_filter [go_map, simp]:
  "distinct_keys m \<Longrightarrow> distinct_keys (filter P m)"
  by (simp add: distinct_map_filter)

lemma length_update_new [go_map]:
  "map_of m k = None \<Longrightarrow> length (AList.update k v m) = Suc (length m)"
  by (induction m) (auto split: if_splits)

lemma length_update_present [go_map]:
  "map_of m k = Some x \<Longrightarrow> length (AList.update k v m) = length m"
  by (induction m) (auto split: if_splits)

lemma length_delete_le [go_map]: "length (AList.delete k m) \<le> length m"
  by (simp add: AList.delete_eq)

lemma length_delete_present [go_map]:
  "map_of m k = Some v \<Longrightarrow> length (AList.delete k m) < length m"
proof -
  assume "map_of m k = Some v"
  then have "(k, v) \<in> set m" by (rule map_of_SomeD)
  then show ?thesis
    by (auto simp: AList.delete_eq intro!: length_filter_less)
qed

lemma map_of_filter_distinct [go_map]:
  "distinct_keys m \<Longrightarrow>
   map_of (filter P m) k = (case map_of m k of None \<Rightarrow> None | Some v \<Rightarrow> if P (k, v) then Some v else None)"
  by (induction m) (auto split: option.splits simp: map_of_eq_None_iff rev_image_eqI)

lemma map_of_Some_iff_distinct:
  "distinct_keys m \<Longrightarrow> map_of m k = Some v \<longleftrightarrow> (k, v) \<in> set m"
  by simp

lemma set_update_subset:
  "x \<in> set (AList.update k v m) \<Longrightarrow> x = (k, v) \<or> x \<in> set m"
  by (induction m) (auto split: if_splits)

lemma set_delete_subset: "x \<in> set (AList.delete k m) \<Longrightarrow> x \<in> set m"
  by (auto simp: AList.delete_eq)

section \<open>Systems with an invariant\<close>

text \<open>
  A component with state is a set of initial states and a step relation. A predicate that holds
  initially and that every step keeps holds in every reachable state.
\<close>

locale invariant_system =
  fixes init :: "'s \<Rightarrow> bool"
    and step :: "'s \<Rightarrow> 's \<Rightarrow> bool"
    and inv :: "'s \<Rightarrow> bool"
  assumes init_inv: "init s \<Longrightarrow> inv s"
    and step_inv: "step s t \<Longrightarrow> inv s \<Longrightarrow> inv t"
begin

lemma steps_inv: "step\<^sup>*\<^sup>* s t \<Longrightarrow> inv s \<Longrightarrow> inv t"
  by (induction rule: rtranclp_induct) (auto intro: step_inv)

lemma reachable_inv: "init s \<Longrightarrow> step\<^sup>*\<^sup>* s t \<Longrightarrow> inv t"
  by (blast intro: steps_inv init_inv)

end

end
