(* ===== verification/Go_Base_Encoding.thy ===== *)
theory Go_Base_Encoding
  imports Go_Prelude
begin

text \<open>
  The codecs of \<^verbatim>\<open>encoding/base64\<close> (raw, standard and URL alphabets, strict and lenient) and
  \<^verbatim>\<open>encoding/base32\<close> (standard alphabet without padding) that the session tokens, the password
  hashes, the TOTP secrets and the suspended Cron tasks go through, as functions on bytes, with
  their round trips. The decoders skip carriage returns and line feeds, as Go's do; strict decoding
  also refuses non-zero trailing bits.
\<close>

section \<open>Alphabets\<close>

definition base64_std :: string where
  "base64_std = ''ABCDEFGHIJKLMNOPQRSTUVWXYZabcdefghijklmnopqrstuvwxyz0123456789+/''"

definition base64_url :: string where
  "base64_url = ''ABCDEFGHIJKLMNOPQRSTUVWXYZabcdefghijklmnopqrstuvwxyz0123456789-_''"

definition base32_std :: string where
  "base32_std = ''ABCDEFGHIJKLMNOPQRSTUVWXYZ234567''"

fun index_of :: "char \<Rightarrow> string \<Rightarrow> nat option" where
  "index_of c [] = None"
| "index_of c (x # xs) = (if x = c then Some 0 else map_option Suc (index_of c xs))"

lemma index_of_nth:
  "distinct al \<Longrightarrow> i < length al \<Longrightarrow> index_of (al ! i) al = Some i"
  by (induction al arbitrary: i) (auto simp: nth_Cons split: nat.splits)

lemma index_of_bound: "index_of c al = Some i \<Longrightarrow> i < length al \<and> al ! i = c"
  by (induction al arbitrary: i) (auto split: if_splits)

lemma base64_url_ok: "distinct base64_url \<and> length base64_url = 64"
  unfolding base64_url_def by (rule conjI) (code_simp, code_simp)

lemma base64_std_ok: "distinct base64_std \<and> length base64_std = 64"
  unfolding base64_std_def by (rule conjI) (code_simp, code_simp)

lemma base32_std_ok: "distinct base32_std \<and> length base32_std = 32"
  unfolding base32_std_def by (rule conjI) (code_simp, code_simp)

section \<open>Base 64 without padding\<close>

fun sextets :: "nat list \<Rightarrow> nat list" where
  "sextets [] = []"
| "sextets [a] = [a div 4, a mod 4 * 16]"
| "sextets [a, b] = [a div 4, a mod 4 * 16 + b div 16, b mod 16 * 4]"
| "sextets (a # b # c # bs) =
     a div 4 # (a mod 4 * 16 + b div 16) # (b mod 16 * 4 + c div 64) # c mod 64 # sextets bs"

text \<open>\<open>strict\<close> refuses a last character whose unused low bits are not zero.\<close>

fun octets :: "bool \<Rightarrow> nat list \<Rightarrow> nat list option" where
  "octets strict [] = Some []"
| "octets strict [w] = None"
| "octets strict [w, x] =
     (if strict \<and> x mod 16 \<noteq> 0 then None else Some [w * 4 + x div 16])"
| "octets strict [w, x, y] =
     (if strict \<and> y mod 4 \<noteq> 0 then None
      else Some [w * 4 + x div 16, x mod 16 * 16 + y div 4])"
| "octets strict (w # x # y # z # vs) =
     map_option (\<lambda>r. (w * 4 + x div 16) # (x mod 16 * 16 + y div 4) # (y mod 4 * 64 + z) # r)
       (octets strict vs)"

definition base64_encode :: "string \<Rightarrow> bytes \<Rightarrow> string" where
  "base64_encode al bs = map (\<lambda>i. al ! i) (sextets (map byte_val bs))"

fun lookup_all :: "string \<Rightarrow> string \<Rightarrow> nat list option" where
  "lookup_all al [] = Some []"
| "lookup_all al (c # cs) =
     (case index_of c al of None \<Rightarrow> None | Some i \<Rightarrow> map_option (\<lambda>r. i # r) (lookup_all al cs))"

definition strip_newlines :: "string \<Rightarrow> string" where
  "strip_newlines s = filter (\<lambda>c. c \<noteq> CHR 0x0A \<and> c \<noteq> CHR 0x0D) s"

definition base64_decode :: "bool \<Rightarrow> string \<Rightarrow> string \<Rightarrow> bytes option" where
  "base64_decode strict al s =
     (case lookup_all al (strip_newlines s) of
        None \<Rightarrow> None
      | Some vs \<Rightarrow> map_option (map char_of) (octets strict vs))"

lemma sextets_bound: "\<forall>b \<in> set bs. b < 256 \<Longrightarrow> v \<in> set (sextets bs) \<Longrightarrow> v < 64"
  by (induction bs rule: sextets.induct) auto

lemma octets_sextets: "\<forall>b \<in> set bs. b < 256 \<Longrightarrow> octets strict (sextets bs) = Some bs"
  by (induction bs rule: sextets.induct) (auto simp: mult.commute)

lemma octets_length:
  "octets strict vs = Some bs \<Longrightarrow> length bs = length vs * 3 div 4"
  by (induction strict vs arbitrary: bs rule: octets.induct) (auto split: if_splits)

lemma lookup_all_map_nth:
  "distinct al \<Longrightarrow> \<forall>i \<in> set vs. i < length al \<Longrightarrow> lookup_all al (map (\<lambda>i. al ! i) vs) = Some vs"
  by (induction vs) (auto simp: index_of_nth)

lemma lookup_all_chars:
  "lookup_all al s = Some vs \<Longrightarrow> set s \<subseteq> set al \<and> length vs = length s"
  by (induction s arbitrary: vs) (auto split: option.splits dest: index_of_bound)

lemma strip_newlines_id: "CHR 0x0A \<notin> set s \<Longrightarrow> CHR 0x0D \<notin> set s \<Longrightarrow> strip_newlines s = s"
  unfolding strip_newlines_def by (induction s) auto

definition good_alphabet :: "string \<Rightarrow> nat \<Rightarrow> bool" where
  "good_alphabet al n \<longleftrightarrow> distinct al \<and> length al = n \<and> CHR 0x0A \<notin> set al \<and> CHR 0x0D \<notin> set al"

lemma good_base64_url: "good_alphabet base64_url 64"
  using base64_url_ok by (simp add: good_alphabet_def) (simp add: base64_url_def)

lemma good_base64_std: "good_alphabet base64_std 64"
  using base64_std_ok by (simp add: good_alphabet_def) (simp add: base64_std_def)

lemma good_base32_std: "good_alphabet base32_std 32"
  using base32_std_ok by (simp add: good_alphabet_def) (simp add: base32_std_def)

lemma base64_encode_chars:
  assumes "good_alphabet al 64" shows "set (base64_encode al bs) \<subseteq> set al"
proof -
  have "\<forall>b \<in> set (map byte_val bs). b < 256" by auto
  from sextets_bound [OF this] show ?thesis
    using assms by (auto simp: base64_encode_def good_alphabet_def)
qed

lemma base64_decode_encode:
  assumes "good_alphabet al 64"
  shows "base64_decode strict al (base64_encode al bs) = Some bs"
proof -
  have small: "\<forall>b \<in> set (map byte_val bs). b < 256" by auto
  have "CHR 0x0A \<notin> set (base64_encode al bs)" and "CHR 0x0D \<notin> set (base64_encode al bs)"
    using base64_encode_chars [OF assms, of bs] assms by (auto simp: good_alphabet_def)
  then have "strip_newlines (base64_encode al bs) = base64_encode al bs"
    by (rule strip_newlines_id)
  moreover have "lookup_all al (base64_encode al bs) = Some (sextets (map byte_val bs))"
    using assms sextets_bound [OF small]
    by (auto simp: base64_encode_def good_alphabet_def intro!: lookup_all_map_nth)
  ultimately show ?thesis
    using octets_sextets [OF small, of strict] by (simp add: base64_decode_def comp_def)
qed

lemma base64_decode_length:
  "base64_decode strict al s = Some bs \<Longrightarrow> length bs = length (strip_newlines s) * 3 div 4"
  by (auto simp: base64_decode_def split: option.splits dest!: octets_length lookup_all_chars)

lemma base64_encode_length: "length (base64_encode al bs) = (length bs * 4 + 2) div 3"
proof -
  have "length (sextets vs) = (length vs * 4 + 2) div 3" for vs
    by (induction vs rule: sextets.induct) auto
  then show ?thesis by (simp add: base64_encode_def)
qed

section \<open>Base 32 without padding\<close>

fun quintets :: "nat list \<Rightarrow> nat list" where
  "quintets [] = []"
| "quintets [a] = [a div 8, a mod 8 * 4]"
| "quintets [a, b] = [a div 8, a mod 8 * 4 + b div 64, b div 2 mod 32, b mod 2 * 16]"
| "quintets [a, b, c] =
     [a div 8, a mod 8 * 4 + b div 64, b div 2 mod 32, b mod 2 * 16 + c div 16, c mod 16 * 2]"
| "quintets [a, b, c, d] =
     [a div 8, a mod 8 * 4 + b div 64, b div 2 mod 32, b mod 2 * 16 + c div 16,
      c mod 16 * 2 + d div 128, d div 4 mod 32, d mod 4 * 8]"
| "quintets (a # b # c # d # e # bs) =
     a div 8 # (a mod 8 * 4 + b div 64) # b div 2 mod 32 # (b mod 2 * 16 + c div 16) #
     (c mod 16 * 2 + d div 128) # d div 4 mod 32 # (d mod 4 * 8 + e div 32) # e mod 32 #
     quintets bs"

text \<open>
  The decoder packs each group of eight characters into five bytes. The last group writes the bytes
  that its characters complete: 1, 2, 3 or 4 bytes from 2, 4, 5 or 7 characters, and none from
  1, 3 or 6 characters, which is no error. The shifts are on bytes, so their high bits drop.
\<close>

fun pack32 :: "nat list \<Rightarrow> nat list" where
  "pack32 (p # q # r # s # t # u # v # w # vs) =
     ((p * 8 + q div 4) mod 256) # ((q * 64 + r * 2 + s div 16) mod 256) #
     ((s * 16 + t div 2) mod 256) # ((t * 128 + u * 4 + v div 8) mod 256) #
     ((v * 32 + w) mod 256) # pack32 vs"
| "pack32 [p, q] = [(p * 8 + q div 4) mod 256]"
| "pack32 [p, q, r, s] = [(p * 8 + q div 4) mod 256, (q * 64 + r * 2 + s div 16) mod 256]"
| "pack32 [p, q, r, s, t] =
     [(p * 8 + q div 4) mod 256, (q * 64 + r * 2 + s div 16) mod 256, (s * 16 + t div 2) mod 256]"
| "pack32 [p, q, r, s, t, u, v] =
     [(p * 8 + q div 4) mod 256, (q * 64 + r * 2 + s div 16) mod 256, (s * 16 + t div 2) mod 256,
      (t * 128 + u * 4 + v div 8) mod 256]"
| "pack32 _ = []"

definition base32_encode :: "bytes \<Rightarrow> string" where
  "base32_encode bs = map (\<lambda>i. base32_std ! i) (quintets (map byte_val bs))"

definition base32_decode :: "string \<Rightarrow> bytes option" where
  "base32_decode s = map_option (map char_of \<circ> pack32) (lookup_all base32_std (strip_newlines s))"

lemma quintets_bound: "\<forall>b \<in> set bs. b < 256 \<Longrightarrow> v \<in> set (quintets bs) \<Longrightarrow> v < 32"
  by (induction bs rule: quintets.induct) auto

lemma carry_div: "(r::nat) < m \<Longrightarrow> (q * m + r) div m = q"
  by simp

lemma split_bits_64: "(b::nat) div 64 * 64 + b div 2 mod 32 * 2 + b mod 2 = b"
proof -
  have "b div 64 = b div 2 div 32" by (simp add: div_mult2_eq [symmetric])
  then show ?thesis
    using div_mult_mod_eq [of "b div 2" 32] div_mult_mod_eq [of b 2] by linarith
qed

lemma split_bits_128: "(d::nat) div 128 * 128 + d div 4 mod 32 * 4 + d mod 4 = d"
proof -
  have "d div 128 = d div 4 div 32" by (simp add: div_mult2_eq [symmetric])
  then show ?thesis
    using div_mult_mod_eq [of "d div 4" 32] div_mult_mod_eq [of d 4] by linarith
qed

lemma drop_high: "(b::nat) < 256 \<Longrightarrow> x = k * 256 + b \<Longrightarrow> x mod 256 = b"
  by simp

lemma shift_sum:
  fixes k h r b :: nat
  assumes "h * n + r = b" "m * n = 256"
  shows "(k * m + h) * n + r = k * 256 + b"
  using assms by (metis add.assoc distrib_right mult.assoc)

lemma pack32_1:
  assumes "(a::nat) < 256" "b < 256"
  shows "(a div 8 * 8 + (a mod 8 * 4 + b div 64) div 4) mod 256 = a"
proof -
  have "b div 64 < 4" using assms by (simp add: less_mult_imp_div_less)
  then have "(a mod 8 * 4 + b div 64) div 4 = a mod 8" by (rule carry_div)
  then show ?thesis using assms by simp
qed

lemma pack32_2:
  assumes "(b::nat) < 256" "c < 256"
  shows "((a mod 8 * 4 + b div 64) * 64 + b div 2 mod 32 * 2 + (b mod 2 * 16 + c div 16) div 16) mod 256 = b"
proof -
  have "c div 16 < 16" using assms by (simp add: less_mult_imp_div_less)
  then have "(b mod 2 * 16 + c div 16) div 16 = b mod 2" by (rule carry_div)
  then show ?thesis
    using drop_high [OF assms(1) shift_sum [where k = "a mod 8" and m = 4 and n = 64]]
      split_bits_64 [of b] by (simp only: add.assoc)
qed

lemma pack32_3:
  assumes "(c::nat) < 256" "d < 256"
  shows "((b mod 2 * 16 + c div 16) * 16 + (c mod 16 * 2 + d div 128) div 2) mod 256 = c"
proof -
  have "d div 128 < 2" using assms by (simp add: less_mult_imp_div_less)
  then have "(c mod 16 * 2 + d div 128) div 2 = c mod 16" by (rule carry_div)
  then show ?thesis
    using drop_high [OF assms(1) shift_sum [where k = "b mod 2" and m = 16 and n = 16]] assms by simp
qed

lemma pack32_4:
  assumes "(d::nat) < 256" "e < 256"
  shows "((c mod 16 * 2 + d div 128) * 128 + d div 4 mod 32 * 4 + (d mod 4 * 8 + e div 32) div 8) mod 256 = d"
proof -
  have "e div 32 < 8" using assms by (simp add: less_mult_imp_div_less)
  then have "(d mod 4 * 8 + e div 32) div 8 = d mod 4" by (rule carry_div)
  then show ?thesis
    using drop_high [OF assms(1) shift_sum [where k = "c mod 16" and m = 2 and n = 128]]
      split_bits_128 [of d] by (simp only: add.assoc)
qed

lemma pack32_5:
  assumes "(e::nat) < 256"
  shows "((d mod 4 * 8 + e div 32) * 32 + e mod 32) mod 256 = e"
  using drop_high [OF assms(1) shift_sum [where k = "d mod 4" and m = 8 and n = 32]] assms by simp

lemma pack32_quintets: "\<forall>b \<in> set bs. b < 256 \<Longrightarrow> pack32 (quintets bs) = bs"
proof (induction bs rule: quintets.induct)
  case (2 a)
  then show ?case using pack32_1 [of a 0] by simp
next
  case (3 a b)
  then show ?case using pack32_2 [of b 0 a] by (simp only: pack32.simps quintets.simps pack32_1 list.set insert_iff ball_simps) simp
next
  case (4 a b c)
  then show ?case using pack32_3 [of c 0 b] by (simp only: pack32.simps quintets.simps pack32_1 pack32_2 list.set insert_iff ball_simps) simp
next
  case (5 a b c d)
  then show ?case using pack32_4 [of d 0 c] by (simp only: pack32.simps quintets.simps pack32_1 pack32_2 pack32_3 list.set insert_iff ball_simps) simp
next
  case (6 a b c d e bs)
  then have "a < 256" "b < 256" "c < 256" "d < 256" "e < 256" "pack32 (quintets bs) = bs" by auto
  then show ?case
    by (simp only: pack32.simps quintets.simps pack32_1 pack32_2 pack32_3 pack32_4 pack32_5)
qed simp

lemma base32_encode_chars: "set (base32_encode bs) \<subseteq> set base32_std"
proof -
  have "\<forall>b \<in> set (map byte_val bs). b < 256" by auto
  from quintets_bound [OF this] show ?thesis
    using base32_std_ok by (auto simp: base32_encode_def)
qed

lemma base32_decode_encode: "base32_decode (base32_encode bs) = Some bs"
proof -
  have small: "\<forall>b \<in> set (map byte_val bs). b < 256" by auto
  have "CHR 0x0A \<notin> set (base32_encode bs)" and "CHR 0x0D \<notin> set (base32_encode bs)"
    using base32_encode_chars [of bs] good_base32_std by (auto simp: good_alphabet_def)
  then have "strip_newlines (base32_encode bs) = base32_encode bs"
    by (rule strip_newlines_id)
  moreover have "lookup_all base32_std (base32_encode bs) = Some (quintets (map byte_val bs))"
    using base32_std_ok quintets_bound [OF small]
    by (auto simp: base32_encode_def intro!: lookup_all_map_nth)
  ultimately show ?thesis
    using pack32_quintets [OF small] by (simp add: base32_decode_def comp_def)
qed

end
