(* ===== verification/Websession.thy ===== *)
theory Websession
  imports Go_Base_Encoding
begin

text \<open>
  The session manager of the web server (\<^verbatim>\<open>internal/websession\<close>): sessions with an identifier, a
  CSRF token, a login state and an account version, kept in memory and, for authenticated sessions,
  in a file that survives a restart.

  The state is the record \<open>manager\<close>; every exported method of \<^verbatim>\<open>Manager\<close> is a function that takes
  it and returns it updated. A method runs under the manager's mutex, so one call is one step. What
  a call reads from outside is its argument \<open>env\<close>: the clock (one reading per critical section),
  the step of \<^verbatim>\<open>persistLocked\<close> at which the file system fails, if any, and the size of the JSON
  encoding. The random source is a byte stream of the manager. The persistence file is kept as the
  decoded value next to its file attributes.
\<close>

section \<open>Data\<close>

datatype State =
    StateAnonymous
  | StatePassword
  | StateTwoFactor
  | StateTwoFactorSetup
  | StateAuthenticated
  | StateOther string

record session_config =
  IdleTimeout :: int
  AbsoluteTimeout :: int
  PendingTimeout :: int
  MaximumSessions :: int

text \<open>Times and durations are in nanoseconds; \<open>zero_time\<close> is Go's zero \<^verbatim>\<open>time.Time\<close>, year 1.\<close>

abbreviation second :: int where "second \<equiv> 1000000000"
abbreviation minute :: int where "minute \<equiv> 60 * second"
abbreviation hour :: int where "hour \<equiv> 60 * minute"

definition zero_time :: int where
  "zero_time = - 62135596800 * second"

definition DefaultConfig :: session_config where
  "DefaultConfig =
     \<lparr>IdleTimeout = 30 * minute, AbsoluteTimeout = 8 * hour, PendingTimeout = 5 * minute,
      MaximumSessions = 10000\<rparr>"

record session =
  SID :: string
  CSRFToken :: string
  SState :: State
  SUserID :: int
  SAuthVersion :: int
  CreatedAt :: int
  LastSeenAt :: int

definition zero_session :: session where
  "zero_session =
     \<lparr>SID = [], CSRFToken = [], SState = StateOther [], SUserID = 0, SAuthVersion = 0,
      CreatedAt = zero_time, LastSeenAt = zero_time\<rparr>"

record persistedSession =
  pID :: string
  pCSRFToken :: string
  pUserID :: int
  pAuthVersion :: int
  pCreatedAt :: int
  pLastSeenAt :: int

record persistedSessions =
  pVersion :: int
  pSessions :: "persistedSession list"

text \<open>
  The file at the persistence path: its attributes, whether it can be opened, and its content as the
  JSON decoder sees it (\<open>None\<close> when decoding fails; the flag says that nothing follows the value).
\<close>

record session_file =
  file_regular :: bool
  file_symlink :: bool
  file_perm :: nat
  file_size :: nat
  file_opens :: bool
  file_content :: "(persistedSessions \<times> bool) option"

datatype lstat = NotExist | LstatError | Present session_file

record directory_info =
  dir_is_dir :: bool
  dir_symlink :: bool
  dir_perm :: nat

datatype persist_fault =
    NoFault
  | CreateTempFault | ChmodFault | EncodeFault | SyncFault | CloseFault | RenameFault
  | DirOpenFault | DirSyncFault | DirCloseFault

datatype session_error =
    ErrCapacity
  | InvalidConfiguration
  | InvalidState
  | InvalidIdentity
  | RandomError
  | NoUniqueSession
  | PersistError persist_fault
  | PathNotAbsolute
  | UnsafeDirectory
  | UnsafeFile
  | OpenError
  | InvalidFile
  | TrailingData
  | InvalidRecord
  | DuplicatedIdentifier

record manager =
  sessions :: "(string \<times> session) list"
  config :: session_config
  random :: bytes
  persistencePath :: string
  lastPersistence :: int
  stored :: lstat

record session_env =
  clock :: int
  pfault :: persist_fault
  json_size :: "persistedSessions \<Rightarrow> nat"

section \<open>The in-memory operations\<close>

definition config_ok :: "session_config \<Rightarrow> bool" where
  "config_ok c \<longleftrightarrow>
     0 < IdleTimeout c \<and> 0 < AbsoluteTimeout c \<and> 0 < PendingTimeout c \<and> 1 \<le> MaximumSessions c"

definition New :: "session_config \<Rightarrow> bytes \<Rightarrow> session_error + manager" where
  "New c rnd =
     (if \<not> config_ok c then Inl InvalidConfiguration
      else Inr \<lparr>sessions = [], config = c, random = rnd, persistencePath = [],
                lastPersistence = zero_time, stored = NotExist\<rparr>)"

text \<open>\<^verbatim>\<open>Time.Sub\<close> saturates at the bounds of a \<^verbatim>\<open>Duration\<close>.\<close>

definition time_sub :: "int \<Rightarrow> int \<Rightarrow> int" where
  "time_sub t u = max min_int64 (min max_int64 (t - u))"

definition expired :: "session_config \<Rightarrow> int \<Rightarrow> session \<Rightarrow> bool" where
  "expired c now s =
     (let absolute = (if SState s \<noteq> StateAuthenticated then PendingTimeout c else AbsoluteTimeout c)
      in absolute < time_sub now (CreatedAt s) \<or> IdleTimeout c < time_sub now (LastSeenAt s))"

definition removeExpiredLocked :: "int \<Rightarrow> manager \<Rightarrow> manager" where
  "removeExpiredLocked now m =
     m\<lparr>sessions := filter (\<lambda>(sid, s). \<not> expired (config m) now s) (sessions m)\<rparr>"

text \<open>\<^verbatim>\<open>io.ReadFull\<close> of 32 bytes fails on a shorter source, which it then has read to its end.\<close>

definition randomToken :: "bytes \<Rightarrow> string option \<times> bytes" where
  "randomToken source =
     (if length source < 32 then (None, [])
      else (Some (base64_encode base64_url (take 32 source)), drop 32 source))"

fun allocate ::
    "nat \<Rightarrow> int \<Rightarrow> State \<Rightarrow> int \<Rightarrow> int \<Rightarrow> manager \<Rightarrow> (session_error + session) \<times> manager" where
  "allocate 0 now state userID authVersion m = (Inl NoUniqueSession, m)"
| "allocate (Suc attempts) now state userID authVersion m =
     (case randomToken (random m) of
        (None, r) \<Rightarrow> (Inl RandomError, m\<lparr>random := r\<rparr>)
      | (Some sid, r) \<Rightarrow>
          if map_of (sessions m) sid \<noteq> None
          then allocate attempts now state userID authVersion (m\<lparr>random := r\<rparr>)
          else (case randomToken r of
                  (None, r') \<Rightarrow> (Inl RandomError, m\<lparr>random := r'\<rparr>)
                | (Some csrf, r') \<Rightarrow>
                    let s = \<lparr>SID = sid, CSRFToken = csrf, SState = state, SUserID = userID,
                             SAuthVersion = authVersion, CreatedAt = now, LastSeenAt = now\<rparr>
                    in (Inr s, m\<lparr>random := r', sessions := AList.update sid s (sessions m)\<rparr>)))"

fun known_state :: "State \<Rightarrow> bool" where
  "known_state (StateOther _) = False"
| "known_state _ = True"

definition identity_ok :: "State \<Rightarrow> int \<Rightarrow> int \<Rightarrow> bool" where
  "identity_ok state userID authVersion \<longleftrightarrow>
     \<not> (state = StateAnonymous \<and> (userID \<noteq> 0 \<or> authVersion \<noteq> 0) \<or>
        state \<noteq> StateAnonymous \<and> (userID < 1 \<or> authVersion < 1))"

definition createLocked ::
    "int \<Rightarrow> State \<Rightarrow> int \<Rightarrow> int \<Rightarrow> manager \<Rightarrow> (session_error + session) \<times> manager" where
  "createLocked now state userID authVersion m =
     (if \<not> known_state state then (Inl InvalidState, m)
      else if \<not> identity_ok state userID authVersion then (Inl InvalidIdentity, m)
      else allocate 4 now state userID authVersion m)"

section \<open>Persistence\<close>

definition to_persisted :: "session \<Rightarrow> persistedSession" where
  "to_persisted s =
     \<lparr>pID = SID s, pCSRFToken = CSRFToken s, pUserID = SUserID s, pAuthVersion = SAuthVersion s,
      pCreatedAt = CreatedAt s, pLastSeenAt = LastSeenAt s\<rparr>"

definition from_persisted :: "persistedSession \<Rightarrow> session" where
  "from_persisted p =
     \<lparr>SID = pID p, CSRFToken = pCSRFToken p, SState = StateAuthenticated, SUserID = pUserID p,
      SAuthVersion = pAuthVersion p, CreatedAt = pCreatedAt p, LastSeenAt = pLastSeenAt p\<rparr>"

definition persistable :: "session_config \<Rightarrow> int \<Rightarrow> session \<Rightarrow> bool" where
  "persistable c now s \<longleftrightarrow> \<not> (SState s \<noteq> StateAuthenticated \<or> expired c now s)"

definition persisted_items :: "int \<Rightarrow> manager \<Rightarrow> persistedSession list" where
  "persisted_items now m =
     sort_key pID (map to_persisted (filter (persistable (config m) now) (map snd (sessions m))))"

definition persisted_file :: "session_env \<Rightarrow> manager \<Rightarrow> session_file" where
  "persisted_file env m =
     (let content = \<lparr>pVersion = 1, pSessions = persisted_items (clock env) m\<rparr>
      in \<lparr>file_regular = True, file_symlink = False, file_perm = 384, file_size = json_size env content,
          file_opens = True, file_content = Some (content, True)\<rparr>)"

text \<open>
  The temporary file is created, restricted to mode 0600, written, synced and closed before the
  rename replaces the persistence file; the directory is opened, synced and closed after it. A
  failure before the rename leaves the file as it was, a failure after it reports an error although
  the file is already the new one.
\<close>

definition persistLocked :: "session_env \<Rightarrow> manager \<Rightarrow> session_error option \<times> manager" where
  "persistLocked env m =
     (if persistencePath m = [] then (None, m)
      else (case pfault env of
              NoFault \<Rightarrow>
                (None, m\<lparr>stored := Present (persisted_file env m), lastPersistence := clock env\<rparr>)
            | DirOpenFault \<Rightarrow>
                (Some (PersistError DirOpenFault), m\<lparr>stored := Present (persisted_file env m)\<rparr>)
            | DirSyncFault \<Rightarrow>
                (Some (PersistError DirSyncFault), m\<lparr>stored := Present (persisted_file env m)\<rparr>)
            | DirCloseFault \<Rightarrow>
                (Some (PersistError DirCloseFault), m\<lparr>stored := Present (persisted_file env m)\<rparr>)
            | f \<Rightarrow> (Some (PersistError f), m)))"

definition validToken :: "string \<Rightarrow> bool" where
  "validToken value =
     (case base64_decode True base64_url value of None \<Rightarrow> False | Some d \<Rightarrow> length d = 32)"

definition validPersistentSession :: "session \<Rightarrow> int \<Rightarrow> bool" where
  "validPersistentSession s now \<longleftrightarrow>
     validToken (SID s) \<and> validToken (CSRFToken s) \<and> 0 < SUserID s \<and> 0 < SAuthVersion s \<and>
     CreatedAt s \<noteq> zero_time \<and> LastSeenAt s \<noteq> zero_time \<and> \<not> LastSeenAt s < CreatedAt s \<and>
     \<not> now + minute < CreatedAt s \<and> \<not> now + minute < LastSeenAt s"

fun load_items ::
    "session_config \<Rightarrow> int \<Rightarrow> persistedSession list \<Rightarrow> (string \<times> session) list
     \<Rightarrow> session_error + (string \<times> session) list" where
  "load_items c now [] acc = Inr acc"
| "load_items c now (p # ps) acc =
     (let s = from_persisted p
      in if \<not> validPersistentSession s now then Inl InvalidRecord
         else if map_of acc (SID s) \<noteq> None then Inl DuplicatedIdentifier
         else load_items c now ps (if expired c now s then acc else AList.update (SID s) s acc))"

abbreviation maximumFileSize :: nat where "maximumFileSize \<equiv> 16 * 1024 * 1024"

text \<open>The bits of mask 0o077 are the permission modulo 64.\<close>

definition unsafe_perm :: "nat \<Rightarrow> bool" where
  "unsafe_perm p \<longleftrightarrow> p mod 64 \<noteq> 0"

definition loadPersistent :: "int \<Rightarrow> manager \<Rightarrow> session_error + manager" where
  "loadPersistent now m =
     (case stored m of
        NotExist \<Rightarrow> Inr m
      | LstatError \<Rightarrow> Inl UnsafeFile
      | Present f \<Rightarrow>
          if \<not> file_regular f \<or> file_symlink f \<or> unsafe_perm (file_perm f) \<or>
             maximumFileSize < file_size f then Inl UnsafeFile
          else if \<not> file_opens f then Inl OpenError
          else (case file_content f of
                  None \<Rightarrow> Inl InvalidFile
                | Some (content, at_end) \<Rightarrow>
                    if pVersion content \<noteq> 1 \<or>
                       MaximumSessions (config m) < int (length (pSessions content)) then Inl InvalidFile
                    else if \<not> at_end then Inl TrailingData
                    else (case load_items (config m) now (pSessions content) (sessions m) of
                            Inl e \<Rightarrow> Inl e
                          | Inr ss \<Rightarrow> Inr (m\<lparr>sessions := ss, lastPersistence := now\<rparr>))))"

definition is_abs :: "string \<Rightarrow> bool" where
  "is_abs path = has_prefix path ''/''"

definition NewPersistent ::
    "session_config \<Rightarrow> string \<Rightarrow> directory_info option \<Rightarrow> lstat \<Rightarrow> bytes \<Rightarrow> int
     \<Rightarrow> session_error + manager" where
  "NewPersistent c path dir file rnd now =
     (case New c rnd of
        Inl e \<Rightarrow> Inl e
      | Inr m \<Rightarrow>
          if \<not> is_abs path then Inl PathNotAbsolute
          else (case dir of
                  None \<Rightarrow> Inl UnsafeDirectory
                | Some d \<Rightarrow>
                    if \<not> dir_is_dir d \<or> dir_symlink d \<or> unsafe_perm (dir_perm d) then Inl UnsafeDirectory
                    else loadPersistent now (m\<lparr>persistencePath := path, stored := file\<rparr>)))"

section \<open>The exported operations\<close>

definition Create ::
    "session_env \<Rightarrow> State \<Rightarrow> int \<Rightarrow> int \<Rightarrow> manager \<Rightarrow> (session_error + session) \<times> manager" where
  "Create env state userID authVersion m =
     (let m1 = removeExpiredLocked (clock env) m
      in if MaximumSessions (config m1) \<le> int (length (sessions m1)) then (Inl ErrCapacity, m1)
         else (case createLocked (clock env) state userID authVersion m1 of
                 (Inl e, m2) \<Rightarrow> (Inl e, m2)
               | (Inr s, m2) \<Rightarrow>
                   if state = StateAuthenticated
                   then (case persistLocked env m2 of
                           (None, m3) \<Rightarrow> (Inr s, m3)
                         | (Some e, m3) \<Rightarrow>
                             (Inl e, m3\<lparr>sessions := AList.delete (SID s) (sessions m3)\<rparr>))
                   else (Inr s, m2)))"

definition restore_previous :: "string \<Rightarrow> session option \<Rightarrow> manager \<Rightarrow> manager" where
  "restore_previous sid previous m =
     (case previous of None \<Rightarrow> m | Some p \<Rightarrow> m\<lparr>sessions := AList.update sid p (sessions m)\<rparr>)"

definition Rotate ::
    "session_env \<Rightarrow> string \<Rightarrow> State \<Rightarrow> int \<Rightarrow> int \<Rightarrow> manager
     \<Rightarrow> (session_error + session) \<times> manager" where
  "Rotate env sid state userID authVersion m =
     (let previous = map_of (sessions m) sid;
          previous_state = (case previous of None \<Rightarrow> SState zero_session | Some p \<Rightarrow> SState p);
          m1 = removeExpiredLocked (clock env) (m\<lparr>sessions := AList.delete sid (sessions m)\<rparr>)
      in if MaximumSessions (config m1) \<le> int (length (sessions m1)) then (Inl ErrCapacity, m1)
         else (case createLocked (clock env) state userID authVersion m1 of
                 (Inl e, m2) \<Rightarrow> (Inl e, restore_previous sid previous m2)
               | (Inr s, m2) \<Rightarrow>
                   if previous_state = StateAuthenticated \<or> state = StateAuthenticated
                   then (case persistLocked env m2 of
                           (None, m3) \<Rightarrow> (Inr s, m3)
                         | (Some e, m3) \<Rightarrow>
                             (Inl e, restore_previous sid previous
                                       (m3\<lparr>sessions := AList.delete (SID s) (sessions m3)\<rparr>)))
                   else (Inr s, m2)))"

definition Get :: "session_env \<Rightarrow> string \<Rightarrow> manager \<Rightarrow> session option \<times> manager" where
  "Get env sid m =
     (case map_of (sessions m) sid of
        None \<Rightarrow> (None, m\<lparr>sessions := AList.delete sid (sessions m)\<rparr>)
      | Some s0 \<Rightarrow>
          if expired (config m) (clock env) s0
          then (None, m\<lparr>sessions := AList.delete sid (sessions m)\<rparr>)
          else (let s = s0\<lparr>LastSeenAt := clock env\<rparr>;
                    m1 = m\<lparr>sessions := AList.update sid s (sessions m)\<rparr>
                in if SState s = StateAuthenticated \<and> persistencePath m1 \<noteq> [] \<and>
                      minute \<le> time_sub (LastSeenAt s) (lastPersistence m1)
                   then (Some s, snd (persistLocked env m1))
                   else (Some s, m1)))"

definition ValidateCSRF :: "session_env \<Rightarrow> string \<Rightarrow> string \<Rightarrow> manager \<Rightarrow> bool \<times> manager" where
  "ValidateCSRF env sid token m =
     (case Get env sid m of
        (None, m1) \<Rightarrow> (False, m1)
      | (Some s, m1) \<Rightarrow>
          ((case (base64_decode True base64_url (CSRFToken s), base64_decode True base64_url token) of
              (Some e, Some a) \<Rightarrow> length e = 32 \<and> length a = 32 \<and> e = a
            | _ \<Rightarrow> False), m1))"

definition Destroy :: "session_env \<Rightarrow> string \<Rightarrow> manager \<Rightarrow> session_error option \<times> manager" where
  "Destroy env sid m =
     (let previous = map_of (sessions m) sid;
          m1 = m\<lparr>sessions := AList.delete sid (sessions m)\<rparr>
      in case previous of
           None \<Rightarrow> (None, m1)
         | Some p \<Rightarrow>
             if SState p = StateAuthenticated
             then (case persistLocked env m1 of
                     (None, m2) \<Rightarrow> (None, m2)
                   | (Some e, m2) \<Rightarrow> (Some e, m2\<lparr>sessions := AList.update sid p (sessions m2)\<rparr>))
             else (None, m1))"

record cookie =
  cookie_name :: string
  cookie_value :: string
  cookie_path :: string
  cookie_secure :: bool
  cookie_http_only :: bool
  cookie_same_site_strict :: bool
  cookie_max_age :: int
  cookie_expires :: "int option"

definition CookieName :: string where
  "CookieName = ''__Host-aegisadmin_session''"

definition Cookie :: "string \<Rightarrow> cookie" where
  "Cookie sid =
     \<lparr>cookie_name = CookieName, cookie_value = sid, cookie_path = ''/'', cookie_secure = True,
      cookie_http_only = True, cookie_same_site_strict = True, cookie_max_age = 0,
      cookie_expires = None\<rparr>"

definition ExpiredCookie :: cookie where
  "ExpiredCookie = (Cookie [])\<lparr>cookie_max_age := -1, cookie_expires := Some second\<rparr>"

section \<open>What each internal step does to the manager\<close>

lemma validToken_encode: "length bs = 32 \<Longrightarrow> validToken (base64_encode base64_url bs)"
  by (simp add: validToken_def base64_decode_encode [OF good_base64_url])

lemma randomToken_Some:
  "randomToken source = (Some t, r) \<Longrightarrow> validToken t \<and> r = drop 32 source"
  by (auto simp: randomToken_def validToken_encode split: if_splits)

lemma removeExpired_simps [simp]:
  "config (removeExpiredLocked now m) = config m"
  "random (removeExpiredLocked now m) = random m"
  "persistencePath (removeExpiredLocked now m) = persistencePath m"
  "lastPersistence (removeExpiredLocked now m) = lastPersistence m"
  "stored (removeExpiredLocked now m) = stored m"
  by (simp_all add: removeExpiredLocked_def)

lemma sessions_removeExpired:
  "sessions (removeExpiredLocked now m) = filter (\<lambda>(sid, s). \<not> expired (config m) now s) (sessions m)"
  by (simp add: removeExpiredLocked_def)

text \<open>The frame of an operation: what it leaves as it was, whatever it does to the sessions.\<close>

definition same_frame :: "manager \<Rightarrow> manager \<Rightarrow> bool" where
  "same_frame m m' \<longleftrightarrow>
     config m' = config m \<and> persistencePath m' = persistencePath m \<and>
     lastPersistence m' = lastPersistence m \<and> stored m' = stored m"

lemma same_frameD:
  assumes "same_frame m m'"
  shows "config m' = config m" "persistencePath m' = persistencePath m" "stored m' = stored m"
  using assms by (auto simp: same_frame_def)

lemma allocate_frame:
  "allocate n now st u v m = (r, m') \<Longrightarrow> same_frame m m'"
  by (induction n arbitrary: m)
     (auto simp: same_frame_def Let_def split: prod.splits option.splits if_splits)

lemma allocate_Inl:
  "allocate n now st u v m = (Inl e, m') \<Longrightarrow> sessions m' = sessions m"
  by (induction n arbitrary: m)
     (auto simp: Let_def split: prod.splits option.splits if_splits)

definition fresh_session :: "int \<Rightarrow> State \<Rightarrow> int \<Rightarrow> int \<Rightarrow> session \<Rightarrow> bool" where
  "fresh_session now st u v s \<longleftrightarrow>
     validToken (SID s) \<and> validToken (CSRFToken s) \<and> SState s = st \<and> SUserID s = u \<and>
     SAuthVersion s = v \<and> CreatedAt s = now \<and> LastSeenAt s = now"

lemma allocate_Inr:
  "allocate n now st u v m = (Inr s, m') \<Longrightarrow>
     fresh_session now st u v s \<and> map_of (sessions m) (SID s) = None \<and>
     sessions m' = AList.update (SID s) s (sessions m)"
proof (induction n arbitrary: m)
  case (Suc n)
  obtain t r where tr: "randomToken (random m) = (t, r)" by fastforce
  show ?case
  proof (cases t)
    case None
    with Suc.prems tr show ?thesis by simp
  next
    case (Some sid)
    show ?thesis
    proof (cases "map_of (sessions m) sid")
      case None
      with Suc.prems tr Some show ?thesis
        by (auto simp: fresh_session_def Let_def split: prod.splits option.splits
              dest!: randomToken_Some)
    next
      case (Some x)
      with Suc.prems tr \<open>t = Some sid\<close> Suc.IH [of "m\<lparr>random := r\<rparr>"] show ?thesis by simp
    qed
  qed
qed simp

text \<open>
  With enough random bytes and a fresh identifier among the first four drawn, a session is created:
  the loop does return one.
\<close>

lemma allocate_first:
  assumes "64 \<le> length (random m)"
    and "map_of (sessions m) (base64_encode base64_url (take 32 (random m))) = None"
  shows "\<exists>s m'. allocate (Suc n) now st u v m = (Inr s, m')"
  using assms by (simp add: randomToken_def Let_def)

lemma createLocked_frame:
  "createLocked now st u v m = (r, m') \<Longrightarrow> same_frame m m'"
  by (auto simp: createLocked_def same_frame_def split: if_splits dest!: allocate_frame)

lemma createLocked_Inl:
  "createLocked now st u v m = (Inl e, m') \<Longrightarrow> sessions m' = sessions m \<and> e \<noteq> ErrCapacity"
proof -
  have "allocate n now st u v m = (Inl e, m') \<Longrightarrow> e \<noteq> ErrCapacity" for n m
    by (induction n arbitrary: m) (auto simp: Let_def split: prod.splits option.splits if_splits)
  then show "createLocked now st u v m = (Inl e, m') \<Longrightarrow> sessions m' = sessions m \<and> e \<noteq> ErrCapacity"
    by (auto simp: createLocked_def split: if_splits dest: allocate_Inl)
qed

lemma createLocked_Inr:
  "createLocked now st u v m = (Inr s, m') \<Longrightarrow>
     known_state st \<and> identity_ok st u v \<and> fresh_session now st u v s \<and>
     map_of (sessions m) (SID s) = None \<and> sessions m' = AList.update (SID s) s (sessions m)"
  by (auto simp: createLocked_def split: if_splits dest: allocate_Inr)

lemma persistLocked_simps [simp]:
  "sessions (snd (persistLocked env m)) = sessions m"
  "config (snd (persistLocked env m)) = config m"
  "persistencePath (snd (persistLocked env m)) = persistencePath m"
  "random (snd (persistLocked env m)) = random m"
  by (auto simp: persistLocked_def split: persist_fault.splits)

lemma persistLocked_stored:
  "stored (snd (persistLocked env m)) = stored m \<or>
   stored (snd (persistLocked env m)) = Present (persisted_file env m)"
  by (auto simp: persistLocked_def split: persist_fault.splits)

lemma persistLocked_None:
  "persistLocked env m = (None, m') \<Longrightarrow> persistencePath m \<noteq> [] \<Longrightarrow>
     stored m' = Present (persisted_file env m)"
  by (auto simp: persistLocked_def split: persist_fault.splits if_splits)

lemma persistLocked_cases:
  assumes "persistLocked env m = (r, m')"
  shows "sessions m' = sessions m" "config m' = config m" "persistencePath m' = persistencePath m"
    "stored m' = stored m \<or> stored m' = Present (persisted_file env m)"
  using persistLocked_simps [of env m] persistLocked_stored [of env m] assms by auto

section \<open>The invariant\<close>

definition session_ok :: "int \<Rightarrow> session \<Rightarrow> bool" where
  "session_ok t s \<longleftrightarrow>
     validToken (SID s) \<and> validToken (CSRFToken s) \<and> known_state (SState s) \<and>
     identity_ok (SState s) (SUserID s) (SAuthVersion s) \<and>
     zero_time < CreatedAt s \<and> CreatedAt s \<le> LastSeenAt s \<and> LastSeenAt s \<le> t"

definition file_ok :: "int \<Rightarrow> session_config \<Rightarrow> session_file \<Rightarrow> bool" where
  "file_ok t c f \<longleftrightarrow>
     file_regular f \<and> \<not> file_symlink f \<and> \<not> unsafe_perm (file_perm f) \<and> file_opens f \<and>
     (\<exists>ps. file_content f = Some (\<lparr>pVersion = 1, pSessions = ps\<rparr>, True) \<and>
        int (length ps) \<le> MaximumSessions c \<and> distinct (map pID ps) \<and>
        (\<forall>p \<in> set ps. session_ok t (from_persisted p)))"

definition stored_ok :: "int \<Rightarrow> session_config \<Rightarrow> lstat \<Rightarrow> bool" where
  "stored_ok t c l \<longleftrightarrow> l = NotExist \<or> (\<exists>f. l = Present f \<and> file_ok t c f)"

text \<open>
  At time \<open>t\<close>: the keys of the map are distinct and are the identifiers of their sessions, there are
  at most \<^verbatim>\<open>MaximumSessions\<close> of them, every session has valid tokens, a known state, an identity
  that fits the state and times in order, and the persistence file, if there is one, would load.
\<close>

definition manager_inv :: "int \<Rightarrow> manager \<Rightarrow> bool" where
  "manager_inv t m \<longleftrightarrow>
     zero_time < t \<and> config_ok (config m) \<and> distinct_keys (sessions m) \<and>
     int (length (sessions m)) \<le> MaximumSessions (config m) \<and>
     (\<forall>(k, s) \<in> set (sessions m). SID s = k \<and> session_ok t s) \<and>
     stored_ok t (config m) (stored m)"

lemma session_ok_mono: "session_ok t s \<Longrightarrow> t \<le> t' \<Longrightarrow> session_ok t' s"
  by (auto simp: session_ok_def)

lemma stored_ok_mono: "stored_ok t c l \<Longrightarrow> t \<le> t' \<Longrightarrow> stored_ok t' c l"
  by (fastforce simp: stored_ok_def file_ok_def intro: session_ok_mono)

lemma manager_inv_mono: "manager_inv t m \<Longrightarrow> t \<le> t' \<Longrightarrow> manager_inv t' m"
  by (fastforce simp: manager_inv_def intro: session_ok_mono stored_ok_mono)

lemma manager_inv_lookup:
  "manager_inv t m \<Longrightarrow> map_of (sessions m) k = Some s \<Longrightarrow> SID s = k \<and> session_ok t s"
  by (auto simp: manager_inv_def dest!: map_of_SomeD)

lemma manager_inv_New: "New c rnd = Inr m \<Longrightarrow> zero_time < t \<Longrightarrow> manager_inv t m"
  by (auto simp: New_def manager_inv_def stored_ok_def config_ok_def split: if_splits)

text \<open>Fewer sessions, the same frame.\<close>

lemma manager_inv_sublist:
  assumes "manager_inv t m" "set (sessions m') \<subseteq> set (sessions m)" "distinct_keys (sessions m')"
    "length (sessions m') \<le> length (sessions m)" "config m' = config m" "stored m' = stored m"
  shows "manager_inv t m'"
  using assms by (fastforce simp: manager_inv_def)

lemma manager_inv_delete:
  "manager_inv t m \<Longrightarrow> manager_inv t (m\<lparr>sessions := AList.delete k (sessions m)\<rparr>)"
  by (rule manager_inv_sublist) (auto simp: manager_inv_def length_delete_le dest: set_delete_subset)

lemma manager_inv_removeExpired:
  "manager_inv t m \<Longrightarrow> manager_inv t (removeExpiredLocked now m)"
  by (rule manager_inv_sublist) (auto simp: sessions_removeExpired manager_inv_def)

lemma manager_inv_update:
  assumes "manager_inv t m" "SID s = k" "session_ok t s"
    and "map_of (sessions m) k \<noteq> None \<or> int (length (sessions m)) < MaximumSessions (config m)"
  shows "manager_inv t (m\<lparr>sessions := AList.update k s (sessions m)\<rparr>)"
proof -
  have "int (length (AList.update k s (sessions m))) \<le> MaximumSessions (config m)"
  proof (cases "map_of (sessions m) k")
    case None
    then show ?thesis using assms(4) by (simp add: length_update_new)
  next
    case (Some x)
    then have "length (AList.update k s (sessions m)) = length (sessions m)"
      by (rule length_update_present)
    then show ?thesis using assms(1) by (simp add: manager_inv_def)
  qed
  then show ?thesis
    using assms(1-3) by (fastforce simp: manager_inv_def dest: set_update_subset)
qed

lemma persisted_items_set:
  "set (persisted_items now m) =
     {to_persisted s | s. \<exists>k. (k, s) \<in> set (sessions m) \<and> persistable (config m) now s}"
  by (auto simp: persisted_items_def image_iff) (metis snd_conv)+

lemma pID_to_persisted [simp]: "pID (to_persisted s) = SID s"
  by (simp add: to_persisted_def)

lemma from_to_persisted: "SState s = StateAuthenticated \<Longrightarrow> from_persisted (to_persisted s) = s"
  by (simp add: from_persisted_def to_persisted_def)

lemma distinct_map_sort_key: "distinct (map f (sort_key f xs)) = distinct (map f xs)"
  by (simp add: distinct_map)

lemma persisted_file_ok:
  assumes "manager_inv t m" shows "file_ok t (config m) (persisted_file env m)"
proof -
  let ?ps = "persisted_items (clock env) m"
  have "length ?ps \<le> length (sessions m)"
    by (simp add: persisted_items_def)
  then have len: "int (length ?ps) \<le> MaximumSessions (config m)"
    using assms by (simp add: manager_inv_def)
  have "map SID (map snd (sessions m)) = map fst (sessions m)"
    using assms by (auto simp: manager_inv_def)
  then have "distinct (map SID (map snd (sessions m)))"
    using assms by (metis manager_inv_def)
  then have "distinct (map SID (filter (persistable (config m) (clock env)) (map snd (sessions m))))"
    by (rule distinct_map_filter)
  moreover have "map pID (map to_persisted ss) = map SID ss" for ss
    by (simp add: to_persisted_def)
  ultimately have "distinct (map pID ?ps)"
    unfolding persisted_items_def distinct_map_sort_key by metis
  moreover have "\<forall>p \<in> set ?ps. session_ok t (from_persisted p)"
    using assms by (auto simp: persisted_items_set persistable_def from_to_persisted manager_inv_def)
  ultimately show ?thesis
    using len by (simp add: file_ok_def persisted_file_def Let_def unsafe_perm_def)
qed

lemma manager_inv_persist:
  assumes "manager_inv t m" "persistLocked env m = (r, m')"
  shows "manager_inv t m'"
  using assms persistLocked_cases [OF assms(2)] persisted_file_ok [OF assms(1), of env]
  by (auto simp: manager_inv_def stored_ok_def)

lemma manager_inv_cong:
  "sessions m' = sessions m \<Longrightarrow> config m' = config m \<Longrightarrow> stored m' = stored m \<Longrightarrow>
   manager_inv t m' = manager_inv t m"
  by (simp add: manager_inv_def)

lemma fresh_session_ok:
  "fresh_session now st u v s \<Longrightarrow> known_state st \<Longrightarrow> identity_ok st u v \<Longrightarrow> zero_time < now \<Longrightarrow>
   session_ok now s"
  by (simp add: fresh_session_def session_ok_def)

lemma manager_inv_createLocked:
  assumes "manager_inv now m" "int (length (sessions m)) < MaximumSessions (config m)"
    and "createLocked now st u v m = (r, m')"
  shows "manager_inv now m'"
proof (cases r)
  case (Inl e)
  then show ?thesis
    using assms createLocked_Inl [of now st u v m e m'] same_frameD [OF createLocked_frame [OF assms(3)]]
    by (metis manager_inv_cong)
next
  case (Inr s)
  note c = createLocked_Inr [OF assms(3) [unfolded Inr]]
  have "session_ok now s"
    using c assms(1) by (auto simp: manager_inv_def intro: fresh_session_ok)
  then have "manager_inv now (m\<lparr>sessions := AList.update (SID s) s (sessions m)\<rparr>)"
    using assms(1,2) by (intro manager_inv_update) auto
  then show ?thesis
    using c same_frameD [OF createLocked_frame [OF assms(3)]]
    by (subst manager_inv_cong [where m = "m\<lparr>sessions := AList.update (SID s) s (sessions m)\<rparr>"]) auto
qed

lemma manager_inv_Create:
  assumes "manager_inv t m" "t \<le> clock env" "Create env st u v m = (r, m')"
  shows "manager_inv (clock env) m'"
proof -
  let ?m1 = "removeExpiredLocked (clock env) m"
  have m1: "manager_inv (clock env) ?m1"
    using assms(1,2) manager_inv_mono manager_inv_removeExpired by blast
  show ?thesis
  proof (cases "MaximumSessions (config ?m1) \<le> int (length (sessions ?m1))")
    case True
    with assms(3) m1 show ?thesis by (simp add: Create_def)
  next
    case False
    obtain r2 m2 where c: "createLocked (clock env) st u v ?m1 = (r2, m2)" by fastforce
    with False m1 have m2: "manager_inv (clock env) m2" by (auto intro: manager_inv_createLocked)
    with False c assms(3) show ?thesis
      by (auto simp: Create_def split: sum.splits prod.splits if_splits option.splits
            intro: manager_inv_persist manager_inv_delete)
  qed
qed

lemma manager_inv_restore:
  assumes "manager_inv t m" "previous = None \<or> int (length (sessions m)) < MaximumSessions (config m)"
    and "\<And>p. previous = Some p \<Longrightarrow> SID p = k \<and> session_ok t p"
  shows "manager_inv t (restore_previous k previous m)"
  using assms by (cases previous) (auto simp: restore_previous_def intro!: manager_inv_update)

lemma length_delete_update_fresh:
  "map_of xs k = None \<Longrightarrow> length (AList.delete k (AList.update k v xs)) = length xs"
  by (induction xs) (auto split: if_splits simp: AList.delete_eq)

lemma manager_inv_Rotate:
  assumes "manager_inv t m" "t \<le> clock env" "Rotate env k st u v m = (r, m')"
  shows "manager_inv (clock env) m'"
proof -
  let ?p = "map_of (sessions m) k"
  let ?m1 = "removeExpiredLocked (clock env) (m\<lparr>sessions := AList.delete k (sessions m)\<rparr>)"
  have inv: "manager_inv (clock env) m" using assms(1,2) manager_inv_mono by blast
  then have m1: "manager_inv (clock env) ?m1"
    by (intro manager_inv_removeExpired manager_inv_delete)
  have prev: "SID p = k \<and> session_ok (clock env) p" if "?p = Some p" for p
    using manager_inv_lookup [OF inv that] .
  show ?thesis
  proof (cases "MaximumSessions (config ?m1) \<le> int (length (sessions ?m1))")
    case True
    with assms(3) m1 show ?thesis by (simp add: Rotate_def Let_def)
  next
    case False
    obtain r2 m2 where c: "createLocked (clock env) st u v ?m1 = (r2, m2)" by fastforce
    with False m1 have m2: "manager_inv (clock env) m2" by (auto intro: manager_inv_createLocked)
    have cfg: "config m2 = config ?m1" using same_frameD [OF createLocked_frame [OF c]] by simp
    show ?thesis
    proof (cases r2)
      case (Inl e)
      then have "sessions m2 = sessions ?m1" using c createLocked_Inl by blast
      with False cfg have "manager_inv (clock env) (restore_previous k ?p m2)"
        by (intro manager_inv_restore [OF m2] prev) auto
      with False c Inl assms(3) show ?thesis by (simp add: Rotate_def Let_def)
    next
      case (Inr s)
      obtain e m3 where p: "persistLocked env m2 = (e, m3)" by fastforce
      note m3 = manager_inv_persist [OF m2 p]
      let ?m4 = "m3\<lparr>sessions := AList.delete (SID s) (sessions m3)\<rparr>"
      have "length (sessions ?m4) = length (sessions ?m1)"
        using createLocked_Inr [OF c [unfolded Inr]] persistLocked_cases(1) [OF p]
        by (auto simp: length_delete_update_fresh)
      with False cfg persistLocked_cases(2) [OF p]
      have "manager_inv (clock env) (restore_previous k ?p ?m4)"
        by (intro manager_inv_restore manager_inv_delete m3 prev) auto
      with False c Inr p m2 m3 assms(3) show ?thesis
        by (auto simp: Rotate_def Let_def split: if_splits option.splits)
    qed
  qed
qed

lemma manager_inv_Get:
  assumes "manager_inv t m" "t \<le> clock env" "Get env k m = (r, m')"
  shows "manager_inv (clock env) m'"
proof -
  have inv: "manager_inv (clock env) m" using assms(1,2) manager_inv_mono by blast
  show ?thesis
  proof (cases "map_of (sessions m) k")
    case None
    with assms(3) inv show ?thesis by (auto simp: Get_def intro: manager_inv_delete)
  next
    case (Some s)
    let ?s = "s\<lparr>LastSeenAt := clock env\<rparr>"
    have "SID ?s = k" "session_ok (clock env) ?s"
      using manager_inv_lookup [OF assms(1) Some] assms(2) by (auto simp: session_ok_def)
    then have upd: "manager_inv (clock env) (m\<lparr>sessions := AList.update k ?s (sessions m)\<rparr>)"
      using inv Some by (intro manager_inv_update) auto
    show ?thesis
      using Some assms(3) inv upd
      by (auto simp: Get_def Let_def split: if_splits
            intro: manager_inv_delete manager_inv_persist [OF _ surjective_pairing])
  qed
qed

lemma manager_inv_ValidateCSRF:
  assumes "manager_inv t m" "t \<le> clock env" "ValidateCSRF env k tok m = (b, m')"
  shows "manager_inv (clock env) m'"
  using assms(3) manager_inv_Get [OF assms(1,2), of k]
  by (auto simp: ValidateCSRF_def split: prod.splits option.splits)

lemma manager_inv_Destroy:
  assumes "manager_inv t m" "t \<le> clock env" "Destroy env k m = (e, m')"
  shows "manager_inv (clock env) m'"
proof -
  have inv: "manager_inv (clock env) m" using assms(1,2) manager_inv_mono by blast
  let ?m1 = "m\<lparr>sessions := AList.delete k (sessions m)\<rparr>"
  have m1: "manager_inv (clock env) ?m1" using inv by (rule manager_inv_delete)
  show ?thesis
  proof (cases "map_of (sessions m) k")
    case None
    with assms(3) m1 show ?thesis by (simp add: Destroy_def)
  next
    case (Some p)
    obtain r m2 where pr: "persistLocked env ?m1 = (r, m2)" by fastforce
    note m2 = manager_inv_persist [OF m1 pr]
    have "length (sessions m2) < length (sessions m)" "config m2 = config m"
      using persistLocked_cases [OF pr] length_delete_present [OF Some] by auto
    then have "manager_inv (clock env) (m2\<lparr>sessions := AList.update k p (sessions m2)\<rparr>)"
      using manager_inv_lookup [OF inv Some] inv
      by (intro manager_inv_update m2) (auto simp: manager_inv_def)
    with Some assms(3) m1 m2 pr show ?thesis
      by (auto simp: Destroy_def Let_def split: if_splits option.splits)
  qed
qed

section \<open>Loading the persistence file\<close>

lemma time_sub_mono: "t \<le> t' \<Longrightarrow> time_sub t u \<le> time_sub t' u"
  by (simp add: time_sub_def)

lemma expired_mono: "expired c t s \<Longrightarrow> t \<le> t' \<Longrightarrow> expired c t' s"
  using time_sub_mono [of t t' "CreatedAt s"] time_sub_mono [of t t' "LastSeenAt s"]
  by (auto simp: expired_def Let_def)

lemma session_ok_validPersistent:
  "session_ok t s \<Longrightarrow> SState s = StateAuthenticated \<Longrightarrow> t \<le> now \<Longrightarrow> validPersistentSession s now"
  by (auto simp: session_ok_def validPersistentSession_def identity_ok_def)

lemma update_append: "k \<notin> fst ` set xs \<Longrightarrow> AList.update k v xs = xs @ [(k, v)]"
  by (induction xs) auto

lemma from_persisted_simps [simp]:
  "SID (from_persisted p) = pID p" "SState (from_persisted p) = StateAuthenticated"
  by (simp_all add: from_persisted_def)

definition loaded :: "session_config \<Rightarrow> int \<Rightarrow> persistedSession list \<Rightarrow> (string \<times> session) list" where
  "loaded c now ps =
     map (\<lambda>p. (pID p, from_persisted p)) (filter (\<lambda>p. \<not> expired c now (from_persisted p)) ps)"

lemma load_items_loaded:
  assumes "\<forall>p \<in> set ps. validPersistentSession (from_persisted p) now"
    and "distinct (map pID ps)" "set (map pID ps) \<inter> fst ` set acc = {}"
  shows "load_items c now ps acc = Inr (acc @ loaded c now ps)"
  using assms
proof (induction ps arbitrary: acc)
  case (Cons p ps)
  then have "pID p \<notin> fst ` set acc" by auto
  then have "map_of acc (pID p) = None" by (simp add: map_of_eq_None_iff)
  then show ?case
    using Cons by (auto simp: Let_def loaded_def update_append)
qed (simp add: loaded_def)

lemma file_ok_load:
  assumes "file_ok t (config m) f" "t \<le> now" "stored m = Present f" "sessions m = []"
    and "file_size f \<le> maximumFileSize"
  obtains ps where "file_content f = Some (\<lparr>pVersion = 1, pSessions = ps\<rparr>, True)"
    and "loadPersistent now m = Inr (m\<lparr>sessions := loaded (config m) now ps, lastPersistence := now\<rparr>)"
proof -
  obtain ps where ps: "file_content f = Some (\<lparr>pVersion = 1, pSessions = ps\<rparr>, True)"
      "int (length ps) \<le> MaximumSessions (config m)" "distinct (map pID ps)"
      "\<forall>p \<in> set ps. session_ok t (from_persisted p)"
    using assms(1) by (auto simp: file_ok_def)
  then have "\<forall>p \<in> set ps. validPersistentSession (from_persisted p) now"
    using assms(2) by (auto intro: session_ok_validPersistent)
  then have "load_items (config m) now ps [] = Inr (loaded (config m) now ps)"
    using load_items_loaded [of ps now "[]" "config m"] ps(3) by simp
  with ps(1,2) assms show ?thesis
    by (intro that [of ps]) (auto simp: loadPersistent_def file_ok_def)
qed

lemma load_items_sound:
  assumes "load_items c now ps acc = Inr ss" "x \<in> set ss"
  shows "x \<in> set acc \<or> (\<exists>p \<in> set ps. x = (pID p, from_persisted p) \<and> \<not> expired c now (from_persisted p))"
  using assms
proof (induction ps arbitrary: acc)
  case (Cons p ps)
  then show ?case
    by (auto simp: Let_def split: if_splits dest!: Cons.IH dest: set_update_subset)
qed simp

lemma NewPersistent_Inr:
  assumes "NewPersistent c path d file rnd now = Inr m"
  obtains m0 where "New c rnd = Inr m0" "is_abs path"
    "loadPersistent now (m0\<lparr>persistencePath := path, stored := file\<rparr>) = Inr m"
  using assms by (auto simp: NewPersistent_def split: sum.splits option.splits if_splits)

lemma NewPersistent_sessions:
  assumes "NewPersistent c path d (Present f) rnd now = Inr m" "(k, s) \<in> set (sessions m)"
  shows "\<exists>content p. file_content f = Some (content, True) \<and> p \<in> set (pSessions content) \<and>
           k = pID p \<and> s = from_persisted p \<and> \<not> expired c now s"
proof -
  obtain m0 where m0: "New c rnd = Inr m0"
    and l: "loadPersistent now (m0\<lparr>persistencePath := path, stored := Present f\<rparr>) = Inr m"
    using NewPersistent_Inr [OF assms(1)] by blast
  then have "sessions m0 = []" "config m0 = c" by (auto simp: New_def split: if_splits)
  with l assms(2) show ?thesis
    by (auto simp: loadPersistent_def split: if_splits option.splits sum.splits
          dest!: load_items_sound)
qed

lemma map_of_loaded:
  assumes "distinct (map pID ps)"
  shows "map_of (loaded c now ps) k = Some s \<longleftrightarrow>
           (\<exists>p \<in> set ps. k = pID p \<and> s = from_persisted p \<and> \<not> expired c now s)"
proof -
  have "map fst (loaded c now ps) = map pID (filter (\<lambda>p. \<not> expired c now (from_persisted p)) ps)"
    by (simp add: loaded_def)
  then have "distinct_keys (loaded c now ps)"
    using assms by (simp add: distinct_map_filter)
  then show ?thesis by (auto simp: loaded_def)
qed

section \<open>Reachable managers\<close>

text \<open>
  One step is one call of a method at a time not before the last one, with any arguments, any random
  bytes left and any file-system failure, or a restart of the web server that loads the file.
\<close>

inductive manager_step :: "int \<times> manager \<Rightarrow> int \<times> manager \<Rightarrow> bool" where
  step_create: "t \<le> clock env \<Longrightarrow> Create env st u v m = (r, m') \<Longrightarrow> manager_step (t, m) (clock env, m')"
| step_rotate: "t \<le> clock env \<Longrightarrow> Rotate env k st u v m = (r, m') \<Longrightarrow> manager_step (t, m) (clock env, m')"
| step_get: "t \<le> clock env \<Longrightarrow> Get env k m = (g, m') \<Longrightarrow> manager_step (t, m) (clock env, m')"
| step_csrf: "t \<le> clock env \<Longrightarrow> ValidateCSRF env k tok m = (b, m') \<Longrightarrow> manager_step (t, m) (clock env, m')"
| step_destroy: "t \<le> clock env \<Longrightarrow> Destroy env k m = (e, m') \<Longrightarrow> manager_step (t, m) (clock env, m')"
| step_restart: "t \<le> now \<Longrightarrow>
     NewPersistent (config m) (persistencePath m) d (stored m) rnd now = Inr m' \<Longrightarrow>
     manager_step (t, m) (now, m')"

inductive manager_init :: "int \<times> manager \<Rightarrow> bool" where
  init_memory: "zero_time < t \<Longrightarrow> New c rnd = Inr m \<Longrightarrow> manager_init (t, m)"
| init_persistent: "zero_time < t \<Longrightarrow> NewPersistent c path d NotExist rnd t = Inr m \<Longrightarrow>
     manager_init (t, m)"

lemma NewPersistent_empty:
  "NewPersistent c path d NotExist rnd t = Inr m \<Longrightarrow> zero_time < t \<Longrightarrow> manager_inv t m"
  by (auto simp: NewPersistent_def New_def loadPersistent_def manager_inv_def stored_ok_def config_ok_def
      split: if_splits option.splits)

lemma manager_inv_restart:
  assumes "manager_inv t m" "t \<le> now"
    and new: "NewPersistent (config m) (persistencePath m) d (stored m) rnd now = Inr m'"
  shows "manager_inv now m'"
proof -
  have "zero_time < now" using assms(1,2) by (simp add: manager_inv_def)
  show ?thesis
  proof (cases "stored m")
    case (Present f)
    obtain m0 where m0: "New (config m) rnd = Inr m0"
      and l: "loadPersistent now (m0\<lparr>persistencePath := persistencePath m, stored := Present f\<rparr>) = Inr m'"
      using NewPersistent_Inr [OF new] Present by auto
    have c: "sessions m0 = []" "config m0 = config m" "config_ok (config m)"
      using m0 by (auto simp: New_def split: if_splits)
    have f: "file_ok t (config m) f" using assms(1) Present by (simp add: manager_inv_def stored_ok_def)
    have "file_size f \<le> maximumFileSize"
      using l by (auto simp: loadPersistent_def split: if_splits)
    then obtain ps where ps: "file_content f = Some (\<lparr>pVersion = 1, pSessions = ps\<rparr>, True)"
        "m' = m0\<lparr>persistencePath := persistencePath m, stored := Present f,
               sessions := loaded (config m) now ps, lastPersistence := now\<rparr>"
      using file_ok_load [of t "m0\<lparr>persistencePath := persistencePath m, stored := Present f\<rparr>" f now]
        f c l assms(2) by auto
    with f have d: "int (length ps) \<le> MaximumSessions (config m)" "distinct (map pID ps)"
        "\<forall>p \<in> set ps. session_ok t (from_persisted p)"
      by (auto simp: file_ok_def)
    have "int (length (loaded (config m) now ps)) \<le> MaximumSessions (config m)"
      using d(1) length_filter_le [of "\<lambda>p. \<not> expired (config m) now (from_persisted p)" ps]
      by (simp add: loaded_def del: length_filter_le)
    moreover have "distinct_keys (loaded (config m) now ps)"
      using d(2) by (simp add: loaded_def comp_def distinct_map_filter)
    moreover have "stored_ok now (config m) (Present f)"
      using f assms(2) stored_ok_mono [of t "config m" "Present f" now] by (simp add: stored_ok_def)
    ultimately show ?thesis
      using ps(2) c d(3) assms(2) \<open>zero_time < now\<close>
      by (auto simp: manager_inv_def loaded_def intro: session_ok_mono)
  next
    case NotExist
    with new \<open>zero_time < now\<close> show ?thesis by (auto intro: NewPersistent_empty)
  next
    case LstatError
    with new show ?thesis
      by (auto simp: NewPersistent_def loadPersistent_def split: sum.splits option.splits if_splits)
  qed
qed

lemma manager_init_inv: "manager_init (t, m) \<Longrightarrow> manager_inv t m"
  by (erule manager_init.cases) (auto intro: manager_inv_New NewPersistent_empty)

lemma manager_step_inv:
  "manager_step x y \<Longrightarrow> manager_inv (fst x) (snd x) \<Longrightarrow> manager_inv (fst y) (snd y)"
  by (induction rule: manager_step.induct)
     (auto intro: manager_inv_Create manager_inv_Rotate manager_inv_Get manager_inv_ValidateCSRF
        manager_inv_Destroy manager_inv_restart)

interpretation session_system: invariant_system manager_init manager_step
    "\<lambda>x. manager_inv (fst x) (snd x)"
  by unfold_locales (auto intro: manager_init_inv manager_step_inv)

section \<open>Properties\<close>

text \<open>
  C25: from a fresh manager (in memory, or persistent on a path with no file yet), whatever calls and
  restarts follow in time order, with whatever random bytes and file-system failures, the manager
  keeps its invariant: distinct identifiers, at most \<^verbatim>\<open>MaximumSessions\<close> sessions, tokens that decode
  to 32 bytes, an identity that fits the state (an anonymous session has no user), times in order,
  and a persistence file that holds only sessions that load again.
\<close>

theorem sessions_invariant:
  assumes "manager_init x" "manager_step\<^sup>*\<^sup>* x y"
  shows "manager_inv (fst y) (snd y)"
  using assms by (rule session_system.reachable_inv)

definition example_env :: session_env where
  "example_env = \<lparr>clock = 0, pfault = NoFault, json_size = (\<lambda>_. 0)\<rparr>"

definition example_manager :: manager where
  "example_manager =
     \<lparr>sessions = [], config = DefaultConfig, random = replicate 64 CHR ''a'', persistencePath = [],
      lastPersistence = zero_time, stored = NotExist\<rparr>"

lemma example_manager_New: "New DefaultConfig (replicate 64 CHR ''a'') = Inr example_manager"
  by (simp add: New_def config_ok_def DefaultConfig_def example_manager_def)

theorem sessions_invariant_witness:
  "manager_inv 0 (snd (Create example_env StateAnonymous 0 0 example_manager))"
proof -
  have "manager_init (0, example_manager)"
    by (rule init_memory [OF _ example_manager_New]) (simp add: zero_time_def)
  moreover have "manager_step (0, example_manager)
      (0, snd (Create example_env StateAnonymous 0 0 example_manager))"
    using step_create [of 0 example_env StateAnonymous 0 0 example_manager]
    by (simp add: example_env_def prod_eq_iff)
  ultimately show ?thesis
    using sessions_invariant [of "(0, example_manager)"
        "(0, snd (Create example_env StateAnonymous 0 0 example_manager))"] by auto
qed

lemma persisted_lookup:
  assumes inv: "manager_inv t m" and "now \<le> now'"
  shows "(\<exists>p \<in> set (persisted_items now m). k = pID p \<and> s = from_persisted p \<and> \<not> expired (config m) now' s)
     \<longleftrightarrow> map_of (sessions m) k = Some s \<and> SState s = StateAuthenticated \<and> \<not> expired (config m) now' s"
    (is "?L \<longleftrightarrow> ?R")
proof
  assume ?L
  then obtain j x where x: "(j, x) \<in> set (sessions m)" "SState x = StateAuthenticated"
      "k = pID (to_persisted x)" "s = from_persisted (to_persisted x)" "\<not> expired (config m) now' s"
    by (auto simp: persisted_items_set persistable_def)
  then have "s = x" "k = j"
    using inv by (auto simp: from_to_persisted manager_inv_def)
  then show ?R using x inv by (auto simp: manager_inv_def)
next
  assume R: ?R
  then have "(k, s) \<in> set (sessions m)" "SID s = k"
    using manager_inv_lookup [OF inv] by (auto dest: map_of_SomeD)
  moreover have "persistable (config m) now s"
    using R expired_mono [OF _ assms(2)] by (auto simp: persistable_def)
  ultimately have "to_persisted s \<in> set (persisted_items now m)"
    by (auto simp: persisted_items_set)
  then show ?L
    using R \<open>SID s = k\<close>
    by (intro bexI [of _ "to_persisted s"]) (simp_all add: from_to_persisted)
qed

text \<open>
  C26: a restart loses no login. When the sessions were written without failure and the file is below
  the size limit, a server started later on the same path loads exactly the authenticated sessions
  that have not expired by then, each with the same identifier, CSRF token, user, account version
  and times; no other session comes back.
\<close>

theorem persistence_roundtrip:
  assumes inv: "manager_inv t m" and now: "t \<le> clock env" "clock env \<le> now"
    and path: "is_abs (persistencePath m)"
    and written: "persistLocked env m = (None, m')"
    and size: "json_size env \<lparr>pVersion = 1, pSessions = persisted_items (clock env) m\<rparr> \<le> maximumFileSize"
    and dir: "dir_is_dir d" "\<not> dir_symlink d" "\<not> unsafe_perm (dir_perm d)"
  shows "\<exists>m''. NewPersistent (config m) (persistencePath m) (Some d) (stored m') rnd now = Inr m'' \<and>
           (\<forall>k s. map_of (sessions m'') k = Some s \<longleftrightarrow>
              map_of (sessions m) k = Some s \<and> SState s = StateAuthenticated \<and>
              \<not> expired (config m) now s)"
proof -
  let ?f = "persisted_file env m" and ?ps = "persisted_items (clock env) m"
  have inv': "manager_inv (clock env) m" using inv now(1) by (rule manager_inv_mono)
  have f: "file_ok (clock env) (config m) ?f" using inv' by (rule persisted_file_ok)
  have "persistencePath m \<noteq> []" using path by (auto simp: is_abs_def)
  then have st: "stored m' = Present ?f" using persistLocked_None [OF written] by simp
  have cfg: "config_ok (config m)" and dk: "distinct_keys (sessions m)"
    using inv by (auto simp: manager_inv_def)
  then obtain m0 where m0: "New (config m) rnd = Inr m0" by (simp add: New_def)
  then have m0s: "sessions m0 = []" "config m0 = config m" using cfg by (auto simp: New_def)
  let ?m1 = "m0\<lparr>persistencePath := persistencePath m, stored := Present ?f\<rparr>"
  have content: "file_content ?f = Some (\<lparr>pVersion = 1, pSessions = ?ps\<rparr>, True)"
    and fsize: "file_size ?f \<le> maximumFileSize"
    using size by (simp_all add: persisted_file_def Let_def)
  have load: "loadPersistent now ?m1 =
      Inr (?m1\<lparr>sessions := loaded (config m) now ?ps, lastPersistence := now\<rparr>)"
    using file_ok_load [of "clock env" ?m1 ?f now] f now(2) m0s content fsize by auto
  have keys: "distinct (map pID ?ps)" using f content by (auto simp: file_ok_def)
  have "map_of (loaded (config m) now ?ps) k = Some s \<longleftrightarrow>
      map_of (sessions m) k = Some s \<and> SState s = StateAuthenticated \<and> \<not> expired (config m) now s" for k s
    unfolding map_of_loaded [OF keys] using persisted_lookup [OF inv now(2)] by blast
  then show ?thesis
    using m0 path dir st load by (simp add: NewPersistent_def)
qed

definition example_dir :: directory_info where
  "example_dir = \<lparr>dir_is_dir = True, dir_symlink = False, dir_perm = 448\<rparr>"

text \<open>A persistent manager in which user 1 has logged in.\<close>

definition example_boot :: manager where
  "example_boot = example_manager\<lparr>persistencePath := ''/s''\<rparr>"

definition example_login :: manager where
  "example_login = snd (Create example_env StateAuthenticated 1 1 example_boot)"

lemma example_boot_inv: "manager_inv 0 example_boot"
  by (simp add: example_boot_def example_manager_def manager_inv_def zero_time_def DefaultConfig_def
      config_ok_def stored_ok_def)

lemma example_login_inv: "manager_inv 0 example_login"
  using manager_inv_Create [OF example_boot_inv, of example_env] 
  by (simp add: example_login_def example_env_def prod_eq_iff)

lemma example_login_frame:
  "config example_login = DefaultConfig" "persistencePath example_login = ''/s''"
  by code_simp+

lemma example_login_session:
  "map_of (sessions example_login) (base64_encode base64_url (replicate 32 CHR ''a'')) =
     Some \<lparr>SID = base64_encode base64_url (replicate 32 CHR ''a''),
           CSRFToken = base64_encode base64_url (replicate 32 CHR ''a''),
           SState = StateAuthenticated, SUserID = 1, SAuthVersion = 1, CreatedAt = 0, LastSeenAt = 0\<rparr>"
  by code_simp

theorem persistence_roundtrip_witness:
  "\<exists>m''. NewPersistent DefaultConfig ''/s'' (Some example_dir)
            (stored (snd (persistLocked example_env example_login))) [] minute = Inr m'' \<and>
      (\<forall>k s. map_of (sessions m'') k = Some s \<longleftrightarrow>
         map_of (sessions example_login) k = Some s \<and> SState s = StateAuthenticated \<and>
         \<not> expired DefaultConfig minute s)"
proof -
  have written: "persistLocked example_env example_login =
      (None, snd (persistLocked example_env example_login))"
    by (simp add: persistLocked_def example_env_def example_login_frame)
  show ?thesis
    using persistence_roundtrip [OF example_login_inv _ _ _ written, of minute example_dir "[]"]
    by (simp add: example_login_frame example_env_def example_dir_def is_abs_def unsafe_perm_def)
qed



text \<open>
  A failed login step never logs the user out. Whatever makes \<^verbatim>\<open>Rotate\<close> fail for an identifier
  that has a session (an invalid target, an exhausted random source, a file-system failure), it is
  never the capacity, and the old session is still there unchanged.
\<close>

theorem rotate_failure_keeps_session:
  assumes inv: "manager_inv t m" and p: "map_of (sessions m) k = Some p"
    and rot: "Rotate env k st u v m = (Inl e, m')"
  shows "e \<noteq> ErrCapacity \<and> map_of (sessions m') k = Some p"
proof -
  let ?m1 = "removeExpiredLocked (clock env) (m\<lparr>sessions := AList.delete k (sessions m)\<rparr>)"
  have "length (sessions ?m1) \<le> length (AList.delete k (sessions m))"
    by (simp add: sessions_removeExpired)
  also have "\<dots> < length (sessions m)" using p by (rule length_delete_present)
  finally have "\<not> MaximumSessions (config ?m1) \<le> int (length (sessions ?m1))"
    using inv by (simp add: manager_inv_def)
  then show ?thesis
    using rot p
    by (auto simp: Rotate_def Let_def restore_previous_def persistLocked_def
          split: if_splits prod.splits sum.splits option.splits persist_fault.splits
          dest: createLocked_Inl)
qed

theorem rotate_failure_keeps_session_witness:
  "map_of (sessions (snd (Rotate (example_env\<lparr>pfault := RenameFault\<rparr>)
        (base64_encode base64_url (replicate 32 CHR ''a'')) (StateOther ''x'') 1 1 example_login)))
     (base64_encode base64_url (replicate 32 CHR ''a'')) \<noteq> None"
proof -
  let ?k = "base64_encode base64_url (replicate 32 CHR ''a'')"
  let ?r = "Rotate (example_env\<lparr>pfault := RenameFault\<rparr>) ?k (StateOther ''x'') 1 1 example_login"
  have "?r = (Inl InvalidState, snd ?r)" by code_simp
  from rotate_failure_keeps_session [OF example_login_inv example_login_session this]
  show ?thesis by simp
qed

text \<open>
  C28: logging out is final. When \<^verbatim>\<open>Destroy\<close> of an authenticated session succeeds on a persistent
  manager, the identifier has no session in memory, and no server started later from the file it
  left, with any configuration of timeouts and at any time, brings it back.
\<close>

theorem destroy_is_final:
  assumes inv: "manager_inv t m" and path: "persistencePath m \<noteq> []"
    and p: "map_of (sessions m) k = Some p" "SState p = StateAuthenticated"
    and destroyed: "Destroy env k m = (None, m')"
  shows "map_of (sessions m') k = None \<and>
         (\<forall>c path' d rnd now m''.
            NewPersistent c path' d (stored m') rnd now = Inr m'' \<longrightarrow> map_of (sessions m'') k = None)"
proof -
  let ?m1 = "m\<lparr>sessions := AList.delete k (sessions m)\<rparr>"
  have pl: "persistLocked env ?m1 = (None, m')"
    using destroyed p by (auto simp: Destroy_def Let_def split: prod.splits option.splits)
  have st: "stored m' = Present (persisted_file env ?m1)"
    using persistLocked_None [OF pl] path by simp
  have gone: "pID q \<noteq> k" if "q \<in> set (persisted_items (clock env) ?m1)" for q
    using that inv by (auto simp: persisted_items_set AList.delete_eq manager_inv_def)
  have "map_of (sessions m'') k = None" if "NewPersistent c path' d (stored m') rnd now = Inr m''"
    for c path' d rnd now m''
  proof (rule ccontr)
    assume "map_of (sessions m'') k \<noteq> None"
    then obtain s where "(k, s) \<in> set (sessions m'')" by (auto dest: map_of_SomeD)
    from NewPersistent_sessions [OF that [unfolded st] this] gone show False
      by (auto simp: persisted_file_def Let_def)
  qed
  then show ?thesis
    using persistLocked_cases(1) [OF pl] by simp
qed

theorem destroy_is_final_witness:
  "map_of (sessions (snd (Destroy example_env (base64_encode base64_url (replicate 32 CHR ''a''))
       example_login))) (base64_encode base64_url (replicate 32 CHR ''a'')) = None"
proof -
  let ?k = "base64_encode base64_url (replicate 32 CHR ''a'')"
  have "Destroy example_env ?k example_login = (None, snd (Destroy example_env ?k example_login))"
    by code_simp
  from destroy_is_final [OF example_login_inv _ example_login_session _ this] show ?thesis
    by (simp add: example_login_frame)
qed

text \<open>
  C29: a form token is accepted exactly when the session is alive and the token decodes to the same
  32 bytes as the session's own CSRF token. A session of a reachable manager has a decodable token,
  so its own token is accepted.
\<close>

theorem csrf_token_exact:
  assumes "manager_inv t m"
  shows "fst (ValidateCSRF env k tok m) \<longleftrightarrow>
           (\<exists>s. map_of (sessions m) k = Some s \<and> \<not> expired (config m) (clock env) s \<and>
                base64_decode True base64_url tok = base64_decode True base64_url (CSRFToken s))"
proof (cases "map_of (sessions m) k")
  case None
  then show ?thesis by (simp add: ValidateCSRF_def Get_def)
next
  case (Some s)
  obtain d where d: "base64_decode True base64_url (CSRFToken s) = Some d" "length d = 32"
    using manager_inv_lookup [OF assms Some]
    by (auto simp: session_ok_def validToken_def split: option.splits)
  show ?thesis
    using Some d
    by (auto simp: ValidateCSRF_def Get_def Let_def split: prod.splits option.splits if_splits)
qed

theorem csrf_token_exact_witness:
  "fst (ValidateCSRF example_env (base64_encode base64_url (replicate 32 CHR ''a''))
         (base64_encode base64_url (replicate 32 CHR ''a'')) example_login)"
proof -
  have "\<not> expired DefaultConfig (clock example_env)
      \<lparr>SID = base64_encode base64_url (replicate 32 CHR ''a''),
       CSRFToken = base64_encode base64_url (replicate 32 CHR ''a''),
       SState = StateAuthenticated, SUserID = 1, SAuthVersion = 1, CreatedAt = 0, LastSeenAt = 0\<rparr>"
    by code_simp
  then show ?thesis
    using csrf_token_exact [OF example_login_inv] example_login_session
    by (auto simp: example_login_frame)
qed

text \<open>
  What \<^verbatim>\<open>Get\<close> returns. It finds a session exactly when one is stored under the identifier whose
  age is within the absolute limit of its state (the pending limit before authentication) and which
  was used within the idle limit; it returns that session with the last use set to now, and keeps it
  so. Otherwise the identifier has no session any more.
\<close>

theorem get_respects_timeouts:
  "(case fst (Get env k m) of
            Some s \<Rightarrow> (\<exists>s0. map_of (sessions m) k = Some s0 \<and> s = s0\<lparr>LastSeenAt := clock env\<rparr> \<and>
                        time_sub (clock env) (CreatedAt s0) \<le>
                          (if SState s0 = StateAuthenticated then AbsoluteTimeout (config m)
                           else PendingTimeout (config m)) \<and>
                        time_sub (clock env) (LastSeenAt s0) \<le> IdleTimeout (config m)) \<and>
                     map_of (sessions (snd (Get env k m))) k = Some s
          | None \<Rightarrow> (\<forall>s0. map_of (sessions m) k = Some s0 \<longrightarrow> expired (config m) (clock env) s0) \<and>
                    map_of (sessions (snd (Get env k m))) k = None)"
proof (cases "map_of (sessions m) k")
  case None
  then show ?thesis by (simp add: Get_def)
next
  case (Some s0)
  show ?thesis
  proof (cases "expired (config m) (clock env) s0")
    case True
    with Some show ?thesis by (simp add: Get_def)
  next
    case False
    then have "time_sub (clock env) (LastSeenAt s0) \<le> IdleTimeout (config m)"
      and "time_sub (clock env) (CreatedAt s0) \<le>
        (if SState s0 = StateAuthenticated then AbsoluteTimeout (config m) else PendingTimeout (config m))"
      by (auto simp: expired_def Let_def not_less split: if_splits)
    with Some False show ?thesis by (simp add: Get_def Let_def split: if_splits)
  qed
qed

theorem get_respects_timeouts_witness:
  "fst (Get (example_env\<lparr>clock := 31 * minute\<rparr>) (base64_encode base64_url (replicate 32 CHR ''a''))
          example_login) = None \<and>
   map_of (sessions (snd (Get (example_env\<lparr>clock := 31 * minute\<rparr>)
      (base64_encode base64_url (replicate 32 CHR ''a'')) example_login)))
      (base64_encode base64_url (replicate 32 CHR ''a'')) = None"
proof -
  have none: "fst (Get (example_env\<lparr>clock := 31 * minute\<rparr>)
      (base64_encode base64_url (replicate 32 CHR ''a'')) example_login) = None"
    by code_simp
  then show ?thesis
    using get_respects_timeouts [where env = "example_env\<lparr>clock := 31 * minute\<rparr>"
        and k = "base64_encode base64_url (replicate 32 CHR ''a'')" and m = example_login] by simp
qed

lemma load_items_invalid:
  "p \<in> set ps \<Longrightarrow> \<not> validPersistentSession (from_persisted p) now \<Longrightarrow>
   \<exists>e. load_items c now ps acc = Inl e"
  by (induction ps arbitrary: acc) (auto simp: Let_def)

lemma NewPersistent_invalid_record:
  assumes "file_content f = Some (content, b)" "p \<in> set (pSessions content)"
    and "\<not> validPersistentSession (from_persisted p) now"
  shows "\<exists>e. NewPersistent c path d (Present f) rnd now = Inl e"
proof (cases "NewPersistent c path d (Present f) rnd now")
  case (Inr m)
  then obtain m0 where "loadPersistent now (m0\<lparr>persistencePath := path, stored := Present f\<rparr>) = Inr m"
    using NewPersistent_Inr by blast
  moreover obtain e where "load_items (config m0) now (pSessions content) (sessions m0) = Inl e"
    using load_items_invalid [OF assms(2,3)] by blast
  ultimately show ?thesis
    using assms(1) by (auto simp: loadPersistent_def split: if_splits)
qed blast


definition example_future :: manager where
  "example_future =
     example_boot\<lparr>sessions := [(''f'', \<lparr>SID = ''f'', CSRFToken = ''c'', SState = StateAuthenticated,
       SUserID = 1, SAuthVersion = 1, CreatedAt = 30 * second, LastSeenAt = 30 * second\<rparr>)]\<rparr>"


end
