(* ===== verification/Webauth_Limiter.thy ===== *)
theory Webauth_Limiter
  imports Go_Prelude
begin

text \<open>
  The login limiter (\<^verbatim>\<open>internal/webauth/limiter.go\<close>): failed attempts counted per address and per
  account in fixed windows. The web server keeps three of them, for logins, second factors and
  password changes. The state is the record \<open>login_limiter\<close>, each method a function that returns it
  updated; \<open>u\<close> is \<^verbatim>\<open>unicode.ToLower\<close>, which \<^verbatim>\<open>strings.ToLower\<close> applies to non-ASCII logins.

  The interface the handlers rely on is the locale \<open>attempt_counter\<close>: what is counted for a key at
  a time, and how the three methods change it. The lock-out is proved from it once.
\<close>

section \<open>The limiter\<close>

record attempt =
  count :: int
  expiresAt :: int

record login_limiter =
  entries :: "(string \<times> attempt) list"
  window :: int
  account :: int
  address :: int

definition NewLoginLimiter :: login_limiter where
  "NewLoginLimiter = \<lparr>entries = [], window = 5 * 60 * 1000000000, account = 8, address = 30\<rparr>"

definition ip_key :: "string \<Rightarrow> string" where
  "ip_key addr = ''ip:'' @ addr"

definition login_key :: "(nat \<Rightarrow> nat) \<Rightarrow> string \<Rightarrow> string" where
  "login_key u login = ''login:'' @ to_lower u (trim_space login)"

definition countLocked :: "string \<Rightarrow> int \<Rightarrow> login_limiter \<Rightarrow> int \<times> login_limiter" where
  "countLocked key now l =
     (case map_of (entries l) key of
        None \<Rightarrow> (0, l\<lparr>entries := AList.delete key (entries l)\<rparr>)
      | Some a \<Rightarrow>
          if \<not> now < expiresAt a then (0, l\<lparr>entries := AList.delete key (entries l)\<rparr>)
          else (count a, l))"

definition Allowed :: "(nat \<Rightarrow> nat) \<Rightarrow> int \<Rightarrow> string \<Rightarrow> string \<Rightarrow> login_limiter \<Rightarrow> bool \<times> login_limiter" where
  "Allowed u now addr login l =
     (case countLocked (ip_key addr) now l of
        (c, l1) \<Rightarrow>
          if c < address l
          then (case countLocked (login_key u login) now l1 of (d, l2) \<Rightarrow> (d < account l, l2))
          else (False, l1))"

definition record_failure :: "int \<Rightarrow> string \<Rightarrow> login_limiter \<Rightarrow> login_limiter" where
  "record_failure now key l =
     (let a = (case map_of (entries l) key of
                 Some a \<Rightarrow> if now < expiresAt a then a else \<lparr>count = 0, expiresAt = now + window l\<rparr>
               | None \<Rightarrow> \<lparr>count = 0, expiresAt = now + window l\<rparr>)
      in l\<lparr>entries := AList.update key (a\<lparr>count := count a + 1\<rparr>) (entries l)\<rparr>)"

definition Failure :: "(nat \<Rightarrow> nat) \<Rightarrow> int \<Rightarrow> string \<Rightarrow> string \<Rightarrow> login_limiter \<Rightarrow> login_limiter" where
  "Failure u now addr login l =
     record_failure now (login_key u login) (record_failure now (ip_key addr) l)"

definition Success :: "(nat \<Rightarrow> nat) \<Rightarrow> string \<Rightarrow> login_limiter \<Rightarrow> login_limiter" where
  "Success u login l = l\<lparr>entries := AList.delete (login_key u login) (entries l)\<rparr>"

section \<open>What is counted\<close>

text \<open>
  The failures that count at time \<open>now\<close> for a key, with the end of their window. Entries whose window
  is over stay in the map until they are looked up, but count for nothing.
\<close>

definition live :: "int \<Rightarrow> login_limiter \<Rightarrow> string \<Rightarrow> (int \<times> int) option" where
  "live now l key =
     (case map_of (entries l) key of
        None \<Rightarrow> None
      | Some a \<Rightarrow> if now < expiresAt a then Some (count a, expiresAt a) else None)"

definition counted :: "(int \<times> int) option \<Rightarrow> int" where
  "counted x = (case x of None \<Rightarrow> 0 | Some (c, e) \<Rightarrow> c)"

lemma keys_differ [simp]: "ip_key addr \<noteq> login_key u login" "login_key u login \<noteq> ip_key addr"
  by (simp_all add: ip_key_def login_key_def)

lemma ip_key_inj [simp]: "ip_key a = ip_key b \<longleftrightarrow> a = b"
  by (simp add: ip_key_def)

lemma countLocked_spec:
  assumes "countLocked key now l = (c, l')" "now \<le> now'"
  shows "c = counted (live now l key)" "live now' l' = live now' l"
    "window l' = window l" "account l' = account l" "address l' = address l"
  using assms by (auto simp: countLocked_def live_def counted_def fun_eq_iff split: option.splits if_splits)

lemma Allowed_spec:
  "fst (Allowed u now addr login l) \<longleftrightarrow>
     counted (live now l (ip_key addr)) < address l \<and>
     counted (live now l (login_key u login)) < account l"
proof -
  obtain c l1 where c: "countLocked (ip_key addr) now l = (c, l1)" by fastforce
  obtain d l2 where d: "countLocked (login_key u login) now l1 = (d, l2)" by fastforce
  show ?thesis
    using countLocked_spec [OF c order_refl] countLocked_spec [OF d order_refl] c d
    by (simp add: Allowed_def)
qed

lemma Allowed_live:
  assumes "Allowed u now addr login l = (b, l')" "now \<le> now'"
  shows "live now' l' = live now' l" "window l' = window l" "account l' = account l"
    "address l' = address l"
proof -
  obtain c l1 where c: "countLocked (ip_key addr) now l = (c, l1)" by fastforce
  obtain d l2 where d: "countLocked (login_key u login) now l1 = (d, l2)" by fastforce
  show "live now' l' = live now' l" "window l' = window l" "account l' = account l"
    "address l' = address l"
    using countLocked_spec [OF c assms(2)] countLocked_spec [OF d assms(2)] c d assms(1)
    by (auto simp: Allowed_def split: if_splits)
qed

definition bump :: "int \<Rightarrow> int \<Rightarrow> (int \<times> int) option \<Rightarrow> int \<times> int" where
  "bump now w x = (case x of None \<Rightarrow> (1, now + w) | Some (c, e) \<Rightarrow> (c + 1, e))"

lemma record_failure_live:
  assumes "0 < window l"
  shows "live now (record_failure now key l) k =
           (if k = key then Some (bump now (window l) (live now l key)) else live now l k)"
  using assms by (auto simp: record_failure_def live_def bump_def Let_def split: option.splits)

lemma record_failure_simps [simp]:
  "window (record_failure now key l) = window l"
  "account (record_failure now key l) = account l"
  "address (record_failure now key l) = address l"
  by (simp_all add: record_failure_def Let_def)

lemma Failure_live:
  assumes "0 < window l"
  shows "live now (Failure u now addr login l) k =
           (if k = login_key u login \<or> k = ip_key addr
            then Some (bump now (window l) (live now l k)) else live now l k)"
  using assms by (simp add: Failure_def record_failure_live)

lemma Failure_simps [simp]:
  "window (Failure u now addr login l) = window l"
  "account (Failure u now addr login l) = account l"
  "address (Failure u now addr login l) = address l"
  by (simp_all add: Failure_def)

lemma Success_live:
  "live now (Success u login l) k = (if k = login_key u login then None else live now l k)"
  by (simp add: Success_def live_def)

text \<open>An entry counts until its window ends and keeps its count while it does.\<close>

lemma live_later:
  "live now l k = Some (c, e) \<Longrightarrow> now \<le> now' \<Longrightarrow> live now' l k = (if now' < e then Some (c, e) else None)"
  by (auto simp: live_def split: option.splits if_splits)

section \<open>The interface and the lock-out\<close>

text \<open>
  A counter of one key: what it counts at a time, and a failure event that it counts. The other
  component of the event (the address of an account's failure, the account of an address's) does not
  matter.
\<close>

locale attempt_counter =
  fixes live_at :: "int \<Rightarrow> 'l \<Rightarrow> (int \<times> int) option"
    and fail :: "int \<Rightarrow> 'e \<Rightarrow> 'l \<Rightarrow> 'l"
    and win :: "'l \<Rightarrow> int"
  assumes win_fail: "win (fail now x l) = win l"
    and fail_counts: "0 < win l \<Longrightarrow> live_at now (fail now x l) = Some (bump now (win l) (live_at now l))"
    and expires: "live_at now l = Some (c, e) \<Longrightarrow> now \<le> now' \<Longrightarrow>
          live_at now' l = (if now' < e then Some (c, e) else None)"
begin

lemma failures_accumulate:
  assumes "0 < win l" "live_at now l = Some (c, e)" "sorted (now # map fst es)"
    and "\<forall>t \<in> set (map fst es). t < e"
  shows "live_at (last (now # map fst es)) (fold (\<lambda>(t, x). fail t x) es l) = Some (c + int (length es), e)"
  using assms
proof (induction es arbitrary: now l c)
  case (Cons ev es)
  obtain t x where ev: "ev = (t, x)" by fastforce
  have "live_at t l = Some (c, e)" using expires [OF Cons.prems(2)] Cons.prems(3,4) ev by simp
  then have "live_at t (fail t x l) = Some (c + 1, e)"
    using fail_counts [OF Cons.prems(1)] by (simp add: bump_def)
  from Cons.IH [OF _ this] Cons.prems ev show ?case by (simp add: win_fail)
qed simp

lemma window_count:
  assumes "0 < win l" "live_at t0 l = None" "sorted (t0 # map fst es)"
    and "\<forall>t \<in> set (map fst es). t < t0 + win l" "last (t0 # map fst es) \<le> now"
  shows "live_at now (fold (\<lambda>(t, x). fail t x) ((t0, x0) # es) l) =
           (if now < t0 + win l then Some (1 + int (length es), t0 + win l) else None)"
proof -
  have "live_at t0 (fail t0 x0 l) = Some (1, t0 + win l)"
    using fail_counts [OF assms(1)] assms(2) by (simp add: bump_def)
  from failures_accumulate [OF _ this assms(3,4)] assms(1)
  have "live_at (last (t0 # map fst es)) (fold (\<lambda>(t, x). fail t x) ((t0, x0) # es) l) =
      Some (1 + int (length es), t0 + win l)"
    by (simp add: win_fail)
  from expires [OF this assms(5)] show ?thesis .
qed

end

interpretation account_attempts: attempt_counter "\<lambda>now l. live now l (login_key u login)"
    "\<lambda>now addr. Failure u now addr login" window for u login
  by unfold_locales (auto simp: Failure_live live_later)

interpretation address_attempts: attempt_counter "\<lambda>now l. live now l (ip_key addr)"
    "\<lambda>now login. Failure u now addr login" window for u addr
  by unfold_locales (auto simp: Failure_live live_later)

lemma fold_Failure_simps:
  "account (fold (\<lambda>(t, a). Failure u t a login) es l) = account l"
  "address (fold (\<lambda>(t, a). Failure u t a login) es l) = address l"
  "account (fold (\<lambda>(t, x). Failure u t addr x) es l) = account l"
  "address (fold (\<lambda>(t, x). Failure u t addr x) es l) = address l"
  by (induction es arbitrary: l) auto

section \<open>Properties\<close>

text \<open>
  C31: the account lock-out. From the first failure of an account with nothing counted, and any
  further failures of it within the window, from any addresses: while the window lasts a login is
  allowed exactly when fewer failures than the account limit were recorded, and from the end of the
  window on the account no longer counts; in both cases the address must be below its own limit.
  Later failures never extend the window.
\<close>

theorem account_lockout:
  assumes "0 < window l" "0 < account l" "live t0 l (login_key u login) = None"
    and "sorted (t0 # map fst es)" "\<forall>t \<in> set (map fst es). t < t0 + window l"
    and "last (t0 # map fst es) \<le> now"
    and l': "l' = fold (\<lambda>(t, a). Failure u t a login) ((t0, a0) # es) l"
  shows "fst (Allowed u now addr login l') \<longleftrightarrow>
           (t0 + window l \<le> now \<or> 1 + int (length es) < account l) \<and>
           counted (live now l' (ip_key addr)) < address l"
proof -
  have "live now l' (login_key u login) =
      (if now < t0 + window l then Some (1 + int (length es), t0 + window l) else None)"
    unfolding l' using assms(1,3-6) by (rule account_attempts.window_count)
  then show ?thesis
    using assms(2) by (auto simp: Allowed_spec counted_def l' fold_Failure_simps)
qed

theorem account_lockout_witness:
  "\<not> fst (Allowed (\<lambda>r. r) 8 ''203.0.113.9'' ''root''
        (fold (\<lambda>(t, a). Failure (\<lambda>r. r) t a ''root'')
           ((0, ''198.51.100.1'') # map (\<lambda>t. (t, ''198.51.100.1'')) [1, 2, 3, 4, 5, 6, 7]) NewLoginLimiter))"
proof -
  have w: "0 < window NewLoginLimiter" "0 < account NewLoginLimiter"
      "live 0 NewLoginLimiter (login_key (\<lambda>r. r) ''root'') = None" "account NewLoginLimiter = 8"
      "0 + window NewLoginLimiter = 300000000000"
    by (simp_all add: NewLoginLimiter_def live_def)
  have "sorted (0 # map fst (map (\<lambda>t::int. (t, ''198.51.100.1'')) [1, 2, 3, 4, 5, 6, 7]))"
      "\<forall>t \<in> set (map fst (map (\<lambda>t::int. (t, ''198.51.100.1'')) [1, 2, 3, 4, 5, 6, 7])).
         t < 0 + window NewLoginLimiter"
      "last (0 # map fst (map (\<lambda>t::int. (t, ''198.51.100.1'')) [1, 2, 3, 4, 5, 6, 7])) \<le> (8::int)"
    by (simp_all add: w NewLoginLimiter_def)
  from account_lockout [OF w(1,2,3) this refl, of "''203.0.113.9''" "''198.51.100.1''"] show ?thesis
    by (simp only: w) simp
qed

text \<open>
  The address limit is separate. The same for the failures recorded from one address for any
  accounts: within the window the address may try again exactly while it has fewer failures than the
  address limit, whatever account it tries, provided that account is below its own limit. A success
  clears the account's failures and leaves the address's.
\<close>

theorem address_lockout:
  assumes "0 < window l" "0 < address l" "0 < account l" "live t0 l (ip_key addr) = None"
    and "sorted (t0 # map fst es)" "\<forall>t \<in> set (map fst es). t < t0 + window l"
    and "last (t0 # map fst es) \<le> now"
    and l': "l' = fold (\<lambda>(t, x). Failure u t addr x) ((t0, x0) # es) l"
  shows "fst (Allowed u now addr login (Success u login l')) \<longleftrightarrow>
           t0 + window l \<le> now \<or> 1 + int (length es) < address l"
proof -
  have "live now l' (ip_key addr) =
      (if now < t0 + window l then Some (1 + int (length es), t0 + window l) else None)"
    unfolding l' using assms(1,4-7) by (rule address_attempts.window_count)
  moreover have "address l' = address l" "account l' = account l"
    unfolding l' by (rule fold_Failure_simps)+
  ultimately show ?thesis
    using assms(2,3)
    by (auto simp: Allowed_spec counted_def Success_live) (auto simp: Success_def)
qed

theorem address_lockout_witness:
  "fst (Allowed (\<lambda>r. r) 2 ''198.51.100.1'' ''root'' (Success (\<lambda>r. r) ''root''
        (fold (\<lambda>(t, login). Failure (\<lambda>r. r) t ''198.51.100.1'' login) [(0, ''root''), (1, ''alice'')]
           NewLoginLimiter)))"
proof -
  have w: "0 < window NewLoginLimiter" "0 < address NewLoginLimiter" "0 < account NewLoginLimiter"
      "live 0 NewLoginLimiter (ip_key ''198.51.100.1'') = None" "address NewLoginLimiter = 30"
    by (simp_all add: NewLoginLimiter_def live_def)
  from address_lockout [OF w(1-4) _ _ _ refl, of "[(1, ''alice'')]" 2 "\<lambda>r. r" "''root''" "''root''"] show ?thesis
    by (simp add: w(5)) (simp add: NewLoginLimiter_def)
qed

end
