(* ===== verification/Go_Crypto.thy ===== *)
theory Go_Crypto
  imports Go_Prelude
begin

text \<open>
  The parts of Go's standard library that the second factor rests on: \<^verbatim>\<open>crypto/sha1\<close> and
  \<^verbatim>\<open>crypto/hmac\<close> on bytes, \<^verbatim>\<open>crypto/sha256\<close> for checksums, and the big-endian byte order of \<^verbatim>\<open>encoding/binary\<close>. A \<^verbatim>\<open>uint32\<close> is an integer
  in \<open>{0..<2^32}\<close> with the wrap-around of \<open>+\<close>, \<open>\<lless>\<close> and \<open>^\<close> written out by \<open>take_bit 32\<close>; in this form
  the kernel evaluates the published test vectors of these functions.
\<close>

unbundle bit_operations_syntax

section \<open>Big-endian byte order\<close>

type_synonym uint32 = int
type_synonym uint64 = int

definition be_byte :: "int \<Rightarrow> nat \<Rightarrow> char" where
  "be_byte w i = char_of (drop_bit (8 * i) w AND 255)"

text \<open>\<^verbatim>\<open>binary.BigEndian.PutUint32\<close> and \<^verbatim>\<open>PutUint64\<close>.\<close>

definition put_uint32 :: "uint32 \<Rightarrow> bytes" where
  "put_uint32 w = map (be_byte w) [3, 2, 1, 0]"

definition put_uint64 :: "uint64 \<Rightarrow> bytes" where
  "put_uint64 w = map (be_byte w) [7, 6, 5, 4, 3, 2, 1, 0]"

fun words_be :: "bytes \<Rightarrow> uint32 list" where
  "words_be (a # b # c # d # s) =
     (((of_char a * 256 + of_char b) * 256 + of_char c) * 256 + of_char d) # words_be s"
| "words_be _ = []"

lemma length_put_uint32 [simp]: "length (put_uint32 w) = 4"
  by (simp add: put_uint32_def)

lemma length_put_uint64 [simp]: "length (put_uint64 w) = 8"
  by (simp add: put_uint64_def)

section \<open>SHA-1\<close>

definition add32 :: "uint32 \<Rightarrow> uint32 \<Rightarrow> uint32" where
  "add32 a b = take_bit 32 (a + b)"

definition not32 :: "uint32 \<Rightarrow> uint32" where
  "not32 a = 0xFFFFFFFF XOR a"

definition rotl :: "nat \<Rightarrow> uint32 \<Rightarrow> uint32" where
  "rotl n w = take_bit 32 (push_bit n w) OR drop_bit (32 - n) w"

text \<open>The message schedule, the latest word first.\<close>

primrec sha1_schedule :: "nat \<Rightarrow> uint32 list \<Rightarrow> uint32 list" where
  "sha1_schedule 0 ws = ws"
| "sha1_schedule (Suc n) ws =
     sha1_schedule n (rotl 1 (ws ! 2 XOR ws ! 7 XOR ws ! 13 XOR ws ! 15) # ws)"

type_synonym sha1_state = "uint32 \<times> uint32 \<times> uint32 \<times> uint32 \<times> uint32"

definition sha1_mix :: "nat \<Rightarrow> uint32 \<Rightarrow> uint32 \<Rightarrow> uint32 \<Rightarrow> uint32" where
  "sha1_mix t b c d =
     (if t < 20 then (b AND c) OR (not32 b AND d)
      else if t < 40 then b XOR c XOR d
      else if t < 60 then (b AND c) OR (b AND d) OR (c AND d)
      else b XOR c XOR d)"

definition sha1_const :: "nat \<Rightarrow> uint32" where
  "sha1_const t =
     (if t < 20 then 0x5A827999 else if t < 40 then 0x6ED9EBA1
      else if t < 60 then 0x8F1BBCDC else 0xCA62C1D6)"

fun sha1_round :: "nat \<times> uint32 \<Rightarrow> sha1_state \<Rightarrow> sha1_state" where
  "sha1_round (t, w) (a, b, c, d, e) =
     (add32 (rotl 5 a) (add32 (sha1_mix t b c d) (add32 e (add32 w (sha1_const t)))), a, rotl 30 b, c, d)"

definition sha1_block :: "uint32 list \<Rightarrow> sha1_state \<Rightarrow> sha1_state" where
  "sha1_block ws h =
     (case (h, fold sha1_round (zip [0..<80] (rev (sha1_schedule 64 (rev ws)))) h) of
        ((a, b, c, d, e), (a', b', c', d', e')) \<Rightarrow> (add32 a a', add32 b b', add32 c c', add32 d d', add32 e e'))"

function sha1_blocks :: "uint32 list \<Rightarrow> sha1_state \<Rightarrow> sha1_state" where
  "sha1_blocks ws h = (if ws = [] then h else sha1_blocks (drop 16 ws) (sha1_block (take 16 ws) h))"
  by pat_completeness auto
termination by (relation "measure (length \<circ> fst)") auto

declare sha1_blocks.simps [simp del]

definition sha1_pad :: "bytes \<Rightarrow> bytes" where
  "sha1_pad m =
     m @ CHR 0x80 # replicate ((119 - length m mod 64) mod 64) (CHR 0x00) @
     put_uint64 (take_bit 64 (8 * int (length m)))"

definition sha1_init :: sha1_state where
  "sha1_init = (0x67452301, 0xEFCDAB89, 0x98BADCFE, 0x10325476, 0xC3D2E1F0)"

definition sha1 :: "bytes \<Rightarrow> bytes" where
  "sha1 m =
     (case sha1_blocks (words_be (sha1_pad m)) sha1_init of
        (a, b, c, d, e) \<Rightarrow> concat (map put_uint32 [a, b, c, d, e]))"

lemma length_sha1 [simp]: "length (sha1 m) = 20"
  by (simp add: sha1_def split: prod.splits)

lemma sha1_pad_blocks: "length (sha1_pad m) mod 64 = 0"
proof -
  have "(r + 1 + (119 - r) mod 64 + 8) mod 64 = 0" if "r < 64" for r :: nat
    using that by (cases "r < 56") (auto simp: mod_if)
  from this [of "length m mod 64"] have "(length m mod 64 + (9 + (119 - length m mod 64) mod 64)) mod 64 = 0"
    by (simp add: ac_simps)
  then show ?thesis
    by (simp add: sha1_pad_def) (metis mod_add_left_eq)
qed

section \<open>HMAC\<close>

definition hmac_key :: "bytes \<Rightarrow> bytes" where
  "hmac_key key =
     (let k = (if 64 < length key then sha1 key else key) in k @ replicate (64 - length k) (CHR 0x00))"

definition xor_byte :: "int \<Rightarrow> char \<Rightarrow> char" where
  "xor_byte b c = char_of (of_char c XOR b)"

definition hmac_sha1 :: "bytes \<Rightarrow> bytes \<Rightarrow> bytes" where
  "hmac_sha1 key m =
     sha1 (map (xor_byte 0x5C) (hmac_key key) @ sha1 (map (xor_byte 0x36) (hmac_key key) @ m))"

lemma length_hmac_sha1 [simp]: "length (hmac_sha1 key m) = 20"
  by (simp add: hmac_sha1_def)

lemma length_hmac_key: "length (hmac_key key) = 64"
  by (simp add: hmac_key_def Let_def)

section \<open>SHA-256\<close>

definition rotr :: "nat \<Rightarrow> uint32 \<Rightarrow> uint32" where
  "rotr n w = drop_bit n w OR take_bit 32 (push_bit (32 - n) w)"

definition sha256_const :: "uint32 list" where
  "sha256_const =
     [0x428A2F98, 0x71374491, 0xB5C0FBCF, 0xE9B5DBA5, 0x3956C25B, 0x59F111F1, 0x923F82A4, 0xAB1C5ED5,
      0xD807AA98, 0x12835B01, 0x243185BE, 0x550C7DC3, 0x72BE5D74, 0x80DEB1FE, 0x9BDC06A7, 0xC19BF174,
      0xE49B69C1, 0xEFBE4786, 0x0FC19DC6, 0x240CA1CC, 0x2DE92C6F, 0x4A7484AA, 0x5CB0A9DC, 0x76F988DA,
      0x983E5152, 0xA831C66D, 0xB00327C8, 0xBF597FC7, 0xC6E00BF3, 0xD5A79147, 0x06CA6351, 0x14292967,
      0x27B70A85, 0x2E1B2138, 0x4D2C6DFC, 0x53380D13, 0x650A7354, 0x766A0ABB, 0x81C2C92E, 0x92722C85,
      0xA2BFE8A1, 0xA81A664B, 0xC24B8B70, 0xC76C51A3, 0xD192E819, 0xD6990624, 0xF40E3585, 0x106AA070,
      0x19A4C116, 0x1E376C08, 0x2748774C, 0x34B0BCB5, 0x391C0CB3, 0x4ED8AA4A, 0x5B9CCA4F, 0x682E6FF3,
      0x748F82EE, 0x78A5636F, 0x84C87814, 0x8CC70208, 0x90BEFFFA, 0xA4506CEB, 0xBEF9A3F7, 0xC67178F2]"

definition sigma0 :: "uint32 \<Rightarrow> uint32" where
  "sigma0 w = rotr 7 w XOR rotr 18 w XOR drop_bit 3 w"

definition sigma1 :: "uint32 \<Rightarrow> uint32" where
  "sigma1 w = rotr 17 w XOR rotr 19 w XOR drop_bit 10 w"

primrec sha256_schedule :: "nat \<Rightarrow> uint32 list \<Rightarrow> uint32 list" where
  "sha256_schedule 0 ws = ws"
| "sha256_schedule (Suc n) ws =
     sha256_schedule n
       (add32 (add32 (sigma1 (ws ! 1)) (ws ! 6)) (add32 (sigma0 (ws ! 14)) (ws ! 15)) # ws)"

definition sha256_next :: "uint32 list \<Rightarrow> uint32 \<Rightarrow> uint32 \<Rightarrow> uint32 list" where
  "sha256_next s t1 t2 =
     (case s of
        [a, b, c, d, e, f, g, h] \<Rightarrow> [add32 t1 t2, a, b, c, add32 d t1, e, f, g]
      | _ \<Rightarrow> s)"

fun sha256_round :: "uint32 \<times> uint32 \<Rightarrow> uint32 list \<Rightarrow> uint32 list" where
  "sha256_round (k, w) [a, b, c, d, e, f, g, h] =
     sha256_next [a, b, c, d, e, f, g, h]
       (add32 (add32 h (rotr 6 e XOR rotr 11 e XOR rotr 25 e))
          (add32 ((e AND f) XOR (not32 e AND g)) (add32 k w)))
       (add32 (rotr 2 a XOR rotr 13 a XOR rotr 22 a) ((a AND b) XOR (a AND c) XOR (b AND c)))"
| "sha256_round _ s = s"

definition sha256_block :: "uint32 list \<Rightarrow> uint32 list \<Rightarrow> uint32 list" where
  "sha256_block ws h = map2 add32 h (fold sha256_round (zip sha256_const (rev (sha256_schedule 48 (rev ws)))) h)"

function sha256_blocks :: "uint32 list \<Rightarrow> uint32 list \<Rightarrow> uint32 list" where
  "sha256_blocks ws h = (if ws = [] then h else sha256_blocks (drop 16 ws) (sha256_block (take 16 ws) h))"
  by pat_completeness auto
termination by (relation "measure (length \<circ> fst)") auto

declare sha256_blocks.simps [simp del]

definition sha256_init :: "uint32 list" where
  "sha256_init =
     [0x6A09E667, 0xBB67AE85, 0x3C6EF372, 0xA54FF53A, 0x510E527F, 0x9B05688C, 0x1F83D9AB, 0x5BE0CD19]"

text \<open>The padding is the one of SHA-1.\<close>

definition sha256 :: "bytes \<Rightarrow> bytes" where
  "sha256 m = concat (map put_uint32 (sha256_blocks (words_be (sha1_pad m)) sha256_init))"

text \<open>\<^verbatim>\<open>hex.EncodeToString\<close>.\<close>

definition hex_lower :: "int \<Rightarrow> char" where
  "hex_lower d = char_of (if d < 10 then 48 + d else 87 + d)"

definition hex_encode :: "bytes \<Rightarrow> string" where
  "hex_encode bs = concat (map (\<lambda>c. [hex_lower (of_char c div 16), hex_lower (of_char c mod 16)]) bs)"

section \<open>Test vectors\<close>

text \<open>The digests of \<open>abc\<close> (FIPS 180) and the second HMAC-SHA-1 test case of RFC 2202.\<close>

lemma sha1_abc:
  "map of_char (sha1 ''abc'') =
     [0xa9, 0x99, 0x3e, 0x36, 0x47, 0x06, 0x81, 0x6a, 0xba, 0x3e,
      0x25, 0x71, 0x78, 0x50, 0xc2, 0x6c, 0x9c, 0xd0, 0xd8, 0x9d :: int]"
  by code_simp

lemma hmac_sha1_jefe:
  "map of_char (hmac_sha1 ''Jefe'' ''what do ya want for nothing?'') =
     [0xef, 0xfc, 0xdf, 0x6a, 0xe5, 0xeb, 0x2f, 0xa2, 0xd2, 0x74,
      0x16, 0xd5, 0xf1, 0x84, 0xdf, 0x9c, 0x25, 0x9a, 0x7c, 0x79 :: int]"
  by code_simp

lemma sha256_abc:
  "hex_encode (sha256 ''abc'') = ''ba7816bf8f01cfea414140de5dae2223b00361a396177a9cb410ff61f20015ad''"
  by code_simp

end
