(* ===== verification/Webauth_Totp.thy ===== *)
theory Webauth_Totp
  imports Go_Base_Encoding Go_Crypto
begin

text \<open>
  The second factor (\<^verbatim>\<open>internal/webauth/totp.go\<close>, \<^verbatim>\<open>enrollment.go\<close>): time-based one-time codes over
  HMAC-SHA-1, the generation of the secret and the provisioning URI of the QR code. \<open>u\<close> is
  \<^verbatim>\<open>unicode.ToUpper\<close>, \<open>now\<close> the Unix time in seconds, the random bytes an argument.
\<close>

unbundle bit_operations_syntax

section \<open>Codes\<close>

definition totp_digest :: "bytes \<Rightarrow> uint64 \<Rightarrow> bytes" where
  "totp_digest key counter = hmac_sha1 key (put_uint64 counter)"

text \<open>The dynamic truncation of RFC 4226: four bytes at an offset given by the last byte.\<close>

definition totp_offset :: "bytes \<Rightarrow> nat" where
  "totp_offset dig = nat (of_char (dig ! (length dig - 1)) AND 0x0F)"

definition totp_number :: "bytes \<Rightarrow> uint32" where
  "totp_number dig =
     (let offset = totp_offset dig in
      push_bit 24 (of_char (dig ! offset) AND 0x7F) OR push_bit 16 (of_char (dig ! (offset + 1))) OR
      push_bit 8 (of_char (dig ! (offset + 2))) OR of_char (dig ! (offset + 3)))"

definition totpCode :: "bytes \<Rightarrow> uint64 \<Rightarrow> string" where
  "totpCode key counter =
     (let number = totp_number (totp_digest key counter) mod 1000000 in
      map (\<lambda>d. char_of (d + 48))
        [number div 100000, number div 10000 mod 10, number div 1000 mod 10, number div 100 mod 10,
         number div 10 mod 10, number mod 10])"

definition decodeTOTPSecret :: "(nat \<Rightarrow> nat) \<Rightarrow> string \<Rightarrow> bytes option" where
  "decodeTOTPSecret u secret =
     (let secret = to_upper u (concat (fields secret)) in
      if secret = '''' \<or> length secret > 256 then None else base32_decode secret)"

text \<open>The quotient of Go's integer division, truncated towards zero.\<close>

definition go_div :: "int \<Rightarrow> int \<Rightarrow> int" where
  "go_div a b = sgn a * sgn b * (\<bar>a\<bar> div \<bar>b\<bar>)"

definition totp_counter :: "int \<Rightarrow> int \<Rightarrow> uint64" where
  "totp_counter now offset = take_bit 64 (go_div now 30 + offset)"

definition Verify :: "(nat \<Rightarrow> nat) \<Rightarrow> int \<Rightarrow> string \<Rightarrow> string \<Rightarrow> bool" where
  "Verify u now secret code =
     (let code = concat (fields code) in
      if length code \<noteq> 6 then False
      else if \<not> list_all (\<lambda>(r, w). 48 \<le> r \<and> r \<le> 57) (runes code) then False
      else case decodeTOTPSecret u secret of
             None \<Rightarrow> False
           | Some key \<Rightarrow> list_ex (\<lambda>offset. totpCode key (totp_counter now offset) = code) [-1, 0, 1])"

section \<open>Enrollment\<close>

text \<open>\<open>None\<close> stands for a failing random source.\<close>

definition GenerateTOTPSecret :: "bytes option \<Rightarrow> string option" where
  "GenerateTOTPSecret rnd = map_option base32_encode rnd"

definition hex_digit :: "nat \<Rightarrow> char" where
  "hex_digit d = char_of (if d < 10 then 48 + d else 55 + d)"

definition percent :: "char \<Rightarrow> string" where
  "percent c = [CHR ''%'', hex_digit (byte_val c div 16), hex_digit (byte_val c mod 16)]"

definition unreserved :: "char \<Rightarrow> bool" where
  "unreserved c \<longleftrightarrow> is_alnum c \<or> c \<in> set ''-_.~''"

text \<open>\<^verbatim>\<open>url.PathEscape\<close> and \<^verbatim>\<open>url.QueryEscape\<close>.\<close>

definition path_escape :: "string \<Rightarrow> string" where
  "path_escape s = concat (map (\<lambda>c. if unreserved c \<or> c \<in> set ''$&+:=@'' then [c] else percent c) s)"

definition query_escape :: "string \<Rightarrow> string" where
  "query_escape s =
     concat (map (\<lambda>c. if unreserved c then [c] else if c = CHR '' '' then ''+'' else percent c) s)"

text \<open>\<^verbatim>\<open>url.Values.Encode\<close> sorts the keys; the literal of the source has five distinct ones.\<close>

definition TOTPProvisioningURI :: "(nat \<Rightarrow> nat) \<Rightarrow> string \<Rightarrow> string \<Rightarrow> string option" where
  "TOTPProvisioningURI u login secret =
     (case decodeTOTPSecret u secret of
        None \<Rightarrow> None
      | Some _ \<Rightarrow>
          Some (''otpauth://totp/'' @ path_escape (''AegisAdmin:'' @ trim_space login) @ ''?'' @
                ''algorithm=SHA1&digits=6&issuer=AegisAdmin&period=30&secret='' @ query_escape secret))"

section \<open>The truncation\<close>

lemma totp_offset_bound: "totp_offset dig \<le> 15"
proof -
  have "(of_char (dig ! (length dig - 1)) AND 0x0F :: int) \<le> 15" by (rule AND_upper2) simp
  then show ?thesis unfolding totp_offset_def by linarith
qed

lemma of_char_int_bounds: "0 \<le> (of_char c :: int)" "(of_char c :: int) < 256"
proof -
  have "(of_char c :: int) = int (byte_val c)" by (simp only: of_nat_of_char)
  moreover have "byte_val c < 256" by (rule nat_of_char_less_256)
  ultimately show "0 \<le> (of_char c :: int)" "(of_char c :: int) < 256" by linarith+
qed

lemma or_push_byte: "push_bit 8 a OR of_char c = a * 256 + (of_char c :: int)"
proof -
  have "(of_char c :: int) = take_bit 8 (of_char c)"
    using of_char_int_bounds [of c] by (simp add: take_bit_int_eq_self)
  then have "bit (of_char c :: int) n \<Longrightarrow> n < 8" for n
    by (metis bit_take_bit_iff)
  then have "push_bit 8 a + (of_char c :: int) = push_bit 8 a OR of_char c"
    by (intro disjunctive_add) (auto simp: bit_push_bit_iff not_le)
  then show ?thesis by (simp add: push_bit_eq_mult)
qed

text \<open>The number is the big-endian reading of the four bytes, without the top bit.\<close>

definition truncated :: "bytes \<Rightarrow> int" where
  "truncated dig =
     fold (\<lambda>c n. n * 256 + of_char c) (take 4 (drop (totp_offset dig) dig)) 0 mod 2 ^ 31"

lemma take_4_drop:
  "i + 3 < length xs \<Longrightarrow> take 4 (drop i xs) = [xs ! i, xs ! (i + 1), xs ! (i + 2), xs ! (i + 3)]"
  by (rule nth_equalityI) (auto simp: less_Suc_eq numeral_eq_Suc nth_Cons split: nat.splits)

lemma totp_number_truncated:
  assumes "length dig = 20"
  shows "totp_number dig = truncated dig" "0 \<le> totp_number dig"
proof -
  define i where "i = totp_offset dig"
  let ?b = "\<lambda>k. of_char (dig ! (i + k)) :: int"
  have i: "i + 3 < length dig" using totp_offset_bound [of dig] assms by (simp add: i_def)
  have "totp_number dig = push_bit 8 (push_bit 8 (push_bit 8 (?b 0 AND 0x7F) OR ?b 1) OR ?b 2) OR ?b 3"
    by (simp add: totp_number_def Let_def i_def push_bit_or or.assoc del: push_bit_numeral)
  also have "\<dots> = ((?b 0 mod 128 * 256 + ?b 1) * 256 + ?b 2) * 256 + ?b 3"
  proof -
    have "?b 0 AND 0x7F = ?b 0 mod 128"
      using take_bit_eq_mask [of 7 "?b 0"] by (simp add: take_bit_eq_mod mask_eq_exp_minus_1)
    then show ?thesis by (simp only: or_push_byte)
  qed
  finally have n: "totp_number dig = ((?b 0 mod 128 * 256 + ?b 1) * 256 + ?b 2) * 256 + ?b 3" .
  have b: "0 \<le> ?b k" "?b k < 256" for k by (rule of_char_int_bounds)+
  let ?n = "((?b 0 mod 128 * 256 + ?b 1) * 256 + ?b 2) * 256 + ?b 3"
  have m: "0 \<le> ?b 0 mod 128" "?b 0 mod 128 < 128" by simp_all
  from m b [of 1] b [of 2] b [of 3] have r: "0 \<le> ?n" "?n < 2 ^ 31" by simp_all
  have "((x * 256 + y) * 256 + z) * 256 + v = (((x - q * 128) * 256 + y) * 256 + z) * 256 + v + q * 2 ^ 31"
    for x y z v q :: int by simp
  then have "((?b 0 * 256 + ?b 1) * 256 + ?b 2) * 256 + ?b 3 = ?n + (?b 0 div 128) * 2 ^ 31"
    by (simp only: minus_div_mult_eq_mod [symmetric])
  then have "(((?b 0 * 256 + ?b 1) * 256 + ?b 2) * 256 + ?b 3) mod 2 ^ 31 = ?n"
    using r by (simp only: mod_mult_self1 mod_pos_pos_trivial)
  moreover have "truncated dig = (((?b 0 * 256 + ?b 1) * 256 + ?b 2) * 256 + ?b 3) mod 2 ^ 31"
    using take_4_drop [OF i] by (simp add: truncated_def i_def)
  ultimately show "totp_number dig = truncated dig" "0 \<le> totp_number dig" using n r by simp_all
qed

lemma char_of_int: "char_of (int n) = char_of n"
  by (simp add: char_of_def bit_of_nat_iff)

lemma char_of_digit: "0 \<le> d \<Longrightarrow> (char_of (d + 48 :: int)) = digit_char (nat d)"
proof -
  assume "0 \<le> d"
  then have "d + 48 = int (48 + nat d)" by simp
  then show ?thesis by (simp only: char_of_int digit_char_def)
qed

lemma decimal_acc_digits:
  "list_all (\<lambda>d. d < 10) ds \<Longrightarrow> decimal_acc m (map digit_char ds) = Some (fold (\<lambda>d n. 10 * n + d) ds m)"
  by (induction ds arbitrary: m) (auto simp: byte_val_digit_char)

lemma six_digits:
  fixes n :: int
  assumes "n1 * 10 + d0 = n" "n2 * 10 + d1 = n1" "n3 * 10 + d2 = n2" "n4 * 10 + d3 = n3" "d5 * 10 + d4 = n4"
  shows "10 * (10 * (10 * (10 * (10 * d5 + d4) + d3) + d2) + d1) + d0 = n"
  using assms by simp

lemma totpCode_digits: "length (totpCode key counter) = 6" "list_all is_digit (totpCode key counter)"
proof -
  define n where "n = totp_number (totp_digest key counter) mod 1000000"
  have n: "0 \<le> n" "n < 1000000" by (simp_all add: n_def)
  then have "0 \<le> n div 100000" "n div 100000 < 10" by (simp_all add: pos_imp_zdiv_nonneg_iff)
  then show "length (totpCode key counter) = 6" "list_all is_digit (totpCode key counter)"
    by (simp_all add: totpCode_def Let_def n_def [symmetric] char_of_digit)
qed

lemma totpCode_value:
  "parse_decimal (totpCode key counter) = Some (nat (truncated (totp_digest key counter) mod 1000000))"
proof -
  define n where "n = totp_number (totp_digest key counter) mod 1000000"
  have n: "0 \<le> n" "n < 1000000" by (simp_all add: n_def)
  then have d: "0 \<le> n div 100000" "n div 100000 < 10" by (simp_all add: pos_imp_zdiv_nonneg_iff)
  let ?ds = "[n div 100000, n div 10000 mod 10, n div 1000 mod 10, n div 100 mod 10, n div 10 mod 10, n mod 10]"
  have "totpCode key counter = map digit_char (map nat ?ds)"
    using d by (simp add: totpCode_def Let_def n_def [symmetric] char_of_digit)
  moreover have "list_all (\<lambda>d. d < 10) (map nat ?ds)" using d by (simp add: nat_less_iff)
  ultimately have c: "decimal_acc 0 (totpCode key counter) = Some (fold (\<lambda>d n. 10 * n + d) (map nat ?ds) 0)"
    by (simp only: decimal_acc_digits)
  have e: "n div 100 = n div 10 div 10" "n div 1000 = n div 100 div 10"
      "n div 10000 = n div 1000 div 10" "n div 100000 = n div 10000 div 10"
    by (simp_all add: zdiv_zmult2_eq [symmetric])
  note q = div_mult_mod_eq [of n 10] div_mult_mod_eq [of "n div 10" 10] div_mult_mod_eq [of "n div 100" 10]
    div_mult_mod_eq [of "n div 1000" 10] div_mult_mod_eq [of "n div 10000" 10]
  from six_digits [OF q [unfolded e [symmetric]]] d(1)
  have "int (fold (\<lambda>d n. 10 * n + d) (map nat ?ds) 0) = n" by simp
  then have v: "fold (\<lambda>d n. 10 * n + d) (map nat ?ds) 0 = nat n" by (metis nat_int)
  have "totpCode key counter \<noteq> []" using totpCode_digits(1) [of key counter] by auto
  then have "parse_decimal (totpCode key counter) = Some (nat n)"
    by (simp only: parse_decimal_def c v if_False)
  then show ?thesis
    using totp_number_truncated(1) [of "totp_digest key counter"] by (simp add: n_def totp_digest_def)
qed

section \<open>Verification\<close>

lemma is_digit_not_space: "is_digit c \<Longrightarrow> space_width (c # s) = 0"
  by (cases "c # s" rule: space_width.cases)
    (auto simp: is_digit_def in_range_def space1_def space2_def space3_def)

lemma take_word_all:
  "(\<And>t c r. s = t @ c # r \<Longrightarrow> space_width (c # r) = 0) \<Longrightarrow> take_word s = (s, [])"
proof (induction s)
  case (Cons c s)
  have "space_width (c # s) = 0" using Cons.prems [of "[]"] by simp
  moreover have "take_word s = (s, [])"
    using Cons.IH Cons.prems by (metis append_Cons)
  ultimately show ?case by simp
qed simp

lemma fields_no_space:
  assumes "s \<noteq> []" "\<And>t c r. s = t @ c # r \<Longrightarrow> space_width (c # r) = 0"
  shows "fields s = [s]"
proof -
  obtain c r where s: "s = c # r" using assms(1) by (cases s) auto
  then have "space_width s = 0" using assms(2) [of "[]"] by simp
  then have "trim_left s = s" by (rule trim_left_id)
  moreover have "take_word s = (s, [])" using assms(2) by (rule take_word_all)
  moreover have "fields [] = []" by (subst fields.simps) (simp add: trim_left_id)
  ultimately show ?thesis using s by (subst fields.simps) simp
qed

lemma fields_chars:
  assumes "s \<noteq> []" "list_all P s" "\<And>c r. P c \<Longrightarrow> space_width (c # r) = 0"
  shows "fields s = [s]"
proof (rule fields_no_space [OF assms(1)])
  fix t c r assume "s = t @ c # r"
  then show "space_width (c # r) = 0" using assms(2,3) by simp
qed

lemma runes_digits: "list_all is_digit s \<Longrightarrow> list_all (\<lambda>(r, w). 48 \<le> r \<and> r \<le> 57) (runes s)"
proof (induction s)
  case (Cons c s)
  then have "48 \<le> byte_val c \<and> byte_val c \<le> 57" by (simp add: is_digit_def in_range_def)
  moreover from this have "decode_rune (c # s) = (byte_val c, 1)" by (simp add: decode_rune_def)
  ultimately show ?case using Cons by (simp add: runes.simps [of "c # s"])
qed simp

lemma Verify_iff:
  "Verify u now secret code \<longleftrightarrow>
     (\<exists>key. decodeTOTPSecret u secret = Some key \<and>
        (\<exists>offset \<in> {-1, 0, 1}. concat (fields code) = totpCode key (totp_counter now offset)))"
proof
  assume "Verify u now secret code"
  then show "\<exists>key. decodeTOTPSecret u secret = Some key \<and>
      (\<exists>offset \<in> {-1, 0, 1}. concat (fields code) = totpCode key (totp_counter now offset))"
    by (auto simp: Verify_def Let_def split: if_splits option.splits)
next
  assume "\<exists>key. decodeTOTPSecret u secret = Some key \<and>
      (\<exists>offset \<in> {-1, 0, 1}. concat (fields code) = totpCode key (totp_counter now offset))"
  then obtain key offset where k: "decodeTOTPSecret u secret = Some key" "offset \<in> {-1, 0, 1}"
      "concat (fields code) = totpCode key (totp_counter now offset)" by blast
  have "length (concat (fields code)) = 6" "list_all is_digit (concat (fields code))"
    using k(3) totpCode_digits by simp_all
  with k runes_digits show "Verify u now secret code"
    by (auto simp: Verify_def Let_def)
qed

lemma fields_totpCode: "fields (totpCode key counter) = [totpCode key counter]"
proof (rule fields_chars)
  show "totpCode key counter \<noteq> []" using totpCode_digits(1) [of key counter] by auto
qed (rule totpCode_digits is_digit_not_space; assumption)+

section \<open>Secrets\<close>

lemma base32_char_facts:
  assumes "c \<in> set base32_std"
  shows "upper_char c = c" "byte_val c < 128" "space_width (c # r) = 0"
proof -
  have "list_all (\<lambda>c. upper_char c = c \<and> byte_val c < 128 \<and> 48 \<le> byte_val c) base32_std"
    by code_simp
  with assms have "upper_char c = c \<and> byte_val c < 128 \<and> 48 \<le> byte_val c"
    by (auto simp: list_all_iff)
  then show "upper_char c = c" "byte_val c < 128" "space_width (c # r) = 0"
    by (cases "c # r" rule: space_width.cases; auto simp: space1_def space2_def space3_def)+
qed

lemma decodeTOTPSecret_encode:
  assumes "bs \<noteq> []" "length (base32_encode bs) \<le> 256"
  shows "decodeTOTPSecret u (base32_encode bs) = Some bs"
proof -
  let ?s = "base32_encode bs"
  have all: "list_all (\<lambda>c. c \<in> set base32_std) ?s"
    using base32_encode_chars [of bs] by (auto simp: list_all_iff)
  have "?s \<noteq> []" using base32_decode_encode [of bs] base32_decode_encode [of "[]"] assms(1)
    by (metis option.inject quintets.simps(1) base32_encode_def list.map_disc_iff)
  from this all have "fields ?s = [?s]" by (rule fields_chars) (rule base32_char_facts)
  moreover have "to_upper u ?s = ?s"
    using all by (auto simp: to_upper_def is_ascii_def list_all_iff base32_char_facts intro!: map_idI)
  ultimately show ?thesis
    using assms(2) \<open>?s \<noteq> []\<close> base32_decode_encode [of bs] by (simp add: decodeTOTPSecret_def)
qed

lemma base32_encode_length: "length (base32_encode bs) \<le> 2 * length bs"
proof -
  have "length (quintets ns) \<le> 2 * length ns" for ns by (induction ns rule: quintets.induct) auto
  from this [of "map byte_val bs"] show ?thesis by (simp add: base32_encode_def)
qed

lemma query_escape_secret: "query_escape (base32_encode bs) = base32_encode bs"
proof -
  have "list_all unreserved base32_std" by code_simp
  then have "\<forall>c \<in> set (base32_encode bs). unreserved c"
    using base32_encode_chars [of bs] by (auto simp: list_all_iff)
  then have "map (\<lambda>c. if unreserved c then [c] else if c = CHR '' '' then ''+'' else percent c) (base32_encode bs) =
      map (\<lambda>c. [c]) (base32_encode bs)" by simp
  then show ?thesis unfolding query_escape_def by (simp only:) simp
qed

lemma go_div_nonneg: "0 \<le> a \<Longrightarrow> 0 < b \<Longrightarrow> go_div a b = a div b"
  by (cases "a = 0") (simp_all add: go_div_def)

lemma div_30_iff: "(now::int) div 30 = c \<longleftrightarrow> 30 * c \<le> now \<and> now < 30 * c + 30"
  by presburger

section \<open>Properties\<close>

text \<open>
  C32: the codes accepted. At a time from 1970 on, a code is accepted exactly when, white space
  removed, it is the code of the enrolled secret for a period \<open>c\<close> of thirty seconds that is the
  current one, the one before or the one after: no code is accepted earlier than thirty seconds before
  its period or later than thirty seconds after it.
\<close>

theorem totp_accepts_exactly:
  assumes "0 \<le> now"
  shows "Verify u now secret code \<longleftrightarrow>
     (\<exists>key c. decodeTOTPSecret u secret = Some key \<and> 30 * c - 30 \<le> now \<and> now < 30 * c + 60 \<and>
        concat (fields code) = totpCode key (take_bit 64 c))"
proof -
  have "(\<exists>offset \<in> {-1, 0, 1}. x = totpCode key (totp_counter now offset)) \<longleftrightarrow>
      (\<exists>c. 30 * c - 30 \<le> now \<and> now < 30 * c + 60 \<and> x = totpCode key (take_bit 64 c))" (is "?l \<longleftrightarrow> ?r")
    for x key
  proof
    assume ?l
    then obtain d where d: "d \<in> {-1, 0, 1}" "x = totpCode key (totp_counter now d)" by blast
    have "30 * (now div 30 + d) - 30 \<le> now \<and> now < 30 * (now div 30 + d) + 60"
      using d(1) div_30_iff [of now "now div 30"] by auto
    moreover have "x = totpCode key (take_bit 64 (now div 30 + d))"
      using d(2) assms by (simp add: totp_counter_def go_div_nonneg)
    ultimately show ?r by blast
  next
    assume ?r
    then obtain c where c: "30 * c - 30 \<le> now" "now < 30 * c + 60" "x = totpCode key (take_bit 64 c)"
      by blast
    then have "c - now div 30 \<in> {-1, 0, 1}" by auto
    moreover have "x = totpCode key (totp_counter now (c - now div 30))"
      using c(3) assms by (simp add: totp_counter_def go_div_nonneg)
    ultimately show ?l by blast
  qed
  then show ?thesis by (auto simp: Verify_iff)
qed

text \<open>The first vector of RFC 6238, cut to six digits and typed with a space.\<close>

theorem totp_accepts_exactly_witness:
  "Verify (\<lambda>r. r) 59 ''gezd gnbv gy3t qojq GEZD GNBV GY3T QOJQ'' ''287 082''"
proof -
  have "decodeTOTPSecret (\<lambda>r. r) ''gezd gnbv gy3t qojq GEZD GNBV GY3T QOJQ'' = Some ''12345678901234567890''"
    by code_simp
  moreover have "concat (fields ''287 082'') = totpCode ''12345678901234567890'' (take_bit 64 1)"
    by code_simp
  ultimately have "\<exists>key c. decodeTOTPSecret (\<lambda>r. r) ''gezd gnbv gy3t qojq GEZD GNBV GY3T QOJQ'' = Some key \<and>
      30 * c - 30 \<le> 59 \<and> 59 < 30 * c + 60 \<and> concat (fields ''287 082'') = totpCode key (take_bit 64 c)"
    by (intro exI [of _ "''12345678901234567890''"] exI [of _ 1]) simp
  then show ?thesis by (subst totp_accepts_exactly) simp_all
qed

text \<open>
  C33: a code always exists and is the one of RFC 4226: the offset taken from the digest never leads
  outside its twenty bytes, and the six characters are digits that read as the truncated number
  modulo a million.
\<close>

theorem totp_code_wellformed:
  "length (totpCode key counter) = 6 \<and> list_all is_digit (totpCode key counter) \<and>
   parse_decimal (totpCode key counter) = Some (nat (truncated (totp_digest key counter) mod 1000000)) \<and>
   totp_offset (totp_digest key counter) + 3 < length (totp_digest key counter)"
proof -
  have "totp_offset (totp_digest key counter) + 3 < length (totp_digest key counter)"
    using totp_offset_bound [of "totp_digest key counter"] by (simp add: totp_digest_def)
  then show ?thesis using totpCode_digits totpCode_value by simp
qed

lemma enrollment_roundtrip_facts:
  assumes "GenerateTOTPSecret (Some rnd) = Some secret" "length rnd = 20"
    and "\<bar>go_div t 30 - c\<bar> \<le> 1"
  shows "decodeTOTPSecret u secret = Some rnd" "Verify u t secret (totpCode rnd (take_bit 64 c))"
    "\<exists>uri. TOTPProvisioningURI u login secret = Some uri \<and>
       has_prefix uri ''otpauth://totp/AegisAdmin:'' \<and> has_suffix uri (''&secret='' @ secret)"
proof -
  have s: "secret = base32_encode rnd" using assms(1) by (simp add: GenerateTOTPSecret_def)
  have "length secret \<le> 256" using base32_encode_length [of rnd] assms(2) s by simp
  then show d: "decodeTOTPSecret u secret = Some rnd"
    using decodeTOTPSecret_encode assms(2) s by (metis list.size(3) zero_neq_numeral)
  have "c - go_div t 30 \<in> {-1, 0, 1}" using assms(3) by auto
  moreover have "take_bit 64 c = totp_counter t (c - go_div t 30)" by (simp add: totp_counter_def)
  ultimately show "Verify u t secret (totpCode rnd (take_bit 64 c))"
    using d by (auto simp: Verify_iff fields_totpCode)
  have "path_escape (''AegisAdmin:'' @ l) = ''AegisAdmin:'' @ path_escape l" for l
    by (simp add: path_escape_def unreserved_def is_alnum_def is_lower_def is_upper_def in_range_def)
  then show "\<exists>uri. TOTPProvisioningURI u login secret = Some uri \<and>
       has_prefix uri ''otpauth://totp/AegisAdmin:'' \<and> has_suffix uri (''&secret='' @ secret)"
    using d query_escape_secret [of rnd] s
    by (auto simp: TOTPProvisioningURI_def has_suffix_iff
        intro: exI [of _ "''otpauth://totp/AegisAdmin:'' @ path_escape (trim_space login) @
          ''?algorithm=SHA1&digits=6&issuer=AegisAdmin&period=30''"])
qed

text \<open>
  C34: enrollment works with any authenticator. A generated secret decodes to the random bytes it
  came from, it has a provisioning URI, and the code an authenticator computes from those bytes in
  some period is accepted in that period, the one before and the one after.
\<close>

theorem enrollment_roundtrip:
  assumes "GenerateTOTPSecret (Some rnd) = Some secret" "length rnd = 20"
    and "\<bar>go_div t 30 - c\<bar> \<le> 1"
  shows "decodeTOTPSecret u secret = Some rnd \<and> Verify u t secret (totpCode rnd (take_bit 64 c)) \<and>
    (\<exists>uri. TOTPProvisioningURI u login secret = Some uri \<and>
       has_prefix uri ''otpauth://totp/AegisAdmin:'' \<and> has_suffix uri (''&secret='' @ secret))"
  using enrollment_roundtrip_facts [OF assms] by blast

theorem enrollment_roundtrip_witness:
  "Verify (\<lambda>r. r) 1700000000 (base32_encode (replicate 20 (CHR 0x41)))
     (totpCode (replicate 20 (CHR 0x41)) (take_bit 64 56666667))"
  using enrollment_roundtrip [of "replicate 20 (CHR 0x41)" "base32_encode (replicate 20 (CHR 0x41))" 1700000000 56666667 "\<lambda>r. r" "''root''"]
  by (simp add: GenerateTOTPSecret_def go_div_def)

end
