(* ===== verification/Webauth_Password.thy ===== *)
theory Webauth_Password
  imports Go_Base_Encoding
begin

text \<open>
  Password hashes (\<^verbatim>\<open>internal/webauth/password.go\<close>). The key derivation functions are not part of the
  repository: \<open>idkey password salt time memory threads keyLen\<close> stands for \<^verbatim>\<open>argon2.IDKey\<close> and
  \<open>bcrypt hash password\<close> for \<^verbatim>\<open>bcrypt.CompareHashAndPassword\<close> returning nil. The parser of the encoded
  form, with the bounds that keep a stored hash from exhausting the server, is written out.
\<close>

type_synonym idkey = "bytes \<Rightarrow> bytes \<Rightarrow> nat \<Rightarrow> nat \<Rightarrow> nat \<Rightarrow> nat \<Rightarrow> bytes"
type_synonym bcrypt = "bytes \<Rightarrow> bytes \<Rightarrow> bool"

datatype hash_error = NotUTF8 | TooShort | TooLong | NoSalt

datatype argon_error =
    ArgonFormat | ArgonParameters | ArgonParameterValue | ArgonUnsafe | ArgonSalt | ArgonHash

abbreviation maxArgonMemory :: nat where "maxArgonMemory \<equiv> 262144"
abbreviation maxArgonIterations :: nat where "maxArgonIterations \<equiv> 10"
abbreviation maxArgonParallelism :: nat where "maxArgonParallelism \<equiv> 16"
abbreviation passwordMinimumLength :: nat where "passwordMinimumLength \<equiv> 12"
abbreviation passwordMaximumLength :: nat where "passwordMaximumLength \<equiv> 128"

record argonParameters =
  memory :: nat
  iterations :: nat
  parallelism :: nat

section \<open>Hashing\<close>

definition encode_argon :: "argonParameters \<Rightarrow> bytes \<Rightarrow> bytes \<Rightarrow> string" where
  "encode_argon p salt hash =
     ''$argon2id$v=19$m='' @ decimal (memory p) @ '',t='' @ decimal (iterations p) @
     '',p='' @ decimal (parallelism p) @ ''$'' @ base64_encode base64_std salt @ ''$'' @ base64_encode base64_std hash"

text \<open>The salt is the result of reading 16 random bytes; \<open>None\<close> is a failing source.\<close>

definition HashPassword :: "idkey \<Rightarrow> bytes option \<Rightarrow> string \<Rightarrow> hash_error + string" where
  "HashPassword idkey salt password =
     (if \<not> valid_utf8 password then Inl NotUTF8
      else if rune_count password < passwordMinimumLength then Inl TooShort
      else if rune_count password > passwordMaximumLength then Inl TooLong
      else case salt of
             None \<Rightarrow> Inl NoSalt
           | Some salt \<Rightarrow>
               Inr (encode_argon \<lparr>memory = 65536, iterations = 4, parallelism = 1\<rparr> salt
                      (idkey password salt 4 65536 1 32)))"

section \<open>Parsing\<close>

text \<open>\<^verbatim>\<open>strconv.ParseUint(value, 10, 32)\<close>.\<close>

definition parse_uint32 :: "string \<Rightarrow> nat option" where
  "parse_uint32 s =
     (case parse_decimal s of None \<Rightarrow> None | Some n \<Rightarrow> if n < 2 ^ 32 then Some n else None)"

fun parse_items :: "string list \<Rightarrow> (string \<times> nat) list \<Rightarrow> argon_error + (string \<times> nat) list" where
  "parse_items [] values = Inr values"
| "parse_items (item # items) values =
     (case cut_char CHR ''='' item of
        None \<Rightarrow> Inl ArgonParameters
      | Some (key, value) \<Rightarrow>
          if key \<noteq> ''m'' \<and> key \<noteq> ''t'' \<and> key \<noteq> ''p'' then Inl ArgonParameters
          else case parse_uint32 value of
                 None \<Rightarrow> Inl ArgonParameterValue
               | Some n \<Rightarrow> parse_items items (AList.update key n values))"

definition value_of :: "(string \<times> nat) list \<Rightarrow> string \<Rightarrow> nat" where
  "value_of values key = (case map_of values key of None \<Rightarrow> 0 | Some n \<Rightarrow> n)"

definition unsafe_values :: "(string \<times> nat) list \<Rightarrow> bool" where
  "unsafe_values values \<longleftrightarrow>
     length values \<noteq> 3 \<or> value_of values ''m'' < 8 \<or> value_of values ''m'' > maxArgonMemory \<or>
     value_of values ''t'' < 1 \<or> value_of values ''t'' > maxArgonIterations \<or>
     value_of values ''p'' < 1 \<or> value_of values ''p'' > maxArgonParallelism"

definition parseArgon2ID :: "string \<Rightarrow> argon_error + argonParameters \<times> bytes \<times> bytes" where
  "parseArgon2ID encoded =
     (let parts = split_char CHR ''$'' encoded in
      if length parts \<noteq> 6 \<or> parts ! 1 \<noteq> ''argon2id'' \<or> parts ! 2 \<noteq> ''v=19'' then Inl ArgonFormat
      else case parse_items (split_char CHR '','' (parts ! 3)) [] of
             Inl e \<Rightarrow> Inl e
           | Inr values \<Rightarrow>
               if unsafe_values values then Inl ArgonUnsafe
               else case base64_decode True base64_std (parts ! 4) of
                 None \<Rightarrow> Inl ArgonSalt
               | Some salt \<Rightarrow>
                   if length salt < 8 \<or> length salt > 64 then Inl ArgonSalt
                   else case base64_decode True base64_std (parts ! 5) of
                     None \<Rightarrow> Inl ArgonHash
                   | Some hash \<Rightarrow>
                       if length hash < 16 \<or> length hash > 64 then Inl ArgonHash
                       else Inr (\<lparr>memory = value_of values ''m'', iterations = value_of values ''t'',
                                  parallelism = value_of values ''p''\<rparr>, salt, hash))"

section \<open>Verification\<close>

definition verifyArgon2ID :: "idkey \<Rightarrow> string \<Rightarrow> string \<Rightarrow> bool" where
  "verifyArgon2ID idkey password encoded =
     (case parseArgon2ID encoded of
        Inl _ \<Rightarrow> False
      | Inr (p, salt, expected) \<Rightarrow>
          idkey password salt (iterations p) (memory p) (parallelism p) (length expected) = expected)"

definition VerifyPassword :: "idkey \<Rightarrow> bcrypt \<Rightarrow> string \<Rightarrow> string \<Rightarrow> bool" where
  "VerifyPassword idkey bcrypt password encoded =
     (if password = '''' \<or> length password > 1024 \<or> encoded = '''' then False
      else if has_prefix encoded ''$argon2id$'' then verifyArgon2ID idkey password encoded
      else if has_prefix encoded ''$2y$'' \<or> has_prefix encoded ''$2b$'' \<or> has_prefix encoded ''$2a$''
      then bcrypt encoded password
      else False)"

section \<open>Lemmas\<close>

lemma decode_rune_width_le: "snd (decode_rune s) \<le> 4"
  by (auto simp: decode_rune_def split: list.splits)

lemma length_le_runes: "length s \<le> 4 * rune_count s"
  unfolding rune_count_def
proof (induction s rule: runes.induct)
  case (1 s)
  show ?case
  proof (cases "s = []")
    case False
    with 1 have "length s - snd (decode_rune s) \<le> 4 * length (runes (drop (snd (decode_rune s)) s))"
      by simp
    moreover have "length (runes s) = Suc (length (runes (drop (snd (decode_rune s)) s)))"
      using False by (simp add: runes.simps [of s])
    ultimately show ?thesis using decode_rune_width_le [of s] by linarith
  qed simp
qed

lemma HashPassword_length:
  assumes "HashPassword idkey salt pw = Inr enc"
  shows "pw \<noteq> ''''" "length pw \<le> 1024"
proof -
  have r: "12 \<le> rune_count pw" "rune_count pw \<le> 128"
    using assms by (auto simp: HashPassword_def split: if_splits)
  then show "pw \<noteq> ''''" by (auto simp: rune_count_def)
  show "length pw \<le> 1024" using r length_le_runes [of pw] by linarith
qed

lemma cut_char_append: "c \<notin> set a \<Longrightarrow> cut_char c (a @ c # b) = Some (a, b)"
  by (induction a) auto

lemma digits_no_char: "list_all is_digit s \<Longrightarrow> \<not> is_digit c \<Longrightarrow> c \<notin> set s"
  by (auto simp: list_all_iff)

lemma not_digit [simp]: "\<not> is_digit CHR ''$''" "\<not> is_digit CHR '',''" "\<not> is_digit CHR ''=''"
  by (simp_all add: is_digit_def in_range_def)

lemma decimal_no_char [simp]:
  "CHR ''$'' \<notin> set (decimal n)" "CHR '','' \<notin> set (decimal n)" "CHR ''='' \<notin> set (decimal n)"
  by (rule digits_no_char [OF decimal_digits]; simp)+

lemma base64_no_dollar: "CHR ''$'' \<notin> set (base64_encode base64_std bs)"
proof -
  have "list_all (\<lambda>c. c \<noteq> CHR ''$'') base64_std" by code_simp
  moreover have "set (base64_encode base64_std bs) \<subseteq> set base64_std"
    using base64_encode_chars good_base64_std by blast
  ultimately show ?thesis by (auto simp: list_all_iff)
qed

lemma parts_of_encode_argon:
  "split_char CHR ''$'' (encode_argon p salt hash) =
     ['''', ''argon2id'', ''v=19'',
      ''m='' @ decimal (memory p) @ '',t='' @ decimal (iterations p) @ '',p='' @ decimal (parallelism p),
      base64_encode base64_std salt, base64_encode base64_std hash]"
proof -
  let ?ws = "['''', ''argon2id'', ''v=19'',
      ''m='' @ decimal (memory p) @ '',t='' @ decimal (iterations p) @ '',p='' @ decimal (parallelism p),
      base64_encode base64_std salt, base64_encode base64_std hash]"
  have "encode_argon p salt hash = join ''$'' ?ws" by (simp add: encode_argon_def)
  moreover have "split_char CHR ''$'' (join ''$'' ?ws) = ?ws"
    by (rule split_char_join) (simp_all add: base64_no_dollar)
  ultimately show ?thesis by simp
qed

lemma items_of_encode_argon:
  "split_char CHR '','' (''m='' @ decimal m @ '',t='' @ decimal t @ '',p='' @ decimal p) =
     [''m='' @ decimal m, ''t='' @ decimal t, ''p='' @ decimal p]"
  using split_char_join [of "[''m='' @ decimal m, ''t='' @ decimal t, ''p='' @ decimal p]" "CHR '',''"]
  by simp

lemma parse_uint32_decimal: "n < 2 ^ 32 \<Longrightarrow> parse_uint32 (decimal n) = Some n"
  by (simp add: parse_uint32_def)

lemma parseArgon2ID_parts:
  assumes "split_char CHR ''$'' encoded = [x, ''argon2id'', ''v=19'', items, s, h]"
  shows "parseArgon2ID encoded =
     (case parse_items (split_char CHR '','' items) [] of
        Inl e \<Rightarrow> Inl e
      | Inr values \<Rightarrow>
          if unsafe_values values then Inl ArgonUnsafe
          else case base64_decode True base64_std s of
            None \<Rightarrow> Inl ArgonSalt
          | Some salt \<Rightarrow>
              if length salt < 8 \<or> length salt > 64 then Inl ArgonSalt
              else case base64_decode True base64_std h of
                None \<Rightarrow> Inl ArgonHash
              | Some hash \<Rightarrow>
                  if length hash < 16 \<or> length hash > 64 then Inl ArgonHash
                  else Inr (\<lparr>memory = value_of values ''m'', iterations = value_of values ''t'',
                             parallelism = value_of values ''p''\<rparr>, salt, hash))"
proof -
  have n: "[x, ''argon2id'', ''v=19'', items, s, h] ! 4 = s" "[x, ''argon2id'', ''v=19'', items, s, h] ! 5 = h"
    by simp_all
  show ?thesis unfolding parseArgon2ID_def Let_def assms n by simp
qed

definition safe_parameters :: "argonParameters \<Rightarrow> bool" where
  "safe_parameters p \<longleftrightarrow>
     8 \<le> memory p \<and> memory p \<le> maxArgonMemory \<and> 1 \<le> iterations p \<and> iterations p \<le> maxArgonIterations \<and>
     1 \<le> parallelism p \<and> parallelism p \<le> maxArgonParallelism"

lemma parse_encode_argon:
  assumes "safe_parameters p" "8 \<le> length salt" "length salt \<le> 64" "16 \<le> length hash" "length hash \<le> 64"
  shows "parseArgon2ID (encode_argon p salt hash) = Inr (p, salt, hash)"
proof -
  let ?v = "[(''m'', memory p), (''t'', iterations p), (''p'', parallelism p)]"
  have "parse_items [''m='' @ decimal (memory p), ''t='' @ decimal (iterations p),
      ''p='' @ decimal (parallelism p)] [] = Inr ?v"
    using assms(1) by (simp add: safe_parameters_def parse_uint32_decimal)
  moreover have "\<not> unsafe_values ?v"
    using assms(1) by (simp add: unsafe_values_def value_of_def safe_parameters_def)
  moreover have "base64_decode True base64_std (base64_encode base64_std bs) = Some bs" for bs
    using base64_decode_encode good_base64_std by blast
  ultimately show ?thesis
    using assms(2-5)
    by (simp only: parseArgon2ID_parts [OF parts_of_encode_argon] items_of_encode_argon)
      (simp add: value_of_def)
qed

lemma parse_bounds:
  assumes "parseArgon2ID encoded = Inr (p, salt, hash)"
  shows "safe_parameters p" "8 \<le> length salt" "length salt \<le> 64" "16 \<le> length hash" "length hash \<le> 64"
  using assms
  by (auto simp: parseArgon2ID_def Let_def unsafe_values_def safe_parameters_def not_less
      split: if_splits sum.splits option.splits)

lemma has_prefix_encode_argon: "has_prefix (encode_argon p salt hash) ''$argon2id$''"
  by (simp add: encode_argon_def)

section \<open>Properties\<close>

lemma password_roundtrip_facts:
  assumes "HashPassword idkey (Some salt) pw = Inr encoded" "length salt = 16"
    and "\<And>pw salt t m p n. length (idkey pw salt t m p n) = n"
  shows "VerifyPassword idkey bcrypt pw encoded"
    "VerifyPassword idkey bcrypt pw' encoded \<longleftrightarrow>
       pw' \<noteq> '''' \<and> length pw' \<le> 1024 \<and> idkey pw' salt 4 65536 1 32 = idkey pw salt 4 65536 1 32"
    "parseArgon2ID encoded =
       Inr (\<lparr>memory = 65536, iterations = 4, parallelism = 1\<rparr>, salt, idkey pw salt 4 65536 1 32)"
proof -
  let ?p = "\<lparr>memory = 65536, iterations = 4, parallelism = 1\<rparr>"
  have e: "encoded = encode_argon ?p salt (idkey pw salt 4 65536 1 32)"
    using assms(1) by (auto simp: HashPassword_def split: if_splits)
  show parse: "parseArgon2ID encoded = Inr (?p, salt, idkey pw salt 4 65536 1 32)"
    unfolding e by (rule parse_encode_argon) (simp_all add: safe_parameters_def assms(2,3))
  have "has_prefix encoded ''$argon2id$''" unfolding e by (rule has_prefix_encode_argon)
  moreover from this have "encoded \<noteq> ''''" by (cases encoded) auto
  ultimately show iff: "VerifyPassword idkey bcrypt pw' encoded \<longleftrightarrow>
      pw' \<noteq> '''' \<and> length pw' \<le> 1024 \<and> idkey pw' salt 4 65536 1 32 = idkey pw salt 4 65536 1 32" for pw'
    by (auto simp: VerifyPassword_def verifyArgon2ID_def parse assms(3))
  show "VerifyPassword idkey bcrypt pw encoded"
    using HashPassword_length [OF assms(1)] iff by blast
qed

text \<open>
  C35: a hash verifies the password it was made from, and only passwords with the same derived key.
  For a password that \<^verbatim>\<open>HashPassword\<close> accepts and any 16 bytes of salt, with a key derivation that
  returns as many bytes as it is asked for, the stored form parses back to its parameters, salt and
  key, the password is accepted, and any other one of at most 1024 bytes is accepted exactly when its
  derived key is the same.
\<close>

theorem password_roundtrip:
  assumes "HashPassword idkey (Some salt) pw = Inr encoded" "length salt = 16"
    and "\<And>pw salt t m p n. length (idkey pw salt t m p n) = n"
  shows "VerifyPassword idkey bcrypt pw encoded \<and>
    (\<forall>pw'. VerifyPassword idkey bcrypt pw' encoded \<longleftrightarrow>
       pw' \<noteq> '''' \<and> length pw' \<le> 1024 \<and> idkey pw' salt 4 65536 1 32 = idkey pw salt 4 65536 1 32) \<and>
    parseArgon2ID encoded =
      Inr (\<lparr>memory = 65536, iterations = 4, parallelism = 1\<rparr>, salt, idkey pw salt 4 65536 1 32)"
  using password_roundtrip_facts [OF assms] by blast

theorem password_roundtrip_witness:
  "VerifyPassword (\<lambda>pw salt t m p n. replicate n (CHR 0x07)) (\<lambda>h pw. False) ''correct horse''
     (case HashPassword (\<lambda>pw salt t m p n. replicate n (CHR 0x07)) (Some (replicate 16 (CHR 0x01))) ''correct horse''
      of Inr e \<Rightarrow> e | Inl _ \<Rightarrow> '''')"
proof -
  obtain e where e: "HashPassword (\<lambda>pw salt t m p n. replicate n (CHR 0x07))
      (Some (replicate 16 (CHR 0x01))) ''correct horse'' = Inr e"
  proof -
    have "list_all (\<lambda>c. byte_val c < 0x80) ''correct horse''" by simp
    note this [THEN valid_utf8_ascii] this [THEN rune_count_ascii]
    then have "valid_utf8 ''correct horse''" "rune_count ''correct horse'' = 13" by simp_all
    then show ?thesis using that by (simp add: HashPassword_def)
  qed
  from password_roundtrip [OF e] show ?thesis by (simp add: e)
qed

text \<open>
  A stored hash cannot make the server derive a key with parameters beyond the limits. Whatever
  the encoded form, if it is accepted for a password by the argon2id branch, the key was derived with
  at most 256 MiB, ten passes, sixteen lanes and a key of 16 to 64 bytes; every other encoded form is
  rejected before any derivation.
\<close>

theorem argon_parameters_bounded:
  assumes "has_prefix encoded ''$argon2id$''" "VerifyPassword idkey bcrypt pw encoded"
  shows "\<exists>p salt key. parseArgon2ID encoded = Inr (p, salt, key) \<and> safe_parameters p \<and>
           8 \<le> length salt \<and> length salt \<le> 64 \<and> 16 \<le> length key \<and> length key \<le> 64 \<and>
           idkey pw salt (iterations p) (memory p) (parallelism p) (length key) = key"
proof -
  obtain p salt key where p: "parseArgon2ID encoded = Inr (p, salt, key)"
      "idkey pw salt (iterations p) (memory p) (parallelism p) (length key) = key"
    using assms by (auto simp: VerifyPassword_def verifyArgon2ID_def split: if_splits sum.splits)
  with parse_bounds [OF p(1)] show ?thesis by blast
qed

theorem argon_parameters_bounded_witness:
  "\<exists>p salt key. parseArgon2ID (encode_argon \<lparr>memory = 8, iterations = 1, parallelism = 1\<rparr>
       (replicate 8 (CHR 0x00)) (replicate 16 (CHR 0x00))) = Inr (p, salt, key) \<and>
     safe_parameters p \<and> 8 \<le> length salt \<and> length salt \<le> 64 \<and> 16 \<le> length key \<and> length key \<le> 64 \<and>
     replicate (length key) (CHR 0x00) = key"
proof (rule argon_parameters_bounded [where idkey = "\<lambda>pw salt t m p n. replicate n (CHR 0x00)"
      and bcrypt = "\<lambda>h pw. False" and pw = "''x''"])
  let ?e = "encode_argon \<lparr>memory = 8, iterations = 1, parallelism = 1\<rparr>
       (replicate 8 (CHR 0x00)) (replicate 16 (CHR 0x00))"
  show "has_prefix ?e ''$argon2id$''" by (rule has_prefix_encode_argon)
  moreover have "parseArgon2ID ?e = Inr (\<lparr>memory = 8, iterations = 1, parallelism = 1\<rparr>,
      replicate 8 (CHR 0x00), replicate 16 (CHR 0x00))"
    by (rule parse_encode_argon) (simp_all add: safe_parameters_def)
  moreover have "?e \<noteq> ''''" by (simp add: encode_argon_def)
  ultimately show "VerifyPassword (\<lambda>pw salt t m p n. replicate n (CHR 0x00)) (\<lambda>h pw. False) ''x'' ?e"
    by (simp add: VerifyPassword_def verifyArgon2ID_def)
qed

end
