(* ===== verification/Authstore_Schema.thy ===== *)
theory Authstore_Schema
  imports Go_Prelude
begin

text \<open>
  The SQLite database of \<^verbatim>\<open>internal/authstore\<close>: its tables as lists of rows in a record, the statements of
  the store as functions on it. The constraints, unique indexes, foreign keys and triggers are those
  the migrations under \<^verbatim>\<open>database/migrations\<close> create; a statement that violates one fails and leaves the
  database unchanged, and so does a transaction in which one fails.

  A statement can also fail because the driver reports an error (the file is busy, the disk is full):
  the field \<open>available\<close> says whether the database answers during an operation. Timestamps are the text
  of \<^verbatim>\<open>time.RFC3339\<close>, an argument of the operations that write one.
\<close>

section \<open>Errors\<close>

datatype store_error =
    Unavailable          \<comment> \<open>the driver reports an error\<close>
  | Constraint           \<comment> \<open>a constraint, unique index or trigger rejects the statement\<close>
  | NoRows               \<comment> \<open>\<^verbatim>\<open>sql.ErrNoRows\<close>\<close>
  | StateChanged         \<comment> \<open>"account state changed"\<close>
  | OrdinaryUserNotFound
  | InvalidPermission
  | InvalidModule
  | RootNotInitialized
  | ItemNotFound         \<comment> \<open>"item not found or protected"\<close>
  | InvalidDirection
  | InvalidOrder
  | InvalidArgument
  | InvalidStored
  | SecretUnavailable
  | InvalidBackup
  | MigrationError

section \<open>Rows\<close>

text \<open>\<open>user\<close> is the Go structure, what the queries return; \<open>user_row\<close> the whole row.\<close>

record user =
  uID :: int
  Login :: string
  PasswordHash :: string
  Type :: string
  Status :: string
  MustChangePassword :: bool
  AuthVersion :: int
  TwoFactorRequired :: bool
  TOTPSecret :: "string option"
  TOTPEnabledAt :: "string option"

record user_row = user +
  FirstName :: string
  LastName :: string
  Email :: string
  CanView :: bool
  CanAct :: bool
  CanModify :: bool
  CreatedAt_ :: string
  UpdatedAt :: string
  PasswordChangedAt :: string

record category_row =
  cID :: int
  cName :: string
  cPosition :: int

record module_row =
  mID :: int
  mKey :: string
  mName :: string
  mRoute :: string
  mIcon :: string
  mCategory :: int
  mPosition :: int
  mEnabled :: bool
  mEssential :: bool
  mAccessPolicy :: string

record access_row =
  aID :: int
  aUserID :: "int option"
  aLogin :: string
  aEvent :: string
  aSuccess :: bool
  aIPAddress :: string
  aUserAgent :: string
  aOccurredAt :: string

record preference_row =
  pTheme :: string
  pLanguage :: string

record database =
  available :: bool
  users :: "user_row list"
  user_seq :: int
  categories :: "category_row list"
  category_seq :: int
  modules :: "module_row list"
  module_seq :: int
  permissions :: "((int \<times> int) \<times> string) list"
  settings :: "(string \<times> string) list"
  preferences :: "(int \<times> preference_row) list"
  access_log :: "access_row list"
  access_seq :: int
  migrations :: "(string \<times> string) list"

type_synonym 'a result = "(store_error + 'a) \<times> database"

section \<open>SQL text functions\<close>

text \<open>The collating sequence \<^verbatim>\<open>NOCASE\<close> folds the 26 upper case letters of ASCII.\<close>

definition fold_nocase :: "string \<Rightarrow> string" where
  "fold_nocase s = map lower_char s"

definition nocase :: "string \<Rightarrow> string \<Rightarrow> bool" where
  "nocase a b \<longleftrightarrow> fold_nocase a = fold_nocase b"

text \<open>\<^verbatim>\<open>length(X)\<close> counts the characters before the first NUL; \<^verbatim>\<open>trim(X)\<close> removes spaces.\<close>

definition sql_length :: "string \<Rightarrow> nat" where
  "sql_length s = rune_count (takeWhile (\<lambda>c. c \<noteq> CHR 0x00) s)"

definition sql_trim :: "string \<Rightarrow> string" where
  "sql_trim s = rev (dropWhile (\<lambda>c. c = CHR '' '') (rev (dropWhile (\<lambda>c. c = CHR '' '') s)))"

definition between :: "nat \<Rightarrow> nat \<Rightarrow> nat \<Rightarrow> bool" where
  "between lo hi n \<longleftrightarrow> lo \<le> n \<and> n \<le> hi"

section \<open>Constraints\<close>

text \<open>The checks of one row of \<^verbatim>\<open>users\<close>: migrations 001 and 007.\<close>

definition user_check :: "'a user_row_scheme \<Rightarrow> bool" where
  "user_check u \<longleftrightarrow>
     between 3 64 (sql_length (Login u)) \<and>
     (Type u = ''root'' \<or> Type u = ''user'') \<and>
     (Status u = ''active'' \<or> Status u = ''suspended'') \<and>
     1 \<le> AuthVersion u \<and>
     (CanView u \<or> \<not> CanAct u \<and> \<not> CanModify u) \<and>
     (Type u = ''root'' \<longrightarrow> Status u = ''active'' \<and> CanView u \<and> CanAct u \<and> CanModify u)"

definition totp_check :: "'a user_row_scheme \<Rightarrow> bool" where
  "totp_check u \<longleftrightarrow> (TOTPEnabledAt u \<noteq> None \<longrightarrow> TOTPSecret u \<noteq> None)"

text \<open>Two rows that no unique index of \<^verbatim>\<open>users\<close> separates: login, single root, email unless empty.\<close>

definition user_conflict :: "'a user_row_scheme \<Rightarrow> 'b user_row_scheme \<Rightarrow> bool" where
  "user_conflict u v \<longleftrightarrow>
     uID u = uID v \<or> nocase (Login u) (Login v) \<or>
     (Type u = ''root'' \<and> Type v = ''root'') \<or>
     (Email u \<noteq> '''' \<and> Email v \<noteq> '''' \<and> nocase (Email u) (Email v))"

definition category_check :: "category_row \<Rightarrow> bool" where
  "category_check c \<longleftrightarrow> between 2 64 (sql_length (sql_trim (cName c))) \<and> 0 \<le> cPosition c"

definition category_conflict :: "category_row \<Rightarrow> category_row \<Rightarrow> bool" where
  "category_conflict c d \<longleftrightarrow> cID c = cID d \<or> nocase (cName c) (cName d)"

definition module_check :: "module_row \<Rightarrow> bool" where
  "module_check m \<longleftrightarrow>
     between 2 64 (sql_length (mKey m)) \<and> between 2 64 (sql_length (sql_trim (mName m))) \<and>
     2 \<le> sql_length (mRoute m) \<and> has_prefix (mRoute m) ''/'' \<and>
     1 \<le> sql_length (sql_trim (mIcon m)) \<and> 0 \<le> mPosition m \<and>
     (mEssential m \<longrightarrow> mEnabled m) \<and>
     (mAccessPolicy m = ''view'' \<or> mAccessPolicy m = ''root'')"

definition module_conflict :: "module_row \<Rightarrow> module_row \<Rightarrow> bool" where
  "module_conflict m n \<longleftrightarrow> mID m = mID n \<or> nocase (mKey m) (mKey n) \<or> mRoute m = mRoute n"

definition known_level :: "string \<Rightarrow> bool" where
  "known_level l \<longleftrightarrow> l = ''view'' \<or> l = ''action'' \<or> l = ''modify''"

definition known_theme :: "string \<Rightarrow> bool" where
  "known_theme t \<longleftrightarrow> t = ''dark'' \<or> t = ''light'' \<or> t = ''bootstrap'' \<or> t = ''neon''"

definition known_language :: "string \<Rightarrow> bool" where
  "known_language l \<longleftrightarrow> l = ''fr'' \<or> l = ''en''"

definition logged_event :: "string \<Rightarrow> bool" where
  "logged_event e \<longleftrightarrow>
     e \<in> set [''login_success'', ''login_failure'', ''two_factor_success'', ''two_factor_failure'',
              ''logout'', ''password_changed'', ''two_factor_enabled'', ''two_factor_disabled'']"

text \<open>Rows pairwise without conflict; the earlier one is the one in the table.\<close>

definition pairwise_ok :: "('a \<Rightarrow> 'a \<Rightarrow> bool) \<Rightarrow> 'a list \<Rightarrow> bool" where
  "pairwise_ok conflict rows \<longleftrightarrow> sorted_wrt (\<lambda>a b. \<not> conflict a b) rows"

text \<open>
  The invariant of a database that the migrations built and the store changes: every row satisfies
  the checks, every unique index and foreign key holds, identifiers come from the sequences.
\<close>

definition users_ok :: "user_row list \<Rightarrow> int \<Rightarrow> bool" where
  "users_ok us seq \<longleftrightarrow>
     pairwise_ok user_conflict us \<and>
     (\<forall>u \<in> set us. user_check u \<and> totp_check u \<and> 0 < uID u \<and> uID u \<le> seq) \<and> 0 \<le> seq"

definition categories_ok :: "category_row list \<Rightarrow> int \<Rightarrow> bool" where
  "categories_ok cs seq \<longleftrightarrow>
     pairwise_ok category_conflict cs \<and> (\<forall>c \<in> set cs. category_check c \<and> cID c \<le> seq)"

definition modules_ok :: "int set \<Rightarrow> module_row list \<Rightarrow> int \<Rightarrow> bool" where
  "modules_ok cats ms seq \<longleftrightarrow>
     pairwise_ok module_conflict ms \<and>
     (\<forall>m \<in> set ms. module_check m \<and> mID m \<le> seq \<and> mCategory m \<in> cats)"

definition permissions_ok :: "int set \<Rightarrow> int set \<Rightarrow> ((int \<times> int) \<times> string) list \<Rightarrow> bool" where
  "permissions_ok us ms ps \<longleftrightarrow>
     distinct_keys ps \<and> (\<forall>((u, m), l) \<in> set ps. u \<in> us \<and> m \<in> ms \<and> known_level l)"

definition preferences_ok :: "int set \<Rightarrow> (int \<times> preference_row) list \<Rightarrow> bool" where
  "preferences_ok us ps \<longleftrightarrow>
     distinct_keys ps \<and> (\<forall>(u, p) \<in> set ps. u \<in> us \<and> known_theme (pTheme p) \<and> known_language (pLanguage p))"

definition access_ok :: "int set \<Rightarrow> access_row list \<Rightarrow> int \<Rightarrow> bool" where
  "access_ok us as seq \<longleftrightarrow>
     (\<forall>a \<in> set as. aID a \<le> seq \<and> logged_event (aEvent a) \<and>
        (case aUserID a of None \<Rightarrow> True | Some u \<Rightarrow> u \<in> us)) \<and>
     sorted_wrt (\<lambda>a b. aID a < aID b) as"

definition database_ok :: "database \<Rightarrow> bool" where
  "database_ok db \<longleftrightarrow>
     users_ok (users db) (user_seq db) \<and>
     categories_ok (categories db) (category_seq db) \<and>
     modules_ok (cID ` set (categories db)) (modules db) (module_seq db) \<and>
     permissions_ok (uID ` set (users db)) (mID ` set (modules db)) (permissions db) \<and>
     preferences_ok (uID ` set (users db)) (preferences db) \<and>
     access_ok (uID ` set (users db)) (access_log db) (access_seq db) \<and>
     distinct_keys (settings db)"

lemma permissions_ok_mono:
  "permissions_ok us ms ps \<Longrightarrow> us \<subseteq> us' \<Longrightarrow> ms \<subseteq> ms' \<Longrightarrow> permissions_ok us' ms' ps"
  by (fastforce simp: permissions_ok_def)

lemma preferences_ok_mono: "preferences_ok us ps \<Longrightarrow> us \<subseteq> us' \<Longrightarrow> preferences_ok us' ps"
  by (fastforce simp: preferences_ok_def)

lemma access_ok_mono: "access_ok us as seq \<Longrightarrow> us \<subseteq> us' \<Longrightarrow> access_ok us' as seq"
  by (fastforce simp: access_ok_def split: option.splits)

lemma permissions_ok_filter: "permissions_ok us ms ps \<Longrightarrow> permissions_ok us ms (filter P ps)"
  by (auto simp: permissions_ok_def)

section \<open>Tables\<close>

text \<open>An \<^verbatim>\<open>UPDATE\<close> of the rows that satisfy a condition, with the number of rows it changed.\<close>

definition update_rows :: "('a \<Rightarrow> bool) \<Rightarrow> ('a \<Rightarrow> 'a) \<Rightarrow> 'a list \<Rightarrow> 'a list" where
  "update_rows P f rows = map (\<lambda>r. if P r then f r else r) rows"

definition matching :: "('a \<Rightarrow> bool) \<Rightarrow> 'a list \<Rightarrow> nat" where
  "matching P rows = length (filter P rows)"

lemma nocase_refl [simp]: "nocase a a"
  by (simp add: nocase_def)

lemma nocase_sym: "nocase a b \<longleftrightarrow> nocase b a"
  by (auto simp: nocase_def)

lemma nocase_trans: "nocase a b \<Longrightarrow> nocase b c \<Longrightarrow> nocase a c"
  by (simp add: nocase_def)

lemma user_conflict_sym: "user_conflict u v \<longleftrightarrow> user_conflict v u"
  by (auto simp: user_conflict_def nocase_sym)

lemma pairwise_ok_Nil [simp]: "pairwise_ok conf []"
  by (simp add: pairwise_ok_def)

lemma pairwise_ok_append_new:
  "pairwise_ok conf rows \<Longrightarrow> (\<And>r. r \<in> set rows \<Longrightarrow> \<not> conf r x) \<Longrightarrow> pairwise_ok conf (rows @ [x])"
  by (simp add: pairwise_ok_def sorted_wrt_append)

lemma pairwise_ok_filter: "pairwise_ok conf rows \<Longrightarrow> pairwise_ok conf (filter P rows)"
  by (simp add: pairwise_ok_def sorted_wrt_filter)

lemma sorted_wrt_map_cong:
  assumes "sorted_wrt R xs" "\<And>x y. x \<in> set xs \<Longrightarrow> y \<in> set xs \<Longrightarrow> R x y \<Longrightarrow> S (f x) (f y)"
  shows "sorted_wrt S (map f xs)"
  using assms by (induction xs) auto

lemma pairwise_ok_update:
  assumes "pairwise_ok conf rows"
    and "\<And>r s. r \<in> set rows \<Longrightarrow> s \<in> set rows \<Longrightarrow> \<not> conf r s \<Longrightarrow>
          \<not> conf (if P r then f r else r) (if P s then f s else s)"
  shows "pairwise_ok conf (update_rows P f rows)"
  using assms unfolding pairwise_ok_def update_rows_def by (auto intro: sorted_wrt_map_cong)

lemma set_update_rows: "set (update_rows P f rows) = (\<lambda>r. if P r then f r else r) ` set rows"
  by (simp add: update_rows_def)

lemma pairwise_unique:
  assumes "pairwise_ok conf rows" "a \<in> set rows" "b \<in> set rows" "conf a b" "conf b a"
  shows "a = b"
  using assms unfolding pairwise_ok_def by (induction rows) auto

lemma find_SomeD: "find P xs = Some x \<Longrightarrow> x \<in> set xs \<and> P x"
  by (induction xs) (auto split: if_splits)

lemma find_unique:
  assumes "x \<in> set xs" "P x" "\<And>y. y \<in> set xs \<Longrightarrow> P y \<Longrightarrow> y = x"
  shows "find P xs = Some x"
proof (cases "find P xs")
  case None
  then show ?thesis using assms(1,2) by (auto simp: find_None_iff)
next
  case (Some y)
  then show ?thesis using assms(3) [of y] find_SomeD [OF Some] by simp
qed

lemma find_append: "find P (xs @ ys) = (case find P xs of None \<Rightarrow> find P ys | Some x \<Rightarrow> Some x)"
  by (induction xs) auto

lemma find_filter: "find P xs = (case filter P xs of [] \<Rightarrow> None | x # _ \<Rightarrow> Some x)"
  by (induction xs) auto

lemma matching_unique:
  assumes "pairwise_ok conf rows" "\<And>a b. P a \<Longrightarrow> P b \<Longrightarrow> conf a b"
  shows "matching P rows \<le> 1"
  using assms unfolding pairwise_ok_def matching_def
  by (induction rows) (auto simp: filter_empty_conv le_Suc_eq)

lemma matching_find: "matching P rows = 0 \<longleftrightarrow> find P rows = None"
  by (auto simp: matching_def find_None_iff filter_empty_conv)

lemma find_update_rows_other:
  assumes "\<And>r. r \<in> set rows \<Longrightarrow> P r \<Longrightarrow> Q (f r) = Q r"
  shows "find Q (update_rows P f rows) = map_option (\<lambda>r. if P r then f r else r) (find Q rows)"
  using assms by (induction rows) (auto simp: update_rows_def)

lemma ids_update_rows:
  "(\<And>r. key (f r) = key r) \<Longrightarrow> map key (update_rows P f rows) = map key rows"
  by (simp add: update_rows_def)

section \<open>A sample database\<close>

text \<open>Root, one ordinary account with two permissions, two categories and four modules.\<close>

definition sample_row :: user_row where
  "sample_row =
     \<lparr>uID = 1, Login = ''root'', PasswordHash = ''$2y$10$root'', Type = ''root'', Status = ''active'',
      MustChangePassword = False, AuthVersion = 1, TwoFactorRequired = False, TOTPSecret = None, TOTPEnabledAt = None,
      FirstName = ''Root'', LastName = ''Admin'', Email = ''root@example.org'', CanView = True, CanAct = True,
      CanModify = True, CreatedAt_ = '''', UpdatedAt = '''', PasswordChangedAt = ''''\<rparr>"

definition sample_module :: "int \<Rightarrow> string \<Rightarrow> string \<Rightarrow> int \<Rightarrow> int \<Rightarrow> bool \<Rightarrow> string \<Rightarrow> module_row" where
  "sample_module k key route cat pos essential policy =
     \<lparr>mID = k, mKey = key, mName = key, mRoute = route, mIcon = ''*'', mCategory = cat, mPosition = pos,
      mEnabled = True, mEssential = essential, mAccessPolicy = policy\<rparr>"

definition sample_database :: database where
  "sample_database =
     \<lparr>available = True,
      users = [sample_row,
        sample_row\<lparr>uID := 2, Login := ''alice'', PasswordHash := ''$2y$10$alice'', Type := ''user'', Email := ''alice@example.org'',
          AuthVersion := 3, CanAct := False, CanModify := False\<rparr>],
      user_seq = 2,
      categories = [\<lparr>cID = 1, cName = ''Supervision'', cPosition = 0\<rparr>, \<lparr>cID = 2, cName = ''System'', cPosition = 1\<rparr>],
      category_seq = 2,
      modules = [sample_module 1 ''dashboard'' ''/dashboard'' 1 0 True ''view'', sample_module 2 ''logs'' ''/logs'' 1 1 False ''view'',
        sample_module 3 ''users'' ''/users'' 2 0 True ''root'', sample_module 4 ''about'' ''/about'' 2 1 True ''view''],
      module_seq = 4,
      permissions = [((2, 1), ''view''), ((2, 2), ''action'')],
      settings = [], preferences = [], access_log = [], access_seq = 0, migrations = []\<rparr>"

lemma sample_database_ok: "database_ok sample_database"
  by code_simp

end
