(* ===== verification/Authstore_Users.thy ===== *)
theory Authstore_Users
  imports Authstore_Schema
begin

text \<open>
  The accounts of \<^verbatim>\<open>internal/authstore\<close> (\<^verbatim>\<open>store.go\<close>, \<^verbatim>\<open>admin.go\<close>): lookups, the changes an account makes
  to itself (second factor, password), which name the account version they were decided on, and the
  changes the administrator makes, with the module permissions of an account.
\<close>

section \<open>Lookups\<close>

definition scanUser :: "'a user_scheme \<Rightarrow> user" where
  "scanUser r = user.truncate r"

definition findOne :: "(user_row \<Rightarrow> bool) \<Rightarrow> database \<Rightarrow> store_error + user option" where
  "findOne P db =
     (if \<not> available db then Inl Unavailable else Inr (map_option scanUser (find P (users db))))"

definition FindByLogin :: "string \<Rightarrow> database \<Rightarrow> store_error + user option" where
  "FindByLogin login = findOne (\<lambda>r. nocase (Login r) login)"

definition FindRoot :: "database \<Rightarrow> store_error + user option" where
  "FindRoot = findOne (\<lambda>r. Type r = ''root'')"

definition FindByID :: "int \<Rightarrow> database \<Rightarrow> store_error + user option" where
  "FindByID k = findOne (\<lambda>r. uID r = k)"

section \<open>Changes an account makes to itself\<close>

text \<open>\<^verbatim>\<open>UPDATE ... RETURNING\<close> scanned by \<^verbatim>\<open>scanRequiredUser\<close>.\<close>

definition scanRequiredUser :: "(user_row \<Rightarrow> bool) \<Rightarrow> (user_row \<Rightarrow> user_row) \<Rightarrow> database \<Rightarrow> user result" where
  "scanRequiredUser P f db =
     (if \<not> available db then (Inl Unavailable, db)
      else case find P (users db) of
             None \<Rightarrow> (Inl StateChanged, db)
           | Some r \<Rightarrow> (Inr (scanUser (f r)), db\<lparr>users := update_rows P f (users db)\<rparr>))"

definition current :: "int \<Rightarrow> int \<Rightarrow> user_row \<Rightarrow> bool" where
  "current k version r \<longleftrightarrow> uID r = k \<and> Status r = ''active'' \<and> AuthVersion r = version"

definition PrepareTOTP :: "string \<Rightarrow> int \<Rightarrow> int \<Rightarrow> string \<Rightarrow> database \<Rightarrow> user result" where
  "PrepareTOTP now k version secret =
     scanRequiredUser (\<lambda>r. current k version r \<and> TOTPEnabledAt r = None)
       (\<lambda>r. r\<lparr>TOTPSecret := Some (case TOTPSecret r of Some s \<Rightarrow> s | None \<Rightarrow> secret),
              TOTPEnabledAt := None, UpdatedAt := now\<rparr>)"

definition EnableTOTP :: "string \<Rightarrow> int \<Rightarrow> int \<Rightarrow> string \<Rightarrow> database \<Rightarrow> user result" where
  "EnableTOTP now k version secret =
     scanRequiredUser (\<lambda>r. current k version r \<and> TOTPSecret r = Some secret \<and> TOTPEnabledAt r = None)
       (\<lambda>r. r\<lparr>TOTPEnabledAt := Some now, AuthVersion := AuthVersion r + 1, UpdatedAt := now\<rparr>)"

definition DisableTOTP :: "string \<Rightarrow> int \<Rightarrow> int \<Rightarrow> database \<Rightarrow> user result" where
  "DisableTOTP now k version =
     scanRequiredUser (\<lambda>r. current k version r \<and> \<not> TwoFactorRequired r \<and> TOTPEnabledAt r \<noteq> None)
       (\<lambda>r. r\<lparr>TOTPSecret := None, TOTPEnabledAt := None, AuthVersion := AuthVersion r + 1, UpdatedAt := now\<rparr>)"

definition ChangePassword :: "string \<Rightarrow> int \<Rightarrow> int \<Rightarrow> string \<Rightarrow> string \<Rightarrow> database \<Rightarrow> user result" where
  "ChangePassword now k version currentHash newHash =
     scanRequiredUser (\<lambda>r. current k version r \<and> PasswordHash r = currentHash)
       (\<lambda>r. r\<lparr>PasswordHash := newHash, MustChangePassword := False, AuthVersion := AuthVersion r + 1,
              UpdatedAt := now, PasswordChangedAt := now\<rparr>)"

section \<open>Administration of accounts\<close>

record AdminUser =
  adID :: int
  adLogin :: string
  adFirstName :: string
  adLastName :: string
  adEmail :: string
  adType :: string
  adStatus :: string
  adMustChangePassword :: bool
  adTwoFactorRequired :: bool
  adTwoFactorEnabled :: bool
  adAuthVersion :: int

text \<open>\<^verbatim>\<open>ORDER BY type='root' DESC, login COLLATE NOCASE\<close>.\<close>

definition admin_order :: "user_row \<Rightarrow> nat list" where
  "admin_order r = (if Type r = ''root'' then 0 else 1) # map byte_val (fold_nocase (Login r))"

definition admin_of_row :: "user_row \<Rightarrow> AdminUser" where
  "admin_of_row r =
     \<lparr>adID = uID r, adLogin = Login r, adFirstName = FirstName r, adLastName = LastName r, adEmail = Email r,
      adType = Type r, adStatus = Status r, adMustChangePassword = MustChangePassword r,
      adTwoFactorRequired = TwoFactorRequired r, adTwoFactorEnabled = (TOTPEnabledAt r \<noteq> None),
      adAuthVersion = AuthVersion r\<rparr>"

definition AdminUsers :: "database \<Rightarrow> store_error + AdminUser list" where
  "AdminUsers db =
     (if \<not> available db then Inl Unavailable
      else Inr (map admin_of_row (sort_key admin_order (users db))))"

definition ModulePermissions :: "int \<Rightarrow> database \<Rightarrow> store_error + (int \<times> string) list" where
  "ModulePermissions userID db =
     (if \<not> available db then Inl Unavailable
      else Inr (map (\<lambda>((u, m), l). (m, l)) (filter (\<lambda>((u, m), l). u = userID) (permissions db))))"

text \<open>
  The permissions are a Go map; \<open>items\<close> is the order in which the loop meets its entries.
\<close>

fun insert_permissions :: "int \<Rightarrow> (int \<times> string) list \<Rightarrow> database \<Rightarrow> store_error + database" where
  "insert_permissions userID [] db = Inr db"
| "insert_permissions userID ((k, level) # items) db =
     (if level = ''none'' then insert_permissions userID items db
      else if \<not> known_level level then Inl InvalidPermission
      else if find (\<lambda>m. mID m = k \<and> mEnabled m \<and> mAccessPolicy m = ''view'') (modules db) = None
      then Inl InvalidModule
      else if map_of (permissions db) (userID, k) \<noteq> None \<or> userID \<notin> uID ` set (users db)
      then Inl Constraint
      else insert_permissions userID items
             (db\<lparr>permissions := permissions db @ [((userID, k), level)]\<rparr>))"

definition replacePermissions :: "int \<Rightarrow> (int \<times> string) list \<Rightarrow> database \<Rightarrow> store_error + database" where
  "replacePermissions userID items db =
     insert_permissions userID items
       (db\<lparr>permissions := filter (\<lambda>((u, m), l). u \<noteq> userID) (permissions db)\<rparr>)"

definition insert_user :: "user_row \<Rightarrow> database \<Rightarrow> store_error + database" where
  "insert_user r db =
     (if \<not> user_check r \<or> (\<exists>v \<in> set (users db). user_conflict v r) then Inl Constraint
      else Inr (db\<lparr>users := users db @ [r], user_seq := uID r\<rparr>))"

definition new_user :: "string \<Rightarrow> AdminUser \<Rightarrow> string \<Rightarrow> int \<Rightarrow> user_row" where
  "new_user now u hash k =
     \<lparr>uID = k, Login = adLogin u, PasswordHash = hash, Type = ''user'', Status = ''active'',
      MustChangePassword = True, AuthVersion = 1, TwoFactorRequired = adTwoFactorRequired u,
      TOTPSecret = None, TOTPEnabledAt = None,
      FirstName = adFirstName u, LastName = adLastName u, Email = adEmail u,
      CanView = True, CanAct = False, CanModify = False, CreatedAt_ = now, UpdatedAt = now, PasswordChangedAt = now\<rparr>"

definition CreateAdminUser :: "string \<Rightarrow> AdminUser \<Rightarrow> string \<Rightarrow> (int \<times> string) list \<Rightarrow> database \<Rightarrow> int result" where
  "CreateAdminUser now u hash perms db =
     (if \<not> available db then (Inl Unavailable, db)
      else let k = user_seq db + 1 in
           case insert_user (new_user now u hash k) db of
             Inl e \<Rightarrow> (Inl e, db)
           | Inr db1 \<Rightarrow>
               (case replacePermissions k perms db1 of
                  Inl e \<Rightarrow> (Inl e, db)
                | Inr db2 \<Rightarrow> (Inr k, db2)))"

text \<open>
  An \<^verbatim>\<open>UPDATE\<close> of \<^verbatim>\<open>users\<close> that can violate a constraint: the checks and the unique indexes are tested
  for the changed rows.
\<close>

definition update_allowed :: "(user_row \<Rightarrow> bool) \<Rightarrow> (user_row \<Rightarrow> user_row) \<Rightarrow> user_row list \<Rightarrow> bool" where
  "update_allowed P f rows \<longleftrightarrow>
     (\<forall>r \<in> set rows. P r \<longrightarrow> user_check (f r) \<and> totp_check (f r) \<and>
        (\<forall>s \<in> set rows. uID s \<noteq> uID r \<longrightarrow> \<not> user_conflict (f r) s))"

definition update_users :: "(user_row \<Rightarrow> bool) \<Rightarrow> (user_row \<Rightarrow> user_row) \<Rightarrow> database \<Rightarrow> store_error + database" where
  "update_users P f db =
     (if update_allowed P f (users db) then Inr (db\<lparr>users := update_rows P f (users db)\<rparr>) else Inl Constraint)"

definition update_root_row :: "string \<Rightarrow> AdminUser \<Rightarrow> user_row \<Rightarrow> user_row" where
  "update_root_row now u r =
     r\<lparr>FirstName := adFirstName u, LastName := adLastName u, Email := adEmail u, UpdatedAt := now\<rparr>"

definition update_ordinary_row :: "string \<Rightarrow> AdminUser \<Rightarrow> bool \<Rightarrow> user_row \<Rightarrow> user_row" where
  "update_ordinary_row now u resetTOTP r =
     r\<lparr>Login := adLogin u, FirstName := adFirstName u, LastName := adLastName u, Email := adEmail u,
       Status := adStatus u, TwoFactorRequired := adTwoFactorRequired u,
       TOTPSecret := (if resetTOTP then None else TOTPSecret r),
       TOTPEnabledAt := (if resetTOTP then None else TOTPEnabledAt r),
       AuthVersion := AuthVersion r + (if resetTOTP then 1 else 0), UpdatedAt := now\<rparr>"

definition UpdateAdminUser :: "string \<Rightarrow> AdminUser \<Rightarrow> (int \<times> string) list \<Rightarrow> bool \<Rightarrow> database \<Rightarrow> unit result" where
  "UpdateAdminUser now u perms resetTOTP db =
     (if \<not> available db then (Inl Unavailable, db)
      else case find (\<lambda>r. uID r = adID u) (users db) of
             None \<Rightarrow> (Inl NoRows, db)
           | Some r \<Rightarrow>
               if Type r = ''root'' then
                 (case update_users (\<lambda>r. uID r = adID u \<and> Type r = ''root'') (update_root_row now u) db of
                    Inl e \<Rightarrow> (Inl e, db)
                  | Inr db1 \<Rightarrow> (Inr (), db1))
               else
                 (case update_users (\<lambda>r. uID r = adID u \<and> Type r = ''user'')
                         (update_ordinary_row now u resetTOTP) db of
                    Inl e \<Rightarrow> (Inl e, db)
                  | Inr db1 \<Rightarrow>
                      (case replacePermissions (adID u) perms db1 of
                         Inl e \<Rightarrow> (Inl e, db)
                       | Inr db2 \<Rightarrow> (Inr (), db2))))"

definition ResetAdminPassword :: "string \<Rightarrow> int \<Rightarrow> string \<Rightarrow> database \<Rightarrow> unit result" where
  "ResetAdminPassword now k hash db =
     (if \<not> available db then (Inl Unavailable, db)
      else let P = (\<lambda>r. uID r = k \<and> Type r = ''user'');
               db' = db\<lparr>users := update_rows P
                 (\<lambda>r. r\<lparr>PasswordHash := hash, MustChangePassword := True, AuthVersion := AuthVersion r + 1,
                        UpdatedAt := now, PasswordChangedAt := now\<rparr>) (users db)\<rparr>
           in if matching P (users db) \<noteq> 1 then (Inl OrdinaryUserNotFound, db') else (Inr (), db'))"

text \<open>Deleting a row of \<^verbatim>\<open>users\<close> deletes its permissions and preferences and clears it in the access log.\<close>

definition delete_users :: "(user_row \<Rightarrow> bool) \<Rightarrow> database \<Rightarrow> database" where
  "delete_users P db =
     (let gone = uID ` set (filter P (users db)) in
      db\<lparr>users := filter (\<lambda>r. \<not> P r) (users db),
         permissions := filter (\<lambda>((u, m), l). u \<notin> gone) (permissions db),
         preferences := filter (\<lambda>(u, p). u \<notin> gone) (preferences db),
         access_log := map (\<lambda>a. if (case aUserID a of None \<Rightarrow> False | Some u \<Rightarrow> u \<in> gone)
                               then a\<lparr>aUserID := None\<rparr> else a) (access_log db)\<rparr>)"

definition DeleteAdminUser :: "int \<Rightarrow> database \<Rightarrow> unit result" where
  "DeleteAdminUser k db =
     (if \<not> available db then (Inl Unavailable, db)
      else let P = (\<lambda>r. uID r = k \<and> Type r = ''user'')
           in if matching P (users db) \<noteq> 1 then (Inl OrdinaryUserNotFound, delete_users P db)
              else (Inr (), delete_users P db))"

section \<open>The invariant\<close>

text \<open>An \<^verbatim>\<open>UPDATE\<close> that leaves the indexed columns alone.\<close>

definition same_index :: "user_row \<Rightarrow> user_row \<Rightarrow> bool" where
  "same_index r s \<longleftrightarrow> uID s = uID r \<and> Login s = Login r \<and> Type s = Type r \<and> Email s = Email r"

lemma user_conflict_same_index:
  "same_index a a' \<Longrightarrow> same_index b b' \<Longrightarrow> user_conflict a' b' \<longleftrightarrow> user_conflict a b"
  by (simp add: same_index_def user_conflict_def)

lemma uIDs_update_rows:
  assumes "\<And>r. r \<in> set rows \<Longrightarrow> P r \<Longrightarrow> uID (f r) = uID r"
  shows "uID ` set (update_rows P f rows) = uID ` set rows"
proof -
  have "map uID (update_rows P f rows) = map uID rows" using assms by (simp add: update_rows_def)
  then show ?thesis by (metis set_map)
qed

lemma database_ok_users:
  assumes "database_ok db" "uID ` set us = uID ` set (users db)"
    and "pairwise_ok user_conflict us"
    and "\<And>u. u \<in> set us \<Longrightarrow> user_check u \<and> totp_check u"
  shows "database_ok (db\<lparr>users := us\<rparr>)"
proof -
  have "0 < uID u \<and> uID u \<le> user_seq db" if "u \<in> set us" for u
  proof -
    have "uID u \<in> uID ` set (users db)" using that assms(2) by (metis image_eqI)
    then show ?thesis using assms(1) by (auto simp: database_ok_def users_ok_def)
  qed
  then have "users_ok us (user_seq db)"
    using assms by (simp add: database_ok_def users_ok_def)
  then show ?thesis using assms(1,2) by (simp add: database_ok_def)
qed

lemma database_ok_row: "database_ok db \<Longrightarrow> r \<in> set (users db) \<Longrightarrow> user_check r \<and> totp_check r"
  by (simp add: database_ok_def users_ok_def)

lemma database_ok_pairwise: "database_ok db \<Longrightarrow> pairwise_ok user_conflict (users db)"
  by (simp add: database_ok_def users_ok_def)

lemma database_ok_update_same_index:
  assumes "database_ok db"
    and "\<And>r. P r \<Longrightarrow> user_check r \<Longrightarrow> totp_check r \<Longrightarrow> same_index r (f r) \<and> user_check (f r) \<and> totp_check (f r)"
  shows "database_ok (db\<lparr>users := update_rows P f (users db)\<rparr>)"
proof (rule database_ok_users [OF assms(1)])
  note ok = database_ok_row [OF assms(1)]
  have same: "same_index r (if P r then f r else r)" if "r \<in> set (users db)" for r
    using assms(2) ok that by (cases "P r") (simp_all add: same_index_def)
  show "uID ` set (update_rows P f (users db)) = uID ` set (users db)"
  proof (rule uIDs_update_rows)
    fix r assume "r \<in> set (users db)" "P r"
    then show "uID (f r) = uID r" using same [of r] by (simp add: same_index_def)
  qed
  show "pairwise_ok user_conflict (update_rows P f (users db))"
  proof (rule pairwise_ok_update [OF database_ok_pairwise [OF assms(1)]])
    fix r s assume "r \<in> set (users db)" "s \<in> set (users db)" "\<not> user_conflict r s"
    then show "\<not> user_conflict (if P r then f r else r) (if P s then f s else s)"
      by (simp only: user_conflict_same_index [OF same same] not_False_eq_True)
  qed
  show "user_check u \<and> totp_check u" if "u \<in> set (update_rows P f (users db))" for u
    using that assms(2) ok by (auto simp: set_update_rows)
qed

lemma database_ok_update_users:
  assumes "database_ok db" "update_users P f db = Inr db'"
    and "\<And>r. uID (f r) = uID r" "\<And>r s. P r \<Longrightarrow> P s \<Longrightarrow> uID r = uID s"
  shows "database_ok db'"
proof -
  have db': "db' = db\<lparr>users := update_rows P f (users db)\<rparr>" and
    allowed: "\<And>r. r \<in> set (users db) \<Longrightarrow> P r \<Longrightarrow> user_check (f r) \<and> totp_check (f r) \<and>
        (\<forall>s \<in> set (users db). uID s \<noteq> uID r \<longrightarrow> \<not> user_conflict (f r) s)"
    using assms(2) by (auto simp: update_users_def update_allowed_def split: if_splits)
  show ?thesis unfolding db'
  proof (rule database_ok_users [OF assms(1)])
    show "uID ` set (update_rows P f (users db)) = uID ` set (users db)"
      using assms(3) by (intro uIDs_update_rows)
    show "pairwise_ok user_conflict (update_rows P f (users db))"
    proof (rule pairwise_ok_update)
      show "pairwise_ok user_conflict (users db)" by (rule database_ok_pairwise [OF assms(1)])
      fix r s assume rs: "r \<in> set (users db)" "s \<in> set (users db)" "\<not> user_conflict r s"
      then have "uID r \<noteq> uID s" by (auto simp: user_conflict_def)
      then show "\<not> user_conflict (if P r then f r else r) (if P s then f s else s)"
        using rs allowed assms(4) user_conflict_sym by metis
    qed
    show "user_check u \<and> totp_check u" if "u \<in> set (update_rows P f (users db))" for u
      using that allowed database_ok_row [OF assms(1)] by (auto simp: set_update_rows)
  qed
qed

lemma scanRequiredUser_ok:
  assumes "database_ok db" "scanRequiredUser P f db = (res, db')"
    and "\<And>r. P r \<Longrightarrow> user_check r \<Longrightarrow> totp_check r \<Longrightarrow> same_index r (f r) \<and> user_check (f r) \<and> totp_check (f r)"
  shows "database_ok db'"
  using assms database_ok_update_same_index [OF assms(1)]
  by (auto simp: scanRequiredUser_def split: if_splits option.splits)

lemma PrepareTOTP_ok: "database_ok db \<Longrightarrow> PrepareTOTP now k v secret db = (res, db') \<Longrightarrow> database_ok db'"
  unfolding PrepareTOTP_def
  by (erule scanRequiredUser_ok, assumption) (simp add: same_index_def user_check_def totp_check_def)

lemma EnableTOTP_ok: "database_ok db \<Longrightarrow> EnableTOTP now k v secret db = (res, db') \<Longrightarrow> database_ok db'"
  unfolding EnableTOTP_def
  by (erule scanRequiredUser_ok, assumption) (simp add: same_index_def user_check_def totp_check_def)

lemma DisableTOTP_ok: "database_ok db \<Longrightarrow> DisableTOTP now k v db = (res, db') \<Longrightarrow> database_ok db'"
  unfolding DisableTOTP_def
  by (erule scanRequiredUser_ok, assumption) (simp add: same_index_def user_check_def totp_check_def)

lemma ChangePassword_ok: "database_ok db \<Longrightarrow> ChangePassword now k v c n db = (res, db') \<Longrightarrow> database_ok db'"
  unfolding ChangePassword_def
  by (erule scanRequiredUser_ok, assumption) (simp add: same_index_def user_check_def totp_check_def)

lemma insert_permissions_ok:
  "database_ok db \<Longrightarrow> insert_permissions k items db = Inr db' \<Longrightarrow> database_ok db'"
proof (induction k items db rule: insert_permissions.induct)
  case (2 k m level items db)
  show ?case
  proof (cases "level = ''none''")
    case False
    let ?db = "db\<lparr>permissions := permissions db @ [((k, m), level)]\<rparr>"
    have g: "known_level level" "map_of (permissions db) (k, m) = None" "k \<in> uID ` set (users db)"
        "find (\<lambda>n. mID n = m \<and> mEnabled n \<and> mAccessPolicy n = ''view'') (modules db) \<noteq> None"
        "insert_permissions k items ?db = Inr db'"
      using 2(4) False by (auto split: if_splits)
    from g(4) obtain n where "n \<in> set (modules db)" "mID n = m"
      by (auto simp: find_None_iff)
    then have "m \<in> mID ` set (modules db)" by blast
    then have "database_ok ?db"
      using 2(3) g(1-3) by (simp add: database_ok_def permissions_ok_def map_of_eq_None_iff)
    then show ?thesis using 2(2) False g by auto
  qed (use 2 in auto)
qed simp

lemma replacePermissions_ok:
  "database_ok db \<Longrightarrow> replacePermissions k items db = Inr db' \<Longrightarrow> database_ok db'"
  unfolding replacePermissions_def
  by (rule insert_permissions_ok) (auto simp: database_ok_def permissions_ok_filter)

lemma insert_user_ok:
  assumes "database_ok db" "insert_user r db = Inr db'" "user_seq db < uID r" "totp_check r"
  shows "database_ok db'"
proof -
  have db': "db' = db\<lparr>users := users db @ [r], user_seq := uID r\<rparr>" "user_check r"
      "\<And>v. v \<in> set (users db) \<Longrightarrow> \<not> user_conflict v r"
    using assms(2) by (auto simp: insert_user_def split: if_splits)
  have "pairwise_ok user_conflict (users db @ [r])"
    using db'(3) by (intro pairwise_ok_append_new database_ok_pairwise [OF assms(1)])
  then have "users_ok (users db @ [r]) (uID r)"
    using assms(1,3,4) db'(2) by (force simp: database_ok_def users_ok_def)
  moreover have "uID ` set (users db) \<subseteq> uID ` set (users db @ [r])" by auto
  ultimately show ?thesis
    using assms(1) unfolding db'(1) database_ok_def
    by (auto simp del: set_append
        elim!: permissions_ok_mono preferences_ok_mono access_ok_mono)
qed

lemma CreateAdminUser_ok:
  assumes "database_ok db" "CreateAdminUser now u hash perms db = (res, db')"
  shows "database_ok db'"
proof -
  have "insert_user (new_user now u hash (user_seq db + 1)) db = Inr db1 \<Longrightarrow> database_ok db1" for db1
    by (erule insert_user_ok [OF assms(1)]) (simp_all add: new_user_def totp_check_def)
  then show ?thesis
    using assms
    by (auto simp: CreateAdminUser_def Let_def intro: replacePermissions_ok split: if_splits sum.splits)
qed

lemma UpdateAdminUser_ok:
  assumes "database_ok db" "UpdateAdminUser now u perms reset db = (res, db')"
  shows "database_ok db'"
proof -
  have "update_users (\<lambda>r. uID r = adID u \<and> Type r = ''root'') (update_root_row now u) db = Inr db1 \<Longrightarrow>
      database_ok db1" for db1
    by (erule database_ok_update_users [OF assms(1)]) (simp_all add: update_root_row_def)
  moreover have "update_users (\<lambda>r. uID r = adID u \<and> Type r = ''user'') (update_ordinary_row now u reset) db = Inr db1 \<Longrightarrow>
      database_ok db1" for db1
    by (erule database_ok_update_users [OF assms(1)]) (simp_all add: update_ordinary_row_def)
  ultimately show ?thesis
    using assms
    by (auto simp: UpdateAdminUser_def intro: replacePermissions_ok split: if_splits sum.splits option.splits)
qed

lemma ResetAdminPassword_ok:
  assumes "database_ok db" "ResetAdminPassword now k hash db = (res, db')"
  shows "database_ok db'"
proof -
  have "database_ok (db\<lparr>users := update_rows (\<lambda>r. uID r = k \<and> Type r = ''user'')
      (\<lambda>r. r\<lparr>PasswordHash := hash, MustChangePassword := True, AuthVersion := AuthVersion r + 1,
             UpdatedAt := now, PasswordChangedAt := now\<rparr>) (users db)\<rparr>)"
    by (rule database_ok_update_same_index [OF assms(1)])
      (simp add: same_index_def user_check_def totp_check_def)
  then show ?thesis
    using assms by (auto simp: ResetAdminPassword_def Let_def split: if_splits)
qed

lemma delete_users_ok:
  assumes "database_ok db"
  shows "database_ok (delete_users P db)"
proof -
  define gone where "gone = uID ` set (filter P (users db))"
  have kept: "u \<in> uID ` set (filter (\<lambda>r. \<not> P r) (users db))"
    if "u \<in> uID ` set (users db)" "u \<notin> gone" for u
    using that by (auto simp: gone_def)
  have "users_ok (filter (\<lambda>r. \<not> P r) (users db)) (user_seq db)"
    using assms by (auto simp: database_ok_def users_ok_def pairwise_ok_filter)
  moreover have "permissions_ok (uID ` set (filter (\<lambda>r. \<not> P r) (users db))) (mID ` set (modules db))
      (filter (\<lambda>((u, m), l). u \<notin> gone) (permissions db))"
    using assms kept by (fastforce simp: database_ok_def permissions_ok_def)
  moreover have "preferences_ok (uID ` set (filter (\<lambda>r. \<not> P r) (users db)))
      (filter (\<lambda>(u, p). u \<notin> gone) (preferences db))"
    using assms kept by (fastforce simp: database_ok_def preferences_ok_def)
  moreover have "access_ok (uID ` set (filter (\<lambda>r. \<not> P r) (users db)))
      (map (\<lambda>a. if (case aUserID a of None \<Rightarrow> False | Some u \<Rightarrow> u \<in> gone) then a\<lparr>aUserID := None\<rparr> else a)
        (access_log db)) (access_seq db)"
    using assms kept unfolding database_ok_def access_ok_def
    by (auto simp: sorted_wrt_map split: option.splits elim!: sorted_wrt_mono_rel [rotated])
  ultimately show ?thesis
    using assms unfolding database_ok_def delete_users_def Let_def gone_def [symmetric] by simp
qed

lemma DeleteAdminUser_ok:
  "database_ok db \<Longrightarrow> DeleteAdminUser k db = (res, db') \<Longrightarrow> database_ok db'"
  by (auto simp: DeleteAdminUser_def Let_def delete_users_ok split: if_splits)

section \<open>Account versions\<close>

text \<open>
  The second factor that an account must pass, and how accounts evolve between two states of the
  database: an account that is in both keeps its type, its version never decreases, and while its
  version stays the same so do its password and its active second factor; identifiers are never used
  again.
\<close>

definition lookup :: "int \<Rightarrow> database \<Rightarrow> user_row option" where
  "lookup k db = find (\<lambda>r. uID r = k) (users db)"

definition active_factor :: "'a user_scheme \<Rightarrow> string option" where
  "active_factor r = (if TOTPEnabledAt r = None then None else TOTPSecret r)"

definition row_evolves :: "user_row \<Rightarrow> user_row \<Rightarrow> bool" where
  "row_evolves r s \<longleftrightarrow>
     AuthVersion r \<le> AuthVersion s \<and> Type s = Type r \<and>
     (AuthVersion s = AuthVersion r \<longrightarrow>
        PasswordHash s = PasswordHash r \<and> active_factor s = active_factor r)"

definition accounts_evolve :: "database \<Rightarrow> database \<Rightarrow> bool" where
  "accounts_evolve db db' \<longleftrightarrow>
     user_seq db \<le> user_seq db' \<and>
     (\<forall>k r'. lookup k db' = Some r' \<longrightarrow>
        (case lookup k db of None \<Rightarrow> user_seq db < k | Some r \<Rightarrow> row_evolves r r'))"

lemma row_evolves_refl [simp]: "row_evolves r r"
  by (simp add: row_evolves_def)

lemma row_evolves_trans: "row_evolves r s \<Longrightarrow> row_evolves s t \<Longrightarrow> row_evolves r t"
  by (auto simp: row_evolves_def)

lemma lookup_users [simp]: "lookup k (db\<lparr>users := us\<rparr>) = find (\<lambda>r. uID r = k) us"
  by (simp add: lookup_def)

lemma lookup_cong: "users db' = users db \<Longrightarrow> lookup k db' = lookup k db"
  by (simp add: lookup_def)

lemma lookup_Some: "lookup k db = Some r \<Longrightarrow> r \<in> set (users db) \<and> uID r = k"
  by (auto simp: lookup_def find_Some_iff)

lemma lookup_seq: "database_ok db \<Longrightarrow> lookup k db = Some r \<Longrightarrow> k \<le> user_seq db"
  by (auto simp: database_ok_def users_ok_def dest!: lookup_Some)

lemma accounts_evolve_same:
  "users db' = users db \<Longrightarrow> user_seq db' = user_seq db \<Longrightarrow> accounts_evolve db db'"
  by (auto simp: accounts_evolve_def lookup_def split: option.splits)

lemma accounts_evolve_trans:
  assumes "accounts_evolve a b" "accounts_evolve b c" "database_ok a"
  shows "accounts_evolve a c"
  unfolding accounts_evolve_def
proof (intro conjI allI impI)
  show "user_seq a \<le> user_seq c" using assms by (auto simp: accounts_evolve_def)
  fix k t assume t: "lookup k c = Some t"
  show "case lookup k a of None \<Rightarrow> user_seq a < k | Some r \<Rightarrow> row_evolves r t"
  proof (cases "lookup k b")
    case None
    then have "user_seq b < k" using assms(2) t unfolding accounts_evolve_def by fastforce
    then have "user_seq a < k" using assms(1) by (auto simp: accounts_evolve_def)
    then show ?thesis using lookup_seq [OF assms(3)] by (fastforce split: option.splits)
  next
    case (Some s)
    then have "row_evolves s t" using assms(2) t unfolding accounts_evolve_def by fastforce
    moreover have "case lookup k a of None \<Rightarrow> user_seq a < k | Some r \<Rightarrow> row_evolves r s"
      using assms(1) Some by (auto simp: accounts_evolve_def)
    ultimately show ?thesis using row_evolves_trans by (auto split: option.splits)
  qed
qed

lemma accounts_evolve_update:
  assumes "\<And>r. P r \<Longrightarrow> uID (f r) = uID r \<and> row_evolves r (f r)"
  shows "accounts_evolve db (db\<lparr>users := update_rows P f (users db)\<rparr>)"
proof -
  have "find (\<lambda>r. uID r = k) (update_rows P f (users db)) =
      map_option (\<lambda>r. if P r then f r else r) (find (\<lambda>r. uID r = k) (users db))" for k
    using assms by (intro find_update_rows_other) auto
  then show ?thesis using assms by (auto simp: accounts_evolve_def lookup_def)
qed

lemma scanRequiredUser_evolves:
  assumes "scanRequiredUser P f db = (res, db')" "\<And>r. P r \<Longrightarrow> uID (f r) = uID r \<and> row_evolves r (f r)"
  shows "accounts_evolve db db'"
  using assms accounts_evolve_update [of P f db, OF assms(2)] accounts_evolve_same [of db db]
  by (auto simp: scanRequiredUser_def split: if_splits option.splits)

lemma PrepareTOTP_evolves: "PrepareTOTP now k v secret db = (res, db') \<Longrightarrow> accounts_evolve db db'"
  unfolding PrepareTOTP_def
  by (erule scanRequiredUser_evolves) (simp add: row_evolves_def active_factor_def)

lemma EnableTOTP_evolves: "EnableTOTP now k v secret db = (res, db') \<Longrightarrow> accounts_evolve db db'"
  unfolding EnableTOTP_def by (erule scanRequiredUser_evolves) (simp add: row_evolves_def)

lemma DisableTOTP_evolves: "DisableTOTP now k v db = (res, db') \<Longrightarrow> accounts_evolve db db'"
  unfolding DisableTOTP_def by (erule scanRequiredUser_evolves) (simp add: row_evolves_def)

lemma ChangePassword_evolves: "ChangePassword now k v c n db = (res, db') \<Longrightarrow> accounts_evolve db db'"
  unfolding ChangePassword_def by (erule scanRequiredUser_evolves) (simp add: row_evolves_def)

lemma insert_permissions_users:
  "insert_permissions k items db = Inr db' \<Longrightarrow> users db' = users db \<and> user_seq db' = user_seq db"
  by (induction k items db rule: insert_permissions.induct) (auto split: if_splits)

lemma replacePermissions_users:
  "replacePermissions k items db = Inr db' \<Longrightarrow> users db' = users db \<and> user_seq db' = user_seq db"
  by (auto simp: replacePermissions_def dest!: insert_permissions_users)

lemma replacePermissions_evolves:
  "accounts_evolve a db \<Longrightarrow> replacePermissions k items db = Inr db' \<Longrightarrow> accounts_evolve a db'"
  by (auto simp: accounts_evolve_def lookup_def dest!: replacePermissions_users)

lemma insert_user_evolves:
  assumes "insert_user r db = Inr db'" "user_seq db < uID r"
  shows "accounts_evolve db db'"
proof -
  have "db' = db\<lparr>users := users db @ [r], user_seq := uID r\<rparr>"
    using assms(1) by (auto simp: insert_user_def split: if_splits)
  moreover have "find (\<lambda>s. uID s = k) (users db @ [r]) =
      (case find (\<lambda>s. uID s = k) (users db) of None \<Rightarrow> if uID r = k then Some r else None | Some s \<Rightarrow> Some s)" for k
    by (simp add: find_append split: option.splits)
  ultimately show ?thesis
    using assms(2) by (auto simp: accounts_evolve_def lookup_def split: option.splits if_splits)
qed

lemma CreateAdminUser_evolves:
  assumes "CreateAdminUser now u hash perms db = (res, db')"
  shows "accounts_evolve db db'"
proof -
  have "insert_user (new_user now u hash (user_seq db + 1)) db = Inr db1 \<Longrightarrow> accounts_evolve db db1" for db1
    by (erule insert_user_evolves) (simp add: new_user_def)
  then show ?thesis
    using assms accounts_evolve_same [of db db]
    by (auto simp: CreateAdminUser_def Let_def intro: replacePermissions_evolves split: if_splits sum.splits)
qed

lemma update_users_evolves:
  assumes "update_users P f db = Inr db'" "\<And>r. P r \<Longrightarrow> uID (f r) = uID r \<and> row_evolves r (f r)"
  shows "accounts_evolve db db'"
  using assms accounts_evolve_update [of P f db, OF assms(2)]
  by (auto simp: update_users_def split: if_splits)

lemma UpdateAdminUser_evolves:
  assumes "UpdateAdminUser now u perms reset db = (res, db')"
  shows "accounts_evolve db db'"
proof -
  have "update_users (\<lambda>r. uID r = adID u \<and> Type r = ''root'') (update_root_row now u) db = Inr db1 \<Longrightarrow>
      accounts_evolve db db1" for db1
    by (erule update_users_evolves) (simp add: update_root_row_def row_evolves_def active_factor_def)
  moreover have "update_users (\<lambda>r. uID r = adID u \<and> Type r = ''user'') (update_ordinary_row now u reset) db = Inr db1 \<Longrightarrow>
      accounts_evolve db db1" for db1
    by (erule update_users_evolves) (simp add: update_ordinary_row_def row_evolves_def active_factor_def)
  ultimately show ?thesis
    using assms accounts_evolve_same [of db db]
    by (auto simp: UpdateAdminUser_def intro: replacePermissions_evolves split: if_splits sum.splits option.splits)
qed

lemma ResetAdminPassword_evolves:
  assumes "ResetAdminPassword now k hash db = (res, db')"
  shows "accounts_evolve db db'"
proof -
  have "accounts_evolve db (db\<lparr>users := update_rows (\<lambda>r. uID r = k \<and> Type r = ''user'')
      (\<lambda>r. r\<lparr>PasswordHash := hash, MustChangePassword := True, AuthVersion := AuthVersion r + 1,
             UpdatedAt := now, PasswordChangedAt := now\<rparr>) (users db)\<rparr>)"
    by (rule accounts_evolve_update) (simp add: row_evolves_def)
  then show ?thesis
    using assms accounts_evolve_same [of db db]
    by (auto simp: ResetAdminPassword_def Let_def split: if_splits)
qed

lemma DeleteAdminUser_evolves:
  assumes "database_ok db" "DeleteAdminUser k db = (res, db')"
  shows "accounts_evolve db db'"
proof -
  have uniq: "a = b" if "a \<in> set (users db)" "b \<in> set (users db)" "uID a = uID b" for a b
    using that pairwise_unique [OF database_ok_pairwise [OF assms(1)]] by (simp add: user_conflict_def)
  have "lookup j db = Some r" if "lookup j (delete_users P db) = Some r" for P j r
    using find_SomeD [OF that [unfolded lookup_def]] uniq
    by (auto simp: lookup_def delete_users_def Let_def intro!: find_unique)
  then have "accounts_evolve db (delete_users P db)" for P
    by (fastforce simp: accounts_evolve_def delete_users_def Let_def)
  then show ?thesis
    using assms accounts_evolve_same [of db db]
    by (auto simp: DeleteAdminUser_def Let_def split: if_splits)
qed

end
