(* ===== verification/Authstore_Navigation.thy ===== *)
theory Authstore_Navigation
  imports Authstore_Users
begin

text \<open>
  Navigation and module permissions (\<^verbatim>\<open>store.go\<close>, \<^verbatim>\<open>admin.go\<close>, \<^verbatim>\<open>navigation_admin.go\<close>): the menu an account
  sees, the permission it has for a module, and the administration of categories and modules.

  The queries are joins over the tables, ordered by \<open>sort_key\<close> on the list of the \<^verbatim>\<open>ORDER BY\<close> columns; the
  loops that scan the rows group them by category with an index of the categories met so far.
\<close>

section \<open>Grouping rows\<close>

text \<open>
  One row of a scan: the category, and the module unless the left join found none. The state is the
  list of categories with their modules and the Go map from a category to its position in the list.
\<close>

type_synonym ('c, 'm) groups = "('c \<times> 'm list) list \<times> (int \<times> nat) list"

definition add_row :: "int \<times> 'c \<times> 'm option \<Rightarrow> ('c, 'm) groups \<Rightarrow> ('c, 'm) groups" where
  "add_row row acc =
     (case (row, acc) of ((k, c, m), (items, index)) \<Rightarrow>
        let (items, index, at) =
              (case map_of index k of
                 None \<Rightarrow> (items @ [(c, [])], AList.update k (length items) index, length items)
               | Some at \<Rightarrow> (items, index, at));
            (c, ms) = items ! at
        in (items[at := (c, ms @ (case m of None \<Rightarrow> [] | Some x \<Rightarrow> [x]))], index))"

definition group_rows :: "(int \<times> 'c \<times> 'm option) list \<Rightarrow> ('c \<times> 'm list) list" where
  "group_rows rows = fst (fold add_row rows ([], []))"

section \<open>The menu and permissions\<close>

record NavigationModule =
  nmID :: int
  nmKey :: string
  nmName :: string
  nmRoute :: string
  nmIcon :: string
  nmPermissionLevel :: string

record NavigationCategory =
  ncID :: int
  ncName :: string
  ncModules :: "NavigationModule list"

definition about :: "module_row \<Rightarrow> bool" where
  "about m \<longleftrightarrow> nocase (mKey m) ''about''"

text \<open>The \<^verbatim>\<open>WHERE\<close> clause and the permission column of the menu for one module.\<close>

definition menu_level :: "bool \<Rightarrow> int \<Rightarrow> database \<Rightarrow> module_row \<Rightarrow> string option" where
  "menu_level isRoot userID db m =
     (let ump = map_of (permissions db) (userID, mID m) in
      if mEnabled m \<and> (isRoot \<or> mAccessPolicy m = ''view'' \<and> (about m \<or> ump \<noteq> None))
      then if isRoot then Some ''modify'' else if about m then Some ''view'' else ump
      else None)"

definition menu_module :: "module_row \<Rightarrow> string \<Rightarrow> NavigationModule" where
  "menu_module m level =
     \<lparr>nmID = mID m, nmKey = mKey m, nmName = mName m, nmRoute = mRoute m, nmIcon = mIcon m,
      nmPermissionLevel = level\<rparr>"

definition menu_rows :: "user \<Rightarrow> database \<Rightarrow> (category_row \<times> module_row \<times> string) list" where
  "menu_rows user db =
     sort_key (\<lambda>(c, m, l). [cPosition c, cID c, mPosition m, mID m])
       (concat (map (\<lambda>c. List.map_filter (\<lambda>m.
            if mCategory m = cID c
            then map_option (\<lambda>l. (c, m, l)) (menu_level (Type user = ''root'') (uID user) db m)
            else None) (modules db)) (categories db)))"

definition Menu :: "user \<Rightarrow> database \<Rightarrow> store_error + NavigationCategory list" where
  "Menu user db =
     (if \<not> available db then Inl Unavailable
      else Inr (map (\<lambda>((k, name), ms). \<lparr>ncID = k, ncName = name, ncModules = ms\<rparr>)
             (group_rows (map (\<lambda>(c, m, l). (cID c, (cID c, cName c), Some (menu_module m l)))
                (menu_rows user db)))))"

definition PermissionForModule :: "user \<Rightarrow> string \<Rightarrow> database \<Rightarrow> store_error + string option" where
  "PermissionForModule user moduleKey db =
     (if \<not> available db then Inl Unavailable
      else if Type user = ''root'' then
        (case find (\<lambda>m. nocase (mKey m) moduleKey) (modules db) of
           None \<Rightarrow> Inr None
         | Some m \<Rightarrow> if \<not> mEnabled m then Inr None else Inr (Some ''modify''))
      else
        (case find (\<lambda>m. nocase (mKey m) moduleKey \<and> mEnabled m \<and> mAccessPolicy m = ''view'' \<and>
                        (about m \<or> map_of (permissions db) (uID user, mID m) \<noteq> None)) (modules db) of
           None \<Rightarrow> Inr None
         | Some m \<Rightarrow> Inr (if about m then Some ''view'' else map_of (permissions db) (uID user, mID m))))"

record AssignableModule =
  asID :: int
  asKey :: string
  asName :: string
  asCategory :: string

definition AssignableModules :: "database \<Rightarrow> store_error + AssignableModule list" where
  "AssignableModules db =
     (if \<not> available db then Inl Unavailable
      else Inr (map (\<lambda>(m, c). \<lparr>asID = mID m, asKey = mKey m, asName = mName m, asCategory = cName c\<rparr>)
             (sort_key (\<lambda>(m, c). [cPosition c, cID c, mPosition m, mID m])
                (filter (\<lambda>(m, c). cID c = mCategory m \<and> mEnabled m \<and> mAccessPolicy m = ''view'' \<and> \<not> about m)
                   (List.product (modules db) (categories db))))))"

section \<open>Administration of the navigation\<close>

text \<open>\<^verbatim>\<open>COALESCE((SELECT MAX(position)+1 FROM ...), 0)\<close>.\<close>

definition next_position :: "int list \<Rightarrow> int" where
  "next_position ps = (case ps of [] \<Rightarrow> 0 | p # qs \<Rightarrow> fold max qs p + 1)"

definition insert_module :: "module_row \<Rightarrow> database \<Rightarrow> store_error + database" where
  "insert_module m db =
     (if \<not> module_check m \<or> (\<exists>n \<in> set (modules db). module_conflict n m) \<or> mCategory m \<notin> cID ` set (categories db)
      then Inl Constraint
      else Inr (db\<lparr>modules := modules db @ [m], module_seq := mID m\<rparr>))"

definition processes_module :: "database \<Rightarrow> category_row \<Rightarrow> module_row" where
  "processes_module db c =
     \<lparr>mID = module_seq db + 1, mKey = ''processes'', mName = ''Processus'', mRoute = ''/processes'',
      mIcon = [CHR 0xE2, CHR 0x89, CHR 0x8B], mCategory = cID c,
      mPosition = next_position (map mPosition (filter (\<lambda>m. mCategory m = cID c) (modules db))),
      mEnabled = True, mEssential = False, mAccessPolicy = ''view''\<rparr>"

definition EnsureGoNavigation :: "database \<Rightarrow> unit result" where
  "EnsureGoNavigation db =
     (if \<not> available db then (Inl Unavailable, db)
      else case find (\<lambda>c. nocase (cName c) ''Supervision'') (categories db) of
             None \<Rightarrow> (Inr (), db)
           | Some c \<Rightarrow>
               if find (\<lambda>m. nocase (mKey m) ''processes'') (modules db) \<noteq> None then (Inr (), db)
               else (case insert_module (processes_module db c) db of
                       Inl e \<Rightarrow> (Inl e, db)
                     | Inr db' \<Rightarrow> (Inr (), db')))"

record AdminModule =
  amID :: int
  amKey :: string
  amName :: string
  amRoute :: string
  amIcon :: string
  amAccessPolicy :: string
  amPosition :: int
  amEnabled :: bool
  amEssential :: bool

record AdminCategory =
  acID :: int
  acName :: string
  acPosition :: int
  acModules :: "AdminModule list"

definition admin_module :: "module_row \<Rightarrow> AdminModule" where
  "admin_module m =
     \<lparr>amID = mID m, amKey = mKey m, amName = mName m, amRoute = mRoute m, amIcon = mIcon m,
      amAccessPolicy = mAccessPolicy m, amPosition = mPosition m, amEnabled = mEnabled m, amEssential = mEssential m\<rparr>"

text \<open>The left join: a category without modules gives one row without a module.\<close>

definition admin_rows :: "database \<Rightarrow> (category_row \<times> module_row option) list" where
  "admin_rows db =
     sort_key (\<lambda>(c, m). [cPosition c, cID c] @ (case m of None \<Rightarrow> [] | Some m \<Rightarrow> [mPosition m, mID m]))
       (concat (map (\<lambda>c. case filter (\<lambda>m. mCategory m = cID c) (modules db) of
                           [] \<Rightarrow> [(c, None)]
                         | ms \<Rightarrow> map (\<lambda>m. (c, Some m)) ms) (categories db)))"

definition AdminNavigation :: "database \<Rightarrow> store_error + AdminCategory list" where
  "AdminNavigation db =
     (if \<not> available db then Inl Unavailable
      else Inr (map (\<lambda>((k, name, pos), ms). \<lparr>acID = k, acName = name, acPosition = pos, acModules = ms\<rparr>)
             (group_rows (map (\<lambda>(c, m). (cID c, (cID c, cName c, cPosition c), map_option admin_module m))
                (admin_rows db)))))"

definition oneRow :: "nat \<Rightarrow> database \<Rightarrow> unit result" where
  "oneRow count db = (if count \<noteq> 1 then (Inl ItemNotFound, db) else (Inr (), db))"

definition CreateCategory :: "string \<Rightarrow> database \<Rightarrow> unit result" where
  "CreateCategory name db =
     (let c = \<lparr>cID = category_seq db + 1, cName = name, cPosition = next_position (map cPosition (categories db))\<rparr> in
      if \<not> available db then (Inl Unavailable, db)
      else if \<not> category_check c \<or> (\<exists>d \<in> set (categories db). category_conflict d c) then (Inl Constraint, db)
      else (Inr (), db\<lparr>categories := categories db @ [c], category_seq := cID c\<rparr>))"

definition RenameCategory :: "int \<Rightarrow> string \<Rightarrow> database \<Rightarrow> unit result" where
  "RenameCategory k name db =
     (if \<not> available db then (Inl Unavailable, db)
      else let P = (\<lambda>c. cID c = k); f = (\<lambda>c. c\<lparr>cName := name\<rparr>) in
        if (\<exists>c \<in> set (categories db). P c \<and>
              (\<not> category_check (f c) \<or> (\<exists>d \<in> set (categories db). cID d \<noteq> cID c \<and> category_conflict d (f c))))
        then (Inl Constraint, db)
        else oneRow (matching P (categories db)) (db\<lparr>categories := update_rows P f (categories db)\<rparr>))"

definition DeleteCategory :: "int \<Rightarrow> database \<Rightarrow> unit result" where
  "DeleteCategory k db =
     (if \<not> available db then (Inl Unavailable, db)
      else let P = (\<lambda>c. cID c = k \<and> k \<notin> mCategory ` set (modules db))
           in oneRow (matching P (categories db)) (db\<lparr>categories := filter (\<lambda>c. \<not> P c) (categories db)\<rparr>))"

definition ToggleModule :: "int \<Rightarrow> bool \<Rightarrow> database \<Rightarrow> unit result" where
  "ToggleModule k enabled db =
     (if \<not> available db then (Inl Unavailable, db)
      else let P = (\<lambda>m. mID m = k \<and> \<not> mEssential m)
           in oneRow (matching P (modules db))
                (db\<lparr>modules := update_rows P (\<lambda>m. m\<lparr>mEnabled := enabled\<rparr>) (modules db)\<rparr>))"

text \<open>
  The neighbour of a position among rows given as \<open>(position, identifier)\<close>: the nearest lower one, or
  the nearest higher one, with the identifier deciding between equal positions.
\<close>

definition neighbour :: "int \<Rightarrow> int \<Rightarrow> (int \<times> int) list \<Rightarrow> (int \<times> int) option" where
  "neighbour direction position rows =
     (let rows = filter (\<lambda>(p, k). if direction > 0 then p > position else p < position) rows in
      case sort_key (\<lambda>(p, k). if direction > 0 then [p, k] else [- p, - k]) rows of
        [] \<Rightarrow> None
      | r # _ \<Rightarrow> Some r)"

definition MoveCategory :: "int \<Rightarrow> int \<Rightarrow> database \<Rightarrow> unit result" where
  "MoveCategory k direction db =
     (if direction \<noteq> -1 \<and> direction \<noteq> 1 then (Inl InvalidDirection, db)
      else if \<not> available db then (Inl Unavailable, db)
      else case find (\<lambda>c. cID c = k) (categories db) of
             None \<Rightarrow> (Inl NoRows, db)
           | Some c \<Rightarrow>
               (case neighbour direction (cPosition c) (map (\<lambda>c. (cPosition c, cID c)) (categories db)) of
                  None \<Rightarrow> (Inl NoRows, db)
                | Some (q, other) \<Rightarrow>
                    (Inr (), db\<lparr>categories :=
                       update_rows (\<lambda>d. cID d = other) (\<lambda>d. d\<lparr>cPosition := cPosition c\<rparr>)
                         (update_rows (\<lambda>d. cID d = k) (\<lambda>d. d\<lparr>cPosition := q\<rparr>) (categories db))\<rparr>)))"

definition MoveModule :: "int \<Rightarrow> int \<Rightarrow> database \<Rightarrow> unit result" where
  "MoveModule k direction db =
     (if \<not> available db then (Inl Unavailable, db)
      else case find (\<lambda>m. mID m = k) (modules db) of
             None \<Rightarrow> (Inl NoRows, db)
           | Some m \<Rightarrow>
               if direction \<noteq> -1 \<and> direction \<noteq> 1 then (Inl InvalidDirection, db)
               else (case neighbour direction (mPosition m)
                            (map (\<lambda>n. (mPosition n, mID n)) (filter (\<lambda>n. mCategory n = mCategory m) (modules db))) of
                       None \<Rightarrow> (Inl NoRows, db)
                     | Some (q, other) \<Rightarrow>
                         (Inr (), db\<lparr>modules :=
                            update_rows (\<lambda>n. mID n = other) (\<lambda>n. n\<lparr>mPosition := mPosition m\<rparr>)
                              (update_rows (\<lambda>n. mID n = k) (\<lambda>n. n\<lparr>mPosition := q\<rparr>) (modules db))\<rparr>)))"

text \<open>
  The reordering: the loop over the categories with the loop over the modules of each. The state is
  the database inside the transaction with the identifiers seen so far.
\<close>

fun reorder_modules :: "int \<Rightarrow> int \<Rightarrow> int list \<Rightarrow> int list \<Rightarrow> database \<Rightarrow> store_error + int list \<times> database" where
  "reorder_modules cid pos [] seen db = Inr (seen, db)"
| "reorder_modules cid pos (k # ks) seen db =
     (if k \<notin> mID ` set (modules db) \<or> k \<in> set seen then Inl InvalidOrder
      else reorder_modules cid (pos + 1) ks (k # seen)
             (db\<lparr>modules := update_rows (\<lambda>m. mID m = k) (\<lambda>m. m\<lparr>mCategory := cid, mPosition := pos\<rparr>) (modules db)\<rparr>))"

fun reorder_categories :: "int \<Rightarrow> int list \<Rightarrow> (int \<times> int list) list \<Rightarrow> int list \<Rightarrow> int list \<Rightarrow> database \<Rightarrow>
    store_error + (int list \<times> int list) \<times> database" where
  "reorder_categories pos [] byCategory seenC seenM db = Inr ((seenC, seenM), db)"
| "reorder_categories pos (c # cs) byCategory seenC seenM db =
     (if c \<notin> cID ` set (categories db) \<or> c \<in> set seenC then Inl InvalidOrder
      else case map_of byCategory c of
             None \<Rightarrow> Inl InvalidOrder
           | Some ms \<Rightarrow>
               (case reorder_modules c 0 ms seenM
                       (db\<lparr>categories := update_rows (\<lambda>d. cID d = c) (\<lambda>d. d\<lparr>cPosition := pos\<rparr>) (categories db)\<rparr>) of
                  Inl e \<Rightarrow> Inl e
                | Inr (seenM', db') \<Rightarrow> reorder_categories (pos + 1) cs byCategory (c # seenC) seenM' db'))"

definition ReorderNavigation :: "int list \<Rightarrow> (int \<times> int list) list \<Rightarrow> database \<Rightarrow> unit result" where
  "ReorderNavigation categoryIDs byCategory db =
     (if categoryIDs = [] \<or> length categoryIDs > 100 then (Inl InvalidOrder, db)
      else if \<not> available db then (Inl Unavailable, db)
      else case reorder_categories 0 categoryIDs byCategory [] [] db of
             Inl e \<Rightarrow> (Inl e, db)
           | Inr ((seenC, seenM), db') \<Rightarrow>
               if length seenC \<noteq> length (categories db) \<or> length seenM \<noteq> length (modules db)
               then (Inl InvalidOrder, db)
               else (Inr (), db'))"

section \<open>The invariant\<close>

lemma keys_update_rows:
  assumes "\<And>r. r \<in> set rows \<Longrightarrow> P r \<Longrightarrow> key (f r) = key r"
  shows "key ` set (update_rows P f rows) = key ` set rows"
proof -
  have "map key (update_rows P f rows) = map key rows" using assms by (simp add: update_rows_def)
  then show ?thesis by (metis set_map)
qed

lemma database_ok_categories:
  assumes "database_ok db" "categories_ok cs seq" "cID ` set (categories db) \<subseteq> cID ` set cs"
  shows "database_ok (db\<lparr>categories := cs, category_seq := seq\<rparr>)"
  using assms by (auto simp: database_ok_def modules_ok_def)

lemma database_ok_modules:
  assumes "database_ok db" "modules_ok (cID ` set (categories db)) ms seq" "mID ` set (modules db) \<subseteq> mID ` set ms"
  shows "database_ok (db\<lparr>modules := ms, module_seq := seq\<rparr>)"
  using assms by (auto simp: database_ok_def elim!: permissions_ok_mono)

lemma categories_ok_update:
  assumes "categories_ok cs seq"
    and "\<And>c. c \<in> set cs \<Longrightarrow> P c \<Longrightarrow> cID (f c) = cID c \<and> cName (f c) = cName c \<and> category_check (f c)"
  shows "categories_ok (update_rows P f cs) seq"
  unfolding categories_ok_def
proof
  show "pairwise_ok category_conflict (update_rows P f cs)"
    using assms by (intro pairwise_ok_update) (auto simp: categories_ok_def category_conflict_def)
  show "\<forall>c \<in> set (update_rows P f cs). category_check c \<and> cID c \<le> seq"
    using assms by (auto simp: set_update_rows categories_ok_def)
qed

lemma modules_ok_update:
  assumes "modules_ok cats ms seq"
    and "\<And>m. m \<in> set ms \<Longrightarrow> P m \<Longrightarrow> mID (f m) = mID m \<and> mKey (f m) = mKey m \<and> mRoute (f m) = mRoute m \<and>
          module_check (f m) \<and> mCategory (f m) \<in> cats"
  shows "modules_ok cats (update_rows P f ms) seq"
  unfolding modules_ok_def
proof
  show "pairwise_ok module_conflict (update_rows P f ms)"
    using assms by (intro pairwise_ok_update) (auto simp: modules_ok_def module_conflict_def)
  show "\<forall>m \<in> set (update_rows P f ms). module_check m \<and> mID m \<le> seq \<and> mCategory m \<in> cats"
    using assms by (auto simp: set_update_rows modules_ok_def)
qed

lemma database_ok_update_categories:
  assumes "database_ok db"
    and "\<And>c. c \<in> set (categories db) \<Longrightarrow> P c \<Longrightarrow> category_check c \<Longrightarrow>
          cID (f c) = cID c \<and> cName (f c) = cName c \<and> category_check (f c)"
  shows "database_ok (db\<lparr>categories := update_rows P f (categories db)\<rparr>)"
proof -
  have ok: "categories_ok (categories db) (category_seq db)" using assms(1) by (simp add: database_ok_def)
  then have "categories_ok (update_rows P f (categories db)) (category_seq db)"
    by (rule categories_ok_update) (use assms(2) ok in \<open>auto simp: categories_ok_def\<close>)
  moreover have "cID ` set (update_rows P f (categories db)) = cID ` set (categories db)"
    using assms(2) ok by (intro keys_update_rows) (auto simp: categories_ok_def)
  ultimately show ?thesis using assms(1) by (simp add: database_ok_def)
qed

lemma database_ok_update_modules:
  assumes "database_ok db"
    and "\<And>m. m \<in> set (modules db) \<Longrightarrow> P m \<Longrightarrow> module_check m \<Longrightarrow> mCategory m \<in> cID ` set (categories db) \<Longrightarrow>
          mID (f m) = mID m \<and> mKey (f m) = mKey m \<and> mRoute (f m) = mRoute m \<and>
          module_check (f m) \<and> mCategory (f m) \<in> cID ` set (categories db)"
  shows "database_ok (db\<lparr>modules := update_rows P f (modules db)\<rparr>)"
proof -
  have ok: "modules_ok (cID ` set (categories db)) (modules db) (module_seq db)"
    using assms(1) by (simp add: database_ok_def)
  then have "modules_ok (cID ` set (categories db)) (update_rows P f (modules db)) (module_seq db)"
    by (rule modules_ok_update) (use assms(2) ok in \<open>auto simp: modules_ok_def\<close>)
  moreover have "mID ` set (update_rows P f (modules db)) = mID ` set (modules db)"
    using assms(2) ok by (intro keys_update_rows) (auto simp: modules_ok_def)
  ultimately show ?thesis using assms(1) by (simp add: database_ok_def)
qed

lemma category_conflict_sym: "category_conflict c d \<longleftrightarrow> category_conflict d c"
  by (auto simp: category_conflict_def nocase_sym)

lemma module_conflict_sym: "module_conflict c d \<longleftrightarrow> module_conflict d c"
  by (auto simp: module_conflict_def nocase_sym)

lemma insert_module_ok:
  assumes "database_ok db" "insert_module m db = Inr db'" "module_seq db < mID m"
  shows "database_ok db'"
proof -
  have "db' = db\<lparr>modules := modules db @ [m], module_seq := mID m\<rparr>" "module_check m"
      "\<And>n. n \<in> set (modules db) \<Longrightarrow> \<not> module_conflict n m" "mCategory m \<in> cID ` set (categories db)"
    using assms(2) by (auto simp: insert_module_def split: if_splits)
  moreover from this have "modules_ok (cID ` set (categories db)) (modules db @ [m]) (mID m)"
    using assms(1,3) pairwise_ok_append_new [of module_conflict "modules db" m]
    by (fastforce simp: database_ok_def modules_ok_def)
  moreover have "mID ` set (modules db) \<subseteq> mID ` set (modules db @ [m])" by auto
  ultimately show ?thesis by (simp only: database_ok_modules [OF assms(1)])
qed

lemma EnsureGoNavigation_ok:
  "database_ok db \<Longrightarrow> EnsureGoNavigation db = (res, db') \<Longrightarrow> database_ok db'"
  by (auto simp: EnsureGoNavigation_def processes_module_def intro: insert_module_ok
      split: if_splits option.splits sum.splits)

lemma CreateCategory_ok:
  assumes "database_ok db" "CreateCategory name db = (res, db')"
  shows "database_ok db'"
proof -
  let ?c = "\<lparr>cID = category_seq db + 1, cName = name, cPosition = next_position (map cPosition (categories db))\<rparr>"
  have "database_ok (db\<lparr>categories := categories db @ [?c], category_seq := category_seq db + 1\<rparr>)"
    if "category_check ?c" "\<And>d. d \<in> set (categories db) \<Longrightarrow> \<not> category_conflict d ?c"
  proof (rule database_ok_categories [OF assms(1)])
    show "categories_ok (categories db @ [?c]) (category_seq db + 1)"
      using assms(1) that pairwise_ok_append_new [of category_conflict "categories db" ?c]
      by (fastforce simp: database_ok_def categories_ok_def)
  qed auto
  then show ?thesis using assms by (auto simp: CreateCategory_def Let_def split: if_splits)
qed

lemma RenameCategory_ok:
  assumes "database_ok db" "RenameCategory k name db = (res, db')"
  shows "database_ok db'"
proof -
  let ?f = "\<lambda>c. c\<lparr>cName := name\<rparr>" and ?P = "\<lambda>c. cID c = k"
  let ?cs = "update_rows ?P ?f (categories db)"
  have "database_ok (db\<lparr>categories := ?cs\<rparr>)"
    if ok: "\<And>c. c \<in> set (categories db) \<Longrightarrow> cID c = k \<Longrightarrow> category_check (?f c) \<and>
          (\<forall>d \<in> set (categories db). cID d \<noteq> k \<longrightarrow> \<not> category_conflict d (?f c))"
  proof -
    have "pairwise_ok category_conflict ?cs"
    proof (rule pairwise_ok_update)
      fix r s assume "r \<in> set (categories db)" "s \<in> set (categories db)" "\<not> category_conflict r s"
      then show "\<not> category_conflict (if ?P r then ?f r else r) (if ?P s then ?f s else s)"
        using ok [of r] ok [of s] category_conflict_sym [of s "?f r"] by (auto simp: category_conflict_def)
    qed (use assms(1) in \<open>simp add: database_ok_def categories_ok_def\<close>)
    then have "categories_ok ?cs (category_seq db)"
      using assms(1) ok by (auto simp: database_ok_def categories_ok_def set_update_rows)
    moreover have "cID ` set ?cs = cID ` set (categories db)" by (rule keys_update_rows) simp
    ultimately show ?thesis using assms(1) by (simp add: database_ok_def)
  qed
  then show ?thesis using assms by (auto simp: RenameCategory_def Let_def oneRow_def split: if_splits)
qed

lemma DeleteCategory_ok:
  assumes "database_ok db" "DeleteCategory k db = (res, db')"
  shows "database_ok db'"
proof -
  let ?P = "\<lambda>c. cID c = k \<and> k \<notin> mCategory ` set (modules db)"
  have "categories_ok (filter (\<lambda>c. \<not> ?P c) (categories db)) (category_seq db)"
    using assms(1) pairwise_ok_filter by (auto simp: database_ok_def categories_ok_def)
  moreover have "modules_ok (cID ` set (filter (\<lambda>c. \<not> ?P c) (categories db))) (modules db) (module_seq db)"
  proof -
    have "mCategory m \<in> cID ` set (filter (\<lambda>c. \<not> ?P c) (categories db))" if m: "m \<in> set (modules db)" for m
    proof -
      obtain c where "c \<in> set (categories db)" "mCategory m = cID c"
        using assms(1) m by (auto simp: database_ok_def modules_ok_def)
      then show ?thesis using m by force
    qed
    then show ?thesis using assms(1) by (simp add: database_ok_def modules_ok_def del: set_filter)
  qed
  ultimately have "database_ok (db\<lparr>categories := filter (\<lambda>c. \<not> ?P c) (categories db)\<rparr>)"
    using assms(1) by (simp add: database_ok_def del: set_filter)
  then show ?thesis using assms by (auto simp: DeleteCategory_def Let_def oneRow_def split: if_splits)
qed

lemma ToggleModule_ok:
  assumes "database_ok db" "ToggleModule k enabled db = (res, db')"
  shows "database_ok db'"
proof -
  have "database_ok (db\<lparr>modules := update_rows (\<lambda>m. mID m = k \<and> \<not> mEssential m)
      (\<lambda>m. m\<lparr>mEnabled := enabled\<rparr>) (modules db)\<rparr>)"
    by (rule database_ok_update_modules [OF assms(1)]) (simp add: module_check_def)
  then show ?thesis using assms by (auto simp: ToggleModule_def Let_def oneRow_def split: if_splits)
qed

lemma neighbour_in:
  assumes "neighbour d p rows = Some (q, k)"
  shows "(q, k) \<in> set rows" "if d > 0 then q > p else q < p"
proof -
  let ?rows = "filter (\<lambda>(q, k). if d > 0 then q > p else q < p) rows"
  obtain rest where "sort_key (\<lambda>(p, k). if d > 0 then [p, k] else [- p, - k]) ?rows = (q, k) # rest"
    using assms unfolding neighbour_def Let_def by (auto split: list.splits simp del: set_sort)
  then have "(q, k) \<in> set (sort_key (\<lambda>(p, k). if d > 0 then [p, k] else [- p, - k]) ?rows)"
    by (metis list.set_intros(1))
  then have "(q, k) \<in> set ?rows" by (simp only: set_sort)
  then show "(q, k) \<in> set rows" "if d > 0 then q > p else q < p" by (auto split: if_splits)
qed

lemma MoveCategory_ok:
  assumes "database_ok db" "MoveCategory k d db = (res, db')"
  shows "database_ok db'"
proof -
  have "database_ok (db\<lparr>categories := update_rows P (\<lambda>c. c\<lparr>cPosition := p\<rparr>) (categories db)\<rparr>)"
    if "database_ok db" "0 \<le> p" for db P p
    using that(2) by (intro database_ok_update_categories [OF that(1)]) (simp add: category_check_def)
  from this [OF this [OF assms(1)]] have swap:
    "database_ok (db\<lparr>categories := update_rows P (\<lambda>c. c\<lparr>cPosition := p\<rparr>)
       (update_rows Q (\<lambda>c. c\<lparr>cPosition := q\<rparr>) (categories db))\<rparr>)" if "0 \<le> p" "0 \<le> q" for P Q p q
    using that by simp
  have pos: "0 \<le> cPosition c" if "c \<in> set (categories db)" for c
    using assms(1) that by (simp add: database_ok_def categories_ok_def category_check_def)
  then have "0 \<le> q" if "neighbour d p (map (\<lambda>c. (cPosition c, cID c)) (categories db)) = Some (q, j)" for p q j
    using neighbour_in(1) [OF that] by auto
  then show ?thesis
    using assms swap pos by (auto simp: MoveCategory_def dest!: find_SomeD split: if_splits option.splits)
qed

lemma MoveModule_ok:
  assumes "database_ok db" "MoveModule k d db = (res, db')"
  shows "database_ok db'"
proof -
  have "database_ok (db\<lparr>modules := update_rows P (\<lambda>c. c\<lparr>mPosition := p\<rparr>) (modules db)\<rparr>)"
    if "database_ok db" "0 \<le> p" for db P p
    using that(2) by (intro database_ok_update_modules [OF that(1)]) (simp add: module_check_def)
  from this [OF this [OF assms(1)]] have swap:
    "database_ok (db\<lparr>modules := update_rows P (\<lambda>c. c\<lparr>mPosition := p\<rparr>)
       (update_rows Q (\<lambda>c. c\<lparr>mPosition := q\<rparr>) (modules db))\<rparr>)" if "0 \<le> p" "0 \<le> q" for P Q p q
    using that by simp
  have pos: "0 \<le> mPosition m" if "m \<in> set (modules db)" for m
    using assms(1) that by (simp add: database_ok_def modules_ok_def module_check_def)
  then have "0 \<le> q" if "neighbour d p (map (\<lambda>n. (mPosition n, mID n)) (filter R (modules db))) = Some (q, j)" for p q j R
    using neighbour_in(1) [OF that] by auto
  then show ?thesis
    using assms swap pos by (auto simp: MoveModule_def dest!: find_SomeD split: if_splits option.splits)
qed

section \<open>Reordering\<close>

text \<open>What the loops write: the place of each module and the position of each category.\<close>

fun module_places :: "int \<Rightarrow> int \<Rightarrow> int list \<Rightarrow> (int \<times> int \<times> int) list" where
  "module_places cid pos [] = []"
| "module_places cid pos (k # ks) = (k, cid, pos) # module_places cid (pos + 1) ks"

fun category_places :: "int \<Rightarrow> int list \<Rightarrow> (int \<times> int) list" where
  "category_places pos [] = []"
| "category_places pos (c # cs) = (c, pos) # category_places (pos + 1) cs"

definition place :: "(int \<times> int \<times> int) list \<Rightarrow> module_row \<Rightarrow> module_row" where
  "place as m = (case map_of as (mID m) of None \<Rightarrow> m | Some (c, p) \<Rightarrow> m\<lparr>mCategory := c, mPosition := p\<rparr>)"

definition place_category :: "(int \<times> int) list \<Rightarrow> category_row \<Rightarrow> category_row" where
  "place_category as c = (case map_of as (cID c) of None \<Rightarrow> c | Some p \<Rightarrow> c\<lparr>cPosition := p\<rparr>)"

definition modules_of :: "(int \<times> int list) list \<Rightarrow> int \<Rightarrow> int list" where
  "modules_of byCategory c = (case map_of byCategory c of None \<Rightarrow> [] | Some ks \<Rightarrow> ks)"

definition all_modules :: "(int \<times> int list) list \<Rightarrow> int list \<Rightarrow> int list" where
  "all_modules byCategory cs = concat (map (modules_of byCategory) cs)"

definition all_places :: "(int \<times> int list) list \<Rightarrow> int list \<Rightarrow> (int \<times> int \<times> int) list" where
  "all_places byCategory cs = concat (map (\<lambda>c. module_places c 0 (modules_of byCategory c)) cs)"

lemma keys_module_places [simp]: "map fst (module_places cid pos ks) = ks"
  by (induction ks arbitrary: pos) auto

lemma keys_category_places [simp]: "map fst (category_places pos cs) = cs"
  by (induction cs arbitrary: pos) auto

lemma keys_all_places: "map fst (all_places byCategory cs) = all_modules byCategory cs"
  by (simp add: all_places_def all_modules_def map_concat comp_def)

lemma mID_place [simp]: "mID (place as m) = mID m"
  by (simp add: place_def split: option.splits)

lemma cID_place_category [simp]: "cID (place_category as c) = cID c"
  by (simp add: place_category_def split: option.splits)

lemma place_Nil [simp]: "place [] = (\<lambda>m. m)" "place_category [] = (\<lambda>c. c)"
  by (simp_all add: fun_eq_iff place_def place_category_def)

lemma place_append:
  assumes "set (map fst as) \<inter> set (map fst bs) = {}"
  shows "place bs (place as m) = place (as @ bs) m"
proof (cases "map_of as (mID m)")
  case (Some cp)
  then have "mID m \<in> set (map fst as)" by (metis map_of_eq_None_iff option.distinct(1) set_map)
  then have "map_of bs (mID m) = None" using assms by (auto simp: map_of_eq_None_iff)
  with Some show ?thesis by (cases cp) (simp add: place_def map_add_def)
qed (simp add: place_def map_add_def split: option.splits)

lemma update_rows_place:
  "update_rows (\<lambda>m. mID m = k) (\<lambda>m. m\<lparr>mCategory := c, mPosition := p\<rparr>) ms = map (place [(k, c, p)]) ms"
  by (simp add: update_rows_def place_def)

lemma update_rows_place_category:
  "update_rows (\<lambda>c. cID c = k) (\<lambda>c. c\<lparr>cPosition := p\<rparr>) cs = map (place_category [(k, p)]) cs"
  by (simp add: update_rows_def place_category_def)

lemma mIDs_place [simp]: "mID ` set (map (place as) ms) = mID ` set ms"
  by (simp add: image_image)

lemma reorder_modules_eq:
  "reorder_modules cid pos ks seen db =
     (if distinct ks \<and> set ks \<inter> set seen = {} \<and> set ks \<subseteq> mID ` set (modules db)
      then Inr (rev ks @ seen, db\<lparr>modules := map (place (module_places cid pos ks)) (modules db)\<rparr>)
      else Inl InvalidOrder)"
proof (induction cid pos ks seen db rule: reorder_modules.induct)
  case (2 cid pos k ks seen db)
  let ?db = "db\<lparr>modules := map (place [(k, cid, pos)]) (modules db)\<rparr>"
  show ?case
  proof (cases "k \<notin> mID ` set (modules db) \<or> k \<in> set seen")
    case False
    have ids: "mID ` set (modules ?db) = mID ` set (modules db)" by (simp add: image_image)
    have places: "map (place (module_places cid (pos + 1) ks)) (modules ?db) =
        map (place (module_places cid pos (k # ks))) (modules db)" if "k \<notin> set ks"
      using that place_append [of "[(k, cid, pos)]" "module_places cid (pos + 1) ks"] by simp
    have "reorder_modules cid (pos + 1) ks (k # seen) ?db =
       (if distinct ks \<and> set ks \<inter> set (k # seen) = {} \<and> set ks \<subseteq> mID ` set (modules ?db)
        then Inr (rev ks @ k # seen, ?db\<lparr>modules := map (place (module_places cid (pos + 1) ks)) (modules ?db)\<rparr>)
        else Inl InvalidOrder)"
      using 2 [OF False] unfolding update_rows_place by simp
    then show ?thesis
      unfolding ids using False places by (auto simp: update_rows_place simp del: list.map)
  qed auto
qed simp

definition order_valid :: "int list \<Rightarrow> (int \<times> int list) list \<Rightarrow> int list \<Rightarrow> int list \<Rightarrow> database \<Rightarrow> bool" where
  "order_valid cs byCategory seenC seenM db \<longleftrightarrow>
     distinct cs \<and> set cs \<inter> set seenC = {} \<and> set cs \<subseteq> cID ` set (categories db) \<and>
     (\<forall>c \<in> set cs. map_of byCategory c \<noteq> None) \<and>
     distinct (all_modules byCategory cs) \<and> set (all_modules byCategory cs) \<inter> set seenM = {} \<and>
     set (all_modules byCategory cs) \<subseteq> mID ` set (modules db)"

lemma place_category_Cons:
  assumes "k \<notin> set (map fst as)"
  shows "place_category as (place_category [(k, p)] c) = place_category ((k, p) # as) c"
proof (cases "cID c = k")
  case True
  then have "map_of as (cID c) = None" using assms by (auto simp: map_of_eq_None_iff)
  with True show ?thesis by (simp add: place_category_def)
qed (simp add: place_category_def)

lemma reorder_categories_eq:
  "reorder_categories pos cs byCategory seenC seenM db =
     (if order_valid cs byCategory seenC seenM db
      then Inr ((rev cs @ seenC, rev (all_modules byCategory cs) @ seenM),
                db\<lparr>categories := map (place_category (category_places pos cs)) (categories db),
                   modules := map (place (all_places byCategory cs)) (modules db)\<rparr>)
      else Inl InvalidOrder)"
proof (induction pos cs byCategory seenC seenM db rule: reorder_categories.induct)
  case (1 pos byCategory seenC seenM db)
  then show ?case by (simp add: order_valid_def all_modules_def all_places_def)
next
  case (2 pos c cs byCategory seenC seenM db)
  let ?db = "db\<lparr>categories := map (place_category [(c, pos)]) (categories db)\<rparr>"
  show ?case
  proof (cases "c \<in> cID ` set (categories db) \<and> c \<notin> set seenC \<and> map_of byCategory c \<noteq> None")
    case True
    then obtain ms where ms: "map_of byCategory c = Some ms" by blast
    let ?db' = "?db\<lparr>modules := map (place (module_places c 0 ms)) (modules db)\<rparr>"
    show ?thesis
    proof (cases "distinct ms \<and> set ms \<inter> set seenM = {} \<and> set ms \<subseteq> mID ` set (modules db)")
      case ok: True
      then have inner: "reorder_modules c 0 ms seenM ?db = Inr (rev ms @ seenM, ?db')"
        by (simp add: reorder_modules_eq)
      then have step: "reorder_categories pos (c # cs) byCategory seenC seenM db =
          reorder_categories (pos + 1) cs byCategory (c # seenC) (rev ms @ seenM) ?db'"
        using True ms by (simp add: update_rows_place_category)
      have all: "all_modules byCategory (c # cs) = ms @ all_modules byCategory cs"
        using ms by (simp add: all_modules_def modules_of_def)
      have valid: "order_valid (c # cs) byCategory seenC seenM db \<longleftrightarrow>
          order_valid cs byCategory (c # seenC) (rev ms @ seenM) ?db'"
      proof -
        have "cID ` set (categories ?db') = cID ` set (categories db)"
            "mID ` set (modules ?db') = mID ` set (modules db)" by (simp_all add: image_image)
        then show ?thesis using True ok all unfolding order_valid_def by auto
      qed
      have places: "map (place (all_places byCategory cs)) (modules ?db') =
          map (place (all_places byCategory (c # cs))) (modules db)"
        if "order_valid (c # cs) byCategory seenC seenM db"
      proof -
        have "set (map fst (module_places c 0 ms)) \<inter> set (map fst (all_places byCategory cs)) = {}"
          using that ms unfolding keys_module_places keys_all_places
          by (auto simp: order_valid_def all_modules_def modules_of_def)
        from place_append [OF this] show ?thesis using ms by (simp add: all_places_def modules_of_def)
      qed
      have cats: "map (place_category (category_places (pos + 1) cs)) (categories ?db') =
          map (place_category (category_places pos (c # cs))) (categories db)"
        if "order_valid (c # cs) byCategory seenC seenM db"
        using that place_category_Cons [of c "category_places (pos + 1) cs" pos]
        by (simp add: order_valid_def)
      have IH: "reorder_categories (pos + 1) cs byCategory (c # seenC) (rev ms @ seenM) ?db' =
         (if order_valid cs byCategory (c # seenC) (rev ms @ seenM) ?db'
          then Inr ((rev cs @ c # seenC, rev (all_modules byCategory cs) @ rev ms @ seenM),
                    ?db'\<lparr>categories := map (place_category (category_places (pos + 1) cs)) (categories ?db'),
                        modules := map (place (all_places byCategory cs)) (modules ?db')\<rparr>)
          else Inl InvalidOrder)"
        using 2 True ms inner by (simp only: update_rows_place_category) auto
      show ?thesis
      proof (cases "order_valid (c # cs) byCategory seenC seenM db")
        case True
        then show ?thesis
          by (simp only: step IH valid [symmetric] places [OF True] cats [OF True] all if_True) simp
      next
        case False
        then show ?thesis by (simp only: step IH valid [symmetric] if_False)
      qed
    next
      case False
      then show ?thesis
        using True ms
        by (auto simp: reorder_modules_eq update_rows_place_category order_valid_def all_modules_def modules_of_def)
    qed
  qed (auto simp: order_valid_def)
qed

text \<open>The same tables, read from the order asked for.\<close>

definition position_in :: "int list \<Rightarrow> int \<Rightarrow> int" where
  "position_in ks k = int (length (takeWhile (\<lambda>x. x \<noteq> k) ks))"

definition owner :: "(int \<times> int list) list \<Rightarrow> int list \<Rightarrow> int \<Rightarrow> int" where
  "owner byCategory cs k = (case find (\<lambda>c. k \<in> set (modules_of byCategory c)) cs of None \<Rightarrow> 0 | Some c \<Rightarrow> c)"

lemma map_of_module_places:
  "k \<in> set ks \<Longrightarrow> map_of (module_places c p ks) k = Some (c, p + position_in ks k)"
  by (induction ks arbitrary: p) (auto simp: position_in_def)

lemma map_of_category_places:
  "c \<in> set cs \<Longrightarrow> map_of (category_places p cs) c = Some (p + position_in cs c)"
  by (induction cs arbitrary: p) (auto simp: position_in_def)

lemma map_of_all_places:
  "k \<in> set (all_modules byCategory cs) \<Longrightarrow>
   map_of (all_places byCategory cs) k =
     Some (owner byCategory cs k, position_in (modules_of byCategory (owner byCategory cs k)) k)"
proof (induction cs)
  case (Cons c cs)
  show ?case
  proof (cases "k \<in> set (modules_of byCategory c)")
    case True
    then show ?thesis
      using map_of_module_places [OF True, of c 0]
      by (simp add: all_places_def owner_def map_add_def)
  next
    case False
    then have "map_of (module_places c 0 (modules_of byCategory c)) k = None"
      by (metis keys_module_places map_of_eq_None_iff set_map)
    with False Cons show ?thesis
      by (simp add: all_places_def all_modules_def owner_def map_add_def split: option.splits)
  qed
qed (simp add: all_modules_def)

definition reordered :: "int list \<Rightarrow> (int \<times> int list) list \<Rightarrow> database \<Rightarrow> database" where
  "reordered cs byCategory db =
     db\<lparr>categories := map (\<lambda>c. c\<lparr>cPosition := position_in cs (cID c)\<rparr>) (categories db),
        modules := map (\<lambda>m. let c = owner byCategory cs (mID m) in
          m\<lparr>mCategory := c, mPosition := position_in (modules_of byCategory c) (mID m)\<rparr>) (modules db)\<rparr>"

lemma places_reordered:
  assumes "set cs = cID ` set (categories db)" "set (all_modules byCategory cs) = mID ` set (modules db)"
  shows "db\<lparr>categories := map (place_category (category_places 0 cs)) (categories db),
            modules := map (place (all_places byCategory cs)) (modules db)\<rparr> = reordered cs byCategory db"
proof -
  have "place_category (category_places 0 cs) c = c\<lparr>cPosition := position_in cs (cID c)\<rparr>"
    if "c \<in> set (categories db)" for c
    using that assms(1) map_of_category_places [of "cID c" cs 0] by (simp add: place_category_def)
  moreover have "place (all_places byCategory cs) m =
      (let c = owner byCategory cs (mID m) in
       m\<lparr>mCategory := c, mPosition := position_in (modules_of byCategory c) (mID m)\<rparr>)"
    if "m \<in> set (modules db)" for m
    using that assms(2) map_of_all_places [of "mID m" byCategory cs] by (simp add: place_def Let_def)
  ultimately show ?thesis by (simp add: reordered_def cong: map_cong)
qed

lemma distinct_keys_sorted_wrt: "sorted_wrt (\<lambda>a b. key a \<noteq> key b) xs \<Longrightarrow> distinct (map key xs)"
  by (induction xs) auto

lemma distinct_ids: "database_ok db \<Longrightarrow> distinct (map cID (categories db)) \<and> distinct (map mID (modules db))"
proof -
  assume ok: "database_ok db"
  have "sorted_wrt (\<lambda>a b. cID a \<noteq> cID b) (categories db)"
    using ok by (auto simp: database_ok_def categories_ok_def pairwise_ok_def category_conflict_def
        elim!: sorted_wrt_mono_rel [rotated])
  moreover have "sorted_wrt (\<lambda>a b. mID a \<noteq> mID b) (modules db)"
    using ok by (auto simp: database_ok_def modules_ok_def pairwise_ok_def module_conflict_def
        elim!: sorted_wrt_mono_rel [rotated])
  ultimately show ?thesis by (simp add: distinct_keys_sorted_wrt)
qed

lemma complete_iff:
  assumes "distinct xs" "distinct ys" "set xs \<subseteq> set ys"
  shows "length xs = length ys \<longleftrightarrow> set xs = set ys"
  using assms by (metis card_subset_eq distinct_card finite_set)

definition complete_order :: "int list \<Rightarrow> (int \<times> int list) list \<Rightarrow> database \<Rightarrow> bool" where
  "complete_order cs byCategory db \<longleftrightarrow>
     cs \<noteq> [] \<and> length cs \<le> 100 \<and> distinct cs \<and> set cs = cID ` set (categories db) \<and>
     (\<forall>c \<in> set cs. map_of byCategory c \<noteq> None) \<and>
     distinct (all_modules byCategory cs) \<and> set (all_modules byCategory cs) = mID ` set (modules db)"

lemma ReorderNavigation_eq:
  assumes "database_ok db" "available db"
  shows "ReorderNavigation cs byCategory db =
     (if complete_order cs byCategory db then (Inr (), reordered cs byCategory db) else (Inl InvalidOrder, db))"
proof (cases "cs \<noteq> [] \<and> length cs \<le> 100 \<and> order_valid cs byCategory [] [] db")
  case True
  have "length cs = length (categories db) \<longleftrightarrow> set cs = cID ` set (categories db)"
    using True complete_iff [of cs "map cID (categories db)"] distinct_ids [OF assms(1)]
    by (simp add: order_valid_def)
  moreover have "length (all_modules byCategory cs) = length (modules db) \<longleftrightarrow>
      set (all_modules byCategory cs) = mID ` set (modules db)"
    using True complete_iff [of "all_modules byCategory cs" "map mID (modules db)"] distinct_ids [OF assms(1)]
    by (simp add: order_valid_def)
  moreover have "complete_order cs byCategory db \<longleftrightarrow>
      set cs = cID ` set (categories db) \<and> set (all_modules byCategory cs) = mID ` set (modules db)"
    using True by (auto simp: complete_order_def order_valid_def)
  ultimately show ?thesis
    using True assms(2) places_reordered [of cs db byCategory]
    by (simp add: ReorderNavigation_def reorder_categories_eq)
next
  case False
  moreover have "cs \<noteq> [] \<and> length cs \<le> 100 \<and> order_valid cs byCategory [] [] db" if "complete_order cs byCategory db"
    using that unfolding complete_order_def order_valid_def by simp
  ultimately have "\<not> complete_order cs byCategory db" by blast
  with False assms(2) show ?thesis by (auto simp: ReorderNavigation_def reorder_categories_eq)
qed

lemma ReorderNavigation_ok:
  assumes "database_ok db" "ReorderNavigation cs byCategory db = (res, db')"
  shows "database_ok db'"
proof -
  have "database_ok (reordered cs byCategory db)" if c: "complete_order cs byCategory db"
  proof -
    let ?f = "\<lambda>c. c\<lparr>cPosition := position_in cs (cID c)\<rparr>"
    let ?g = "\<lambda>m. let c = owner byCategory cs (mID m) in
          m\<lparr>mCategory := c, mPosition := position_in (modules_of byCategory c) (mID m)\<rparr>"
    let ?db = "db\<lparr>categories := update_rows (\<lambda>_. True) ?f (categories db)\<rparr>"
    have "database_ok ?db"
      by (rule database_ok_update_categories [OF assms(1)]) (simp add: category_check_def position_in_def)
    then have "database_ok (?db\<lparr>modules := update_rows (\<lambda>_. True) ?g (modules ?db)\<rparr>)"
    proof (rule database_ok_update_modules)
      fix m assume m: "m \<in> set (modules ?db)" "module_check m"
      have "owner byCategory cs (mID m) \<in> set cs"
      proof -
        have "mID m \<in> set (all_modules byCategory cs)" using m(1) c by (simp add: complete_order_def)
        then have "find (\<lambda>c. mID m \<in> set (modules_of byCategory c)) cs \<noteq> None"
          by (auto simp: all_modules_def find_None_iff)
        then show ?thesis by (auto simp: owner_def dest: find_SomeD)
      qed
      then have "owner byCategory cs (mID m) \<in> cID ` set (categories ?db)"
        using c by (simp add: complete_order_def update_rows_def image_image)
      then show "mID (?g m) = mID m \<and> mKey (?g m) = mKey m \<and> mRoute (?g m) = mRoute m \<and>
          module_check (?g m) \<and> mCategory (?g m) \<in> cID ` set (categories ?db)"
        using m(2) by (simp add: Let_def module_check_def position_in_def)
    qed
    then show ?thesis by (simp add: reordered_def update_rows_def)
  qed
  moreover have "db' = db" if "\<not> available db"
    using that assms(2) by (auto simp: ReorderNavigation_def split: if_splits)
  ultimately show ?thesis
    using assms ReorderNavigation_eq [OF assms(1)] by (cases "available db") (auto split: if_splits)
qed

section \<open>The menu\<close>

definition index_ok :: "('c, 'm) groups \<Rightarrow> bool" where
  "index_ok acc \<longleftrightarrow> (\<forall>k at. map_of (snd acc) k = Some at \<longrightarrow> at < length (fst acc))"

lemma set_concat_update:
  assumes "at < length items" "items ! at = (c, ms)"
  shows "set (concat (map snd (items[at := (c, ms @ xs)]))) = set (concat (map snd items)) \<union> set xs"
proof -
  have "items = take at items @ (c, ms) # drop (Suc at) items"
    using assms by (metis id_take_nth_drop)
  then have "set (concat (map snd items)) =
      set (concat (map snd (take at items))) \<union> set ms \<union> set (concat (map snd (drop (Suc at) items)))"
    by (metis concat.simps(2) concat_append list.simps(9) map_append set_append snd_conv sup_assoc)
  moreover have "items[at := (c, ms @ xs)] = take at items @ (c, ms @ xs) # drop (Suc at) items"
    using assms(1) by (simp add: upd_conv_take_nth_drop)
  ultimately show ?thesis by auto
qed

lemma add_row_step:
  assumes "index_ok acc"
  shows "index_ok (add_row (k, c, m) acc)"
    "set (concat (map snd (fst (add_row (k, c, m) acc)))) = set (concat (map snd (fst acc))) \<union> set_option m"
proof -
  obtain items index where acc: "acc = (items, index)" by fastforce
  define at where "at = (case map_of index k of None \<Rightarrow> length items | Some at \<Rightarrow> at)"
  define items' where "items' = (case map_of index k of None \<Rightarrow> items @ [(c, [])] | Some at \<Rightarrow> items)"
  have bound: "at < length items'"
    using assms by (auto simp: at_def items'_def acc index_ok_def split: option.splits)
  obtain d ms where d: "items' ! at = (d, ms)" by fastforce
  let ?x = "case m of None \<Rightarrow> [] | Some x \<Rightarrow> [x]"
  have row: "fst (add_row (k, c, m) acc) = items'[at := (d, ms @ ?x)]"
    using d list_update_id [of items' at]
    by (auto simp: add_row_def acc at_def items'_def Let_def split: option.splits)
  have "set (concat (map snd items')) = set (concat (map snd items))"
    by (auto simp: items'_def split: option.splits)
  then show "set (concat (map snd (fst (add_row (k, c, m) acc)))) = set (concat (map snd (fst acc))) \<union> set_option m"
    unfolding row set_concat_update [OF bound d] by (auto simp: acc split: option.splits)
  show "index_ok (add_row (k, c, m) acc)"
    using assms by (auto simp: index_ok_def add_row_def acc Let_def less_Suc_eq split: option.splits prod.splits)
qed

lemma group_rows_modules:
  "set (concat (map snd (group_rows rows))) = {m. \<exists>k c. (k, c, Some m) \<in> set rows}"
proof -
  have "index_ok acc \<Longrightarrow> set (concat (map snd (fst (fold add_row rows acc)))) =
      set (concat (map snd (fst acc))) \<union> {m. \<exists>k c. (k, c, Some m) \<in> set rows}" for acc
  proof (induction rows arbitrary: acc)
    case (Cons row rows)
    obtain k c m where row: "row = (k, c, m)" by (metis prod_cases3)
    show ?case
      using Cons.IH [OF add_row_step(1) [OF Cons.prems]] add_row_step(2) [OF Cons.prems]
      unfolding row by (cases m) auto
  qed simp
  from this [of "([], [])"] show ?thesis by (simp add: group_rows_def index_ok_def)
qed

lemma set_map_filter: "set (List.map_filter f xs) = {y. \<exists>x \<in> set xs. f x = Some y}"
  by (induction xs) (auto simp: List.map_filter_def split: option.splits)

lemma set_menu_rows:
  "(c, m, l) \<in> set (menu_rows user db) \<longleftrightarrow>
     c \<in> set (categories db) \<and> m \<in> set (modules db) \<and> mCategory m = cID c \<and>
     menu_level (Type user = ''root'') (uID user) db m = Some l"
  by (auto simp: menu_rows_def set_map_filter split: if_splits)

lemma menu_modules:
  assumes "database_ok db" "Menu user db = Inr menu"
  shows "(\<exists>c \<in> set menu. n \<in> set (ncModules c)) \<longleftrightarrow>
     (\<exists>m \<in> set (modules db). \<exists>l. menu_level (Type user = ''root'') (uID user) db m = Some l \<and> n = menu_module m l)"
proof -
  let ?rows = "map (\<lambda>(c, m, l). (cID c, (cID c, cName c), Some (menu_module m l))) (menu_rows user db)"
  have menu: "menu = map (\<lambda>((k, name), ms). \<lparr>ncID = k, ncName = name, ncModules = ms\<rparr>) (group_rows ?rows)"
    using assms(2) by (simp add: Menu_def split: if_splits)
  have "(\<exists>c \<in> set menu. n \<in> set (ncModules c)) \<longleftrightarrow> n \<in> set (concat (map snd (group_rows ?rows)))"
    unfolding menu by (force split: prod.splits)
  also have "\<dots> \<longleftrightarrow> (\<exists>c m l. (c, m, l) \<in> set (menu_rows user db) \<and> n = menu_module m l)"
    unfolding group_rows_modules by force
  also have "\<dots> \<longleftrightarrow> (\<exists>m \<in> set (modules db). \<exists>l. menu_level (Type user = ''root'') (uID user) db m = Some l \<and> n = menu_module m l)"
  proof -
    have "\<exists>c \<in> set (categories db). mCategory m = cID c" if "m \<in> set (modules db)" for m
      using assms(1) that by (auto simp: database_ok_def modules_ok_def)
    then show ?thesis by (auto simp: set_menu_rows) blast
  qed
  finally show ?thesis .
qed

lemma module_key_unique:
  assumes "database_ok db" "m \<in> set (modules db)" "n \<in> set (modules db)" "nocase (mKey m) (mKey n)"
  shows "m = n"
proof -
  have "pairwise_ok module_conflict (modules db)" using assms(1) by (simp add: database_ok_def modules_ok_def)
  then show ?thesis
    using assms(2-4) nocase_sym
    by (intro pairwise_unique [where conf = module_conflict]) (auto simp: module_conflict_def)
qed

lemma PermissionForModule_iff:
  assumes "database_ok db" "available db"
  shows "PermissionForModule user key db = Inr (Some l) \<longleftrightarrow>
    (\<exists>m \<in> set (modules db). nocase (mKey m) key \<and> menu_level (Type user = ''root'') (uID user) db m = Some l)"
proof -
  have uniq: "m = n" if "m \<in> set (modules db)" "n \<in> set (modules db)" "nocase (mKey m) key" "nocase (mKey n) key" for m n
    using module_key_unique [OF assms(1) that(1,2)] that(3,4) nocase_trans nocase_sym by blast
  show ?thesis
  proof (cases "Type user = ''root''")
    case True
    show ?thesis
    proof (cases "find (\<lambda>m. nocase (mKey m) key) (modules db)")
      case None
      then have "\<not> nocase (mKey m) key" if "m \<in> set (modules db)" for m using that by (auto simp: find_None_iff)
      then show ?thesis using None True assms(2) by (auto simp: PermissionForModule_def)
    next
      case (Some m)
      then have "m \<in> set (modules db)" "nocase (mKey m) key" by (auto dest: find_SomeD)
      then show ?thesis
        using True Some assms(2) uniq by (auto simp: PermissionForModule_def menu_level_def Let_def)
    qed
  next
    case False
    let ?P = "\<lambda>m. nocase (mKey m) key \<and> mEnabled m \<and> mAccessPolicy m = ''view'' \<and>
        (about m \<or> map_of (permissions db) (uID user, mID m) \<noteq> None)"
    show ?thesis
    proof (cases "find ?P (modules db)")
      case None
      then have "\<not> ?P m" if "m \<in> set (modules db)" for m using that by (auto simp: find_None_iff)
      then show ?thesis
        using None False assms(2) by (auto simp: PermissionForModule_def menu_level_def Let_def)
    next
      case (Some m)
      then have "m \<in> set (modules db)" "?P m" by (auto dest: find_SomeD)
      then show ?thesis
        using Some False assms(2) uniq by (auto simp: PermissionForModule_def menu_level_def Let_def)
    qed
  qed
qed

section \<open>Properties\<close>

text \<open>
  C39: the permission check agrees with the menu. For a database that satisfies its constraints and
  any account, the level \<^verbatim>\<open>PermissionForModule\<close> grants for a module is exactly the level shown beside
  the module of that key in the account's menu, and it grants nothing for a module that the menu does
  not show.
\<close>

theorem permission_matches_menu:
  assumes "database_ok db" "Menu user db = Inr menu"
  shows "PermissionForModule user key db = Inr (Some level) \<longleftrightarrow>
    (\<exists>c \<in> set menu. \<exists>m \<in> set (ncModules c). nocase (nmKey m) key \<and> nmPermissionLevel m = level)"
proof -
  have av: "available db" using assms(2) by (auto simp: Menu_def split: if_splits)
  have "(\<exists>c \<in> set menu. \<exists>n \<in> set (ncModules c). nocase (nmKey n) key \<and> nmPermissionLevel n = level) \<longleftrightarrow>
      (\<exists>n. (\<exists>c \<in> set menu. n \<in> set (ncModules c)) \<and> nocase (nmKey n) key \<and> nmPermissionLevel n = level)" by blast
  also have "\<dots> \<longleftrightarrow> (\<exists>m \<in> set (modules db). nocase (mKey m) key \<and>
      menu_level (Type user = ''root'') (uID user) db m = Some level)"
    (is "?l \<longleftrightarrow> ?r")
  proof
    show "?l \<Longrightarrow> ?r" unfolding menu_modules [OF assms] by (auto simp: menu_module_def)
    assume ?r
    then obtain m where "m \<in> set (modules db)" "nocase (mKey m) key"
        "menu_level (Type user = ''root'') (uID user) db m = Some level" by blast
    then show ?l
      unfolding menu_modules [OF assms] by (intro exI [of _ "menu_module m level"]) (auto simp: menu_module_def)
  qed
  finally show ?thesis using PermissionForModule_iff [OF assms(1) av] by blast
qed

definition sample_user :: user where
  "sample_user = scanUser (users sample_database ! 1)"

theorem permission_matches_menu_witness:
  "PermissionForModule sample_user ''LOGS'' sample_database = Inr (Some ''action'')"
proof -
  obtain menu where m: "Menu sample_user sample_database = Inr menu"
    by (simp add: Menu_def sample_database_def)
  have "menu = projr (Menu sample_user sample_database)" by (simp add: m)
  moreover have "list_ex (\<lambda>c. list_ex (\<lambda>n. nocase (nmKey n) ''LOGS'' \<and> nmPermissionLevel n = ''action'') (ncModules c))
      (projr (Menu sample_user sample_database))" by code_simp
  ultimately have "\<exists>c \<in> set menu. \<exists>n \<in> set (ncModules c). nocase (nmKey n) ''LOGS'' \<and> nmPermissionLevel n = ''action''"
    by (simp add: list_ex_iff)
  then show ?thesis using permission_matches_menu [OF sample_database_ok m] by blast
qed

text \<open>
  Reordering is all or nothing. On a database that satisfies its constraints, a request is
  accepted exactly when it lists between 1 and 100 categories, each existing category once, with a
  module list for each, and each existing module once over all lists; then every category and every
  module has the position it has in the request and every module the category that lists it, and
  nothing else changes. Any other request changes nothing.
\<close>

theorem reorder_navigation_exact:
  assumes "database_ok db" "available db"
  shows "ReorderNavigation cs byCategory db =
     (if complete_order cs byCategory db then (Inr (), reordered cs byCategory db) else (Inl InvalidOrder, db))"
  using assms by (rule ReorderNavigation_eq)

theorem reorder_navigation_exact_witness:
  "fst (ReorderNavigation [2, 1] [(1, [4]), (2, [2, 3, 1])] sample_database) = Inr () \<and>
   map (\<lambda>m. (mID m, mCategory m, mPosition m))
     (modules (snd (ReorderNavigation [2, 1] [(1, [4]), (2, [2, 3, 1])] sample_database))) =
     [(1, 2, 2), (2, 2, 0), (3, 2, 1), (4, 1, 0)]"
proof -
  have "available sample_database" "complete_order [2, 1] [(1, [4]), (2, [2, 3, 1])] sample_database"
    "map (\<lambda>m. (mID m, mCategory m, mPosition m)) (modules (reordered [2, 1] [(1, [4]), (2, [2, 3, 1])] sample_database)) =
       [(1, 2, 2), (2, 2, 0), (3, 2, 1), (4, 1, 0)]" by code_simp+
  then show ?thesis using reorder_navigation_exact [OF sample_database_ok] by simp
qed

lemma sort_key_head: "sort_key f xs = y # ys \<Longrightarrow> x \<in> set xs \<Longrightarrow> f y \<le> f x"
proof -
  assume a: "sort_key f xs = y # ys" "x \<in> set xs"
  then have "x \<in> set (y # ys)" by (metis set_sort)
  moreover have "sorted (map f (y # ys))" using a(1) sorted_sort_key [of f xs] by simp
  ultimately show ?thesis by auto
qed

lemma neighbour_nearest:
  assumes "neighbour d p rows = Some (q, k)" "(q', k') \<in> set rows"
  shows "\<not> (if d > 0 then p < q' \<and> q' < q else q < q' \<and> q' < p)"
proof
  let ?rows = "filter (\<lambda>(q, k). if d > 0 then q > p else q < p) rows"
  assume between: "if d > 0 then p < q' \<and> q' < q else q < q' \<and> q' < p"
  then have "(q', k') \<in> set ?rows" using assms(2) by (auto split: if_splits)
  moreover obtain rest where "sort_key (\<lambda>(p, k). if d > 0 then [p, k] else [- p, - k]) ?rows = (q, k) # rest"
    using assms(1) unfolding neighbour_def Let_def by (auto split: list.splits simp del: set_sort)
  ultimately have "(if d > 0 then [q, k] else [- q, - k]) \<le> (if d > 0 then [q', k'] else [- q', - k'])"
    by (fastforce dest: sort_key_head)
  then show False using between by (auto split: if_splits)
qed

text \<open>
  Moving a category swaps it with its neighbour. When a move succeeds the category had, in the
  direction of the move, another one with no third between them, and the two exchange their positions
  while everything else stays; so the set of positions is the same and only these two change order.
\<close>

theorem move_category_swaps:
  assumes "database_ok db" "MoveCategory k d db = (Inr (), db')"
  shows "\<exists>c \<in> set (categories db). \<exists>o' \<in> set (categories db). cID c = k \<and> cID o' \<noteq> k \<and>
      (if d = 1 then cPosition c < cPosition o' else d = -1 \<and> cPosition o' < cPosition c) \<and>
      (\<forall>x \<in> set (categories db). \<not> (min (cPosition c) (cPosition o') < cPosition x \<and>
         cPosition x < max (cPosition c) (cPosition o'))) \<and>
      db' = db\<lparr>categories := map (\<lambda>x. if cID x = k then x\<lparr>cPosition := cPosition o'\<rparr>
                                     else if cID x = cID o' then x\<lparr>cPosition := cPosition c\<rparr> else x) (categories db)\<rparr>"
proof -
  let ?rows = "map (\<lambda>c. (cPosition c, cID c)) (categories db)"
  obtain c q j where d: "d = 1 \<or> d = -1" and c: "c \<in> set (categories db)" "cID c = k"
    and n: "neighbour d (cPosition c) ?rows = Some (q, j)"
    and db': "db' = db\<lparr>categories := update_rows (\<lambda>x. cID x = j) (\<lambda>x. x\<lparr>cPosition := cPosition c\<rparr>)
                (update_rows (\<lambda>x. cID x = k) (\<lambda>x. x\<lparr>cPosition := q\<rparr>) (categories db))\<rparr>"
    using assms(2) by (auto simp: MoveCategory_def dest!: find_SomeD split: if_splits option.splits)
  obtain o' where o': "o' \<in> set (categories db)" "cPosition o' = q" "cID o' = j"
    using neighbour_in(1) [OF n] by auto
  have dir: "if d > 0 then cPosition c < q else q < cPosition c" using neighbour_in(2) [OF n] by simp
  have "c = o'" if "j = k"
    using distinct_ids [OF assms(1)] c o'(1,3) that by (auto simp: distinct_map dest: inj_onD)
  then have jk: "j \<noteq> k" using dir o'(2) by (auto split: if_splits)
  have between: "\<not> (if d > 0 then cPosition c < cPosition x \<and> cPosition x < q else q < cPosition x \<and> cPosition x < cPosition c)"
    if "x \<in> set (categories db)" for x
    using neighbour_nearest [OF n, of "cPosition x" "cID x"] that by auto
  have "if d = 1 then cPosition c < cPosition o' else d = -1 \<and> cPosition o' < cPosition c"
    using d dir o'(2) by auto
  moreover have "\<forall>x \<in> set (categories db). \<not> (min (cPosition c) (cPosition o') < cPosition x \<and>
      cPosition x < max (cPosition c) (cPosition o'))"
    using between d dir o'(2) by (auto simp: min_def max_def)
  moreover have "db' = db\<lparr>categories := map (\<lambda>x. if cID x = k then x\<lparr>cPosition := cPosition o'\<rparr>
      else if cID x = cID o' then x\<lparr>cPosition := cPosition c\<rparr> else x) (categories db)\<rparr>"
    unfolding db' using jk o' by (simp add: update_rows_def comp_def)
  moreover have "cID o' \<noteq> k" using jk o'(3) by simp
  ultimately show ?thesis using c o'(1) by blast
qed

theorem move_category_swaps_witness:
  "\<exists>c \<in> set (categories sample_database). \<exists>o' \<in> set (categories sample_database). cID c = 2 \<and> cID o' \<noteq> 2 \<and>
     cPosition o' < cPosition c"
proof -
  have "MoveCategory 2 (-1) sample_database = (Inr (), snd (MoveCategory 2 (-1) sample_database))" by code_simp
  from move_category_swaps [OF sample_database_ok this] show ?thesis by auto
qed

end
