(* ===== verification/Authstore_Access_Log.thy ===== *)
theory Authstore_Access_Log
  imports Authstore_Users
begin

text \<open>
  The access log (\<^verbatim>\<open>access_log.go\<close>): the events that are written, and the filtered, paginated view of them.
\<close>

section \<open>Writing\<close>

definition AccessLogEvents :: "string list" where
  "AccessLogEvents =
     [''login_success'', ''login_failure'', ''two_factor_success'', ''two_factor_failure'', ''logout'',
      ''password_changed'', ''two_factor_enabled'', ''two_factor_disabled'', ''server_reboot_scheduled'']"

definition access_entry :: "string \<Rightarrow> int option \<Rightarrow> string \<Rightarrow> string \<Rightarrow> bool \<Rightarrow> string \<Rightarrow> string \<Rightarrow> int \<Rightarrow> access_row" where
  "access_entry now userID login event success ipAddress userAgent k =
     (let login = trim_space login;
          login = (if login = '''' then ''(inconnu)'' else login)
      in \<lparr>aID = k, aUserID = userID, aLogin = take 190 login, aEvent = event, aSuccess = success,
          aIPAddress = take 45 ipAddress, aUserAgent = take 512 userAgent, aOccurredAt = now\<rparr>)"

text \<open>The table accepts the events of its \<^verbatim>\<open>CHECK\<close> and a user that exists.\<close>

definition RecordAccess :: "string \<Rightarrow> int option \<Rightarrow> string \<Rightarrow> string \<Rightarrow> bool \<Rightarrow> string \<Rightarrow> string \<Rightarrow> database \<Rightarrow> unit result" where
  "RecordAccess now userID login event success ipAddress userAgent db =
     (if event \<notin> set AccessLogEvents then (Inl InvalidArgument, db)
      else if \<not> available db then (Inl Unavailable, db)
      else if \<not> logged_event event \<or> (case userID of None \<Rightarrow> False | Some u \<Rightarrow> u \<notin> uID ` set (users db))
      then (Inl Constraint, db)
      else (Inr (), db\<lparr>access_log := access_log db @
                         [access_entry now userID login event success ipAddress userAgent (access_seq db + 1)],
                       access_seq := access_seq db + 1\<rparr>))"

section \<open>Reading\<close>

record AccessLogFilter =
  fLogin :: string
  fIPAddress :: string
  fEvent :: string
  fPage :: int
  fPerPage :: int

record AccessLogResult =
  rItems :: "access_row list"
  rTotal :: nat
  rPage :: int
  rPerPage :: int

definition normalized :: "AccessLogFilter \<Rightarrow> AccessLogFilter" where
  "normalized f =
     f\<lparr>fPage := (if fPage f < 1 then 1 else fPage f),
       fPerPage := (if fPerPage f < 1 \<or> fPerPage f > 100 then 50 else fPerPage f),
       fLogin := trim_space (fLogin f), fIPAddress := trim_space (fIPAddress f),
       fEvent := (if fEvent f \<in> set AccessLogEvents then fEvent f else '''')\<rparr>"

text \<open>The \<^verbatim>\<open>WHERE\<close> clause; \<^verbatim>\<open>lower\<close> and \<^verbatim>\<open>instr\<close> fold ASCII letters only.\<close>

definition log_matches :: "AccessLogFilter \<Rightarrow> access_row \<Rightarrow> bool" where
  "log_matches f a \<longleftrightarrow>
     (fLogin f = '''' \<or> contains (fold_nocase (aLogin a)) (fold_nocase (fLogin f))) \<and>
     (fIPAddress f = '''' \<or> aIPAddress a = fIPAddress f) \<and>
     (fEvent f = '''' \<or> aEvent a = fEvent f)"

text \<open>\<^verbatim>\<open>ORDER BY occurred_at DESC, id DESC\<close>.\<close>

definition latest_first :: "access_row list \<Rightarrow> access_row list" where
  "latest_first rows = rev (sort_key aOccurredAt (sort_key aID rows))"

text \<open>Go's \<^verbatim>\<open>int\<close> wraps at 64 bits; SQLite takes a negative offset as zero.\<close>

definition wrap64 :: "int \<Rightarrow> int" where
  "wrap64 x = (x + 9223372036854775808) mod 18446744073709551616 - 9223372036854775808"

definition AccessLog :: "AccessLogFilter \<Rightarrow> database \<Rightarrow> store_error + AccessLogResult" where
  "AccessLog filter0 db =
     (if \<not> available db then Inl Unavailable
      else let f = normalized filter0;
               rows = filter (log_matches f) (access_log db);
               offset = wrap64 (wrap64 (fPage f - 1) * fPerPage f)
           in Inr \<lparr>rItems = take (nat (fPerPage f)) (drop (nat offset) (latest_first rows)),
                   rTotal = length rows, rPage = fPage f, rPerPage = fPerPage f\<rparr>)"

definition AccessLogUsers :: "database \<Rightarrow> store_error + string list" where
  "AccessLogUsers db =
     (if \<not> available db then Inl Unavailable else Inr (map Login (sort_key admin_order (users db))))"

section \<open>Invariant\<close>

lemma RecordAccess_frame:
  assumes "RecordAccess now u login event success ip agent db = (res, db')" "database_ok db"
  shows "database_ok db'" "users db' = users db" "user_seq db' = user_seq db"
proof -
  let ?e = "access_entry now u login event success ip agent (access_seq db + 1)"
  have e: "aID ?e = access_seq db + 1" "aEvent ?e = event" "aUserID ?e = u"
    by (simp_all add: access_entry_def Let_def)
  have "access_ok (uID ` set (users db)) (access_log db @ [?e]) (access_seq db + 1)"
    if "logged_event event" "case u of None \<Rightarrow> True | Some k \<Rightarrow> k \<in> uID ` set (users db)"
    using assms(2) that e by (fastforce simp: database_ok_def access_ok_def sorted_wrt_append)
  then show "database_ok db'" "users db' = users db" "user_seq db' = user_seq db"
    using assms by (auto simp: RecordAccess_def database_ok_def split: if_splits option.splits)
qed

section \<open>Pages\<close>

lemma wrap64_id: "min_int64 \<le> x \<Longrightarrow> x \<le> max_int64 \<Longrightarrow> wrap64 x = x"
  by (simp add: wrap64_def)

lemma set_latest_first: "set (latest_first rows) = set rows" "length (latest_first rows) = length rows"
  by (simp_all add: latest_first_def)

lemma latest_first_sorted:
  "sorted_wrt (\<lambda>a b. aOccurredAt b \<le> aOccurredAt a) (latest_first rows)"
proof -
  have "sorted (map aOccurredAt (sort_key aOccurredAt (sort_key aID rows)))" by (rule sorted_sort_key)
  then show ?thesis unfolding latest_first_def by (simp add: sorted_map sorted_wrt_rev)
qed

lemma concat_pages:
  "0 < n \<Longrightarrow> concat (map (\<lambda>p. take n (drop (p * n) xs)) [0..<k]) = take (k * n) xs"
proof (induction k)
  case (Suc k)
  have "take (Suc k * n) xs = take (k * n) xs @ take n (drop (k * n) xs)"
    using take_add [of "k * n" n xs] by (simp add: add.commute)
  with Suc show ?case by simp
qed simp

lemma log_matches_page [simp]:
  "log_matches (normalized (f\<lparr>fPage := p\<rparr>)) = log_matches (normalized f)"
  by (simp add: fun_eq_iff log_matches_def normalized_def)

section \<open>Properties\<close>

lemma access_log_pages_facts:
  assumes "available db" "1 \<le> fPerPage f" "fPerPage f \<le> 100"
    and "int (length (access_log db)) \<le> int k * fPerPage f" "int k * fPerPage f \<le> max_int64"
  shows "concat (map (\<lambda>p. rItems (projr (AccessLog (f\<lparr>fPage := int p + 1\<rparr>) db))) [0..<k]) =
           latest_first (filter (log_matches (normalized f)) (access_log db))"
    "\<forall>p. rTotal (projr (AccessLog (f\<lparr>fPage := p\<rparr>) db)) = length (filter (log_matches (normalized f)) (access_log db))"
    "sorted_wrt (\<lambda>a b. aOccurredAt b \<le> aOccurredAt a)
       (latest_first (filter (log_matches (normalized f)) (access_log db)))"
proof -
  let ?rows = "latest_first (filter (log_matches (normalized f)) (access_log db))"
  let ?n = "nat (fPerPage f)"
  have page: "rItems (projr (AccessLog (f\<lparr>fPage := int p + 1\<rparr>) db)) = take ?n (drop (p * ?n) ?rows)"
    if "p < k" for p
  proof -
    have "int p * fPerPage f \<le> int k * fPerPage f" using that assms(2) by (intro mult_right_mono) auto
    also note assms(5)
    finally have "int p * fPerPage f \<le> max_int64" .
    moreover have "0 \<le> int p * fPerPage f" using assms(2) by simp
    ultimately have b: "0 \<le> int p * fPerPage f" "int p * fPerPage f \<le> max_int64" by auto
    have "int p \<le> int p * fPerPage f" using assms(2) by (simp add: mult_le_cancel_left1)
    with b have "wrap64 (int p) = int p" "wrap64 (int p * fPerPage f) = int p * fPerPage f"
      by (auto intro!: wrap64_id)
    moreover have "nat (int p * fPerPage f) = p * ?n" using assms(2) by (simp add: nat_mult_distrib)
    moreover have "fPage (normalized (f\<lparr>fPage := int p + 1\<rparr>)) = int p + 1"
        "fPerPage (normalized (f\<lparr>fPage := int p + 1\<rparr>)) = fPerPage f"
      using assms(2,3) by (simp_all add: normalized_def)
    ultimately show ?thesis using assms(1) by (simp add: AccessLog_def Let_def)
  qed
  have "concat (map (\<lambda>p. rItems (projr (AccessLog (f\<lparr>fPage := int p + 1\<rparr>) db))) [0..<k]) =
      concat (map (\<lambda>p. take ?n (drop (p * ?n) ?rows)) [0..<k])"
    using page by (intro arg_cong [where f = concat] map_cong) auto
  also have "\<dots> = take (k * ?n) ?rows" using assms(2) by (intro concat_pages) simp
  also have "\<dots> = ?rows"
  proof -
    have "length ?rows \<le> length (access_log db)" by (simp add: set_latest_first)
    also have "\<dots> \<le> k * ?n" using assms(2,4) by (metis nat_int nat_mono nat_mult_distrib of_nat_0_le_iff)
    finally show ?thesis by simp
  qed
  finally show "concat (map (\<lambda>p. rItems (projr (AccessLog (f\<lparr>fPage := int p + 1\<rparr>) db))) [0..<k]) = ?rows" .
  show "\<forall>p. rTotal (projr (AccessLog (f\<lparr>fPage := p\<rparr>) db)) = length (filter (log_matches (normalized f)) (access_log db))"
    using assms(1) by (simp add: AccessLog_def Let_def)
  show "sorted_wrt (\<lambda>a b. aOccurredAt b \<le> aOccurredAt a) ?rows" by (rule latest_first_sorted)
qed

definition sample_log :: database where
  "sample_log =
     snd (RecordAccess ''2026-01-02T00:00:00Z'' (Some 2) ''alice'' ''logout'' True ''192.0.2.1'' ''curl''
       (snd (RecordAccess ''2026-01-01T00:00:00Z'' None '''' ''login_failure'' False ''192.0.2.7'' ''curl'' sample_database)))"

text \<open>
  The pages show the log. For a page size from 1 to 100, the pages from the first to any number
  that covers the log, read one after the other, show every matching entry once, the latest first, and
  each page reports the number of matching entries.
\<close>

theorem access_log_pages:
  assumes "available db" "1 \<le> fPerPage f" "fPerPage f \<le> 100"
    and "int (length (access_log db)) \<le> int k * fPerPage f" "int k * fPerPage f \<le> max_int64"
  shows "concat (map (\<lambda>p. rItems (projr (AccessLog (f\<lparr>fPage := int p + 1\<rparr>) db))) [0..<k]) =
      latest_first (filter (log_matches (normalized f)) (access_log db)) \<and>
    (\<forall>p. rTotal (projr (AccessLog (f\<lparr>fPage := p\<rparr>) db)) = length (filter (log_matches (normalized f)) (access_log db))) \<and>
    sorted_wrt (\<lambda>a b. aOccurredAt b \<le> aOccurredAt a)
      (latest_first (filter (log_matches (normalized f)) (access_log db)))"
  using access_log_pages_facts [OF assms] by blast

theorem access_log_pages_witness:
  "concat (map (\<lambda>p. rItems (projr (AccessLog (\<lparr>fLogin = '''', fIPAddress = '''', fEvent = '''', fPage = 1, fPerPage = 1\<rparr>
        \<lparr>fPage := int p + 1\<rparr>) sample_log))) [0..<2]) =
     latest_first (filter (log_matches (normalized \<lparr>fLogin = '''', fIPAddress = '''', fEvent = '''', fPage = 1, fPerPage = 1\<rparr>))
       (access_log sample_log)) \<and> length (access_log sample_log) = 2"
proof -
  have "available sample_log" "length (access_log sample_log) = 2" by code_simp+
  then show ?thesis
    using access_log_pages [of sample_log "\<lparr>fLogin = '''', fIPAddress = '''', fEvent = '''', fPage = 1, fPerPage = 1\<rparr>" 2]
    by simp
qed

text \<open>
  A scheduled reboot is never logged. The event is in the list that \<^verbatim>\<open>RecordAccess\<close> accepts but not in
  the \<^verbatim>\<open>CHECK\<close> of the table, so recording it fails on every database that answers and writes nothing.
\<close>

lemma reboot_event_rejected:
  assumes "available db"
  shows "''server_reboot_scheduled'' \<in> set AccessLogEvents"
    "RecordAccess now u login ''server_reboot_scheduled'' success ip agent db = (Inl Constraint, db)"
  using assms by (simp_all add: RecordAccess_def AccessLogEvents_def logged_event_def)

end
