(* ===== verification/Authstore_Settings.thy ===== *)
theory Authstore_Settings
  imports Authstore_Schema Go_Base_Encoding
begin

text \<open>
  Application settings, the encrypted SMTP password and the preferences of an account
  (\<^verbatim>\<open>settings.go\<close>, \<^verbatim>\<open>secret_crypto.go\<close>, \<^verbatim>\<open>preferences.go\<close>). AES-GCM is an argument: \<open>seal key nonce plain data\<close>
  and \<open>unseal key nonce sealed data\<close>, the latter \<open>None\<close> when the authentication fails.
\<close>

type_synonym gcm_seal = "bytes \<Rightarrow> bytes \<Rightarrow> bytes \<Rightarrow> bytes \<Rightarrow> bytes"
type_synonym gcm_open = "bytes \<Rightarrow> bytes \<Rightarrow> bytes \<Rightarrow> bytes \<Rightarrow> bytes option"

section \<open>Encrypted secrets\<close>

definition encryptedSecretPrefix :: string where
  "encryptedSecretPrefix = ''aegisadmin:v1:''"

text \<open>The nonce is twelve random bytes; \<open>None\<close> is a failing source.\<close>

definition encryptSecret :: "gcm_seal \<Rightarrow> bytes \<Rightarrow> bytes option \<Rightarrow> string \<Rightarrow> string option" where
  "encryptSecret seal secretKey nonce value =
     (if length secretKey \<noteq> 32 then None
      else case nonce of
             None \<Rightarrow> None
           | Some n \<Rightarrow>
               Some (encryptedSecretPrefix @
                     base64_encode base64_std (n @ seal secretKey n value ''smtp.password'')))"

definition decryptSecret :: "gcm_open \<Rightarrow> bytes \<Rightarrow> string \<Rightarrow> string option" where
  "decryptSecret unseal secretKey value =
     (if length secretKey \<noteq> 32 \<or> \<not> has_prefix value encryptedSecretPrefix then None
      else case base64_decode False base64_std (trim_prefix value encryptedSecretPrefix) of
             None \<Rightarrow> None
           | Some payload \<Rightarrow>
               if length payload < 12 then None
               else unseal secretKey (take 12 payload) (drop 12 payload) ''smtp.password'')"

definition SetSecretKey :: "bytes \<Rightarrow> bytes option" where
  "SetSecretKey key = (if length key \<noteq> 32 then None else Some key)"

text \<open>
  The key file: what \<^verbatim>\<open>os.Lstat\<close> reports, and what reading gives. Creating it can fail at several points;
  \<open>create\<close> says what happens after the file was found missing: an earlier creation by another process
  (\<open>CreateRaced\<close>, with the file found on the second look), an error, or success with fresh random bytes.
\<close>

datatype lstat =
    Missing
  | LstatFailed
  | Entry bool bool bool "bytes option"  \<comment> \<open>symbolic link, regular, private mode, what reading gives\<close>

datatype create_key = CreateFailed | CreateRaced lstat | Created bytes

definition load_key :: "bool \<Rightarrow> bool \<Rightarrow> bool \<Rightarrow> bytes option \<Rightarrow> bytes option" where
  "load_key link reg priv data =
     (if link \<or> \<not> reg \<or> \<not> priv then None
      else case data of None \<Rightarrow> None | Some key \<Rightarrow> if length key \<noteq> 32 then None else Some key)"

definition LoadOrCreateSecretKey :: "bool \<Rightarrow> lstat \<Rightarrow> create_key \<Rightarrow> bytes option" where
  "LoadOrCreateSecretKey absolute info create =
     (if \<not> absolute then None
      else case info of
        Entry link reg priv data \<Rightarrow> load_key link reg priv data
      | LstatFailed \<Rightarrow> None
      | Missing \<Rightarrow>
          (case create of
             CreateFailed \<Rightarrow> None
           | Created key \<Rightarrow> Some key
           | CreateRaced (Entry link reg priv data) \<Rightarrow> load_key link reg priv data
           | CreateRaced _ \<Rightarrow> None))"

section \<open>Settings\<close>

record ApplicationSettings =
  DefaultLog :: string
  CertbotEmail :: string
  DefaultLanguage :: string

record SMTPSettings =
  Host :: string
  Username :: string
  Security :: string
  Port :: int
  PasswordConfigured :: bool

definition scan_setting :: "string \<times> string \<Rightarrow> ApplicationSettings \<Rightarrow> ApplicationSettings" where
  "scan_setting kv r =
     (if fst kv = ''logs.default_source'' then r\<lparr>DefaultLog := snd kv\<rparr>
      else if fst kv = ''certbot.default_email'' then r\<lparr>CertbotEmail := snd kv\<rparr>
      else if fst kv = ''interface.default_language'' then r\<lparr>DefaultLanguage := snd kv\<rparr>
      else r)"

definition Settings :: "database \<Rightarrow> store_error + ApplicationSettings" where
  "Settings db =
     (if \<not> available db then Inl Unavailable
      else Inr (fold scan_setting (settings db) \<lparr>DefaultLog = '''', CertbotEmail = '''', DefaultLanguage = ''''\<rparr>))"

definition scan_smtp :: "string \<times> string \<Rightarrow> SMTPSettings \<Rightarrow> SMTPSettings" where
  "scan_smtp kv r =
     (if fst kv = ''smtp.host'' then r\<lparr>Host := snd kv\<rparr>
      else if fst kv = ''smtp.username'' then r\<lparr>Username := snd kv\<rparr>
      else if fst kv = ''smtp.password'' then r\<lparr>PasswordConfigured := (snd kv \<noteq> '''')\<rparr>
      else if fst kv = ''smtp.port'' then (case atoi (snd kv) of (port, ok) \<Rightarrow> if ok then r\<lparr>Port := port\<rparr> else r)
      else if fst kv = ''smtp.security'' then r\<lparr>Security := snd kv\<rparr>
      else r)"

definition SMTPSettings_of :: "database \<Rightarrow> store_error + SMTPSettings" where
  "SMTPSettings_of db =
     (if \<not> available db then Inl Unavailable
      else Inr (fold scan_smtp (settings db)
             \<lparr>Host = '''', Username = '''', Security = ''starttls'', Port = 587, PasswordConfigured = False\<rparr>))"

text \<open>
  The \<^verbatim>\<open>INSERT ... ON CONFLICT DO UPDATE\<close> of one setting with its length checks, and the loop over a Go
  map of settings inside a transaction; \<open>items\<close> is the order in which the loop meets the entries.
\<close>

fun upsert_settings :: "(string \<times> string) list \<Rightarrow> (string \<times> string) list \<Rightarrow> (string \<times> string) list option" where
  "upsert_settings [] rows = Some rows"
| "upsert_settings ((k, v) # items) rows =
     (if between 2 64 (sql_length k) \<and> sql_length v \<le> 2048
      then upsert_settings items (AList.update k v rows) else None)"

definition store_settings :: "(string \<times> string) list \<Rightarrow> database \<Rightarrow> unit result" where
  "store_settings items db =
     (if \<not> available db then (Inl Unavailable, db)
      else case upsert_settings items (settings db) of
             None \<Rightarrow> (Inl Constraint, db)
           | Some rows \<Rightarrow> (Inr (), db\<lparr>settings := rows\<rparr>))"

definition smtp_items :: "SMTPSettings \<Rightarrow> (string \<times> string) list" where
  "smtp_items v =
     [(''smtp.host'', Host v), (''smtp.username'', Username v), (''smtp.port'', itoa (Port v)), (''smtp.security'', Security v)]"

definition UpdateSMTPSettings :: "gcm_seal \<Rightarrow> bytes \<Rightarrow> bytes option \<Rightarrow> SMTPSettings \<Rightarrow> string option \<Rightarrow> database \<Rightarrow> unit result" where
  "UpdateSMTPSettings seal secretKey nonce value password db =
     (case password of
        None \<Rightarrow> store_settings (smtp_items value) db
      | Some pw \<Rightarrow>
          if pw = '''' then store_settings (smtp_items value @ [(''smtp.password'', '''')]) db
          else (case encryptSecret seal secretKey nonce pw of
                  None \<Rightarrow> (Inl SecretUnavailable, db)
                | Some encrypted \<Rightarrow> store_settings (smtp_items value @ [(''smtp.password'', encrypted)]) db))"

text \<open>
  \<^verbatim>\<open>SMTPPassword\<close>: the error of the query is tested together with the scanned value, which is empty when
  the query fails.
\<close>

definition SMTPPassword :: "gcm_open \<Rightarrow> bytes \<Rightarrow> database \<Rightarrow> store_error + string" where
  "SMTPPassword unseal secretKey db =
     (let (value, err) =
            (if \<not> available db then ('''', Some Unavailable)
             else case map_of (settings db) ''smtp.password'' of
                    None \<Rightarrow> ('''', Some NoRows)
                  | Some v \<Rightarrow> (v, None)) in
      if err = Some NoRows \<or> value = '''' then Inr ''''
      else case err of
             Some e \<Rightarrow> Inl e
           | None \<Rightarrow> (case decryptSecret unseal secretKey value of None \<Rightarrow> Inl SecretUnavailable | Some pw \<Rightarrow> Inr pw))"

definition UpdateSettings :: "ApplicationSettings \<Rightarrow> database \<Rightarrow> unit result" where
  "UpdateSettings value =
     store_settings [(''logs.default_source'', DefaultLog value), (''certbot.default_email'', CertbotEmail value),
       (''interface.default_language'', DefaultLanguage value)]"

section \<open>Preferences\<close>

definition ThemeForUser :: "int \<Rightarrow> database \<Rightarrow> store_error + string" where
  "ThemeForUser userID db =
     (if \<not> available db then Inl Unavailable
      else case map_of (preferences db) userID of
             None \<Rightarrow> Inr ''dark''
           | Some p \<Rightarrow> if \<not> known_theme (pTheme p) then Inl InvalidStored else Inr (pTheme p))"

definition save_preference :: "int \<Rightarrow> preference_row \<Rightarrow> (preference_row \<Rightarrow> preference_row) \<Rightarrow> database \<Rightarrow> unit result" where
  "save_preference userID new change db =
     (if \<not> available db then (Inl Unavailable, db)
      else case map_of (preferences db) userID of
             Some p \<Rightarrow> (Inr (), db\<lparr>preferences := AList.update userID (change p) (preferences db)\<rparr>)
           | None \<Rightarrow>
               if userID \<notin> uID ` set (users db) then (Inl Constraint, db)
               else (Inr (), db\<lparr>preferences := AList.update userID new (preferences db)\<rparr>))"

text \<open>The column \<^verbatim>\<open>language\<close> has the default \<^verbatim>\<open>'fr'\<close>.\<close>

definition SetTheme :: "int \<Rightarrow> string \<Rightarrow> database \<Rightarrow> unit result" where
  "SetTheme userID theme db =
     (if userID \<le> 0 \<or> \<not> known_theme theme then (Inl InvalidArgument, db)
      else save_preference userID \<lparr>pTheme = theme, pLanguage = ''fr''\<rparr> (\<lambda>p. p\<lparr>pTheme := theme\<rparr>) db)"

definition LanguageForUser :: "int \<Rightarrow> database \<Rightarrow> store_error + string" where
  "LanguageForUser userID db =
     (if \<not> available db then Inl Unavailable
      else case map_of (preferences db) userID of
             None \<Rightarrow> Inr ''''
           | Some p \<Rightarrow> if \<not> known_language (pLanguage p) then Inl InvalidStored else Inr (pLanguage p))"

definition SetLanguage :: "int \<Rightarrow> string \<Rightarrow> database \<Rightarrow> unit result" where
  "SetLanguage userID language db =
     (if userID \<le> 0 \<or> \<not> known_language language then (Inl InvalidArgument, db)
      else save_preference userID \<lparr>pTheme = ''dark'', pLanguage = language\<rparr> (\<lambda>p. p\<lparr>pLanguage := language\<rparr>) db)"

section \<open>Invariant\<close>

lemma upsert_settings_distinct:
  "upsert_settings items rows = Some rows' \<Longrightarrow> distinct_keys rows \<Longrightarrow> distinct_keys rows'"
  by (induction items rows rule: upsert_settings.induct) (auto split: if_splits)

lemma store_settings_frame:
  assumes "store_settings items db = (res, db')" "database_ok db"
  shows "database_ok db'" "users db' = users db" "user_seq db' = user_seq db"
  using assms
  by (auto simp: store_settings_def database_ok_def upsert_settings_distinct split: if_splits option.splits)

lemma UpdateSMTPSettings_frame:
  assumes "UpdateSMTPSettings seal key nonce v pw db = (res, db')" "database_ok db"
  shows "database_ok db'" "users db' = users db" "user_seq db' = user_seq db"
  using assms store_settings_frame
  by (auto simp: UpdateSMTPSettings_def split: if_splits option.splits)

lemma UpdateSettings_frame:
  assumes "UpdateSettings v db = (res, db')" "database_ok db"
  shows "database_ok db'" "users db' = users db" "user_seq db' = user_seq db"
  using assms store_settings_frame by (auto simp: UpdateSettings_def)

lemma preferences_ok_update:
  "preferences_ok us ps \<Longrightarrow> u \<in> us \<Longrightarrow> known_theme (pTheme p) \<Longrightarrow> known_language (pLanguage p) \<Longrightarrow>
   preferences_ok us (AList.update u p ps)"
  by (auto simp: preferences_ok_def dest!: set_update_subset)

lemma save_preference_frame:
  assumes "save_preference userID new change db = (res, db')" "database_ok db"
    and "known_theme (pTheme new)" "known_language (pLanguage new)"
    and "\<And>p. known_theme (pTheme p) \<Longrightarrow> known_language (pLanguage p) \<Longrightarrow>
          known_theme (pTheme (change p)) \<and> known_language (pLanguage (change p))"
  shows "database_ok db'" "users db' = users db" "user_seq db' = user_seq db"
proof -
  have old: "userID \<in> uID ` set (users db) \<and> known_theme (pTheme p) \<and> known_language (pLanguage p)"
    if "map_of (preferences db) userID = Some p" for p
    using map_of_SomeD [OF that] assms(2) by (auto simp: database_ok_def preferences_ok_def)
  show "database_ok db'" "users db' = users db" "user_seq db' = user_seq db"
    using assms old preferences_ok_update
    by (auto simp: save_preference_def database_ok_def split: if_splits option.splits)
qed

lemma SetTheme_frame:
  assumes "SetTheme u t db = (res, db')" "database_ok db"
  shows "database_ok db'" "users db' = users db" "user_seq db' = user_seq db"
  using assms save_preference_frame [of u "\<lparr>pTheme = t, pLanguage = ''fr''\<rparr>" "\<lambda>p. p\<lparr>pTheme := t\<rparr>" db res db']
  by (auto simp: SetTheme_def known_language_def split: if_splits)

lemma SetLanguage_frame:
  assumes "SetLanguage u l db = (res, db')" "database_ok db"
  shows "database_ok db'" "users db' = users db" "user_seq db' = user_seq db"
  using assms save_preference_frame [of u "\<lparr>pTheme = ''dark'', pLanguage = l\<rparr>" "\<lambda>p. p\<lparr>pLanguage := l\<rparr>" db res db']
  by (auto simp: SetLanguage_def known_theme_def split: if_splits)

section \<open>Reading back\<close>

lemma upsert_settings_lookup:
  "upsert_settings items rows = Some rows' \<Longrightarrow> distinct_keys items \<Longrightarrow>
   map_of rows' k = (case map_of items k of None \<Rightarrow> map_of rows k | Some v \<Rightarrow> Some v)"
proof (induction items rows rule: upsert_settings.induct)
  case (2 j v items rows)
  then have "map_of items j = None" by (simp add: map_of_eq_None_iff)
  with 2 show ?case by (cases "k = j") (auto split: if_splits cong: option.case_cong)
qed simp

definition or_else :: "'a option \<Rightarrow> 'a \<Rightarrow> 'a" where
  "or_else x d = (case x of None \<Rightarrow> d | Some v \<Rightarrow> v)"

lemma or_else_simps [simp]: "or_else None d = d" "or_else (Some v) d = v"
  by (simp_all add: or_else_def)

lemma scan_field:
  assumes "\<And>kv r. g (scan kv r) = (if fst kv = key then h (snd kv) (g r) else g r)" "distinct_keys rows"
  shows "g (fold scan rows r) = (case map_of rows key of None \<Rightarrow> g r | Some v \<Rightarrow> h v (g r))"
  using assms(2)
proof (induction rows arbitrary: r)
  case (Cons kv rows)
  then have "map_of rows (fst kv) = None" by (simp add: map_of_eq_None_iff)
  with Cons show ?case by (cases kv) (auto simp: assms(1) cong: option.case_cong)
qed simp

lemma scan_smtp_fields:
  assumes "distinct_keys rows"
  shows "Host (fold scan_smtp rows r) = or_else (map_of rows ''smtp.host'') (Host r)"
    "Username (fold scan_smtp rows r) = or_else (map_of rows ''smtp.username'') (Username r)"
    "Security (fold scan_smtp rows r) = or_else (map_of rows ''smtp.security'') (Security r)"
    "PasswordConfigured (fold scan_smtp rows r) =
       or_else (map_option (\<lambda>v. v \<noteq> '''') (map_of rows ''smtp.password'')) (PasswordConfigured r)"
    "Port (fold scan_smtp rows r) =
       or_else (Option.bind (map_of rows ''smtp.port'') (\<lambda>v. if snd (atoi v) then Some (fst (atoi v)) else None)) (Port r)"
proof -
  have keys: "Host (scan_smtp kv r) = (if fst kv = ''smtp.host'' then (snd kv) else Host r)"
      "Username (scan_smtp kv r) = (if fst kv = ''smtp.username'' then (snd kv) else Username r)"
      "Security (scan_smtp kv r) = (if fst kv = ''smtp.security'' then (snd kv) else Security r)"
      "PasswordConfigured (scan_smtp kv r) = (if fst kv = ''smtp.password'' then (snd kv \<noteq> '''') else PasswordConfigured r)"
      "Port (scan_smtp kv r) = (if fst kv = ''smtp.port'' then ((if snd (atoi (snd kv)) then fst (atoi (snd kv)) else Port r)) else Port r)" for kv r
    by (simp_all add: scan_smtp_def split: prod.splits)
  show "Host (fold scan_smtp rows r) = or_else (map_of rows ''smtp.host'') (Host r)"
    using scan_field [of Host scan_smtp "''smtp.host''" "\<lambda>v _. v", OF keys(1) assms]
    by (simp add: or_else_def split: option.splits)
  show "Username (fold scan_smtp rows r) = or_else (map_of rows ''smtp.username'') (Username r)"
    using scan_field [of Username scan_smtp "''smtp.username''" "\<lambda>v _. v", OF keys(2) assms]
    by (simp add: or_else_def split: option.splits)
  show "Security (fold scan_smtp rows r) = or_else (map_of rows ''smtp.security'') (Security r)"
    using scan_field [of Security scan_smtp "''smtp.security''" "\<lambda>v _. v", OF keys(3) assms]
    by (simp add: or_else_def split: option.splits)
  show "PasswordConfigured (fold scan_smtp rows r) = or_else (map_option (\<lambda>v. v \<noteq> '''') (map_of rows ''smtp.password'')) (PasswordConfigured r)"
    using scan_field [of PasswordConfigured scan_smtp "''smtp.password''" "\<lambda>v _. v \<noteq> ''''", OF keys(4) assms]
    by (simp add: or_else_def split: option.splits)
  show "Port (fold scan_smtp rows r) = or_else (Option.bind (map_of rows ''smtp.port'') (\<lambda>v. if snd (atoi v) then Some (fst (atoi v)) else None)) (Port r)"
    using scan_field [of Port scan_smtp "''smtp.port''" "\<lambda>v p. if snd (atoi v) then fst (atoi v) else p", OF keys(5) assms]
    by (simp add: or_else_def split: option.splits)
qed

lemma decrypt_encrypt:
  assumes "encryptSecret seal key (Some nonce) value = Some encrypted" "length nonce = 12"
    and "\<And>p d. unseal key nonce (seal key nonce p d) d = Some p"
  shows "decryptSecret unseal key encrypted = Some value" "encrypted \<noteq> ''''"
proof -
  have e: "length key = 32"
      "encrypted = encryptedSecretPrefix @ base64_encode base64_std (nonce @ seal key nonce value ''smtp.password'')"
    using assms(1) by (auto simp: encryptSecret_def split: if_splits)
  moreover have "base64_decode False base64_std (base64_encode base64_std bs) = Some bs" for bs
    using base64_decode_encode good_base64_std by blast
  ultimately show "decryptSecret unseal key encrypted = Some value"
    using assms(2,3) by (simp add: decryptSecret_def)
  show "encrypted \<noteq> ''''" using e(2) by (simp add: encryptedSecretPrefix_def)
qed

lemma UpdateSMTPSettings_stored:
  assumes "UpdateSMTPSettings seal key nonce v (Some pw) db = (Inr (), db')"
  obtains enc rows where
    "if pw = '''' then enc = '''' else encryptSecret seal key nonce pw = Some enc"
    "available db" "db' = db\<lparr>settings := rows\<rparr>"
    "upsert_settings (smtp_items v @ [(''smtp.password'', enc)]) (settings db) = Some rows"
  using assms
  by (auto simp: UpdateSMTPSettings_def store_settings_def split: if_splits option.splits)

section \<open>Properties\<close>

lemma smtp_settings_roundtrip_facts:
  assumes "UpdateSMTPSettings seal key (Some nonce) v (Some pw) db = (Inr (), db')" "distinct_keys (settings db)"
    and "length nonce = 12" "min_int64 \<le> Port v" "Port v \<le> max_int64"
    and "\<And>p d. unseal key nonce (seal key nonce p d) d = Some p"
  shows "SMTPSettings_of db' = Inr (v\<lparr>PasswordConfigured := (pw \<noteq> '''')\<rparr>)"
    "SMTPPassword unseal key db' = Inr pw"
proof -
  obtain enc rows where enc: "if pw = '''' then enc = '''' else encryptSecret seal key (Some nonce) pw = Some enc"
      and db': "available db" "db' = db\<lparr>settings := rows\<rparr>"
      and rows: "upsert_settings (smtp_items v @ [(''smtp.password'', enc)]) (settings db) = Some rows"
    using UpdateSMTPSettings_stored [OF assms(1)] .
  have sec: "pw \<noteq> '''' \<Longrightarrow> decryptSecret unseal key enc = Some pw \<and> enc \<noteq> ''''"
    using enc decrypt_encrypt [OF _ assms(3), of seal key pw enc unseal] assms(6) by auto
  have dist: "distinct_keys rows" by (rule upsert_settings_distinct [OF rows assms(2)])
  have "distinct_keys (smtp_items v @ [(''smtp.password'', enc)])" by (simp add: smtp_items_def)
  note get = upsert_settings_lookup [OF rows this]
  have "enc \<noteq> '''' \<longleftrightarrow> pw \<noteq> ''''" using enc sec by auto
  then show "SMTPSettings_of db' = Inr (v\<lparr>PasswordConfigured := (pw \<noteq> '''')\<rparr>)"
    using db' by (simp add: SMTPSettings_of_def)
      (rule SMTPSettings.equality; simp add: scan_smtp_fields [OF dist] get smtp_items_def atoi_itoa assms(4,5))
  show "SMTPPassword unseal key db' = Inr pw"
    using db' sec enc by (cases "pw = ''''") (simp_all add: SMTPPassword_def get smtp_items_def)
qed

text \<open>
  What is saved is what is read. After the SMTP settings were saved with a password, reading them
  gives the same host, user, security and port (any 64-bit port), says whether a password is
  configured, and \<^verbatim>\<open>SMTPPassword\<close> decrypts to the password that was saved, provided the cipher opens what
  it sealed; with an empty password nothing is configured and the empty password is read.
\<close>

theorem smtp_settings_roundtrip:
  assumes "UpdateSMTPSettings seal key (Some nonce) v (Some pw) db = (Inr (), db')" "distinct_keys (settings db)"
    and "length nonce = 12" "min_int64 \<le> Port v" "Port v \<le> max_int64"
    and "\<And>p d. unseal key nonce (seal key nonce p d) d = Some p"
  shows "SMTPSettings_of db' = Inr (v\<lparr>PasswordConfigured := (pw \<noteq> '''')\<rparr>) \<and>
    SMTPPassword unseal key db' = Inr pw"
  using smtp_settings_roundtrip_facts [where unseal = unseal, OF assms(1-5)] assms(6) by blast

theorem smtp_settings_roundtrip_witness:
  "SMTPPassword (\<lambda>k n c d. Some c) (replicate 32 (CHR 0x07))
     (snd (UpdateSMTPSettings (\<lambda>k n p d. p) (replicate 32 (CHR 0x07)) (Some (replicate 12 (CHR 0x01)))
        \<lparr>Host = ''mail'', Username = ''me'', Security = ''tls'', Port = 465, PasswordConfigured = False\<rparr>
        (Some ''secret'') sample_database)) = Inr ''secret''"
proof (rule smtp_settings_roundtrip [where db = sample_database and nonce = "replicate 12 (CHR 0x01)", THEN conjunct2])
  let ?r = "UpdateSMTPSettings (\<lambda>k n p d. p) (replicate 32 (CHR 0x07)) (Some (replicate 12 (CHR 0x01)))
        \<lparr>Host = ''mail'', Username = ''me'', Security = ''tls'', Port = 465, PasswordConfigured = False\<rparr>
        (Some ''secret'') sample_database"
  have "fst ?r = Inr ()" by code_simp
  then show "?r = (Inr (), snd ?r)" by (metis prod.collapse)
qed (simp_all add: sample_database_def)

text \<open>
  A read error of the SMTP password looks like an unset password. When the database does not
  answer, \<^verbatim>\<open>SMTPPassword\<close> returns the empty password and no error, although the source has a branch that
  wraps the error: the test before it already succeeds because the scanned value is still empty.
\<close>

lemma smtp_password_hides_read_error:
  assumes "\<not> available db"
  shows "SMTPPassword unseal key db = Inr ''''"
  using assms by (simp add: SMTPPassword_def)

end
