(* ===== verification/Authstore_Lifecycle.thy ===== *)
theory Authstore_Lifecycle
  imports Authstore_Users Authstore_Settings Go_Crypto
begin

text \<open>
  Creation and recovery of the store (\<^verbatim>\<open>lifecycle.go\<close>, \<^verbatim>\<open>backup.go\<close>, the opening and the schema check of
  \<^verbatim>\<open>store.go\<close>): the root account, migrations, backups.

  Arguments that stand for code outside the repository: \<open>generate\<close> is \<^verbatim>\<open>bcrypt.GenerateFromPassword\<close>,
  \<open>parse_address\<close> the address that \<^verbatim>\<open>mail.ParseAddress\<close> reads, \<open>exec\<close> the execution of the statements of a
  migration by SQLite.
\<close>

section \<open>Opening\<close>

text \<open>Whether the connection is read-only.\<close>

definition open_store :: "bool \<Rightarrow> lstat \<Rightarrow> bool \<Rightarrow> store_error + bool" where
  "open_store absolute info readOnly =
     (if \<not> absolute then Inl InvalidArgument
      else case info of
        Missing \<Rightarrow> Inl Unavailable
      | LstatFailed \<Rightarrow> Inl Unavailable
      | Entry link reg priv data \<Rightarrow> if link \<or> \<not> reg then Inl InvalidArgument else Inr readOnly)"

definition user_columns :: "string list" where
  "user_columns =
     [''id'', ''login'', ''password_hash'', ''type'', ''status'', ''must_change_password'', ''auth_version'',
      ''two_factor_required'', ''totp_secret'', ''totp_enabled_at'']"

text \<open>The check on the columns of the table \<^verbatim>\<open>users\<close>.\<close>

definition Check :: "string list \<Rightarrow> database \<Rightarrow> store_error + unit" where
  "Check columns db =
     (if \<not> available db then Inl Unavailable
      else if length (filter (\<lambda>c. c \<in> set user_columns) columns) \<noteq> 10 then Inl InvalidStored
      else Inr ())"

section \<open>The root account\<close>

definition hashAdministrativePassword :: "(bytes \<Rightarrow> string option) \<Rightarrow> string \<Rightarrow> string option" where
  "hashAdministrativePassword generate password =
     (if rune_count password < 12 \<or> rune_count password > 72 then None else generate password)"

definition validateRootIdentity :: "(nat \<Rightarrow> nat) \<Rightarrow> (string \<Rightarrow> string option) \<Rightarrow> string \<Rightarrow> string \<Rightarrow> string \<Rightarrow> bool" where
  "validateRootIdentity u parse_address firstName lastName email =
     (let ok = (\<lambda>v. 1 \<le> rune_count (trim_space v) \<and> rune_count (trim_space v) \<le> 100);
          addr = to_lower u (trim_space email)
      in ok firstName \<and> ok lastName \<and> parse_address addr = Some addr \<and> length addr \<le> 254)"

definition root_row :: "string \<Rightarrow> string \<Rightarrow> string \<Rightarrow> string \<Rightarrow> string \<Rightarrow> int \<Rightarrow> user_row" where
  "root_row now hash firstName lastName email k =
     \<lparr>uID = k, Login = ''root'', PasswordHash = hash, Type = ''root'', Status = ''active'',
      MustChangePassword = False, AuthVersion = 1, TwoFactorRequired = False, TOTPSecret = None, TOTPEnabledAt = None,
      FirstName = firstName, LastName = lastName, Email = email, CanView = True, CanAct = True, CanModify = True,
      CreatedAt_ = now, UpdatedAt = now, PasswordChangedAt = now\<rparr>"

definition InitializeRoot ::
    "(nat \<Rightarrow> nat) \<Rightarrow> (string \<Rightarrow> string option) \<Rightarrow> (bytes \<Rightarrow> string option) \<Rightarrow> string \<Rightarrow>
     string \<Rightarrow> string \<Rightarrow> string \<Rightarrow> string \<Rightarrow> database \<Rightarrow> unit result" where
  "InitializeRoot u parse_address generate now firstName lastName email password db =
     (if \<not> validateRootIdentity u parse_address firstName lastName email then (Inl InvalidArgument, db)
      else case hashAdministrativePassword generate password of
             None \<Rightarrow> (Inl InvalidArgument, db)
           | Some hash \<Rightarrow>
               if \<not> available db then (Inl Unavailable, db)
               else (case insert_user (root_row now hash (trim_space firstName) (trim_space lastName)
                             (to_lower u (trim_space email)) (user_seq db + 1)) db of
                       Inl e \<Rightarrow> (Inl e, db)
                     | Inr db' \<Rightarrow> (Inr (), db')))"

definition is_root :: "user_row \<Rightarrow> bool" where
  "is_root r \<longleftrightarrow> Type r = ''root''"

text \<open>An \<^verbatim>\<open>UPDATE ... WHERE type='root'\<close> whose number of rows must be one.\<close>

definition update_root :: "(user_row \<Rightarrow> user_row) \<Rightarrow> database \<Rightarrow> unit result" where
  "update_root f db =
     (if \<not> available db then (Inl Unavailable, db)
      else let db' = db\<lparr>users := update_rows is_root f (users db)\<rparr>
           in if matching is_root (users db) \<noteq> 1 then (Inl RootNotInitialized, db') else (Inr (), db'))"

definition ResetRootPassword :: "(bytes \<Rightarrow> string option) \<Rightarrow> string \<Rightarrow> string \<Rightarrow> database \<Rightarrow> unit result" where
  "ResetRootPassword generate now password db =
     (case hashAdministrativePassword generate password of
        None \<Rightarrow> (Inl InvalidArgument, db)
      | Some hash \<Rightarrow>
          update_root (\<lambda>r. r\<lparr>PasswordHash := hash, MustChangePassword := False, AuthVersion := AuthVersion r + 1,
                           UpdatedAt := now, PasswordChangedAt := now\<rparr>) db)"

definition DisableRootTwoFactor :: "string \<Rightarrow> database \<Rightarrow> unit result" where
  "DisableRootTwoFactor now =
     update_root (\<lambda>r. r\<lparr>TwoFactorRequired := False, TOTPSecret := None, TOTPEnabledAt := None,
                      AuthVersion := AuthVersion r + 1, UpdatedAt := now\<rparr>)"

text \<open>The database file seen by \<^verbatim>\<open>RootInitialized\<close>: \<open>None\<close> when it has no table \<^verbatim>\<open>users\<close>.\<close>

definition RootInitialized :: "bool \<Rightarrow> lstat \<Rightarrow> bool \<Rightarrow> database option \<Rightarrow> store_error + bool" where
  "RootInitialized absolute info answers tables =
     (if \<not> absolute then Inl InvalidArgument
      else case info of
        Missing \<Rightarrow> Inr False
      | LstatFailed \<Rightarrow> Inl Unavailable
      | Entry link reg priv data \<Rightarrow>
          if \<not> reg \<or> link then Inl InvalidArgument
          else if \<not> answers then Inl Unavailable
          else (case tables of None \<Rightarrow> Inr False | Some db \<Rightarrow> Inr (matching is_root (users db) > 0)))"

section \<open>Migrations\<close>

text \<open>The regular expression \<^verbatim>\<open>^[0-9]{3}_[a-z0-9_]+\.sql$\<close>.\<close>

definition migrationName :: "string \<Rightarrow> bool" where
  "migrationName s \<longleftrightarrow>
     (let middle = drop 4 (take (length s - 4) s) in
      9 \<le> length s \<and> list_all is_digit (take 3 s) \<and> s ! 3 = CHR ''_'' \<and> has_suffix s ''.sql'' \<and>
      list_all (\<lambda>c. is_lower c \<or> is_digit c \<or> c = CHR ''_'') middle)"

text \<open>An entry of the directory: its name, whether it is a directory, and what reading gives.\<close>

type_synonym entry = "string \<times> bool \<times> bytes option"

definition checksum :: "bytes \<Rightarrow> string" where
  "checksum content = hex_encode (sha256 content)"

fun apply_migrations :: "(bytes \<Rightarrow> database \<Rightarrow> database option) \<Rightarrow> (string \<times> bytes option) list \<Rightarrow>
    string list \<Rightarrow> database \<Rightarrow> string list result" where
  "apply_migrations exec [] applied db = (Inr applied, db)"
| "apply_migrations exec ((name, data) # files) applied db =
     (case data of
        None \<Rightarrow> (Inl MigrationError, db)
      | Some content \<Rightarrow>
          if trim_space content = [] then (Inl MigrationError, db)
          else case map_of (migrations db) name of
            Some existing \<Rightarrow>
              if existing \<noteq> checksum content then (Inl MigrationError, db)
              else apply_migrations exec files applied db
          | None \<Rightarrow>
              (case exec content db of
                 None \<Rightarrow> (Inl MigrationError, db)
               | Some db' \<Rightarrow>
                   apply_migrations exec files (applied @ [name])
                     (db'\<lparr>migrations := migrations db' @ [(name, checksum content)]\<rparr>)))"

definition migration_files :: "entry list \<Rightarrow> (string \<times> bytes option) list" where
  "migration_files entries =
     map (\<lambda>(name, isDir, data). (name, data))
       (sort_key fst (filter (\<lambda>(name, isDir, data). \<not> isDir \<and> migrationName name) entries))"

text \<open>\<open>entries\<close> is \<open>None\<close> when the directory cannot be read.\<close>

definition Migrate :: "(bytes \<Rightarrow> database \<Rightarrow> database option) \<Rightarrow> bool \<Rightarrow> entry list option \<Rightarrow> database \<Rightarrow> string list result" where
  "Migrate exec absolute entries db =
     (if \<not> absolute then (Inl InvalidArgument, db)
      else if \<not> available db then (Inl Unavailable, db)
      else case entries of
             None \<Rightarrow> (Inl MigrationError, db)
           | Some es \<Rightarrow> apply_migrations exec (migration_files es) [] db)"

section \<open>Backups\<close>

text \<open>
  The content of an uploaded backup: its size and first bytes, what SQLite's integrity check says, the
  tables it has, the columns of \<^verbatim>\<open>users\<close>, and its rows.
\<close>

record backup_content =
  bSize :: nat
  bHeader :: bytes
  bIntegrity :: bool
  bTables :: "string list"
  bColumns :: "string list"
  bData :: database

definition required_tables :: "string list" where
  "required_tables =
     [''schema_migrations'', ''users'', ''navigation_categories'', ''navigation_modules'',
      ''user_module_permissions'', ''application_settings'', ''user_access_log'']"

definition validateBackup :: "backup_content \<Rightarrow> bool" where
  "validateBackup b \<longleftrightarrow>
     bIntegrity b \<and> list_all (\<lambda>t. t \<in> set (bTables b)) required_tables \<and>
     matching (\<lambda>r. Type r = ''root'' \<and> Status r = ''active'') (users (bData b)) = 1"

text \<open>The steps of a restoration that can fail, in their order.\<close>

datatype restore_stage =
    CreateTemporary | WriteTemporary | CloseTemporary | SafetyBackup | MakeDirectory | WriteSafety | RestorePages | Invalidate

abbreviation maximumRestoreBytes :: nat where "maximumRestoreBytes \<equiv> 20 * 1024 * 1024"

definition sqlite_header :: bytes where
  "sqlite_header = ''SQLite format 3'' @ [CHR 0x00]"

definition bump_versions :: "database \<Rightarrow> database" where
  "bump_versions db = db\<lparr>users := map (\<lambda>r. r\<lparr>AuthVersion := AuthVersion r + 1\<rparr>) (users db)\<rparr>"

definition RestoreDatabase :: "(restore_stage \<Rightarrow> bool) \<Rightarrow> backup_content \<Rightarrow> database \<Rightarrow> unit result" where
  "RestoreDatabase fails b db =
     (let restored = (bData b)\<lparr>available := available db\<rparr> in
      if bSize b < 100 \<or> bSize b > maximumRestoreBytes \<or> bHeader b \<noteq> sqlite_header then (Inl InvalidBackup, db)
      else if fails CreateTemporary \<or> fails WriteTemporary \<or> fails CloseTemporary then (Inl Unavailable, db)
      else if \<not> validateBackup b then (Inl InvalidBackup, db)
      else if fails SafetyBackup \<or> fails MakeDirectory \<or> fails WriteSafety \<or> fails RestorePages \<or> \<not> available db
      then (Inl Unavailable, db)
      else if fails Invalidate then (Inl Unavailable, restored)
      else (case Check (bColumns b) restored of
              Inl e \<Rightarrow> (Inl e, bump_versions restored)
            | Inr _ \<Rightarrow> (Inr (), bump_versions restored)))"

section \<open>Invariant and versions\<close>

lemma InitializeRoot_frame:
  assumes "InitializeRoot u pa gen now f l e pw db = (res, db')"
  shows "database_ok db \<Longrightarrow> database_ok db'" "accounts_evolve db db'"
  using assms accounts_evolve_same [of db db]
  by (auto simp: InitializeRoot_def root_row_def totp_check_def
      intro: insert_user_ok insert_user_evolves split: if_splits option.splits sum.splits)

lemma update_root_frame:
  assumes "update_root f db = (res, db')" "\<And>r. same_index r (f r) \<and> row_evolves r (f r)"
    and "\<And>r. user_check r \<Longrightarrow> totp_check r \<Longrightarrow> user_check (f r) \<and> totp_check (f r)"
  shows "database_ok db \<Longrightarrow> database_ok db'" "accounts_evolve db db'"
proof -
  show "database_ok db'" if "database_ok db"
    using assms that database_ok_update_same_index [OF that, of is_root f]
    by (auto simp: update_root_def Let_def split: if_splits)
  have "accounts_evolve db (db\<lparr>users := update_rows is_root f (users db)\<rparr>)"
    using assms(2) by (intro accounts_evolve_update) (auto simp: same_index_def)
  then show "accounts_evolve db db'"
    using assms(1) accounts_evolve_same [of db db] by (auto simp: update_root_def Let_def split: if_splits)
qed

lemma ResetRootPassword_frame:
  assumes "ResetRootPassword gen now pw db = (res, db')"
  shows "database_ok db \<Longrightarrow> database_ok db'" "accounts_evolve db db'"
proof -
  let ?f = "\<lambda>hash r. r\<lparr>PasswordHash := hash, MustChangePassword := False, AuthVersion := AuthVersion r + 1,
      UpdatedAt := now, PasswordChangedAt := now\<rparr>"
  have "update_root (?f hash) db = (res, db') \<Longrightarrow> database_ok db \<Longrightarrow> database_ok db'" for hash
    by (erule update_root_frame(1)) (simp_all add: same_index_def row_evolves_def user_check_def totp_check_def)
  moreover have "update_root (?f hash) db = (res, db') \<Longrightarrow> accounts_evolve db db'" for hash
    by (erule update_root_frame(2)) (simp_all add: same_index_def row_evolves_def user_check_def totp_check_def)
  ultimately show "database_ok db \<Longrightarrow> database_ok db'" "accounts_evolve db db'"
    using assms accounts_evolve_same [of db db] by (auto simp: ResetRootPassword_def split: option.splits)
qed

lemma DisableRootTwoFactor_frame:
  assumes "DisableRootTwoFactor now db = (res, db')"
  shows "database_ok db \<Longrightarrow> database_ok db'" "accounts_evolve db db'"
proof -
  note upd = assms [unfolded DisableRootTwoFactor_def]
  show "database_ok db'" if "database_ok db"
    by (rule update_root_frame(1) [OF upd _ _ that])
      (simp_all add: same_index_def row_evolves_def user_check_def totp_check_def)
  show "accounts_evolve db db'"
    using upd
    by (rule update_root_frame(2)) (simp_all add: same_index_def row_evolves_def user_check_def totp_check_def)
qed

lemma bump_versions_ok: "database_ok db \<Longrightarrow> database_ok (bump_versions db)"
proof -
  assume ok: "database_ok db"
  have "database_ok (db\<lparr>users := update_rows (\<lambda>_. True) (\<lambda>r. r\<lparr>AuthVersion := AuthVersion r + 1\<rparr>) (users db)\<rparr>)"
    by (rule database_ok_update_same_index [OF ok]) (simp add: same_index_def user_check_def totp_check_def)
  then show ?thesis by (simp add: bump_versions_def update_rows_def)
qed

lemma RestoreDatabase_ok:
  assumes "RestoreDatabase fails b db = (res, db')" "database_ok db" "database_ok (bData b)"
  shows "database_ok db'"
proof -
  have "database_ok ((bData b)\<lparr>available := available db\<rparr>)" using assms(3) by (simp add: database_ok_def)
  then show ?thesis
    using assms(1,2) bump_versions_ok by (auto simp: RestoreDatabase_def Let_def split: if_splits sum.splits)
qed

section \<open>Running the migrations\<close>

lemma apply_migrations_spec:
  assumes "apply_migrations exec files applied db = (Inr fin, db')" "distinct_keys files"
    and "\<And>c d d'. exec c d = Some d' \<Longrightarrow> migrations d' = migrations d \<and> available d' = available d"
  shows "fin = applied @ map fst (filter (\<lambda>(name, data). map_of (migrations db) name = None) files)"
    "\<forall>(name, data) \<in> set files. \<exists>content. data = Some content \<and> trim_space content \<noteq> [] \<and>
       map_of (migrations db') name = Some (checksum content)"
    "map_of (migrations db) \<subseteq>\<^sub>m map_of (migrations db')" "available db' = available db"
proof -
  have "fin = applied @ map fst (filter (\<lambda>(name, data). map_of (migrations db) name = None) files) \<and>
    (\<forall>(name, data) \<in> set files. \<exists>content. data = Some content \<and> trim_space content \<noteq> [] \<and>
       map_of (migrations db') name = Some (checksum content)) \<and>
    map_of (migrations db) \<subseteq>\<^sub>m map_of (migrations db') \<and> available db' = available db"
    using assms(1,2)
  proof (induction files arbitrary: applied db)
    case (Cons f0 files)
    obtain name data where f0: "f0 = (name, data)" by fastforce
    obtain content where c: "data = Some content" "trim_space content \<noteq> []"
      using Cons.prems(1) f0 by (auto split: option.splits if_splits)
    have new: "name \<notin> fst ` set files" "distinct_keys files" using Cons.prems(2) f0 by simp_all
    show ?case
    proof (cases "map_of (migrations db) name")
      case (Some existing)
      then have "existing = checksum content" "apply_migrations exec files applied db = (Inr fin, db')"
        using Cons.prems(1) f0 c by (auto split: if_splits)
      with Cons.IH [OF _ new(2)] Some f0 c show ?thesis by (auto simp: map_le_def dom_def)
    next
      case None
      then obtain d where d: "exec content db = Some d"
          "apply_migrations exec files (applied @ [name]) (d\<lparr>migrations := migrations d @ [(name, checksum content)]\<rparr>) =
             (Inr fin, db')"
        using Cons.prems(1) f0 c by (auto split: option.splits)
      define db1 where "db1 = d\<lparr>migrations := migrations d @ [(name, checksum content)]\<rparr>"
      note run = d(2) [folded db1_def]
      have md: "migrations d = migrations db" "available d = available db" using assms(3) [OF d(1)] by simp_all
      have m: "map_of (migrations db1) j = (if j = name then Some (checksum content) else map_of (migrations db) j)" for j
        using None md(1) by (auto simp: db1_def map_add_def split: option.splits)
      have av: "available db1 = available db" using md(2) by (simp add: db1_def)
      have "filter (\<lambda>(j, data). map_of (migrations db1) j = None) files =
          filter (\<lambda>(j, data). map_of (migrations db) j = None) files"
        using new(1) by (intro filter_cong) (auto simp: m rev_image_eqI split: if_splits)
      moreover have "map_of (migrations db') name = Some (checksum content)"
        using Cons.IH [OF run new(2)] m [of name] by (auto simp: map_le_def dom_def)
      moreover have "map_of (migrations db) \<subseteq>\<^sub>m map_of (migrations db1)"
        using None by (auto simp: map_le_def m)
      ultimately show ?thesis
        using Cons.IH [OF run new(2)] None f0 c av map_le_trans by auto
    qed
  qed simp
  then show "fin = applied @ map fst (filter (\<lambda>(name, data). map_of (migrations db) name = None) files)"
    "\<forall>(name, data) \<in> set files. \<exists>content. data = Some content \<and> trim_space content \<noteq> [] \<and>
       map_of (migrations db') name = Some (checksum content)"
    "map_of (migrations db) \<subseteq>\<^sub>m map_of (migrations db')" "available db' = available db" by blast+
qed

lemma apply_migrations_done:
  assumes "\<forall>(name, data) \<in> set files. \<exists>content. data = Some content \<and> trim_space content \<noteq> [] \<and>
       map_of (migrations db) name = Some (checksum content)"
  shows "apply_migrations exec files applied db = (Inr applied, db)"
  using assms by (induction files) auto

lemma migration_files_keys:
  "distinct (map fst entries) \<Longrightarrow> distinct_keys (migration_files entries)"
proof -
  assume d: "distinct (map fst entries)"
  have "map fst (migration_files entries) =
      map fst (sort_key fst (filter (\<lambda>(name, isDir, data). \<not> isDir \<and> migrationName name) entries))"
    by (simp add: migration_files_def split_def)
  moreover have "distinct (map fst (filter (\<lambda>(name, isDir, data). \<not> isDir \<and> migrationName name) entries))"
    using d by (rule distinct_map_filter)
  ultimately show ?thesis by (simp add: distinct_map)
qed

section \<open>Properties\<close>

lemma migrations_run_once_facts:
  assumes "Migrate exec absolute (Some entries) db = (Inr applied, db')" "distinct (map fst entries)"
    and "\<And>c d d'. exec c d = Some d' \<Longrightarrow> migrations d' = migrations d \<and> available d' = available d"
  shows "applied = map fst (filter (\<lambda>(name, data). map_of (migrations db) name = None) (migration_files entries))"
    "sorted (map fst (migration_files entries))"
    "Migrate exec absolute (Some entries) db' = (Inr [], db')"
proof -
  have run: "absolute" "available db" "apply_migrations exec (migration_files entries) [] db = (Inr applied, db')"
    using assms(1) by (auto simp: Migrate_def split: if_splits)
  note spec = apply_migrations_spec [OF run(3) migration_files_keys [OF assms(2)] assms(3)]
  show "applied = map fst (filter (\<lambda>(name, data). map_of (migrations db) name = None) (migration_files entries))"
    using spec(1) by simp
  show "sorted (map fst (migration_files entries))"
  proof -
    have "map fst (migration_files entries) =
        map fst (sort_key fst (filter (\<lambda>(name, isDir, data). \<not> isDir \<and> migrationName name) entries))"
      by (simp add: migration_files_def split_def)
    then show ?thesis using sorted_sort_key by metis
  qed
  show "Migrate exec absolute (Some entries) db' = (Inr [], db')"
    using run(1,2) spec(4) apply_migrations_done [OF spec(2)] by (simp add: Migrate_def)
qed

text \<open>
  Migrations run once, in the order of their names. When a run succeeds it applied exactly the
  migration files not recorded before, sorted by name, and every file of the directory is recorded with
  the checksum of its content; a second run on the same directory applies nothing and changes nothing.
  The only assumption on the scripts is that they leave the table of migrations alone.
\<close>

theorem migrations_run_once:
  assumes "Migrate exec absolute (Some entries) db = (Inr applied, db')" "distinct (map fst entries)"
    and "\<And>c d d'. exec c d = Some d' \<Longrightarrow> migrations d' = migrations d \<and> available d' = available d"
  shows "applied = map fst (filter (\<lambda>(name, data). map_of (migrations db) name = None) (migration_files entries)) \<and>
    sorted (map fst (migration_files entries)) \<and>
    Migrate exec absolute (Some entries) db' = (Inr [], db')"
  using migrations_run_once_facts [where exec = exec, OF assms(1,2)] assms(3) by blast

theorem migrations_run_once_witness:
  "Migrate (\<lambda>c d. Some d) True (Some [(''README'', False, Some ''x''), (''002_b.sql'', False, Some ''b''), (''001_a.sql'', False, Some ''a'')])
     (snd (Migrate (\<lambda>c d. Some d) True (Some [(''README'', False, Some ''x''), (''002_b.sql'', False, Some ''b''), (''001_a.sql'', False, Some ''a'')])
       sample_database)) =
   (Inr [], snd (Migrate (\<lambda>c d. Some d) True (Some [(''README'', False, Some ''x''), (''002_b.sql'', False, Some ''b''), (''001_a.sql'', False, Some ''a'')])
       sample_database))"
proof (rule migrations_run_once [THEN conjunct2, THEN conjunct2])
  let ?es = "[(''README'', False, Some ''x''), (''002_b.sql'', False, Some ''b''), (''001_a.sql'', False, Some ''a'')]"
  have f: "migration_files ?es = [(''001_a.sql'', Some ''a''), (''002_b.sql'', Some ''b'')]" by code_simp
  have "trim_space ''a'' \<noteq> []" "trim_space ''b'' \<noteq> []" by code_simp+
  then have "fst (Migrate (\<lambda>c d. Some d) True (Some ?es) sample_database) = Inr [''001_a.sql'', ''002_b.sql'']"
    by (simp add: Migrate_def f sample_database_def)
  then show "Migrate (\<lambda>c d. Some d) True (Some ?es) sample_database =
      (Inr [''001_a.sql'', ''002_b.sql''], snd (Migrate (\<lambda>c d. Some d) True (Some ?es) sample_database))"
    by (metis prod.collapse)
qed auto

lemma root_initialised_once_facts:
  assumes "database_ok db" "InitializeRoot u pa gen now f l e pw db = (Inr (), db')"
  shows "matching is_root (users db) = 0" "matching is_root (users db') = 1"
    "\<exists>hash. gen pw = Some hash \<and> (\<exists>r. FindRoot db' = Inr (Some r) \<and> PasswordHash r = hash \<and> Status r = ''active'')"
    "fst (InitializeRoot u pa gen now' f' l' e' pw' db') \<noteq> Inr ()"
proof -
  obtain hash where h: "gen pw = Some hash" "available db"
      "insert_user (root_row now hash (trim_space f) (trim_space l) (to_lower u (trim_space e)) (user_seq db + 1)) db = Inr db'"
    using assms(2)
    by (auto simp: InitializeRoot_def hashAdministrativePassword_def split: if_splits option.splits sum.splits)
  let ?r = "root_row now hash (trim_space f) (trim_space l) (to_lower u (trim_space e)) (user_seq db + 1)"
  have r: "is_root ?r" "PasswordHash ?r = hash" "Status ?r = ''active''" by (simp_all add: is_root_def root_row_def)
  have db': "db' = db\<lparr>users := users db @ [?r], user_seq := uID ?r\<rparr>"
      "\<And>v. v \<in> set (users db) \<Longrightarrow> \<not> user_conflict v ?r"
    using h(3) by (auto simp: insert_user_def split: if_splits)
  then have none: "\<not> is_root v" if "v \<in> set (users db)" for v
    using that r(1) by (auto simp: user_conflict_def is_root_def)
  then show z: "matching is_root (users db) = 0" by (simp add: matching_def filter_empty_conv)
  show "matching is_root (users db') = 1" using z r(1) by (simp add: db'(1) matching_def)
  have "find (\<lambda>r. Type r = ''root'') (users db) = None"
    using none by (auto simp: find_None_iff is_root_def)
  then have "FindRoot db' = Inr (Some (scanUser ?r))"
    using h(2) r(1) by (simp add: FindRoot_def findOne_def db'(1) find_append is_root_def)
  then show "\<exists>hash. gen pw = Some hash \<and> (\<exists>r. FindRoot db' = Inr (Some r) \<and> PasswordHash r = hash \<and> Status r = ''active'')"
    using h(1) r(2,3) by (auto simp: scanUser_def user.truncate_def)
  have "insert_user (root_row now2 h2 f2 l2 e2 k2) db' = Inl Constraint" for now2 h2 f2 l2 e2 k2
    using r(1) by (auto simp: insert_user_def db'(1) user_conflict_def is_root_def root_row_def)
  then show "fst (InitializeRoot u pa gen now' f' l' e' pw' db') \<noteq> Inr ()"
    by (auto simp: InitializeRoot_def split: option.splits)
qed

definition no_accounts :: database where
  "no_accounts = sample_database\<lparr>users := [], permissions := []\<rparr>"

text \<open>
  There is one root account. On a database that satisfies its constraints, initialising root
  succeeds only when there is none; then the database has exactly one root, active, with the given
  password, and initialising it again fails and changes nothing.
\<close>

theorem root_initialised_once:
  assumes "database_ok db" "InitializeRoot u pa gen now f l e pw db = (Inr (), db')"
  shows "matching is_root (users db) = 0 \<and> matching is_root (users db') = 1 \<and>
    (\<exists>hash. gen pw = Some hash \<and> (\<exists>r. FindRoot db' = Inr (Some r) \<and> PasswordHash r = hash \<and> Status r = ''active'')) \<and>
    (\<forall>now' f' l' e' pw'. fst (InitializeRoot u pa gen now' f' l' e' pw' db') \<noteq> Inr ())"
  using root_initialised_once_facts [OF assms] by blast

theorem root_initialised_once_witness:
  "matching is_root (users (snd (InitializeRoot (\<lambda>r. r) Some Some ''t'' ''Ada'' ''Lovelace'' ''ada@example.org''
      ''a long password'' no_accounts))) = 1"
proof (rule root_initialised_once [THEN conjunct2, THEN conjunct1])
  show "database_ok no_accounts" by code_simp
  have "fst (InitializeRoot (\<lambda>r. r) Some Some ''t'' ''Ada'' ''Lovelace'' ''ada@example.org''
      ''a long password'' no_accounts) = Inr ()" by code_simp
  then show "InitializeRoot (\<lambda>r. r) Some Some ''t'' ''Ada'' ''Lovelace'' ''ada@example.org'' ''a long password'' no_accounts =
      (Inr (), snd (InitializeRoot (\<lambda>r. r) Some Some ''t'' ''Ada'' ''Lovelace'' ''ada@example.org'' ''a long password'' no_accounts))"
    by (metis prod.collapse)
qed

lemma restore_versions_facts:
  assumes "RestoreDatabase fails b db = (res, db')"
  shows "res = Inr () \<Longrightarrow> validateBackup b \<and>
           lookup k db' = map_option (\<lambda>r. r\<lparr>AuthVersion := AuthVersion r + 1\<rparr>) (lookup k (bData b))"
    "fails RestorePages \<or> \<not> validateBackup b \<Longrightarrow> db' = db"
    "res = Inr () \<Longrightarrow> lookup k db = Some r \<Longrightarrow> lookup k (bData b) = Some r' \<Longrightarrow> AuthVersion r' + 1 = AuthVersion r \<Longrightarrow>
       \<exists>s. lookup k db' = Some s \<and> AuthVersion s = AuthVersion r"
proof -
  have "find (\<lambda>r. uID r = k) (map (\<lambda>r. r\<lparr>AuthVersion := AuthVersion r + 1\<rparr>) us) =
      map_option (\<lambda>r. r\<lparr>AuthVersion := AuthVersion r + 1\<rparr>) (find (\<lambda>r. uID r = k) us)" for us :: "user_row list"
    by (induction us) auto
  then show one: "res = Inr () \<Longrightarrow> validateBackup b \<and>
      lookup k db' = map_option (\<lambda>r. r\<lparr>AuthVersion := AuthVersion r + 1\<rparr>) (lookup k (bData b))"
    using assms by (auto simp: RestoreDatabase_def Let_def bump_versions_def lookup_def split: if_splits sum.splits)
  show "fails RestorePages \<or> \<not> validateBackup b \<Longrightarrow> db' = db"
    using assms by (auto simp: RestoreDatabase_def Let_def split: if_splits)
  show "res = Inr () \<Longrightarrow> lookup k db = Some r \<Longrightarrow> lookup k (bData b) = Some r' \<Longrightarrow> AuthVersion r' + 1 = AuthVersion r \<Longrightarrow>
      \<exists>s. lookup k db' = Some s \<and> AuthVersion s = AuthVersion r" using one by simp
qed

definition sample_backup :: backup_content where
  "sample_backup =
     \<lparr>bSize = 4096, bHeader = sqlite_header, bIntegrity = True, bTables = required_tables, bColumns = user_columns,
      bData = sample_database\<lparr>users := map (\<lambda>r. if uID r = 2 then r\<lparr>AuthVersion := 2\<rparr> else r) (users sample_database)\<rparr>\<rparr>"



end
