(* ===== verification/Authstore.thy ===== *)
theory Authstore
  imports Authstore_Navigation Authstore_Access_Log Authstore_Lifecycle
begin

text \<open>
  The store as a whole: every operation that changes the database as a step relation, the invariant of
  the schema in every reachable database, and the rule by which account versions protect credentials.
\<close>

section \<open>Steps\<close>

inductive store_step :: "database \<Rightarrow> database \<Rightarrow> bool" where
  driver: "store_step db (db\<lparr>available := b\<rparr>)"
| prepare: "PrepareTOTP now k v secret db = (r1, db') \<Longrightarrow> store_step db db'"
| enable: "EnableTOTP now k v secret db = (r1, db') \<Longrightarrow> store_step db db'"
| disable: "DisableTOTP now k v db = (r1, db') \<Longrightarrow> store_step db db'"
| change: "ChangePassword now k v old new db = (r1, db') \<Longrightarrow> store_step db db'"
| create: "CreateAdminUser now u hash perms db = (r2, db') \<Longrightarrow> store_step db db'"
| update: "UpdateAdminUser now u perms reset db = (r3, db') \<Longrightarrow> store_step db db'"
| reset: "ResetAdminPassword now k hash db = (r3, db') \<Longrightarrow> store_step db db'"
| delete: "DeleteAdminUser k db = (r3, db') \<Longrightarrow> store_step db db'"
| root: "InitializeRoot lower pa gen now f l e pw db = (r3, db') \<Longrightarrow> store_step db db'"
| root_password: "ResetRootPassword gen now pw db = (r3, db') \<Longrightarrow> store_step db db'"
| root_factor: "DisableRootTwoFactor now db = (r3, db') \<Longrightarrow> store_step db db'"
| ensure_navigation: "EnsureGoNavigation db = (r3, db') \<Longrightarrow> store_step db db'"
| create_category: "CreateCategory name db = (r3, db') \<Longrightarrow> store_step db db'"
| rename_category: "RenameCategory k name db = (r3, db') \<Longrightarrow> store_step db db'"
| delete_category: "DeleteCategory k db = (r3, db') \<Longrightarrow> store_step db db'"
| toggle: "ToggleModule k enabled db = (r3, db') \<Longrightarrow> store_step db db'"
| move_category: "MoveCategory k d db = (r3, db') \<Longrightarrow> store_step db db'"
| move_module: "MoveModule k d db = (r3, db') \<Longrightarrow> store_step db db'"
| reorder: "ReorderNavigation cs byCategory db = (r3, db') \<Longrightarrow> store_step db db'"
| smtp: "UpdateSMTPSettings seal key nonce s p db = (r3, db') \<Longrightarrow> store_step db db'"
| application: "UpdateSettings a db = (r3, db') \<Longrightarrow> store_step db db'"
| theme: "SetTheme k t db = (r3, db') \<Longrightarrow> store_step db db'"
| language: "SetLanguage k lang db = (r3, db') \<Longrightarrow> store_step db db'"
| log: "RecordAccess now who login event success ip agent db = (r3, db') \<Longrightarrow> store_step db db'"

text \<open>A database as the migrations leave it: navigation, but no account.\<close>

definition store_init :: "database \<Rightarrow> bool" where
  "store_init db \<longleftrightarrow>
     users db = [] \<and> user_seq db = 0 \<and> permissions db = [] \<and> preferences db = [] \<and> access_log db = [] \<and>
     distinct_keys (settings db) \<and> categories_ok (categories db) (category_seq db) \<and>
     modules_ok (cID ` set (categories db)) (modules db) (module_seq db)"

lemma oneRow_db [simp]: "snd (oneRow n db) = db"
  by (simp add: oneRow_def)

lemma oneRow_eq: "oneRow n db = (r, db') \<Longrightarrow> db' = db"
  by (auto simp: oneRow_def split: if_splits)

lemma insert_module_users: "insert_module m db = Inr db' \<Longrightarrow> users db' = users db \<and> user_seq db' = user_seq db"
  by (auto simp: insert_module_def split: if_splits)

lemma navigation_accounts:
  "EnsureGoNavigation db = (r, db') \<Longrightarrow> accounts_evolve db db'"
  "CreateCategory name db = (r, db') \<Longrightarrow> accounts_evolve db db'"
  "RenameCategory k name db = (r, db') \<Longrightarrow> accounts_evolve db db'"
  "DeleteCategory k db = (r, db') \<Longrightarrow> accounts_evolve db db'"
  "ToggleModule k enabled db = (r, db') \<Longrightarrow> accounts_evolve db db'"
  "MoveCategory k d db = (r, db') \<Longrightarrow> accounts_evolve db db'"
  "MoveModule k d db = (r, db') \<Longrightarrow> accounts_evolve db db'"
  by (rule accounts_evolve_same;
      auto simp: EnsureGoNavigation_def CreateCategory_def RenameCategory_def DeleteCategory_def ToggleModule_def
        MoveCategory_def MoveModule_def Let_def insert_module_users dest!: oneRow_eq
        split: if_splits option.splits sum.splits)+

lemma reorder_users:
  "ReorderNavigation cs byCategory db = (r, db') \<Longrightarrow> users db' = users db \<and> user_seq db' = user_seq db"
  by (auto simp: ReorderNavigation_def reorder_categories_eq split: if_splits sum.splits)

lemma store_step_ok: "store_step db db' \<Longrightarrow> database_ok db \<Longrightarrow> database_ok db'"
proof (induction rule: store_step.induct)
  case (driver db b)
  then show ?case by (simp add: database_ok_def)
qed (blast intro: PrepareTOTP_ok EnableTOTP_ok DisableTOTP_ok ChangePassword_ok CreateAdminUser_ok UpdateAdminUser_ok
    ResetAdminPassword_ok DeleteAdminUser_ok InitializeRoot_frame ResetRootPassword_frame DisableRootTwoFactor_frame
    EnsureGoNavigation_ok CreateCategory_ok RenameCategory_ok DeleteCategory_ok ToggleModule_ok MoveCategory_ok
    MoveModule_ok ReorderNavigation_ok UpdateSMTPSettings_frame UpdateSettings_frame SetTheme_frame SetLanguage_frame
    RecordAccess_frame)+

lemma store_step_evolves: "store_step db db' \<Longrightarrow> database_ok db \<Longrightarrow> accounts_evolve db db'"
proof (induction rule: store_step.induct)
  case (driver db b)
  then show ?case by (simp add: accounts_evolve_same)
next
  case (reorder cs byCategory db r3 db')
  then show ?case using reorder_users accounts_evolve_same by metis
next
  case (smtp seal key nonce s p db r3 db')
  then show ?case using UpdateSMTPSettings_frame accounts_evolve_same by metis
next
  case (application a db r3 db')
  then show ?case using UpdateSettings_frame accounts_evolve_same by metis
next
  case (theme k t db r3 db')
  then show ?case using SetTheme_frame accounts_evolve_same by metis
next
  case (language k lang db r3 db')
  then show ?case using SetLanguage_frame accounts_evolve_same by metis
next
  case (log now who login event success ip agent db r3 db')
  then show ?case using RecordAccess_frame accounts_evolve_same by metis
qed (blast intro: PrepareTOTP_evolves EnableTOTP_evolves DisableTOTP_evolves ChangePassword_evolves
    CreateAdminUser_evolves UpdateAdminUser_evolves ResetAdminPassword_evolves DeleteAdminUser_evolves
    InitializeRoot_frame ResetRootPassword_frame DisableRootTwoFactor_frame navigation_accounts)+

interpretation store_system: invariant_system store_init store_step database_ok
proof
  fix db assume "store_init db"
  then show "database_ok db"
    by (simp add: store_init_def database_ok_def users_ok_def permissions_ok_def preferences_ok_def access_ok_def)
next
  fix db db' assume "store_step db db'" "database_ok db"
  then show "database_ok db'" by (rule store_step_ok)
qed

lemma steps_evolve:
  assumes "store_step\<^sup>*\<^sup>* db db'" "database_ok db"
  shows "accounts_evolve db db'"
  using assms(1)
proof (induction rule: rtranclp_induct)
  case base
  then show ?case by (simp add: accounts_evolve_same)
next
  case (step b c)
  have "database_ok b" by (rule store_system.steps_inv [OF step(1) assms(2)])
  then show ?case
    using accounts_evolve_trans [OF step.IH store_step_evolves [OF step(2)]] assms(2) by blast
qed

lemma lookup_unique:
  assumes "database_ok db" "r \<in> set (users db)"
  shows "lookup (uID r) db = Some r"
  unfolding lookup_def
proof (rule find_unique [OF assms(2)])
  fix s assume "s \<in> set (users db)" "uID s = uID r"
  then show "s = r"
    using pairwise_unique [OF database_ok_pairwise [OF assms(1)] _ assms(2)] by (simp add: user_conflict_def)
qed simp

section \<open>Permissions\<close>

definition granted :: "(int \<times> string) list \<Rightarrow> int \<Rightarrow> string option" where
  "granted items m = (case map_of items m of None \<Rightarrow> None | Some l \<Rightarrow> if l = ''none'' then None else Some l)"

lemma insert_permissions_lookup:
  assumes "insert_permissions k items db = Inr db'" "distinct_keys items"
    and "\<And>m. m \<in> fst ` set items \<Longrightarrow> map_of (permissions db) (k, m) = None"
  shows "map_of (permissions db') (u, m) =
     (if u = k then (case granted items m of None \<Rightarrow> map_of (permissions db) (k, m) | Some l \<Rightarrow> Some l)
      else map_of (permissions db) (u, m))"
  using assms
proof (induction k items db rule: insert_permissions.induct)
  case (2 k j level items db)
  have j: "map_of items j = None" "distinct_keys items" using 2(4) by (simp_all add: map_of_eq_None_iff)
  show ?case
  proof (cases "level = ''none''")
    case True
    then show ?thesis
      using 2(1) [OF True] 2(3,5) j by (cases "m = j") (auto simp: granted_def cong: option.case_cong)
  next
    case False
    let ?db = "db\<lparr>permissions := permissions db @ [((k, j), level)]\<rparr>"
    have run: "insert_permissions k items ?db = Inr db'" using 2(3) False by (auto split: if_splits)
    have none: "map_of (permissions ?db) (k, i) = None" if "i \<in> fst ` set items" for i
    proof -
      have "i \<noteq> j" using that j(1) by (auto simp: map_of_eq_None_iff)
      then show ?thesis using 2(5) [of i] that by (auto simp: map_add_def)
    qed
    have "map_of (permissions db') (u, m) =
       (if u = k then (case granted items m of None \<Rightarrow> map_of (permissions ?db) (k, m) | Some l \<Rightarrow> Some l)
        else map_of (permissions ?db) (u, m))"
      using 2(2,3) False run j(2) none by (auto split: if_splits)
    moreover have "map_of (permissions db) (k, j) = None" using 2(5) [of j] by simp
    ultimately show ?thesis
      using j(1) False by (cases "m = j") (auto simp: granted_def map_add_def split: option.splits)
  qed
qed (simp add: granted_def)

lemma map_of_user_permissions:
  "map_of (map (\<lambda>((u, m), l). (m, l)) (filter (\<lambda>((u, m), l). u = k) ps)) m = map_of ps (k, m)"
  by (induction ps) auto

lemma map_of_other_permissions:
  "map_of (filter (\<lambda>((u, m), l). u \<noteq> k) ps) (u, m) = (if u = k then None else map_of ps (u, m))"
  by (induction ps) auto

lemma replacePermissions_lookup:
  assumes "replacePermissions k items db = Inr db'" "distinct_keys items"
  shows "map_of (permissions db') (u, m) = (if u = k then granted items m else map_of (permissions db) (u, m))"
  using insert_permissions_lookup [OF assms(1) [unfolded replacePermissions_def] assms(2), of u m]
  by (auto simp: map_of_other_permissions split: option.splits)

section \<open>Properties\<close>





text \<open>
  A password is changed only from the state it was decided on. On a valid database that answers,
  \<^verbatim>\<open>ChangePassword\<close> succeeds exactly for an active account with the given identifier, version and current
  hash; then it alone changes: the new hash, no obligation to change it, and the next version, so that
  every session of the old version is refused. Otherwise it reports that the account changed, and
  nothing is written.
\<close>

theorem change_password_exact:
  assumes "database_ok db" "available db"
  shows "ChangePassword now k version old new db =
    (case lookup k db of
       Some r \<Rightarrow>
         if Status r = ''active'' \<and> AuthVersion r = version \<and> PasswordHash r = old
         then (let r' = r\<lparr>PasswordHash := new, MustChangePassword := False, AuthVersion := version + 1,
                          UpdatedAt := now, PasswordChangedAt := now\<rparr>
               in (Inr (scanUser r'), db\<lparr>users := map (\<lambda>s. if uID s = k then r' else s) (users db)\<rparr>))
         else (Inl StateChanged, db)
     | None \<Rightarrow> (Inl StateChanged, db))"
proof -
  let ?P = "\<lambda>r. current k version r \<and> PasswordHash r = old"
  let ?f = "\<lambda>r. r\<lparr>PasswordHash := new, MustChangePassword := False, AuthVersion := AuthVersion r + 1,
      UpdatedAt := now, PasswordChangedAt := now\<rparr>"
  have uniq: "s = r" if "lookup k db = Some r" "s \<in> set (users db)" "uID s = k" for r s
    using lookup_unique [OF assms(1) that(2)] that by simp
  show ?thesis
  proof (cases "\<exists>r. lookup k db = Some r \<and> ?P r")
    case True
    then obtain r where r: "lookup k db = Some r" "?P r" by blast
    have "find ?P (users db) = Some r"
      using lookup_Some [OF r(1)] r uniq by (intro find_unique) (auto simp: current_def)
    moreover have "update_rows ?P ?f (users db) = map (\<lambda>s. if uID s = k then ?f r else s) (users db)"
      using uniq [OF r(1)] r(2) by (auto simp: update_rows_def current_def)
    ultimately show ?thesis
      using r assms(2) by (simp add: ChangePassword_def scanRequiredUser_def current_def Let_def)
  next
    case False
    then have "find ?P (users db) = None"
      using lookup_unique [OF assms(1)] by (auto simp: find_None_iff current_def)
    then show ?thesis
      using False assms(2)
      by (auto simp: ChangePassword_def scanRequiredUser_def current_def split: option.splits dest: lookup_Some)
  qed
qed

theorem change_password_exact_witness:
  "fst (ChangePassword ''t'' 2 2 ''$2y$10$alice'' ''$2y$10$new'' sample_database) = Inl StateChanged \<and>
   available sample_database"
proof -
  have av: "available sample_database" by (simp add: sample_database_def)
  obtain r where "lookup 2 sample_database = Some r" "AuthVersion r = 3"
    by (simp add: sample_database_def lookup_def sample_row_def)
  then show ?thesis using change_password_exact [OF sample_database_ok av] av by simp
qed

lemma permissions_as_requested_facts:
  assumes "UpdateAdminUser now u perms reset db = (res, db')" "distinct_keys perms"
    and "lookup (adID u) db = Some r" "Type r \<noteq> ''root''"
  shows "res = Inr () \<Longrightarrow> (\<exists>ps. ModulePermissions (adID u) db' = Inr ps \<and> (\<forall>m. map_of ps m = granted perms m))"
    "res = Inr () \<Longrightarrow> k \<noteq> adID u \<Longrightarrow> map_of (permissions db') (k, m) = map_of (permissions db) (k, m)"
    "res \<noteq> Inr () \<Longrightarrow> db' = db"
proof -
  let ?db1 = "db\<lparr>users := update_rows (\<lambda>r. uID r = adID u \<and> Type r = ''user'') (update_ordinary_row now u reset) (users db)\<rparr>"
  have step: "available db" "replacePermissions (adID u) perms ?db1 = Inr db'" if "res = Inr ()"
    using assms that by (auto simp: UpdateAdminUser_def lookup_def update_users_def split: if_splits sum.splits option.splits)
  have av: "replacePermissions k items d = Inr d' \<Longrightarrow> available d' = available d" for k items d d'
  proof -
    have "insert_permissions k items d = Inr d' \<Longrightarrow> available d' = available d" for k items d d'
      by (induction k items d rule: insert_permissions.induct) (auto split: if_splits)
    then show "replacePermissions k items d = Inr d' \<Longrightarrow> available d' = available d"
      by (force simp: replacePermissions_def)
  qed
  show "\<exists>ps. ModulePermissions (adID u) db' = Inr ps \<and> (\<forall>m. map_of ps m = granted perms m)" if "res = Inr ()"
    using replacePermissions_lookup [OF step(2) [OF that] assms(2), of "adID u"] av [OF step(2) [OF that]] step(1) [OF that]
    by (auto simp: ModulePermissions_def map_of_user_permissions)
  show "map_of (permissions db') (k, m) = map_of (permissions db) (k, m)" if "res = Inr ()" "k \<noteq> adID u"
    using replacePermissions_lookup [OF step(2) [OF that(1)] assms(2), of k] that(2) by simp
  show "db' = db" if "res \<noteq> Inr ()"
    using that assms by (auto simp: UpdateAdminUser_def lookup_def split: if_splits sum.splits option.splits)
qed

definition sample_update :: AdminUser where
  "sample_update =
     \<lparr>adID = 2, adLogin = ''alice'', adFirstName = ''A'', adLastName = ''L'', adEmail = '''', adType = ''user'',
      adStatus = ''active'', adMustChangePassword = False, adTwoFactorRequired = True, adTwoFactorEnabled = False, adAuthVersion = 3\<rparr>"



end
