(* ===== verification/Webauth_Authentication.thy ===== *)
theory Webauth_Authentication
  imports Webauth_Password Authstore
begin

text \<open>
  The decision of a login (\<^verbatim>\<open>internal/webauth/authentication.go\<close>). The authenticator knows the accounts
  only through the interface \<^verbatim>\<open>UserRepository\<close>: the locale \<open>user_repository\<close> states what it relies on, and
  the store's \<^verbatim>\<open>FindByLogin\<close> and \<^verbatim>\<open>FindRoot\<close> are shown to provide it.
\<close>

section \<open>The authenticator\<close>

datatype NextStep =
    StepInvalid
  | StepAuthenticated
  | StepPasswordChange
  | StepTwoFactorChallenge
  | StepTwoFactorEnrollment

definition zero_user :: user where
  "zero_user =
     \<lparr>uID = 0, Login = '''', PasswordHash = '''', Type = '''', Status = '''', MustChangePassword = False,
      AuthVersion = 0, TwoFactorRequired = False, TOTPSecret = None, TOTPEnabledAt = None\<rparr>"

record auth_result =
  rUser :: user
  rStep :: NextStep

text \<open>
  \<^verbatim>\<open>findByLogin\<close> and \<^verbatim>\<open>findRoot\<close> are the two methods of the repository. An unknown login is checked against
  the password of root, so that it takes as long as a known one; the result of that check is not used.
\<close>

definition Authenticate ::
    "idkey \<Rightarrow> bcrypt \<Rightarrow> (string \<Rightarrow> 'e + user option) \<Rightarrow> ('e + user option) \<Rightarrow> string \<Rightarrow> string
     \<Rightarrow> 'e + auth_result" where
  "Authenticate idkey bcrypt findByLogin findRoot login0 password =
     (let login = trim_space login0 in
      case findByLogin login of
        Inl e \<Rightarrow> Inl e
      | Inr found \<Rightarrow>
          (case (case found of Some u \<Rightarrow> Inr u
                 | None \<Rightarrow> (case findRoot of Inl e \<Rightarrow> Inl e
                            | Inr r \<Rightarrow> Inr (case r of None \<Rightarrow> zero_user | Some v \<Rightarrow> v))) of
             Inl e \<Rightarrow> Inl e
           | Inr reference \<Rightarrow>
               let user = (case found of None \<Rightarrow> zero_user | Some u \<Rightarrow> u);
                   passwordValid = VerifyPassword idkey bcrypt password (PasswordHash reference)
               in if found = None \<or> \<not> passwordValid \<or> Status user \<noteq> ''active''
                  then Inr \<lparr>rUser = zero_user, rStep = StepInvalid\<rparr>
                  else if TOTPSecret user \<noteq> None \<and> TOTPEnabledAt user \<noteq> None
                  then Inr \<lparr>rUser = user, rStep = StepTwoFactorChallenge\<rparr>
                  else if TwoFactorRequired user then Inr \<lparr>rUser = user, rStep = StepTwoFactorEnrollment\<rparr>
                  else if MustChangePassword user then Inr \<lparr>rUser = user, rStep = StepPasswordChange\<rparr>
                  else Inr \<lparr>rUser = user, rStep = StepAuthenticated\<rparr>))"

section \<open>What the authenticator relies on\<close>

text \<open>
  A repository holds accounts. When it answers, both methods answer; a lookup gives an account it holds
  under that login, whatever the case of its letters, and gives none only if there is none. A login is
  held by one account.
\<close>

locale user_repository =
  fixes by_login :: "'d \<Rightarrow> string \<Rightarrow> 'e + user option"
    and by_root :: "'d \<Rightarrow> 'e + user option"
    and answers :: "'d \<Rightarrow> bool"
    and accounts :: "'d \<Rightarrow> user set"
  assumes answer: "answers d \<Longrightarrow> \<exists>x y. by_login d l = Inr x \<and> by_root d = Inr y"
    and silence: "\<not> answers d \<Longrightarrow> \<exists>e. by_login d l = Inl e"
    and held: "by_login d l = Inr (Some u) \<Longrightarrow> u \<in> accounts d \<and> nocase (Login u) l"
    and complete: "by_login d l = Inr None \<Longrightarrow> u \<in> accounts d \<Longrightarrow> \<not> nocase (Login u) l"
begin

definition unique_logins :: "'d \<Rightarrow> bool" where
  "unique_logins d \<longleftrightarrow> (\<forall>u \<in> accounts d. \<forall>v \<in> accounts d. nocase (Login u) (Login v) \<longrightarrow> u = v)"

lemma by_login_iff:
  assumes "unique_logins d" "answers d"
  shows "by_login d l = Inr (Some u) \<longleftrightarrow> u \<in> accounts d \<and> nocase (Login u) l"
proof
  assume "u \<in> accounts d \<and> nocase (Login u) l"
  moreover obtain x where x: "by_login d l = Inr x" using answer [OF assms(2)] by blast
  ultimately obtain v where v: "x = Some v" using complete by (cases x) auto
  have "v = u"
    using held [OF x [unfolded v]] \<open>u \<in> accounts d \<and> nocase (Login u) l\<close> assms(1)
    by (auto simp: unique_logins_def nocase_def)
  with x v show "by_login d l = Inr (Some u)" by simp
qed (rule held)

end

text \<open>The step an account is sent to once its password was given.\<close>

definition step_for :: "user \<Rightarrow> NextStep" where
  "step_for u =
     (if TOTPSecret u \<noteq> None \<and> TOTPEnabledAt u \<noteq> None then StepTwoFactorChallenge
      else if TwoFactorRequired u then StepTwoFactorEnrollment
      else if MustChangePassword u then StepPasswordChange
      else StepAuthenticated)"

lemma step_for_valid [simp]: "step_for u \<noteq> StepInvalid"
  by (simp add: step_for_def)

text \<open>With both methods answering, the decision depends on the account found only.\<close>

lemma Authenticate_Inr:
  assumes "findByLogin (trim_space login) = Inr x" "findRoot = Inr y"
  shows "Authenticate idkey bcrypt findByLogin findRoot login password =
    Inr (case x of
           None \<Rightarrow> \<lparr>rUser = zero_user, rStep = StepInvalid\<rparr>
         | Some u \<Rightarrow>
             if VerifyPassword idkey bcrypt password (PasswordHash u) \<and> Status u = ''active''
             then \<lparr>rUser = u, rStep = step_for u\<rparr>
             else \<lparr>rUser = zero_user, rStep = StepInvalid\<rparr>)"
  using assms by (auto simp: Authenticate_def Let_def step_for_def split: option.splits)

text \<open>Without any assumption on the repository: who is let through is the account it found.\<close>

lemma Authenticate_accepts:
  assumes "Authenticate idkey bcrypt findByLogin findRoot login password = Inr res" "rStep res \<noteq> StepInvalid"
  shows "findByLogin (trim_space login) = Inr (Some (rUser res))"
    and "VerifyPassword idkey bcrypt password (PasswordHash (rUser res))"
    and "Status (rUser res) = ''active''" and "rStep res = step_for (rUser res)"
  using assms
  by (auto simp: Authenticate_def Let_def step_for_def split: option.splits sum.splits if_splits)

context user_repository
begin

lemma authenticates:
  assumes "unique_logins d" "answers d"
  shows "Authenticate idkey bcrypt (by_login d) (by_root d) login password =
      Inr \<lparr>rUser = u, rStep = step_for u\<rparr> \<longleftrightarrow>
    u \<in> accounts d \<and> nocase (Login u) (trim_space login) \<and>
    VerifyPassword idkey bcrypt password (PasswordHash u) \<and> Status u = ''active''"
proof -
  obtain x y where xy: "by_login d (trim_space login) = Inr x" "by_root d = Inr y"
    using answer [OF assms(2)] by blast
  show ?thesis
    using by_login_iff [OF assms, of "trim_space login" u] xy(1) step_for_valid [of u]
      Authenticate_Inr [where findByLogin = "by_login d", OF xy, of idkey bcrypt password]
    by (auto simp del: step_for_valid split: option.splits if_splits)
qed

lemma rejects_or_accepts:
  assumes "answers d"
  shows "\<exists>u st. Authenticate idkey bcrypt (by_login d) (by_root d) login password = Inr \<lparr>rUser = u, rStep = st\<rparr> \<and>
    (st = StepInvalid \<and> u = zero_user \<or> st = step_for u)"
proof -
  obtain x y where xy: "by_login d (trim_space login) = Inr x" "by_root d = Inr y"
    using answer [OF assms] by blast
  show ?thesis by (auto simp: Authenticate_Inr [where findByLogin = "by_login d", OF xy] split: option.splits)
qed

lemma unavailable:
  assumes "\<not> answers d"
  shows "\<exists>e. Authenticate idkey bcrypt (by_login d) (by_root d) login password = Inl e"
  using silence [OF assms, of "trim_space login"] by (auto simp: Authenticate_def)

end

section \<open>The store is such a repository\<close>

interpretation store_repository:
  user_repository "\<lambda>db login. FindByLogin login db" FindRoot available "\<lambda>db. scanUser ` set (users db)"
proof
  show "\<exists>x y. FindByLogin l db = Inr x \<and> FindRoot db = Inr y" if "available db" for db l
    using that by (simp add: FindByLogin_def FindRoot_def findOne_def)
  show "\<exists>e. FindByLogin l db = Inl e" if "\<not> available db" for db l
    using that by (simp add: FindByLogin_def findOne_def)
  show "u \<in> scanUser ` set (users db) \<and> nocase (Login u) l" if "FindByLogin l db = Inr (Some u)" for db l u
    using that by (auto simp: FindByLogin_def findOne_def scanUser_def user.defs split: if_splits dest!: find_SomeD)
  show "\<not> nocase (Login u) l"
    if "FindByLogin l db = Inr None" "u \<in> scanUser ` set (users db)" for db l u
    using that by (auto simp: FindByLogin_def findOne_def find_None_iff scanUser_def user.defs split: if_splits)
qed

lemma scanUser_simps [simp]:
  "uID (scanUser r) = uID r" "Login (scanUser r) = Login r" "PasswordHash (scanUser r) = PasswordHash r"
  "Type (scanUser r) = Type r" "Status (scanUser r) = Status r"
  "MustChangePassword (scanUser r) = MustChangePassword r" "AuthVersion (scanUser r) = AuthVersion r"
  "TwoFactorRequired (scanUser r) = TwoFactorRequired r" "TOTPSecret (scanUser r) = TOTPSecret r"
  "TOTPEnabledAt (scanUser r) = TOTPEnabledAt r"
  by (simp_all add: scanUser_def user.defs)

lemma store_unique_logins:
  assumes "database_ok db"
  shows "store_repository.unique_logins db"
proof -
  have "r = s" if "r \<in> set (users db)" "s \<in> set (users db)" "nocase (Login r) (Login s)" for r s
    using pairwise_unique [OF database_ok_pairwise [OF assms] that(2,1)] that(3) by (auto simp: user_conflict_def nocase_def)
  then show ?thesis by (auto simp: store_repository.unique_logins_def)
qed

abbreviation store_authenticate ::
    "idkey \<Rightarrow> bcrypt \<Rightarrow> database \<Rightarrow> string \<Rightarrow> string \<Rightarrow> store_error + auth_result" where
  "store_authenticate idkey bcrypt db \<equiv> Authenticate idkey bcrypt (\<lambda>login. FindByLogin login db) (FindRoot db)"

section \<open>Properties\<close>

text \<open>
  C5: a login is accepted exactly for the right password of an active account. On a valid database
  that answers, the authenticator returns an account with the step it is due (a second factor if one is
  active, its enrolment if it is required, a password change if one is due, otherwise the session)
  exactly when an account has that login up to the case of ASCII letters and surrounding space, the
  password verifies against its hash and it is active; in every other case the result is invalid and
  names no account. A database that does not answer is an error, never an accepted login.
\<close>

theorem authenticate_exact:
  assumes "database_ok db"
  shows "if available db
    then (\<forall>u. store_authenticate idkey bcrypt db login password = Inr \<lparr>rUser = u, rStep = step_for u\<rparr> \<longleftrightarrow>
            (\<exists>r \<in> set (users db). u = scanUser r \<and> nocase (Login r) (trim_space login) \<and>
               VerifyPassword idkey bcrypt password (PasswordHash r) \<and> Status r = ''active'')) \<and>
         (\<exists>u st. store_authenticate idkey bcrypt db login password = Inr \<lparr>rUser = u, rStep = st\<rparr> \<and>
            (st = StepInvalid \<and> u = zero_user \<or> st = step_for u))
    else (\<exists>e. store_authenticate idkey bcrypt db login password = Inl e)"
proof (cases "available db")
  case True
  have "store_authenticate idkey bcrypt db login password = Inr \<lparr>rUser = u, rStep = step_for u\<rparr> \<longleftrightarrow>
      (\<exists>r \<in> set (users db). u = scanUser r \<and> nocase (Login r) (trim_space login) \<and>
         VerifyPassword idkey bcrypt password (PasswordHash r) \<and> Status r = ''active'')" for u
    using store_repository.authenticates [OF store_unique_logins [OF assms] True] by auto
  then show ?thesis using store_repository.rejects_or_accepts [OF True] True by simp
next
  case False
  then show ?thesis using store_repository.unavailable by simp
qed

theorem authenticate_exact_witness:
  "\<exists>u. store_authenticate (\<lambda>_ _ _ _ _ _. []) (\<lambda>h p. p = ''right'' \<and> h = ''$2y$10$alice'') sample_database
      '' ALICE '' ''right'' = Inr \<lparr>rUser = u, rStep = step_for u\<rparr> \<and> uID u = 2"
proof -
  have av: "available sample_database" by (simp add: sample_database_def)
  let ?r = "users sample_database ! 1"
  have r: "?r \<in> set (users sample_database)" "nocase (Login ?r) (trim_space '' ALICE '')"
      "VerifyPassword (\<lambda>_ _ _ _ _ _. []) (\<lambda>h p. p = ''right'' \<and> h = ''$2y$10$alice'') ''right'' (PasswordHash ?r)"
      "Status ?r = ''active''" "uID (scanUser ?r) = 2"
    by code_simp+
  from authenticate_exact [OF sample_database_ok, of "\<lambda>_ _ _ _ _ _. []"
      "\<lambda>h p. p = ''right'' \<and> h = ''$2y$10$alice''" "'' ALICE ''" "''right''"] av r
  show ?thesis by auto
qed

end
