(* ===== verification/Go_Net.thy ===== *)
theory Go_Net
  imports Go_Prelude
begin

text \<open>
  What the sources use of Go's packages \<^verbatim>\<open>net\<close> and \<^verbatim>\<open>net/netip\<close>: \<^verbatim>\<open>SplitHostPort\<close>, the parsers of IPv4 and
  IPv6 addresses, the canonical text of an address and the test for loopback addresses. An address is
  its sixteen bytes, IPv4 addresses mapped into IPv6 as \<^verbatim>\<open>net.ParseIP\<close> returns them; the parser of \<^verbatim>\<open>netip\<close>
  also says which family it read and gives the zone.
\<close>

section \<open>Addresses\<close>

type_synonym ip = "int list"

fun index_char :: "char \<Rightarrow> string \<Rightarrow> nat option" where
  "index_char c [] = None"
| "index_char c (x # xs) = (if x = c then Some 0 else map_option Suc (index_char c xs))"

text \<open>One field of a dotted address: digits without a leading zero, at most 255.\<close>

definition ipv4_field :: "string \<Rightarrow> int option" where
  "ipv4_field s =
     (if s = [] \<or> \<not> list_all is_digit s \<or> (1 < length s \<and> hd s = CHR ''0'') then None
      else case parse_decimal s of None \<Rightarrow> None | Some n \<Rightarrow> if n \<le> 255 then Some (int n) else None)"

fun all_some :: "'a option list \<Rightarrow> 'a list option" where
  "all_some [] = Some []"
| "all_some (None # xs) = None"
| "all_some (Some x # xs) = map_option (Cons x) (all_some xs)"

definition parse_ipv4 :: "string \<Rightarrow> int list option" where
  "parse_ipv4 s =
     (let parts = split_char CHR ''.'' s
      in if length parts \<noteq> 4 then None else all_some (map ipv4_field parts))"

definition hex_value :: "char \<Rightarrow> int option" where
  "hex_value c =
     (if is_digit c then Some (of_char c - 48)
      else if in_range CHR ''a'' CHR ''f'' c then Some (of_char c - 87)
      else if in_range CHR ''A'' CHR ''F'' c then Some (of_char c - 55)
      else None)"

fun hex_acc :: "int \<Rightarrow> string \<Rightarrow> int" where
  "hex_acc n [] = n"
| "hex_acc n (c # s) = (case hex_value c of None \<Rightarrow> n | Some d \<Rightarrow> hex_acc (n * 16 + d) s)"

text \<open>
  The groups of an IPv6 address: \<open>k\<close> groups of two bytes may still follow, \<open>bs\<close> are the bytes read, and
  \<open>ell\<close> is where the \<^verbatim>\<open>::\<close> stood. The result is the bytes, the place of the \<^verbatim>\<open>::\<close> and what is left.
\<close>

fun ipv6_groups :: "nat \<Rightarrow> string \<Rightarrow> ip \<Rightarrow> nat option \<Rightarrow> (ip \<times> nat option \<times> string) option" where
  "ipv6_groups 0 s bs ell = Some (bs, ell, s)"
| "ipv6_groups (Suc k) s bs ell =
     (let digits = takeWhile (\<lambda>c. hex_value c \<noteq> None) s; rest = drop (length digits) s; acc = hex_acc 0 digits
      in if digits = [] \<or> 4 < length digits then None
         else if rest \<noteq> [] \<and> hd rest = CHR ''.'' then
           (if ell = None \<and> length bs \<noteq> 12 then None
            else if 16 < length bs + 4 then None
            else case parse_ipv4 s of None \<Rightarrow> None | Some v \<Rightarrow> Some (bs @ v, ell, []))
         else let bs' = bs @ [acc div 256, acc mod 256]
              in case rest of
                   [] \<Rightarrow> Some (bs', ell, [])
                 | c # rest' \<Rightarrow>
                     if c \<noteq> CHR '':'' then None
                     else (case rest' of
                             [] \<Rightarrow> None
                           | d # rest'' \<Rightarrow>
                               if d = CHR '':'' then
                                 (if ell \<noteq> None then None
                                  else if rest'' = [] then Some (bs', Some (length bs'), [])
                                  else ipv6_groups k rest'' bs' (Some (length bs')))
                               else ipv6_groups k rest' bs' ell))"

definition parse_ipv6 :: "string \<Rightarrow> (ip \<times> string) option" where
  "parse_ipv6 input =
     (let zoned = cut_char CHR ''%'' input;
          s = (case zoned of None \<Rightarrow> input | Some (a, z) \<Rightarrow> a);
          zone = (case zoned of None \<Rightarrow> [] | Some (a, z) \<Rightarrow> z);
          leading = has_prefix s ''::'';
          s' = (if leading then drop 2 s else s)
      in if zoned \<noteq> None \<and> zone = [] then None
         else if leading \<and> s' = [] then Some (replicate 16 0, zone)
         else case ipv6_groups 8 s' [] (if leading then Some 0 else None) of
                None \<Rightarrow> None
              | Some (bs, ell, rest) \<Rightarrow>
                  if rest \<noteq> [] then None
                  else if length bs < 16 then
                    (case ell of
                       None \<Rightarrow> None
                     | Some e \<Rightarrow> Some (take e bs @ replicate (16 - length bs) 0 @ drop e bs, zone))
                  else if ell \<noteq> None then None
                  else Some (bs, zone))"

definition v4_prefix :: "int list" where
  "v4_prefix = [0, 0, 0, 0, 0, 0, 0, 0, 0, 0, 255, 255]"

text \<open>\<^verbatim>\<open>netip.ParseAddr\<close>: the family (is it IPv4), the sixteen bytes and the zone.\<close>

definition ParseAddr :: "string \<Rightarrow> (bool \<times> ip \<times> string) option" where
  "ParseAddr s =
     (case find (\<lambda>c. c = CHR ''.'' \<or> c = CHR '':'' \<or> c = CHR ''%'') s of
        None \<Rightarrow> None
      | Some c \<Rightarrow>
          if c = CHR ''.'' then map_option (\<lambda>v. (True, v4_prefix @ v, [])) (parse_ipv4 s)
          else if c = CHR '':'' then map_option (\<lambda>(bs, zone). (False, bs, zone)) (parse_ipv6 s)
          else None)"

definition ParseIP :: "string \<Rightarrow> ip option" where
  "ParseIP s =
     (case ParseAddr s of
        None \<Rightarrow> None
      | Some (is4, bs, zone) \<Rightarrow> if zone \<noteq> [] then None else Some bs)"

definition To4 :: "ip \<Rightarrow> int list option" where
  "To4 bs = (if take 12 bs = v4_prefix then Some (drop 12 bs) else None)"

definition IsLoopback :: "ip \<Rightarrow> bool" where
  "IsLoopback bs =
     (case To4 bs of Some v \<Rightarrow> v ! 0 = 127 | None \<Rightarrow> bs = replicate 15 0 @ [1])"

definition ipv4_text :: "int list \<Rightarrow> string" where
  "ipv4_text v = join ''.'' (map (\<lambda>b. decimal (nat b)) v)"

definition hex_char :: "int \<Rightarrow> char" where
  "hex_char d = ''0123456789abcdef'' ! nat d"

definition hex_text :: "int \<Rightarrow> string" where
  "hex_text x =
     (if 0x1000 \<le> x then [hex_char (x div 0x1000)] else []) @
     (if 0x100 \<le> x then [hex_char (x div 0x100 mod 16)] else []) @
     (if 0x10 \<le> x then [hex_char (x div 0x10 mod 16)] else []) @ [hex_char (x mod 16)]"

fun words16 :: "int list \<Rightarrow> int list" where
  "words16 (a # b # bs) = (a * 256 + b) # words16 bs"
| "words16 _ = []"

text \<open>The leftmost longest run of at least two zero groups, as its start and its length.\<close>

definition zero_run :: "int list \<Rightarrow> nat \<times> nat" where
  "zero_run ws =
     foldl (\<lambda>(start, len) i.
       let l = length (takeWhile (\<lambda>w. w = 0) (drop i ws)) in if 2 \<le> l \<and> len < l then (i, l) else (start, len))
       (0, 0) [0..<8]"

definition ipv6_text :: "ip \<Rightarrow> string" where
  "ipv6_text bs =
     (let ws = words16 bs; (start, len) = zero_run ws; text = (\<lambda>gs. join '':'' (map hex_text gs))
      in if len = 0 then text ws else text (take start ws) @ ''::'' @ text (drop (start + len) ws))"

definition ip_text :: "ip \<Rightarrow> string" where
  "ip_text bs = (case To4 bs of Some v \<Rightarrow> ipv4_text v | None \<Rightarrow> ipv6_text bs)"

section \<open>Host and port\<close>

fun last_index :: "char \<Rightarrow> string \<Rightarrow> nat option" where
  "last_index c [] = None"
| "last_index c (x # xs) =
     (case last_index c xs of Some i \<Rightarrow> Some (Suc i) | None \<Rightarrow> if x = c then Some 0 else None)"

definition SplitHostPort :: "string \<Rightarrow> (string \<times> string) option" where
  "SplitHostPort hostport =
     (case last_index CHR '':'' hostport of
        None \<Rightarrow> None
      | Some i \<Rightarrow>
          (case (if hd hostport = CHR ''['' then
                   (case index_char CHR '']'' hostport of
                      None \<Rightarrow> None
                    | Some close \<Rightarrow>
                        if close + 1 = i then Some (take (close - 1) (drop 1 hostport), 1, close + 1) else None)
                 else let host = take i hostport in if CHR '':'' \<in> set host then None else Some (host, 0, 0)) of
             None \<Rightarrow> None
           | Some (host, j, k) \<Rightarrow>
               if CHR ''['' \<in> set (drop j hostport) \<or> CHR '']'' \<in> set (drop k hostport) then None
               else Some (host, drop (i + 1) hostport)))"

section \<open>Examples and bounds\<close>

lemma ip_examples:
  "map_option ip_text (ParseIP ''127.0.0.1'') = Some ''127.0.0.1''"
  "map_option ip_text (ParseIP ''2001:DB8:0:0:1::1'') = Some ''2001:db8::1:0:0:1''"
  "map_option ip_text (ParseIP ''::ffff:10.0.0.7'') = Some ''10.0.0.7''"
  "map_option ip_text (ParseIP ''::'') = Some ''::''"
  "map_option IsLoopback (ParseIP ''::1'') = Some True"
  "ParseIP ''10.0.0.01'' = None" "ParseIP ''fe80::1%eth0'' = None" "ParseIP ''1:2:3:4:5:6:7::8:9'' = None"
  "SplitHostPort ''[::1]:443'' = Some (''::1'', ''443'')"
  "SplitHostPort ''10.0.0.7:50000'' = Some (''10.0.0.7'', ''50000'')"
  "SplitHostPort ''::1:443'' = None"
  by code_simp+

lemma all_some_length: "all_some xs = Some ys \<Longrightarrow> length ys = length xs"
  by (induction xs arbitrary: ys rule: all_some.induct) auto

lemma parse_ipv4_length: "parse_ipv4 s = Some v \<Longrightarrow> length v = 4"
  by (auto simp: parse_ipv4_def Let_def split: if_splits dest: all_some_length)

end
