(* ===== verification/Webapp_Request.thy ===== *)
theory Webapp_Request
  imports Websession Webauth_Limiter Webauth_Totp Webauth_Authentication Go_Net
begin

text \<open>
  What the handlers of the web server share (\<^verbatim>\<open>internal/webapp/webapp.go\<close>): requests and responses, the
  state of the server, the address a request is counted for, the session of a request, the gates that
  admit a session to a handler, form decoding with the CSRF check, and the access log entry.

  The state is the record \<open>web\<close>: the database, the session manager and the three limiters. A handler is a
  function from the request and the state to the response and the state after it; a request is
  handled without another one in between. What a handler reads from outside is \<open>request_env\<close>: the clock and
  the persistence fault of each call it makes, the database's time stamp and the random bytes it
  draws. \<open>dependencies\<close> says which dependencies the server was built with (a \<^verbatim>\<open>nil\<close> one is \<open>False\<close>) and holds
  the functions of other packages the model is parametric in: Argon2id, bcrypt, Unicode case mapping
  and the QR encoder.

  A request is what \<^verbatim>\<open>net/http\<close> decoded: \<open>req_form\<close> gives, for a limit on the body, the form values
  or \<open>None\<close> when \<^verbatim>\<open>ParseForm\<close> fails. Pages are kept as the values they are rendered from.
\<close>

section \<open>Requests, responses, state\<close>

record http_request =
  req_path :: string
  req_cookies :: "(string \<times> string) list"
  req_content_type :: string
  req_form :: "nat \<Rightarrow> (string \<times> string) list option"
  req_remote :: string
  req_forwarded :: string
  req_real_ip :: string
  req_agent :: string

datatype page =
    NoPage
  | ErrorText
  | LoginPage string bool bool string
  | PasswordPage string string bool bool string
  | TwoFactorPage string bool string
  | TwoFactorSetupPage string string bytes string bool string
  | StatePage string string
  | RebootWaitPage string
  | UserCreatePage string string string
  | JsonResult bool
  | Download bytes
  | Panicked

record http_response =
  resp_status :: int
  resp_location :: "string option"
  resp_cookies :: "cookie list"
  resp_page :: page

definition http_error :: "int \<Rightarrow> http_response" where
  "http_error status = \<lparr>resp_status = status, resp_location = None, resp_cookies = [], resp_page = ErrorText\<rparr>"

definition redirect :: "cookie list \<Rightarrow> string \<Rightarrow> http_response" where
  "redirect cookies location =
     \<lparr>resp_status = 303, resp_location = Some location, resp_cookies = cookies, resp_page = NoPage\<rparr>"

definition html_page :: "page \<Rightarrow> int \<Rightarrow> http_response" where
  "html_page p status = \<lparr>resp_status = status, resp_location = None, resp_cookies = [], resp_page = p\<rparr>"

text \<open>A call through a \<^verbatim>\<open>nil\<close> dependency panics; \<^verbatim>\<open>net/http\<close> closes the connection.\<close>

definition panicked :: http_response where
  "panicked = html_page Panicked 0"

record dependencies =
  dSessions :: bool
  dAuthenticator :: bool
  dUsers :: bool
  dAccessLog :: bool
  dLoginLimiter :: bool
  dTwoFactor :: bool
  dTwoFactorLimiter :: bool
  dEnrollment :: bool
  dPasswords :: bool
  dPasswordLimiter :: bool
  dAuthorization :: bool
  dSettings :: bool
  dDefaultLanguage :: string
  dIdkey :: idkey
  dBcrypt :: bcrypt
  dLower :: "nat \<Rightarrow> nat"
  dUpper :: "nat \<Rightarrow> nat"
  dQrcode :: "string \<Rightarrow> bytes option"

record request_env =
  calls :: "nat \<Rightarrow> session_env"
  stamp :: string
  salt_bytes :: "bytes option"
  secret_bytes :: "bytes option"

record web =
  wDB :: database
  wSessions :: manager
  wLogin :: login_limiter
  wFactor :: login_limiter
  wPassword :: login_limiter

text \<open>The calls of one request, in the order the handlers make them.\<close>

abbreviation at_session :: "request_env \<Rightarrow> session_env" where "at_session env \<equiv> calls env 0"
abbreviation at_csrf :: "request_env \<Rightarrow> session_env" where "at_csrf env \<equiv> calls env 1"
abbreviation at_allowed :: "request_env \<Rightarrow> int" where "at_allowed env \<equiv> clock (calls env 2)"
abbreviation at_verify :: "request_env \<Rightarrow> int" where "at_verify env \<equiv> clock (calls env 3) div second"
abbreviation at_failure :: "request_env \<Rightarrow> int" where "at_failure env \<equiv> clock (calls env 4)"
abbreviation at_rotate :: "request_env \<Rightarrow> session_env" where "at_rotate env \<equiv> calls env 5"

section \<open>The address of a request\<close>

definition remoteAddress :: "string \<Rightarrow> string" where
  "remoteAddress value = (case SplitHostPort value of Some (host, port) \<Rightarrow> host | None \<Rightarrow> value)"

text \<open>The loop runs over the parts of the header from the last to the first.\<close>

fun last_address :: "string list \<Rightarrow> string option" where
  "last_address [] = None"
| "last_address (part # parts) =
     (case ParseIP (trim_space part) of Some parsed \<Rightarrow> Some (ip_text parsed) | None \<Rightarrow> last_address parts)"

definition requestAddress :: "http_request \<Rightarrow> string" where
  "requestAddress req =
     (let direct = remoteAddress (req_remote req) in
      case ParseIP direct of
        None \<Rightarrow> direct
      | Some peer \<Rightarrow>
          if \<not> IsLoopback peer then direct
          else (case last_address (rev (split_char CHR '','' (req_forwarded req))) of
                  Some addr \<Rightarrow> addr
                | None \<Rightarrow>
                    let candidate = trim_space (req_real_ip req) in
                    if candidate \<noteq> '''' then (case ParseIP candidate of Some parsed \<Rightarrow> ip_text parsed | None \<Rightarrow> direct)
                    else direct))"

section \<open>Languages and cookies\<close>

text \<open>The catalogues that are embedded.\<close>

definition Supported :: "string \<Rightarrow> bool" where
  "Supported language \<longleftrightarrow> language = ''fr'' \<or> language = ''en''"

definition defaultLanguage :: "dependencies \<Rightarrow> database \<Rightarrow> string" where
  "defaultLanguage d db =
     (let configured = (if dSettings d then (case Settings db of Inl e \<Rightarrow> None | Inr s \<Rightarrow> Some (DefaultLanguage s)) else None)
      in case configured of
           Some language \<Rightarrow>
             if Supported language then language
             else if Supported (dDefaultLanguage d) then dDefaultLanguage d else ''fr''
         | None \<Rightarrow> if Supported (dDefaultLanguage d) then dDefaultLanguage d else ''fr'')"

definition languageForAnonymous :: "dependencies \<Rightarrow> database \<Rightarrow> http_request \<Rightarrow> string" where
  "languageForAnonymous d db req =
     (case map_of (req_cookies req) ''aegisadmin_language'' of
        Some v \<Rightarrow> if Supported v then v else defaultLanguage d db
      | None \<Rightarrow> defaultLanguage d db)"

definition languageForUser :: "dependencies \<Rightarrow> database \<Rightarrow> int \<Rightarrow> string" where
  "languageForUser d db userID =
     (if dUsers d then (case LanguageForUser userID db of
                          Inr language \<Rightarrow> if Supported language then language else defaultLanguage d db
                        | Inl e \<Rightarrow> defaultLanguage d db)
      else defaultLanguage d db)"

definition preference_cookie :: "string \<Rightarrow> string \<Rightarrow> cookie" where
  "preference_cookie name v =
     \<lparr>cookie_name = name, cookie_value = v, cookie_path = ''/'', cookie_secure = True, cookie_http_only = False,
      cookie_same_site_strict = True, cookie_max_age = 31536000, cookie_expires = None\<rparr>"

definition themeCookie :: "string \<Rightarrow> cookie" where
  "themeCookie theme = preference_cookie ''aegisadmin_theme'' theme"

definition languageCookie :: "string \<Rightarrow> cookie" where
  "languageCookie language = preference_cookie ''aegisadmin_language'' language"

section \<open>The session of a request\<close>

definition requestSession :: "dependencies \<Rightarrow> request_env \<Rightarrow> http_request \<Rightarrow> web \<Rightarrow> session option \<times> web" where
  "requestSession d env req w =
     (if \<not> dSessions d then (None, w)
      else case map_of (req_cookies req) CookieName of
             None \<Rightarrow> (None, w)
           | Some sid \<Rightarrow>
               (case Get (at_session env) sid (wSessions w) of (found, m) \<Rightarrow> (found, w\<lparr>wSessions := m\<rparr>)))"

definition session_of :: "session option \<Rightarrow> session" where
  "session_of found = (case found of None \<Rightarrow> zero_session | Some s \<Rightarrow> s)"

text \<open>The response always gets the expired cookie; the error of \<^verbatim>\<open>Destroy\<close> is ignored.\<close>

definition invalidate :: "dependencies \<Rightarrow> request_env \<Rightarrow> string \<Rightarrow> web \<Rightarrow> web" where
  "invalidate d env sid w =
     (if dSessions d \<and> sid \<noteq> '''' then w\<lparr>wSessions := snd (Destroy (at_rotate env) sid (wSessions w))\<rparr> else w)"

abbreviation to_login :: http_response where
  "to_login \<equiv> redirect [ExpiredCookie] ''/login''"

text \<open>
  The four gates differ in the session state they admit and in what they ask of the account. A session
  that does not pass is destroyed and sent to the login page; an error of the store is a 503.
\<close>

definition account_gate ::
    "(State \<Rightarrow> bool) \<Rightarrow> bool \<Rightarrow> (State \<Rightarrow> user \<Rightarrow> bool) \<Rightarrow> dependencies \<Rightarrow> request_env \<Rightarrow> http_request \<Rightarrow> web
     \<Rightarrow> (http_response + session \<times> user) \<times> web" where
  "account_gate admits equipped accepts d env req w =
     (case requestSession d env req w of
        (found, w1) \<Rightarrow>
          let session = session_of found in
          if found = None \<or> \<not> admits (SState session) \<or> \<not> equipped
          then (Inl to_login, invalidate d env (SID session) w1)
          else (case FindByID (SUserID session) (wDB w1) of
                  Inl e \<Rightarrow> (Inl (http_error 503), w1)
                | Inr None \<Rightarrow> (Inl to_login, invalidate d env (SID session) w1)
                | Inr (Some user) \<Rightarrow>
                    if Status user \<noteq> ''active'' \<or> AuthVersion user \<noteq> SAuthVersion session \<or>
                       \<not> accepts (SState session) user
                    then (Inl to_login, invalidate d env (SID session) w1)
                    else (Inr (session, user), w1)))"

definition authenticatedUser ::
    "dependencies \<Rightarrow> request_env \<Rightarrow> http_request \<Rightarrow> web \<Rightarrow> (http_response + session \<times> user) \<times> web" where
  "authenticatedUser d env req w =
     account_gate (\<lambda>st. st = StateAuthenticated) (dUsers d) (\<lambda>st user. True) d env req w"

definition passwordUser ::
    "dependencies \<Rightarrow> request_env \<Rightarrow> http_request \<Rightarrow> web \<Rightarrow> (http_response + session \<times> user) \<times> web" where
  "passwordUser d env req w =
     account_gate (\<lambda>st. st = StatePassword \<or> st = StateAuthenticated) (dUsers d)
       (\<lambda>st user. \<not> (st = StatePassword \<and> \<not> MustChangePassword user)) d env req w"

definition pendingTwoFactorUser ::
    "dependencies \<Rightarrow> request_env \<Rightarrow> http_request \<Rightarrow> web \<Rightarrow> (http_response + session \<times> user) \<times> web" where
  "pendingTwoFactorUser d env req w =
     account_gate (\<lambda>st. st = StateTwoFactor) (dUsers d)
       (\<lambda>st user. TOTPSecret user \<noteq> None \<and> TOTPEnabledAt user \<noteq> None) d env req w"

text \<open>The enrolment gate also draws and stores a secret for an account that has none.\<close>

definition pendingEnrollmentUser ::
    "dependencies \<Rightarrow> request_env \<Rightarrow> http_request \<Rightarrow> web \<Rightarrow> (http_response + session \<times> user) \<times> web" where
  "pendingEnrollmentUser d env req w =
     (case account_gate (\<lambda>st. st = StateTwoFactorSetup) (dUsers d \<and> dEnrollment d)
             (\<lambda>st user. TwoFactorRequired user \<and> TOTPEnabledAt user = None) d env req w of
        (Inl resp, w1) \<Rightarrow> (Inl resp, w1)
      | (Inr (session, user), w1) \<Rightarrow>
          if TOTPSecret user \<noteq> None then (Inr (session, user), w1)
          else (case GenerateTOTPSecret (secret_bytes env) of
                  None \<Rightarrow> (Inl (http_error 503), w1)
                | Some secret \<Rightarrow>
                    (case PrepareTOTP (stamp env) (uID user) (AuthVersion user) secret (wDB w1) of
                       (Inl e, db) \<Rightarrow> (Inl to_login, invalidate d env (SID session) (w1\<lparr>wDB := db\<rparr>))
                     | (Inr prepared, db) \<Rightarrow> (Inr (session, prepared), w1\<lparr>wDB := db\<rparr>))))"

definition protected ::
    "State \<Rightarrow> string \<Rightarrow> string \<Rightarrow> dependencies \<Rightarrow> request_env \<Rightarrow> http_request \<Rightarrow> web \<Rightarrow> http_response \<times> web" where
  "protected state title message d env req w =
     (case account_gate (\<lambda>st. st = state) (dUsers d) (\<lambda>st user. True) d env req w of
        (Inl resp, w1) \<Rightarrow> (resp, w1)
      | (Inr _, w1) \<Rightarrow> (html_page (StatePage title message) 200, w1))"

section \<open>Forms\<close>

definition is_form :: "http_request \<Rightarrow> bool" where
  "is_form req = has_prefix (req_content_type req) ''application/x-www-form-urlencoded''"

definition form_value :: "(string \<times> string) list \<Rightarrow> string \<Rightarrow> string" where
  "form_value form key = (case map_of form key of None \<Rightarrow> [] | Some v \<Rightarrow> v)"

text \<open>\<^verbatim>\<open>err != nil || !ValidateCSRF(...)\<close>: the token is looked at only when the form was decoded.\<close>

definition post_form ::
    "request_env \<Rightarrow> http_request \<Rightarrow> nat \<Rightarrow> session \<Rightarrow> web \<Rightarrow> (string \<times> string) list option \<times> web" where
  "post_form env req limit session w =
     (case req_form req limit of
        None \<Rightarrow> (None, w)
      | Some form \<Rightarrow>
          (case ValidateCSRF (at_csrf env) (SID session) (form_value form ''_token'') (wSessions w) of
             (valid, m) \<Rightarrow> (if valid then Some form else None, w\<lparr>wSessions := m\<rparr>)))"

section \<open>The access log\<close>

text \<open>\<^verbatim>\<open>strings.ToValidUTF8\<close>: each run of bytes that are no UTF-8 becomes one replacement character.\<close>

fun replace_invalid :: "(nat \<times> nat) list \<Rightarrow> string \<Rightarrow> bool \<Rightarrow> string" where
  "replace_invalid [] s invalid = []"
| "replace_invalid ((r, width) # rs) s invalid =
     (if width = 1 \<and> s \<noteq> [] \<and> 0x80 \<le> byte_val (hd s)
      then (if invalid then [] else encode_rune 0xFFFD) @ replace_invalid rs (drop 1 s) True
      else take width s @ replace_invalid rs (drop width s) False)"

definition to_valid_utf8 :: "string \<Rightarrow> string" where
  "to_valid_utf8 s = replace_invalid (runes s) s False"

definition recordAccess ::
    "dependencies \<Rightarrow> request_env \<Rightarrow> http_request \<Rightarrow> user option \<Rightarrow> string \<Rightarrow> string \<Rightarrow> bool \<Rightarrow> web \<Rightarrow> web" where
  "recordAccess d env req user login event success w =
     (if \<not> dAccessLog d then w
      else w\<lparr>wDB := snd (RecordAccess (stamp env) (map_option uID user) login event success
                           (requestAddress req) (to_valid_utf8 (req_agent req)) (wDB w))\<rparr>)"

end
