(* ===== verification/Webapp_Login.thy ===== *)
theory Webapp_Login
  imports Webapp_Request
begin

text \<open>
  The handlers through which a visitor becomes an authenticated user and an account looks after its own
  credentials (\<^verbatim>\<open>internal/webapp/webapp.go\<close>): login, the second factor and its enrolment, the password
  change, theme and language, logout.
\<close>

section \<open>Pages\<close>

definition renderLogin :: "dependencies \<Rightarrow> http_request \<Rightarrow> web \<Rightarrow> string \<Rightarrow> bool \<Rightarrow> int \<Rightarrow> http_response" where
  "renderLogin d req w csrf failed status =
     html_page (LoginPage csrf failed (dUsers d \<and> FindRoot (wDB w) = Inr None) (languageForAnonymous d (wDB w) req)) status"

definition renderPassword :: "dependencies \<Rightarrow> web \<Rightarrow> string \<Rightarrow> string \<Rightarrow> int \<Rightarrow> bool \<Rightarrow> user \<Rightarrow> http_response" where
  "renderPassword d w csrf messageKey status mandatory user =
     html_page (PasswordPage csrf messageKey mandatory (\<not> mandatory \<and> TOTPEnabledAt user \<noteq> None)
       (languageForUser d (wDB w) (uID user))) status"

definition renderTwoFactor :: "dependencies \<Rightarrow> web \<Rightarrow> string \<Rightarrow> int \<Rightarrow> bool \<Rightarrow> int \<Rightarrow> http_response" where
  "renderTwoFactor d w csrf userID failed status =
     html_page (TwoFactorPage csrf failed (languageForUser d (wDB w) userID)) status"

text \<open>\<^verbatim>\<open>NullString.String\<close> of a null value is the empty string.\<close>

definition null_string :: "string option \<Rightarrow> string" where
  "null_string x = (case x of None \<Rightarrow> '''' | Some s \<Rightarrow> s)"

definition renderTwoFactorSetup :: "dependencies \<Rightarrow> web \<Rightarrow> string \<Rightarrow> user \<Rightarrow> bool \<Rightarrow> int \<Rightarrow> string \<Rightarrow> http_response" where
  "renderTwoFactorSetup d w csrf user failed status action =
     (case TOTPProvisioningURI (dUpper d) (Login user) (null_string (TOTPSecret user)) of
        None \<Rightarrow> http_error 503
      | Some uri \<Rightarrow>
          (case dQrcode d uri of
             None \<Rightarrow> http_error 503
           | Some img \<Rightarrow>
               html_page (TwoFactorSetupPage csrf (null_string (TOTPSecret user)) img action failed
                 (languageForUser d (wDB w) (uID user))) status))"

section \<open>Login\<close>

definition home :: "http_request \<Rightarrow> http_response" where
  "home req = (if req_path req \<noteq> ''/'' then http_error 404 else redirect [] ''/login'')"

definition login :: "dependencies \<Rightarrow> request_env \<Rightarrow> http_request \<Rightarrow> web \<Rightarrow> http_response \<times> web" where
  "login d env req w =
     (if \<not> dSessions d then (http_error 503, w)
      else case requestSession d env req w of
             (found, w1) \<Rightarrow>
               (case found of
                  Some session \<Rightarrow>
                    if SState session = StateAuthenticated then (redirect [] ''/go/dashboard'', w1)
                    else (renderLogin d req w1 (CSRFToken session) False 200, w1)
                | None \<Rightarrow>
                    (case Create (at_rotate env) StateAnonymous 0 0 (wSessions w1) of
                       (Inl e, m) \<Rightarrow> (http_error 503, w1\<lparr>wSessions := m\<rparr>)
                     | (Inr session, m) \<Rightarrow>
                         ((renderLogin d req (w1\<lparr>wSessions := m\<rparr>) (CSRFToken session) False 200)
                            \<lparr>resp_cookies := [Cookie (SID session)]\<rparr>, w1\<lparr>wSessions := m\<rparr>))))"

definition nextState :: "NextStep \<Rightarrow> State \<times> string" where
  "nextState step =
     (case step of
        StepPasswordChange \<Rightarrow> (StatePassword, ''/go/account/password'')
      | StepTwoFactorChallenge \<Rightarrow> (StateTwoFactor, ''/go/two-factor'')
      | StepTwoFactorEnrollment \<Rightarrow> (StateTwoFactorSetup, ''/go/two-factor/setup'')
      | _ \<Rightarrow> (StateAuthenticated, ''/go/dashboard''))"

definition login_failed ::
    "dependencies \<Rightarrow> request_env \<Rightarrow> http_request \<Rightarrow> session \<Rightarrow> string \<Rightarrow> web \<Rightarrow> http_response \<times> web" where
  "login_failed d env req session name w =
     (let w1 = w\<lparr>wLogin := Failure (dLower d) (at_failure env) (requestAddress req) name (wLogin w)\<rparr>;
          w2 = recordAccess d env req None name ''login_failure'' False w1
      in (renderLogin d req w2 (CSRFToken session) True 401, w2))"

text \<open>The cookies with the account's preferences; an account without a usable language gets the default one.\<close>

definition preferences_of :: "dependencies \<Rightarrow> int \<Rightarrow> web \<Rightarrow> cookie list \<times> web" where
  "preferences_of d userID w =
     (let theme = (case ThemeForUser userID (wDB w) of Inl e \<Rightarrow> [] | Inr theme \<Rightarrow> [themeCookie theme]) in
      case LanguageForUser userID (wDB w) of
        Inl e \<Rightarrow> (theme, w)
      | Inr language \<Rightarrow>
          if Supported language then (theme @ [languageCookie language], w)
          else let fallback = defaultLanguage d (wDB w)
               in (theme @ [languageCookie fallback], w\<lparr>wDB := snd (SetLanguage userID fallback (wDB w))\<rparr>))"

definition login_accepted ::
    "dependencies \<Rightarrow> request_env \<Rightarrow> http_request \<Rightarrow> session \<Rightarrow> string \<Rightarrow> auth_result \<Rightarrow> web \<Rightarrow> http_response \<times> web" where
  "login_accepted d env req session name res w =
     (let w1 = w\<lparr>wLogin := Success (dLower d) name (wLogin w)\<rparr>;
          w2 = recordAccess d env req (Some (rUser res)) (Login (rUser res)) ''login_success'' True w1
      in case nextState (rStep res) of
           (state, location) \<Rightarrow>
             (case Rotate (at_rotate env) (SID session) state (uID (rUser res)) (AuthVersion (rUser res)) (wSessions w2) of
                (Inl e, m) \<Rightarrow> (http_error 503, w2\<lparr>wSessions := m\<rparr>)
              | (Inr rotated, m) \<Rightarrow>
                  if \<not> dUsers d then (panicked, w2\<lparr>wSessions := m\<rparr>)
                  else (case preferences_of d (uID (rUser res)) (w2\<lparr>wSessions := m\<rparr>) of
                          (cookies, w3) \<Rightarrow> (redirect (Cookie (SID rotated) # cookies) location, w3))))"

text \<open>The limiter is asked only when the fields have an admissible length.\<close>

definition login_allowed :: "dependencies \<Rightarrow> request_env \<Rightarrow> http_request \<Rightarrow> string \<Rightarrow> string \<Rightarrow> web \<Rightarrow> bool \<times> web" where
  "login_allowed d env req name password w =
     (if length name < 3 \<or> 64 < length name \<or> password = '''' \<or> 1024 < length password then (False, w)
      else case Allowed (dLower d) (at_allowed env) (requestAddress req) name (wLogin w) of
             (allowed, l) \<Rightarrow> (allowed, w\<lparr>wLogin := l\<rparr>))"

definition available_app :: "dependencies \<Rightarrow> bool" where
  "available_app d \<longleftrightarrow> dSessions d \<and> dAuthenticator d \<and> dLoginLimiter d"

definition authenticate :: "dependencies \<Rightarrow> request_env \<Rightarrow> http_request \<Rightarrow> web \<Rightarrow> http_response \<times> web" where
  "authenticate d env req w =
     (if \<not> available_app d then (http_error 503, w)
      else case requestSession d env req w of
             (found, w1) \<Rightarrow>
               let session = session_of found in
               if found = None \<or> SState session \<noteq> StateAnonymous then (to_login, w1)
               else if \<not> is_form req then (renderLogin d req w1 (CSRFToken session) True 400, w1)
               else (case post_form env req 8192 session w1 of
                       (None, w2) \<Rightarrow> (renderLogin d req w2 (CSRFToken session) True 400, w2)
                     | (Some form, w2) \<Rightarrow>
                         let name = form_value form ''login''; password = form_value form ''password'' in
                         (case login_allowed d env req name password w2 of
                            (False, w3) \<Rightarrow> login_failed d env req session name w3
                          | (True, w3) \<Rightarrow>
                              (case store_authenticate (dIdkey d) (dBcrypt d) (wDB w3) name password of
                                 Inl e \<Rightarrow> (http_error 503, w3)
                               | Inr res \<Rightarrow>
                                   if rStep res = StepInvalid then login_failed d env req session name w3
                                   else login_accepted d env req session name res w3))))"

section \<open>Second factor\<close>

text \<open>
  The end of every handler that moves a session forward: the rotation, the new cookie, the redirect.
\<close>

definition rotate_to ::
    "request_env \<Rightarrow> session \<Rightarrow> State \<Rightarrow> user \<Rightarrow> string \<Rightarrow> web \<Rightarrow> http_response \<times> web" where
  "rotate_to env session state user location w =
     (case Rotate (at_rotate env) (SID session) state (uID user) (AuthVersion user) (wSessions w) of
        (Inl e, m) \<Rightarrow> (http_error 503, w\<lparr>wSessions := m\<rparr>)
      | (Inr rotated, m) \<Rightarrow> (redirect [Cookie (SID rotated)] location, w\<lparr>wSessions := m\<rparr>))"

definition after_factor :: "user \<Rightarrow> State \<times> string" where
  "after_factor user =
     (if MustChangePassword user then (StatePassword, ''/go/account/password'')
      else (StateAuthenticated, ''/go/dashboard''))"

definition twoFactor :: "dependencies \<Rightarrow> request_env \<Rightarrow> http_request \<Rightarrow> web \<Rightarrow> http_response \<times> web" where
  "twoFactor d env req w =
     (case pendingTwoFactorUser d env req w of
        (Inl resp, w1) \<Rightarrow> (resp, w1)
      | (Inr (session, user), w1) \<Rightarrow> (renderTwoFactor d w1 (CSRFToken session) (uID user) False 200, w1))"

text \<open>\<^verbatim>\<open>!Allowed(...) || !Verify(...)\<close> for an account's second factor.\<close>

definition factor_valid :: "dependencies \<Rightarrow> request_env \<Rightarrow> http_request \<Rightarrow> user \<Rightarrow> string \<Rightarrow> web \<Rightarrow> bool \<times> web" where
  "factor_valid d env req user code w =
     (case Allowed (dLower d) (at_allowed env) (requestAddress req) (Login user) (wFactor w) of
        (allowed, l) \<Rightarrow>
          (allowed \<and> Verify (dUpper d) (at_verify env) (null_string (TOTPSecret user)) code, w\<lparr>wFactor := l\<rparr>))"

definition factor_failure :: "dependencies \<Rightarrow> request_env \<Rightarrow> http_request \<Rightarrow> user \<Rightarrow> web \<Rightarrow> web" where
  "factor_failure d env req user w =
     w\<lparr>wFactor := Failure (dLower d) (at_failure env) (requestAddress req) (Login user) (wFactor w)\<rparr>"

definition factor_success :: "dependencies \<Rightarrow> user \<Rightarrow> web \<Rightarrow> web" where
  "factor_success d user w = w\<lparr>wFactor := Success (dLower d) (Login user) (wFactor w)\<rparr>"

definition verifyTwoFactor :: "dependencies \<Rightarrow> request_env \<Rightarrow> http_request \<Rightarrow> web \<Rightarrow> http_response \<times> web" where
  "verifyTwoFactor d env req w =
     (case pendingTwoFactorUser d env req w of
        (Inl resp, w1) \<Rightarrow> (resp, w1)
      | (Inr (session, user), w1) \<Rightarrow>
          if \<not> dTwoFactor d \<or> \<not> dTwoFactorLimiter d then (http_error 503, w1)
          else if \<not> is_form req then (renderTwoFactor d w1 (CSRFToken session) (uID user) True 400, w1)
          else (case post_form env req 4096 session w1 of
                  (None, w2) \<Rightarrow> (renderTwoFactor d w2 (CSRFToken session) (uID user) True 400, w2)
                | (Some form, w2) \<Rightarrow>
                    (case factor_valid d env req user (form_value form ''code'') w2 of
                       (False, w3) \<Rightarrow>
                         let w4 = recordAccess d env req (Some user) (Login user) ''two_factor_failure'' False
                                    (factor_failure d env req user w3)
                         in (renderTwoFactor d w4 (CSRFToken session) (uID user) True 401, w4)
                     | (True, w3) \<Rightarrow>
                         let w4 = recordAccess d env req (Some user) (Login user) ''two_factor_success'' True
                                    (factor_success d user w3)
                         in (case after_factor user of
                               (state, location) \<Rightarrow> rotate_to env session state user location w4))))"

definition twoFactorSetup :: "dependencies \<Rightarrow> request_env \<Rightarrow> http_request \<Rightarrow> web \<Rightarrow> http_response \<times> web" where
  "twoFactorSetup d env req w =
     (case pendingEnrollmentUser d env req w of
        (Inl resp, w1) \<Rightarrow> (resp, w1)
      | (Inr (session, user), w1) \<Rightarrow>
          (renderTwoFactorSetup d w1 (CSRFToken session) user False 200 ''/go/two-factor/setup'', w1))"

definition confirmTwoFactorSetup :: "dependencies \<Rightarrow> request_env \<Rightarrow> http_request \<Rightarrow> web \<Rightarrow> http_response \<times> web" where
  "confirmTwoFactorSetup d env req w =
     (case pendingEnrollmentUser d env req w of
        (Inl resp, w1) \<Rightarrow> (resp, w1)
      | (Inr (session, user), w1) \<Rightarrow>
          let page = (\<lambda>w status. renderTwoFactorSetup d w (CSRFToken session) user True status ''/go/two-factor/setup'') in
          if \<not> dTwoFactor d \<or> \<not> dTwoFactorLimiter d \<or> \<not> dEnrollment d then (http_error 503, w1)
          else if \<not> is_form req then (page w1 400, w1)
          else (case post_form env req 4096 session w1 of
                  (None, w2) \<Rightarrow> (page w2 400, w2)
                | (Some form, w2) \<Rightarrow>
                    (case factor_valid d env req user (form_value form ''code'') w2 of
                       (False, w3) \<Rightarrow> (page (factor_failure d env req user w3) 401, factor_failure d env req user w3)
                     | (True, w3) \<Rightarrow>
                         (case EnableTOTP (stamp env) (uID user) (AuthVersion user) (null_string (TOTPSecret user)) (wDB w3) of
                            (Inl e, db) \<Rightarrow> (to_login, invalidate d env (SID session) (w3\<lparr>wDB := db\<rparr>))
                          | (Inr updated, db) \<Rightarrow>
                              let w4 = factor_success d user
                                         (recordAccess d env req (Some updated) (Login updated) ''two_factor_enabled'' True
                                            (w3\<lparr>wDB := db\<rparr>))
                              in (case after_factor updated of
                                    (state, location) \<Rightarrow> rotate_to env session state updated location w4)))))"

definition accountTwoFactorSetup :: "dependencies \<Rightarrow> request_env \<Rightarrow> http_request \<Rightarrow> web \<Rightarrow> http_response \<times> web" where
  "accountTwoFactorSetup d env req w =
     (case authenticatedUser d env req w of
        (Inl resp, w1) \<Rightarrow> (resp, w1)
      | (Inr (session, user), w1) \<Rightarrow>
          let page = (\<lambda>w user. renderTwoFactorSetup d w (CSRFToken session) user False 200 ''/go/account/two-factor/setup'') in
          if TOTPEnabledAt user \<noteq> None then (redirect [] ''/go/account/password'', w1)
          else if TOTPSecret user \<noteq> None then (page w1 user, w1)
          else (case GenerateTOTPSecret (secret_bytes env) of
                  None \<Rightarrow> (http_error 503, w1)
                | Some secret \<Rightarrow>
                    if \<not> dEnrollment d then (panicked, w1)
                    else (case PrepareTOTP (stamp env) (uID user) (AuthVersion user) secret (wDB w1) of
                            (Inl e, db) \<Rightarrow> (http_error 503, w1\<lparr>wDB := db\<rparr>)
                          | (Inr prepared, db) \<Rightarrow> (page (w1\<lparr>wDB := db\<rparr>) prepared, w1\<lparr>wDB := db\<rparr>))))"

text \<open>The account pages verify a code without asking the limiter.\<close>

definition confirmAccountTwoFactorSetup ::
    "dependencies \<Rightarrow> request_env \<Rightarrow> http_request \<Rightarrow> web \<Rightarrow> http_response \<times> web" where
  "confirmAccountTwoFactorSetup d env req w =
     (case authenticatedUser d env req w of
        (Inl resp, w1) \<Rightarrow> (resp, w1)
      | (Inr (session, user), w1) \<Rightarrow>
          let page = (\<lambda>w. renderTwoFactorSetup d w (CSRFToken session) user True 400 ''/go/account/two-factor/setup'') in
          (case post_form env req 8192 session w1 of
             (None, w2) \<Rightarrow> (page w2, w2)
           | (Some form, w2) \<Rightarrow>
               if TOTPSecret user = None then (page w2, w2)
               else if \<not> dTwoFactor d then (panicked, w2)
               else if \<not> Verify (dUpper d) (at_verify env) (null_string (TOTPSecret user)) (form_value form ''code'')
               then (page w2, w2)
               else if \<not> dEnrollment d then (panicked, w2)
               else (case EnableTOTP (stamp env) (uID user) (AuthVersion user) (null_string (TOTPSecret user)) (wDB w2) of
                       (Inl e, db) \<Rightarrow> (http_error 409, w2\<lparr>wDB := db\<rparr>)
                     | (Inr updated, db) \<Rightarrow>
                         rotate_to env session StateAuthenticated updated ''/go/account/password''
                           (recordAccess d env req (Some updated) (Login updated) ''two_factor_enabled'' True (w2\<lparr>wDB := db\<rparr>)))))"

definition disableAccountTwoFactor ::
    "dependencies \<Rightarrow> request_env \<Rightarrow> http_request \<Rightarrow> web \<Rightarrow> http_response \<times> web" where
  "disableAccountTwoFactor d env req w =
     (case authenticatedUser d env req w of
        (Inl resp, w1) \<Rightarrow> (resp, w1)
      | (Inr (session, user), w1) \<Rightarrow>
          (case post_form env req 8192 session w1 of
             (None, w2) \<Rightarrow> (http_error 400, w2)
           | (Some form, w2) \<Rightarrow>
               if TwoFactorRequired user \<or> TOTPSecret user = None \<or> TOTPEnabledAt user = None then (http_error 400, w2)
               else if \<not> dTwoFactor d then (panicked, w2)
               else if \<not> Verify (dUpper d) (at_verify env) (null_string (TOTPSecret user)) (form_value form ''code'')
               then (http_error 400, w2)
               else if \<not> dEnrollment d then (panicked, w2)
               else (case DisableTOTP (stamp env) (uID user) (AuthVersion user) (wDB w2) of
                       (Inl e, db) \<Rightarrow> (http_error 409, w2\<lparr>wDB := db\<rparr>)
                     | (Inr updated, db) \<Rightarrow>
                         rotate_to env session StateAuthenticated updated ''/go/account/password''
                           (recordAccess d env req (Some updated) (Login updated) ''two_factor_disabled'' True (w2\<lparr>wDB := db\<rparr>)))))"

section \<open>Password\<close>

definition password :: "dependencies \<Rightarrow> request_env \<Rightarrow> http_request \<Rightarrow> web \<Rightarrow> http_response \<times> web" where
  "password d env req w =
     (case passwordUser d env req w of
        (Inl resp, w1) \<Rightarrow> (resp, w1)
      | (Inr (session, user), w1) \<Rightarrow>
          (renderPassword d w1 (CSRFToken session) '''' 200 (SState session = StatePassword) user, w1))"

definition changePassword :: "dependencies \<Rightarrow> request_env \<Rightarrow> http_request \<Rightarrow> web \<Rightarrow> http_response \<times> web" where
  "changePassword d env req w =
     (case passwordUser d env req w of
        (Inl resp, w1) \<Rightarrow> (resp, w1)
      | (Inr (session, user), w1) \<Rightarrow>
          let page = (\<lambda>w key status. renderPassword d w (CSRFToken session) key status (SState session = StatePassword) user);
              verify = (\<lambda>p. VerifyPassword (dIdkey d) (dBcrypt d) p (PasswordHash user))
          in if \<not> dPasswords d \<or> \<not> dPasswordLimiter d then (http_error 503, w1)
             else if \<not> is_form req then (page w1 ''password.error.request'' 400, w1)
             else (case post_form env req 8192 session w1 of
                     (None, w2) \<Rightarrow> (page w2 ''password.error.request'' 400, w2)
                   | (Some form, w2) \<Rightarrow>
                       let old = form_value form ''current_password''; new = form_value form ''new_password'';
                           confirmation = form_value form ''new_password_confirmation''
                       in (case Allowed (dLower d) (at_allowed env) (requestAddress req) (Login user) (wPassword w2) of
                             (allowed, l) \<Rightarrow>
                               let w3 = w2\<lparr>wPassword := l\<rparr> in
                               if \<not> allowed \<or> \<not> verify old
                               then (let w4 = w3\<lparr>wPassword := Failure (dLower d) (at_failure env) (requestAddress req) (Login user) l\<rparr>
                                     in (page w4 ''password.error.current'' 401, w4))
                               else if new \<noteq> confirmation then (page w3 ''password.error.confirmation'' 400, w3)
                               else if verify new then (page w3 ''password.error.same'' 400, w3)
                               else (case HashPassword (dIdkey d) (salt_bytes env) new of
                                       Inl e \<Rightarrow> (page w3 ''password.error.length'' 400, w3)
                                     | Inr newHash \<Rightarrow>
                                         (case ChangePassword (stamp env) (uID user) (AuthVersion user) (PasswordHash user) newHash (wDB w3) of
                                            (Inl e, db) \<Rightarrow> (to_login, invalidate d env (SID session) (w3\<lparr>wDB := db\<rparr>))
                                          | (Inr updated, db) \<Rightarrow>
                                              rotate_to env session StateAuthenticated updated ''/go/dashboard''
                                                (recordAccess d env req (Some updated) (Login updated) ''password_changed'' True
                                                   (w3\<lparr>wDB := db, wPassword := Success (dLower d) (Login user) (wPassword w3)\<rparr>)))))))"

section \<open>Preferences and logout\<close>

definition changeTheme :: "dependencies \<Rightarrow> request_env \<Rightarrow> http_request \<Rightarrow> web \<Rightarrow> http_response \<times> web" where
  "changeTheme d env req w =
     (case authenticatedUser d env req w of
        (Inl resp, w1) \<Rightarrow> (resp, w1)
      | (Inr (session, user), w1) \<Rightarrow>
          if \<not> is_form req then (http_error 400, w1)
          else (case post_form env req 4096 session w1 of
                  (None, w2) \<Rightarrow> (http_error 400, w2)
                | (Some form, w2) \<Rightarrow>
                    let theme = form_value form ''theme'' in
                    if theme \<noteq> ''dark'' \<and> theme \<noteq> ''light'' \<and> theme \<noteq> ''bootstrap'' \<and> theme \<noteq> ''neon'' then (http_error 400, w2)
                    else (case SetTheme (uID user) theme (wDB w2) of
                            (Inl e, db) \<Rightarrow> (http_error 503, w2\<lparr>wDB := db\<rparr>)
                          | (Inr _, db) \<Rightarrow>
                              (\<lparr>resp_status = 204, resp_location = None, resp_cookies = [themeCookie theme], resp_page = NoPage\<rparr>,
                               w2\<lparr>wDB := db\<rparr>))))"

definition changeLanguage :: "dependencies \<Rightarrow> request_env \<Rightarrow> http_request \<Rightarrow> web \<Rightarrow> http_response \<times> web" where
  "changeLanguage d env req w =
     (case authenticatedUser d env req w of
        (Inl resp, w1) \<Rightarrow> (resp, w1)
      | (Inr (session, user), w1) \<Rightarrow>
          if \<not> is_form req then (http_error 400, w1)
          else (case post_form env req 4096 session w1 of
                  (None, w2) \<Rightarrow> (http_error 400, w2)
                | (Some form, w2) \<Rightarrow>
                    let language = form_value form ''language'' in
                    if \<not> Supported language then (http_error 400, w2)
                    else (case SetLanguage (uID user) language (wDB w2) of
                            (Inl e, db) \<Rightarrow> (http_error 503, w2\<lparr>wDB := db\<rparr>)
                          | (Inr _, db) \<Rightarrow>
                              (redirect [languageCookie language] ''/go/account/password?result=language'', w2\<lparr>wDB := db\<rparr>))))"

definition logout :: "dependencies \<Rightarrow> request_env \<Rightarrow> http_request \<Rightarrow> web \<Rightarrow> http_response \<times> web" where
  "logout d env req w =
     (case requestSession d env req w of
        (found, w1) \<Rightarrow>
          let session = session_of found in
          if found = None \<or> SState session \<noteq> StateAuthenticated then (to_login, invalidate d env (SID session) w1)
          else if \<not> is_form req then (http_error 400, w1)
          else (case post_form env req 4096 session w1 of
                  (None, w2) \<Rightarrow> (http_error 400, w2)
                | (Some form, w2) \<Rightarrow>
                    let w3 = (if dUsers d then
                                (case FindByID (SUserID session) (wDB w2) of
                                   Inr (Some user) \<Rightarrow> recordAccess d env req (Some user) (Login user) ''logout'' True w2
                                 | _ \<Rightarrow> w2)
                              else w2)
                    in (case Destroy (at_rotate env) (SID session) (wSessions w3) of
                          (Some e, m) \<Rightarrow> (http_error 503, w3\<lparr>wSessions := m\<rparr>)
                        | (None, m) \<Rightarrow> (to_login, w3\<lparr>wSessions := m\<rparr>))))"

end
