(* ===== verification/Webapp_Protocol.thy ===== *)
theory Webapp_Protocol
  imports Webapp_Login
begin

text \<open>
  The login protocol: an abstract specification of how sessions come by their state, and the proof that the
  handlers implement it.

  A state of the protocol is the sessions (state, account, version, and the proofs that were
  given on the way to this session) and the database. Each rule says what has to be shown to move a
  session forward; proofs are carried from the session that is given up to the one that replaces it.
  The server has no such record of proofs: that its sessions are always sessions of the protocol is the
  refinement, and that a session of the protocol has the proofs its account asks for is its invariant.
\<close>

section \<open>The protocol\<close>

datatype given =
    PasswordGiven int
  | FactorGiven int string

type_synonym holder = "State \<times> int \<times> int \<times> given set"
type_synonym protocol = "(string \<Rightarrow> holder option) \<times> database"

definition replaced :: "(string \<Rightarrow> holder option) \<Rightarrow> string \<Rightarrow> string \<Rightarrow> holder \<Rightarrow> (string \<Rightarrow> holder option)" where
  "replaced h old sid x = (h(old := None))(sid \<mapsto> x)"

inductive protocol_step :: "dependencies \<Rightarrow> protocol \<Rightarrow> protocol \<Rightarrow> bool" for d where
  store: "store_step db db' \<Longrightarrow> protocol_step d (h, db) (h, db')"
| forget: "g \<subseteq>\<^sub>m h \<Longrightarrow> protocol_step d (h, db) (g, db)"
| visit: "h sid = None \<Longrightarrow> protocol_step d (h, db) (h(sid \<mapsto> (StateAnonymous, 0, 0, {})), db)"
| login: "h old = Some (StateAnonymous, k, v, P) \<Longrightarrow> (h(old := None)) sid = None \<Longrightarrow>
    FindByLogin name db = Inr (Some u) \<Longrightarrow> VerifyPassword (dIdkey d) (dBcrypt d) pw (PasswordHash u) \<Longrightarrow>
    Status u = ''active'' \<Longrightarrow>
    protocol_step d (h, db)
      (replaced h old sid (fst (nextState (step_for u)), uID u, AuthVersion u, {PasswordGiven (uID u)}), db)"
| factor: "h old = Some (StateTwoFactor, k, v, P) \<Longrightarrow> (h(old := None)) sid = None \<Longrightarrow>
    FindByID k db = Inr (Some u) \<Longrightarrow> AuthVersion u = v \<Longrightarrow> TOTPSecret u = Some secret \<Longrightarrow>
    Verify (dUpper d) t secret code \<Longrightarrow>
    protocol_step d (h, db)
      (replaced h old sid (fst (after_factor u), k, v, insert (FactorGiven k secret) P), db)"
| enroll: "h old = Some (st, k, v, P) \<Longrightarrow> (h(old := None)) sid = None \<Longrightarrow>
    st = StateTwoFactorSetup \<and> st' = fst (after_factor u) \<or> st = StateAuthenticated \<and> st' = st \<Longrightarrow>
    Verify (dUpper d) t secret code \<Longrightarrow> EnableTOTP now k v secret db = (Inr u, db') \<Longrightarrow>
    protocol_step d (h, db)
      (replaced h old sid (st', uID u, AuthVersion u, insert (FactorGiven k secret) P), db')"
| disable: "h old = Some (StateAuthenticated, k, v, P) \<Longrightarrow> (h(old := None)) sid = None \<Longrightarrow>
    FindByID k db = Inr (Some w) \<Longrightarrow> TOTPSecret w = Some secret \<Longrightarrow>
    Verify (dUpper d) t secret code \<Longrightarrow> DisableTOTP now k v db = (Inr u, db') \<Longrightarrow>
    protocol_step d (h, db)
      (replaced h old sid (StateAuthenticated, uID u, AuthVersion u, insert (FactorGiven k secret) P), db')"
| change: "h old = Some (st, k, v, P) \<Longrightarrow> (h(old := None)) sid = None \<Longrightarrow>
    st = StatePassword \<or> st = StateAuthenticated \<Longrightarrow>
    VerifyPassword (dIdkey d) (dBcrypt d) pw hash \<Longrightarrow> ChangePassword now k v hash hash' db = (Inr u, db') \<Longrightarrow>
    protocol_step d (h, db)
      (replaced h old sid (StateAuthenticated, uID u, AuthVersion u, insert (PasswordGiven k) P), db')"

section \<open>Its invariant\<close>

text \<open>
  A session past the login page has the password of its account. If it is past the challenge too and
  the account is still at the session's version, it has given a code of the account's active second factor.
\<close>

definition holder_ok :: "database \<Rightarrow> holder \<Rightarrow> bool" where
  "holder_ok db x \<longleftrightarrow>
     (case x of (st, k, v, P) \<Rightarrow>
        st = StateAnonymous \<or>
        PasswordGiven k \<in> P \<and> k \<le> user_seq db \<and>
        (\<forall>r. lookup k db = Some r \<longrightarrow>
           v \<le> AuthVersion r \<and>
           (st \<noteq> StateTwoFactor \<and> AuthVersion r = v \<longrightarrow>
              (\<forall>secret. active_factor r = Some secret \<longrightarrow> FactorGiven k secret \<in> P))))"

definition protocol_inv :: "protocol \<Rightarrow> bool" where
  "protocol_inv s \<longleftrightarrow> (case s of (h, db) \<Rightarrow> database_ok db \<and> (\<forall>sid. pred_option (holder_ok db) (h sid)))"

lemma holder_ok_evolves:
  assumes "holder_ok db x" "accounts_evolve db db'"
  shows "holder_ok db' x"
proof -
  obtain st k v P where x: "x = (st, k, v, P)" by (cases x)
  have seq: "user_seq db \<le> user_seq db'" using assms(2) by (simp add: accounts_evolve_def)
  have "v \<le> AuthVersion r' \<and>
      (st \<noteq> StateTwoFactor \<and> AuthVersion r' = v \<longrightarrow> (\<forall>secret. active_factor r' = Some secret \<longrightarrow> FactorGiven k secret \<in> P))"
    if st: "st \<noteq> StateAnonymous" and r': "lookup k db' = Some r'" for r'
  proof -
    have k: "k \<le> user_seq db" using assms(1) st by (simp add: holder_ok_def x)
    then obtain r where r: "lookup k db = Some r" "row_evolves r r'"
      using assms(2) r' by (fastforce simp: accounts_evolve_def split: option.splits)
    then show ?thesis
      using assms(1) st by (auto simp: holder_ok_def x row_evolves_def)
  qed
  then show ?thesis using assms(1) seq by (auto simp: holder_ok_def x)
qed

text \<open>What an update of one's own account leaves under its identifier.\<close>

lemma scanRequiredUser_lookup:
  assumes "scanRequiredUser P f db = (Inr u, db')" "database_ok db"
    and "\<And>r. P r \<Longrightarrow> uID r = k" "\<And>r. uID (f r) = uID r"
  obtains r where "P r" "lookup k db = Some r" "lookup k db' = Some (f r)" "u = scanUser (f r)"
    "user_seq db' = user_seq db" "k \<le> user_seq db"
proof -
  obtain r where r: "find P (users db) = Some r" "u = scanUser (f r)" "db' = db\<lparr>users := update_rows P f (users db)\<rparr>"
    using assms(1) by (auto simp: scanRequiredUser_def split: if_splits option.splits)
  have P: "P r" and mem: "r \<in> set (users db)" using find_SomeD [OF r(1)] by auto
  have k: "uID r = k" using assms(3) P .
  have l: "lookup k db = Some r" using lookup_unique [OF assms(2) mem] k by simp
  have same: "s = r" if "s \<in> set (users db)" "uID s = k" for s
    using lookup_unique [OF assms(2) that(1)] that(2) l by simp
  have "lookup k db' = Some (f r)"
    unfolding lookup_def r(3)
  proof (simp, rule find_unique)
    show "f r \<in> set (update_rows P f (users db))" using mem P by (auto simp: update_rows_def)
    fix s assume "s \<in> set (update_rows P f (users db))" "uID s = k"
    then show "s = f r" using same P by (auto simp: update_rows_def assms(4) split: if_splits)
  qed (simp add: assms(4) k)
  moreover have "k \<le> user_seq db" using lookup_seq [OF assms(2) l] by simp
  ultimately show thesis using that P l r by simp
qed


lemma FindByLogin_lookup:
  assumes "FindByLogin name db = Inr (Some u)" "database_ok db"
  obtains r where "lookup (uID u) db = Some r" "u = scanUser r" "uID u \<le> user_seq db"
proof -
  obtain r where r: "r \<in> set (users db)" "u = scanUser r"
    using assms(1) by (auto simp: FindByLogin_def findOne_def split: if_splits dest!: find_SomeD)
  have l: "lookup (uID u) db = Some r" using lookup_unique [OF assms(2) r(1)] r(2) by simp
  show thesis by (rule that [OF l r(2) lookup_seq [OF assms(2) l]])
qed

lemma FindByID_lookup: "FindByID k db = Inr (Some u) \<longleftrightarrow> available db \<and> (\<exists>r. lookup k db = Some r \<and> u = scanUser r)"
  by (auto simp: FindByID_def findOne_def lookup_def)

lemma login_holder:
  assumes "FindByLogin name db = Inr (Some u)" "database_ok db"
  shows "holder_ok db (fst (nextState (step_for u)), uID u, AuthVersion u, {PasswordGiven (uID u)})"
proof -
  obtain r where r: "lookup (uID u) db = Some r" "u = scanUser r" "uID u \<le> user_seq db"
    using FindByLogin_lookup [OF assms] .
  show ?thesis
    using r by (auto simp: holder_ok_def nextState_def step_for_def active_factor_def split: if_splits)
qed

lemma factor_holder:
  assumes "holder_ok db (StateTwoFactor, k, v, P)" "FindByID k db = Inr (Some u)" "TOTPSecret u = Some secret"
  shows "holder_ok db (fst (after_factor u), k, v, insert (FactorGiven k secret) P)"
  using assms by (auto simp: holder_ok_def FindByID_lookup active_factor_def split: if_splits)

lemma enroll_holder:
  assumes "holder_ok db (st, k, v, P)" "st \<noteq> StateAnonymous" "EnableTOTP now k v secret db = (Inr u, db')" "database_ok db"
  shows "holder_ok db' (st', uID u, AuthVersion u, insert (FactorGiven k secret) P)"
  using assms(3) unfolding EnableTOTP_def
  by (rule scanRequiredUser_lookup [where k = k, OF _ assms(4)])
     (use assms(1,2) in \<open>auto simp: holder_ok_def current_def active_factor_def\<close>)

lemma disable_holder:
  assumes "holder_ok db (st, k, v, P)" "st \<noteq> StateAnonymous" "DisableTOTP now k v db = (Inr u, db')" "database_ok db"
  shows "holder_ok db' (st', uID u, AuthVersion u, insert x P)"
  using assms(3) unfolding DisableTOTP_def
  by (rule scanRequiredUser_lookup [where k = k, OF _ assms(4)])
     (use assms(1,2) in \<open>auto simp: holder_ok_def current_def active_factor_def\<close>)

lemma change_holder:
  assumes "holder_ok db (st, k, v, P)" "st = StatePassword \<or> st = StateAuthenticated"
    "ChangePassword now k v hash hash' db = (Inr u, db')" "database_ok db"
  shows "holder_ok db' (StateAuthenticated, uID u, AuthVersion u, insert (PasswordGiven k) P)"
  using assms(3) unfolding ChangePassword_def
  by (rule scanRequiredUser_lookup [where k = k, OF _ assms(4)])
     (use assms(1,2) in \<open>auto simp: holder_ok_def current_def active_factor_def split: if_splits\<close>)

lemma protocol_invD: "protocol_inv (h, db) \<Longrightarrow> h sid = Some x \<Longrightarrow> holder_ok db x"
  "protocol_inv (h, db) \<Longrightarrow> database_ok db"
  by (auto simp: protocol_inv_def dest: spec [of _ sid])

lemma protocol_inv_evolves:
  assumes "protocol_inv (h, db)" "store_step db db'"
  shows "protocol_inv (h, db')"
proof -
  have ok: "database_ok db" by (rule protocol_invD(2) [OF assms(1)])
  have "pred_option (holder_ok db') (h sid)" for sid
    using protocol_invD(1) [OF assms(1), of sid] holder_ok_evolves [OF _ store_step_evolves [OF assms(2) ok]]
    by (cases "h sid") auto
  then show ?thesis using store_step_ok [OF assms(2) ok] by (simp add: protocol_inv_def)
qed

lemma protocol_inv_same:
  assumes "protocol_inv (h, db)" "holder_ok db x"
  shows "protocol_inv (replaced h old sid x, db)"
  using assms by (auto simp: protocol_inv_def replaced_def)

lemma protocol_inv_replaced:
  assumes "protocol_inv (h, db)" "store_step db db'" "holder_ok db' x"
  shows "protocol_inv (replaced h old sid x, db')"
  by (rule protocol_inv_same [OF protocol_inv_evolves [OF assms(1,2)] assms(3)])

lemma protocol_step_inv: "protocol_step d s s' \<Longrightarrow> protocol_inv s \<Longrightarrow> protocol_inv s'"
proof (induction rule: protocol_step.induct)
  case (store db db' h)
  then show ?case by (blast intro: protocol_inv_evolves)
next
  case (forget g h db)
  have "pred_option (holder_ok db) (g sid)" for sid
    using forget(1) protocol_invD(1) [OF forget(2), of sid] by (cases "g sid") (force simp: map_le_def dom_def)+
  then show ?case using forget(2) by (simp add: protocol_inv_def)
next
  case (visit h sid db)
  then show ?case by (auto simp: protocol_inv_def holder_ok_def)
next
  case (login h old k v P sid name db u pw)
  then show ?case by (blast intro: protocol_inv_same login_holder dest: protocol_invD)
next
  case (factor h old k v P sid db u secret t code)
  then show ?case by (blast intro: protocol_inv_same factor_holder dest: protocol_invD)
next
  case (enroll h old st k v P sid st' u t secret code now db db')
  then show ?case
    by (blast intro: protocol_inv_replaced enroll_holder store_step.enable dest: protocol_invD)
next
  case (disable h old k v P sid db w secret t code now u db')
  then show ?case
    by (blast intro: protocol_inv_replaced disable_holder store_step.disable dest: protocol_invD)
next
  case (change h old st k v P sid pw hash now hash' db u db')
  then show ?case
    by (blast intro: protocol_inv_replaced change_holder store_step.change dest: protocol_invD)
qed

definition protocol_init :: "protocol \<Rightarrow> bool" where
  "protocol_init s \<longleftrightarrow> (case s of (h, db) \<Rightarrow> h = Map.empty \<and> database_ok db)"

interpretation login_protocol: invariant_system protocol_init "protocol_step d" protocol_inv for d
proof
  show "protocol_inv s" if "protocol_init s" for s
    using that by (auto simp: protocol_init_def protocol_inv_def)
qed (rule protocol_step_inv)

end
