(* ===== verification/Webapp_Refinement.thy ===== *)
theory Webapp_Refinement
  imports Webapp_Protocol
begin

text \<open>
  The handlers implement the login protocol. What the server knows of a session is its state, account
  and version (\<open>core_map\<close>); a state of the server matches a state of the protocol that has the same database and
  the same sessions with some proofs added. Every handler, whatever it answers, is a sequence of
  protocol steps.
\<close>

section \<open>What the session manager does to the sessions\<close>

definition core :: "session \<Rightarrow> State \<times> int \<times> int" where
  "core s = (SState s, SUserID s, SAuthVersion s)"

definition core_map :: "manager \<Rightarrow> string \<Rightarrow> (State \<times> int \<times> int) option" where
  "core_map m sid = map_option core (map_of (sessions m) sid)"

definition keys_ok :: "manager \<Rightarrow> bool" where
  "keys_ok m \<longleftrightarrow> distinct_keys (sessions m) \<and> (\<forall>k s. map_of (sessions m) k = Some s \<longrightarrow> SID s = k)"

text \<open>The manager lost sessions, but gained and changed none.\<close>

definition shrinks :: "manager \<Rightarrow> manager \<Rightarrow> bool" where
  "shrinks m m' \<longleftrightarrow> keys_ok m' \<and> core_map m' \<subseteq>\<^sub>m core_map m"

lemma map_leD: "f \<subseteq>\<^sub>m g \<Longrightarrow> f k = Some c \<Longrightarrow> g k = Some c"
  by (metis domI map_le_def)

lemma shrinks_refl: "keys_ok m \<Longrightarrow> shrinks m m"
  by (simp add: shrinks_def)

lemma shrinks_trans: "shrinks m1 m2 \<Longrightarrow> shrinks m2 m3 \<Longrightarrow> shrinks m1 m3"
  by (auto simp: shrinks_def intro: map_le_trans)

lemma shrinks_cong: "keys_ok m \<Longrightarrow> sessions m' = sessions m \<Longrightarrow> shrinks m m'"
  by (simp add: shrinks_def keys_ok_def core_map_def map_le_def)

lemma shrinks_delete: "keys_ok m \<Longrightarrow> shrinks m (m\<lparr>sessions := AList.delete k (sessions m)\<rparr>)"
  by (auto simp: shrinks_def keys_ok_def core_map_def map_le_def dom_def split: if_splits)

lemma shrinks_removeExpired: "keys_ok m \<Longrightarrow> shrinks m (removeExpiredLocked now m)"
  by (auto simp: shrinks_def keys_ok_def core_map_def map_le_def dom_def sessions_removeExpired
      map_of_filter_distinct split: option.splits if_splits)

lemma Get_core:
  assumes "Get env sid m = (found, m')" "keys_ok m"
  shows "shrinks m m'"
    and "found = Some s \<Longrightarrow> SID s = sid \<and> core_map m sid = Some (core s) \<and> core_map m' = core_map m"
proof -
  have del: "shrinks m (m\<lparr>sessions := AList.delete sid (sessions m)\<rparr>)" by (rule shrinks_delete [OF assms(2)])
  have touch: "shrinks m m1 \<and> SID s1 = sid \<and> core_map m sid = Some (core s1) \<and> core_map m1 = core_map m"
    if s0: "map_of (sessions m) sid = Some s0" and s1: "s1 = s0\<lparr>LastSeenAt := t\<rparr>"
      and m1: "sessions m1 = AList.update sid s1 (sessions m)" for s0 s1 m1 t
  proof -
    have "core_map m1 = core_map m" using s0 m1 s1 by (auto simp: core_map_def core_def fun_eq_iff)
    moreover have "keys_ok m1" using assms(2) s0 m1 s1 by (auto simp: keys_ok_def)
    ultimately show ?thesis using s0 s1 assms(2) by (auto simp: shrinks_def core_map_def core_def keys_ok_def)
  qed
  consider "found = None" "m' = m\<lparr>sessions := AList.delete sid (sessions m)\<rparr>"
    | s0 where "map_of (sessions m) sid = Some s0" "found = Some (s0\<lparr>LastSeenAt := clock env\<rparr>)"
        "sessions m' = AList.update sid (s0\<lparr>LastSeenAt := clock env\<rparr>) (sessions m)"
    using assms(1) by (auto simp: Get_def Let_def split: option.splits if_splits)
  then have "shrinks m m' \<and> (found = Some s \<longrightarrow> SID s = sid \<and> core_map m sid = Some (core s) \<and> core_map m' = core_map m)"
  proof cases
    case 1
    with del show ?thesis by simp
  next
    case (2 s0)
    with touch [OF 2(1) refl 2(3)] show ?thesis by auto
  qed
  then show "shrinks m m'"
    and "found = Some s \<Longrightarrow> SID s = sid \<and> core_map m sid = Some (core s) \<and> core_map m' = core_map m"
    by blast+
qed

lemma ValidateCSRF_core:
  assumes "ValidateCSRF env sid token m = (valid, m')" "keys_ok m"
  shows "shrinks m m'" and "valid \<Longrightarrow> core_map m' = core_map m"
  using assms Get_core [of env sid m]
  by (auto simp: ValidateCSRF_def split: prod.splits option.splits)

lemma Destroy_core:
  assumes "Destroy env sid m = (r, m')" "keys_ok m"
  shows "shrinks m m'"
proof -
  have "shrinks m (m2\<lparr>sessions := AList.update sid p (sessions m2)\<rparr>)"
    if "map_of (sessions m) sid = Some p" "sessions m2 = AList.delete sid (sessions m)" for p m2
    using that assms(2) by (auto simp: shrinks_def keys_ok_def core_map_def map_le_def dom_def)
  moreover have "shrinks m m2" if "sessions m2 = AList.delete sid (sessions m)" for m2
    using shrinks_delete [OF assms(2), of sid] that by (simp add: shrinks_def keys_ok_def core_map_def map_le_def dom_def)
  ultimately show ?thesis
    using assms(1)
    by (auto simp: Destroy_def Let_def split: option.splits if_splits prod.splits dest!: persistLocked_cases(1))
qed

text \<open>A new session: the manager lost some sessions, then gained one under an unused identifier.\<close>

definition gains :: "manager \<Rightarrow> session \<Rightarrow> manager \<Rightarrow> bool" where
  "gains m s m' \<longleftrightarrow>
     keys_ok m' \<and> (\<exists>g. g \<subseteq>\<^sub>m core_map m \<and> g (SID s) = None \<and> core_map m' = g(SID s \<mapsto> core s))"

lemma createLocked_gains:
  assumes "createLocked now st k v m = (Inr s, m')" "keys_ok m"
  shows "gains m s m'" "core s = (st, k, v)"
proof -
  have m': "sessions m' = AList.update (SID s) s (sessions m)" "map_of (sessions m) (SID s) = None"
    and s: "fresh_session now st k v s"
    using createLocked_Inr [OF assms(1)] by auto
  have "core_map m' = (core_map m)(SID s \<mapsto> core s)" using m'(1) by (simp add: core_map_def fun_eq_iff)
  moreover have "keys_ok m'" using assms(2) m' by (auto simp: keys_ok_def)
  ultimately show "gains m s m'" using m'(2) unfolding gains_def
    by (intro conjI exI [of _ "core_map m"]) (simp_all add: core_map_def)
  show "core s = (st, k, v)" using s by (simp add: fresh_session_def core_def)
qed

lemma gains_shrinks: "shrinks m1 m2 \<Longrightarrow> gains m2 s m3 \<Longrightarrow> gains m1 s m3"
  by (auto simp: shrinks_def gains_def intro: map_le_trans)

lemma gains_cong: "gains m s m' \<Longrightarrow> sessions m'' = sessions m' \<Longrightarrow> gains m s m''"
  by (simp add: gains_def keys_ok_def core_map_def fun_eq_iff)

text \<open>The session that could not be persisted is taken out again.\<close>

lemma gains_undone:
  assumes "gains m s m'" "sessions m'' = AList.delete (SID s) (sessions m')"
  shows "shrinks m m''"
proof -
  obtain g where g: "g \<subseteq>\<^sub>m core_map m" "g (SID s) = None" "core_map m' = g(SID s \<mapsto> core s)"
    using assms(1) by (auto simp: gains_def)
  have "core_map m'' = (core_map m')(SID s := None)" using assms(2) by (simp add: core_map_def fun_eq_iff)
  then have "core_map m'' = g" using g by auto
  moreover have "keys_ok m''" using assms by (auto simp: gains_def keys_ok_def split: if_splits)
  ultimately show ?thesis using g(1) by (simp add: shrinks_def)
qed

lemma Create_core:
  assumes "Create env st k v m = (res, m')" "keys_ok m"
  shows "case res of Inl e \<Rightarrow> shrinks m m' | Inr s \<Rightarrow> gains m s m' \<and> core s = (st, k, v)"
proof -
  let ?m1 = "removeExpiredLocked (clock env) m"
  have m1: "shrinks m ?m1" by (rule shrinks_removeExpired [OF assms(2)])
  then have k1: "keys_ok ?m1" by (simp add: shrinks_def)
  show ?thesis
  proof (cases "createLocked (clock env) st k v ?m1")
    case (Pair r m2)
    show ?thesis
    proof (cases r)
      case (Inl e)
      with Pair have "sessions m2 = sessions ?m1" using createLocked_Inl by blast
      then have "shrinks m m2" using shrinks_cong [OF k1] shrinks_trans [OF m1] by blast
      then show ?thesis using assms(1) Pair Inl m1 by (auto simp: Create_def Let_def split: if_splits)
    next
      case (Inr s)
      have g: "gains m s m2" "core s = (st, k, v)"
        using createLocked_gains [OF Pair [unfolded Inr] k1] gains_shrinks [OF m1] by auto
      obtain x m3 where p: "persistLocked env m2 = (x, m3)" by fastforce
      have m3: "gains m s m3" using gains_cong [OF g(1)] persistLocked_cases(1) [OF p] by simp
      have "shrinks m (m3\<lparr>sessions := AList.delete (SID s) (sessions m3)\<rparr>)" by (rule gains_undone [OF m3]) simp
      then show ?thesis
        using assms(1) Pair Inr g m3 m1 p by (auto simp: Create_def Let_def split: if_splits option.splits)
    qed
  qed
qed


abbreviation without :: "string \<Rightarrow> manager \<Rightarrow> manager" where
  "without sid m \<equiv> m\<lparr>sessions := AList.delete sid (sessions m)\<rparr>"

lemma restore_shrinks:
  assumes "shrinks (without sid m) m2" "keys_ok m"
  shows "shrinks m (restore_previous sid (map_of (sessions m) sid) m2)"
proof (cases "map_of (sessions m) sid")
  case None
  then show ?thesis
    using assms shrinks_trans [OF shrinks_delete [OF assms(2)] assms(1)] by (simp add: restore_previous_def)
next
  case (Some p)
  have le: "core_map m2 k = Some c \<Longrightarrow> core_map (without sid m) k = Some c" for k c
    using map_leD [of "core_map m2" "core_map (without sid m)" k c] assms(1) by (simp add: shrinks_def)
  let ?m = "m2\<lparr>sessions := AList.update sid p (sessions m2)\<rparr>"
  have "core_map ?m \<subseteq>\<^sub>m core_map m" unfolding map_le_def
  proof
    fix k assume "k \<in> dom (core_map ?m)"
    then show "core_map ?m k = core_map m k"
      using le [of k] Some by (cases "k = sid") (auto simp: core_map_def)
  qed
  moreover have "keys_ok ?m" using assms Some by (auto simp: shrinks_def keys_ok_def)
  ultimately show ?thesis using Some by (simp add: shrinks_def restore_previous_def)
qed

lemma Rotate_core:
  assumes "Rotate env sid st k v m = (res, m')" "keys_ok m"
  shows "case res of Inl e \<Rightarrow> shrinks m m' | Inr s \<Rightarrow> gains (without sid m) s m' \<and> core s = (st, k, v)"
proof -
  let ?m1 = "removeExpiredLocked (clock env) (without sid m)"
  have k0: "keys_ok (without sid m)" using shrinks_delete [OF assms(2)] by (simp add: shrinks_def)
  have m1: "shrinks (without sid m) ?m1" by (rule shrinks_removeExpired [OF k0])
  then have k1: "keys_ok ?m1" by (simp add: shrinks_def)
  have lost: "shrinks m ?m1" by (rule shrinks_trans [OF shrinks_delete [OF assms(2)] m1])
  note restore = restore_shrinks [OF _ assms(2)]
  obtain r m2 where c: "createLocked (clock env) st k v ?m1 = (r, m2)" by fastforce
  show ?thesis
  proof (cases r)
    case (Inl e)
    with c have "sessions m2 = sessions ?m1" using createLocked_Inl by blast
    then have "shrinks m (restore_previous sid (map_of (sessions m) sid) m2)"
      using restore shrinks_cong [OF k1] shrinks_trans [OF m1] by blast
    then show ?thesis using assms(1) c Inl lost by (auto simp: Rotate_def Let_def split: if_splits)
  next
    case (Inr s)
    have g: "gains (without sid m) s m2" "core s = (st, k, v)"
      using createLocked_gains [OF c [unfolded Inr] k1] gains_shrinks [OF m1] by auto
    obtain x m3 where p: "persistLocked env m2 = (x, m3)" by fastforce
    have m3: "gains (without sid m) s m3" using gains_cong [OF g(1)] persistLocked_cases(1) [OF p] by simp
    have "shrinks m (restore_previous sid (map_of (sessions m) sid) (without (SID s) m3))"
      by (rule restore, rule gains_undone [OF m3]) simp
    then show ?thesis
      using assms(1) c Inr g m3 lost p by (auto simp: Rotate_def Let_def split: if_splits option.splits)
  qed
qed

section \<open>Matching states\<close>

definition holder_core :: "holder \<Rightarrow> State \<times> int \<times> int" where
  "holder_core x = (case x of (st, k, v, P) \<Rightarrow> (st, k, v))"

definition matches :: "manager \<Rightarrow> (string \<Rightarrow> holder option) \<Rightarrow> bool" where
  "matches m h \<longleftrightarrow> keys_ok m \<and> (\<forall>sid. core_map m sid = map_option holder_core (h sid))"

lemma matches_restrict:
  assumes "matches m h" "g \<subseteq>\<^sub>m core_map m"
  shows "h |` dom g \<subseteq>\<^sub>m h" "map_option holder_core ((h |` dom g) sid) = g sid"
proof -
  show "h |` dom g \<subseteq>\<^sub>m h" by (auto simp: map_le_def restrict_map_def split: if_splits)
  show "map_option holder_core ((h |` dom g) sid) = g sid"
    using map_leD [OF assms(2), of sid] assms(1)
    by (cases "g sid") (auto simp: restrict_map_def dom_def matches_def)
qed

lemma matches_shrinks:
  assumes "matches m h" "shrinks m m'"
  shows "\<exists>g. g \<subseteq>\<^sub>m h \<and> matches m' g"
  using matches_restrict [OF assms(1), of "core_map m'"] assms(2)
  by (auto simp: matches_def shrinks_def intro!: exI [of _ "h |` dom (core_map m')"])

lemma matches_gains:
  assumes "matches m h" "gains m s m'"
  shows "\<exists>g. g \<subseteq>\<^sub>m h \<and> g (SID s) = None \<and> (\<forall>P. matches m' (g(SID s \<mapsto> (SState s, SUserID s, SAuthVersion s, P))))"
proof -
  obtain c where c: "c \<subseteq>\<^sub>m core_map m" "c (SID s) = None" "core_map m' = c(SID s \<mapsto> core s)" "keys_ok m'"
    using assms(2) by (auto simp: gains_def)
  note g = matches_restrict [OF assms(1) c(1)]
  have "matches m' ((h |` dom c)(SID s \<mapsto> (SState s, SUserID s, SAuthVersion s, P)))" for P
    using g(2) c(3,4) by (simp add: matches_def holder_core_def core_def)
  moreover have "(h |` dom c) (SID s) = None" using c(2) by (simp add: restrict_map_def dom_def)
  ultimately show ?thesis using g(1) by blast
qed

lemma matches_without:
  assumes "matches m h"
  shows "matches (without sid m) (h(sid := None))"
  using assms shrinks_delete [of m sid] by (auto simp: matches_def core_map_def shrinks_def)

lemma matches_rotate:
  assumes "matches m h" "core_map m sid = Some (st, k, v)" "gains (without sid m) s m'"
  shows "\<exists>g P. g \<subseteq>\<^sub>m h \<and> g sid = Some (st, k, v, P) \<and> (g(sid := None)) (SID s) = None \<and>
    (\<forall>P'. matches m' (replaced g sid (SID s) (SState s, SUserID s, SAuthVersion s, P')))"
proof -
  obtain P where P: "h sid = Some (st, k, v, P)"
    using assms(1,2) by (auto simp: matches_def holder_core_def split: prod.splits)
  obtain g0 where g0: "g0 \<subseteq>\<^sub>m h(sid := None)" "g0 (SID s) = None"
      "\<And>P. matches m' (g0(SID s \<mapsto> (SState s, SUserID s, SAuthVersion s, P)))"
    using matches_gains [OF matches_without [OF assms(1)] assms(3)] by blast
  have none: "g0 sid = None" using map_leD [OF g0(1), of sid] by (cases "g0 sid") auto
  let ?g = "g0(sid \<mapsto> (st, k, v, P))"
  have "?g \<subseteq>\<^sub>m h" unfolding map_le_def
  proof
    fix k' assume "k' \<in> dom ?g"
    then show "?g k' = h k'" using map_leD [OF g0(1), of k'] P by (cases "k' = sid") auto
  qed
  moreover have "?g(sid := None) = g0" using none by auto
  ultimately show ?thesis using g0(2,3) by (intro exI [of _ ?g] exI [of _ P]) (simp add: replaced_def)
qed

text \<open>Whatever state of the protocol matches before, a run of the protocol leads to one that matches after.\<close>

definition sim :: "dependencies \<Rightarrow> web \<Rightarrow> web \<Rightarrow> bool" where
  "sim d w w' \<longleftrightarrow>
     (\<forall>h. matches (wSessions w) h \<longrightarrow>
        (\<exists>h'. (protocol_step d)\<^sup>*\<^sup>* (h, wDB w) (h', wDB w') \<and> matches (wSessions w') h'))"

lemma simI: "(keys_ok (wSessions w) \<Longrightarrow> sim d w w') \<Longrightarrow> sim d w w'"
  by (auto simp: sim_def matches_def)

lemma sim_trans: "sim d w1 w2 \<Longrightarrow> sim d w2 w3 \<Longrightarrow> sim d w1 w3"
  unfolding sim_def by (meson rtranclp_trans)

lemma sim_same: "wDB w' = wDB w \<Longrightarrow> wSessions w' = wSessions w \<Longrightarrow> sim d w w'"
  by (auto simp: sim_def)

lemma sim_shrinks:
  assumes "shrinks (wSessions w) (wSessions w')" "wDB w' = wDB w"
  shows "sim d w w'"
  unfolding sim_def using matches_shrinks [OF _ assms(1)] protocol_step.forget assms(2) r_into_rtranclp by metis

lemma protocol_stores: "store_step\<^sup>*\<^sup>* db db' \<Longrightarrow> (protocol_step d)\<^sup>*\<^sup>* (h, db) (h, db')"
  by (induction rule: rtranclp_induct) (auto intro: rtranclp.rtrancl_into_rtrancl protocol_step.store)

lemma sim_store:
  assumes "store_step\<^sup>*\<^sup>* (wDB w) (wDB w')" "wSessions w' = wSessions w"
  shows "sim d w w'"
  using protocol_stores [OF assms(1)] assms(2) by (auto simp: sim_def)


section \<open>The parts the handlers share\<close>

text \<open>The session is one the manager holds.\<close>

definition holds :: "web \<Rightarrow> session \<Rightarrow> bool" where
  "holds w s \<longleftrightarrow> keys_ok (wSessions w) \<and> core_map (wSessions w) (SID s) = Some (core s)"

lemma holds_cong: "wSessions w' = wSessions w \<Longrightarrow> holds w' s \<longleftrightarrow> holds w s"
  by (simp add: holds_def)

lemma requestSession_sim:
  assumes "requestSession d env req w = (found, w1)" "keys_ok (wSessions w)"
  shows "sim d w w1" "wDB w1 = wDB w" "keys_ok (wSessions w1)" "found = Some s \<Longrightarrow> holds w1 s"
proof -
  have *: "sim d w w1 \<and> wDB w1 = wDB w \<and> keys_ok (wSessions w1) \<and> (found = Some s \<longrightarrow> holds w1 s)"
  proof (cases "\<not> dSessions d \<or> map_of (req_cookies req) CookieName = None")
    case True
    then have "found = None" "w1 = w" using assms(1) by (auto simp: requestSession_def split: if_splits option.splits)
    then show ?thesis using assms(2) by (simp add: sim_same)
  next
    case False
    then obtain sid m where get: "Get (at_session env) sid (wSessions w) = (found, m)" "w1 = w\<lparr>wSessions := m\<rparr>"
      using assms(1) by (auto simp: requestSession_def split: prod.splits)
    note g = Get_core [OF get(1) assms(2)]
    show ?thesis
      using g sim_shrinks [of w w1] get(2) by (auto simp: holds_def shrinks_def)
  qed
  then show "sim d w w1" "wDB w1 = wDB w" "keys_ok (wSessions w1)" "found = Some s \<Longrightarrow> holds w1 s" by blast+
qed

lemma post_form_sim:
  assumes "post_form env req limit session w = (form, w1)" "keys_ok (wSessions w)"
  shows "sim d w w1" "wDB w1 = wDB w" "keys_ok (wSessions w1)"
    "form = Some f \<Longrightarrow> holds w s \<Longrightarrow> holds w1 s"
proof -
  have *: "sim d w w1 \<and> wDB w1 = wDB w \<and> keys_ok (wSessions w1) \<and> (form = Some f \<longrightarrow> holds w s \<longrightarrow> holds w1 s)"
  proof (cases "req_form req limit")
    case None
    then show ?thesis using assms by (simp add: post_form_def sim_same)
  next
    case (Some g)
    then obtain valid m where v: "ValidateCSRF (at_csrf env) (SID session) (form_value g ''_token'') (wSessions w) = (valid, m)"
        "form = (if valid then Some g else None)" "w1 = w\<lparr>wSessions := m\<rparr>"
      using assms(1) by (auto simp: post_form_def split: prod.splits)
    note c = ValidateCSRF_core [OF v(1) assms(2)]
    show ?thesis
      using c sim_shrinks [of w w1] v(2,3) by (auto simp: holds_def shrinks_def split: if_splits)
  qed
  then show "sim d w w1" "wDB w1 = wDB w" "keys_ok (wSessions w1)" "form = Some f \<Longrightarrow> holds w s \<Longrightarrow> holds w1 s"
    by blast+
qed

lemma invalidate_sim:
  assumes "keys_ok (wSessions w)"
  shows "sim d w (invalidate d env sid w)"
  using Destroy_core [OF prod.collapse [symmetric] assms, of "at_rotate env" sid]
  by (auto simp: invalidate_def intro: sim_shrinks sim_same)

lemma invalidate_db [simp]: "wDB (invalidate d env sid w) = wDB w"
  by (simp add: invalidate_def)

lemma recordAccess_store:
  "store_step\<^sup>*\<^sup>* (wDB w) (wDB (recordAccess d env req u name event ok w))"
  "wSessions (recordAccess d env req u name event ok w) = wSessions w"
  by (auto simp: recordAccess_def intro!: r_into_rtranclp store_step.log [OF prod.collapse [symmetric]])

lemma recordAccess_sim: "sim d w (recordAccess d env req u name event ok w)"
  by (rule sim_store) (rule recordAccess_store)+

text \<open>What a gate has established when it lets a request pass.\<close>

definition passed :: "web \<Rightarrow> session \<Rightarrow> user \<Rightarrow> bool" where
  "passed w s u \<longleftrightarrow>
     holds w s \<and> FindByID (SUserID s) (wDB w) = Inr (Some u) \<and> uID u = SUserID s \<and>
     AuthVersion u = SAuthVersion s \<and> Status u = ''active''"

lemma FindByID_id: "FindByID k db = Inr (Some u) \<Longrightarrow> uID u = k"
  by (auto simp: FindByID_def findOne_def split: if_splits dest!: find_SomeD)

lemma account_gate_sim:
  assumes "account_gate admits equipped accepts d env req w = (res, w1)" "keys_ok (wSessions w)"
  shows "sim d w w1" "wDB w1 = wDB w"
    "res = Inr (s, u) \<Longrightarrow> passed w1 s u \<and> admits (SState s) \<and> accepts (SState s) u \<and> equipped"
proof -
  obtain found w0 where r: "requestSession d env req w = (found, w0)" by fastforce
  note rs = requestSession_sim [OF r assms(2)]
  have out: "sim d w (invalidate d env sid w0)" for sid
    by (rule sim_trans [OF rs(1) invalidate_sim [OF rs(3)]])
  have "sim d w w1 \<and> wDB w1 = wDB w \<and>
      (res = Inr (s, u) \<longrightarrow> passed w1 s u \<and> admits (SState s) \<and> accepts (SState s) u \<and> equipped)"
  proof (cases found)
    case None
    then have "w1 = invalidate d env (SID zero_session) w0" "res = Inl to_login"
      using assms(1) r by (auto simp: account_gate_def session_of_def Let_def)
    then show ?thesis using out rs(2) by simp
  next
    case (Some x)
    then have "w1 = w0 \<or> w1 = invalidate d env (SID x) w0"
        "res = Inr (s, u) \<longrightarrow> passed w1 s u \<and> admits (SState s) \<and> accepts (SState s) u \<and> equipped"
      using assms(1) r rs(4) [OF Some]
      by (auto simp: account_gate_def session_of_def passed_def FindByID_id split: if_splits sum.splits option.splits)
    then show ?thesis using out rs(1,2) by auto
  qed
  then show "sim d w w1" "wDB w1 = wDB w"
    "res = Inr (s, u) \<Longrightarrow> passed w1 s u \<and> admits (SState s) \<and> accepts (SState s) u \<and> equipped" by blast+
qed

lemma passed_form:
  assumes "post_form env req limit session w = (Some f, w1)" "passed w s u"
  shows "passed w1 s u"
  using post_form_sim [OF assms(1)] assms(2) by (auto simp: passed_def holds_def)

text \<open>
  The end of the handlers that move a session forward. \<open>w\<close> is the state before the account was changed and
  logged, \<open>w2\<close> the one after; the rule to apply is given by \<open>enter\<close>.
\<close>

lemma Rotate_sim:
  assumes rot: "Rotate renv (SID s) st (uID u) (AuthVersion u) (wSessions w) = (res, m)"
    and "holds w s"
    and enter: "\<And>h P sid. h (SID s) = Some (SState s, SUserID s, SAuthVersion s, P) \<Longrightarrow> (h(SID s := None)) sid = None \<Longrightarrow>
      \<exists>P'. protocol_step d (h, wDB w) (replaced h (SID s) sid (st, uID u, AuthVersion u, P'), db)"
    and "store_step\<^sup>*\<^sup>* (wDB w) db" "store_step\<^sup>*\<^sup>* db (wDB w')" "wSessions w' = m"
  shows "sim d w w'"
  unfolding sim_def
proof (intro allI impI)
  fix h assume h: "matches (wSessions w) h"
  then have k: "keys_ok (wSessions w)" by (simp add: matches_def)
  show "\<exists>h'. (protocol_step d)\<^sup>*\<^sup>* (h, wDB w) (h', wDB w') \<and> matches (wSessions w') h'"
  proof (cases res)
    case (Inl e)
    then have "shrinks (wSessions w) m" using Rotate_core [OF rot k] by simp
    then obtain g where g: "g \<subseteq>\<^sub>m h" "matches m g" using matches_shrinks [OF h] by blast
    have "(protocol_step d)\<^sup>*\<^sup>* (h, wDB w) (g, wDB w')"
      using protocol_stores [OF rtranclp_trans [OF assms(4,5)]] protocol_step.forget [OF g(1)]
      by (meson converse_rtranclp_into_rtranclp)
    then show ?thesis using g(2) assms(6) by blast
  next
    case (Inr s')
    then have s': "gains (without (SID s) (wSessions w)) s' m" "core s' = (st, uID u, AuthVersion u)"
      using Rotate_core [OF rot k] by auto
    have c: "core_map (wSessions w) (SID s) = Some (SState s, SUserID s, SAuthVersion s)"
      using assms(2) by (simp add: holds_def core_def)
    obtain g P where g: "g \<subseteq>\<^sub>m h" "g (SID s) = Some (SState s, SUserID s, SAuthVersion s, P)"
        "(g(SID s := None)) (SID s') = None"
        "\<And>P'. matches m (replaced g (SID s) (SID s') (SState s', SUserID s', SAuthVersion s', P'))"
      using matches_rotate [OF h c s'(1)] by blast
    obtain P' where P': "protocol_step d (g, wDB w) (replaced g (SID s) (SID s') (st, uID u, AuthVersion u, P'), db)"
      using enter [OF g(2,3)] by blast
    have "(protocol_step d)\<^sup>*\<^sup>* (h, wDB w) (replaced g (SID s) (SID s') (st, uID u, AuthVersion u, P'), wDB w')"
      using protocol_step.forget [OF g(1)] P' protocol_stores [OF assms(5)]
      by (meson converse_rtranclp_into_rtranclp)
    then show ?thesis using g(4) [of P'] s'(2) assms(6) by (auto simp: core_def)
  qed
qed

lemma rotate_to_sim:
  assumes "rotate_to env s st u location w2 = (resp, w')" "holds w s" "wSessions w2 = wSessions w"
    and "\<And>h P sid. h (SID s) = Some (SState s, SUserID s, SAuthVersion s, P) \<Longrightarrow> (h(SID s := None)) sid = None \<Longrightarrow>
      \<exists>P'. protocol_step d (h, wDB w) (replaced h (SID s) sid (st, uID u, AuthVersion u, P'), db)"
    and "store_step\<^sup>*\<^sup>* (wDB w) db" "store_step\<^sup>*\<^sup>* db (wDB w2)"
  shows "sim d w w'"
proof -
  obtain res m where rot: "Rotate (at_rotate env) (SID s) st (uID u) (AuthVersion u) (wSessions w) = (res, m)" by fastforce
  show ?thesis
    by (rule Rotate_sim [OF rot assms(2,4,5)])
       (use assms(1,3,6) rot in \<open>auto simp: rotate_to_def split: sum.splits\<close>)
qed


section \<open>The handlers\<close>

lemma gate_then:
  assumes "account_gate admits equipped accepts d env req w = (res, w1)"
    and "\<And>resp. res = Inl resp \<Longrightarrow> sim d w1 w'"
    and "\<And>s u. res = Inr (s, u) \<Longrightarrow> passed w1 s u \<Longrightarrow> admits (SState s) \<Longrightarrow> accepts (SState s) u \<Longrightarrow> sim d w1 w'"
  shows "sim d w w'"
proof (rule simI)
  assume k: "keys_ok (wSessions w)"
  note g = account_gate_sim [OF assms(1) k]
  have "sim d w1 w'"
  proof (cases res)
    case (Inl resp)
    then show ?thesis by (rule assms(2))
  next
    case (Inr x)
    then show ?thesis using g(3) assms(3) by (cases x) blast
  qed
  then show "sim d w w'" by (rule sim_trans [OF g(1)])
qed

lemma form_then:
  assumes "post_form env req limit s w = (form, w1)" "passed w s u"
    and "form = None \<Longrightarrow> sim d w1 w'"
    and "\<And>f. form = Some f \<Longrightarrow> passed w1 s u \<Longrightarrow> sim d w1 w'"
  shows "sim d w w'"
proof -
  have "keys_ok (wSessions w)" using assms(2) by (simp add: passed_def holds_def)
  from post_form_sim(1) [OF assms(1) this] have "sim d w w1" .
  moreover have "sim d w1 w'" using assms passed_form by (cases form) auto
  ultimately show ?thesis by (rule sim_trans)
qed

lemma passed_cong: "passed w s u \<Longrightarrow> wDB w' = wDB w \<Longrightarrow> wSessions w' = wSessions w \<Longrightarrow> passed w' s u"
  by (simp add: passed_def holds_def)

lemma passed_holds: "passed w s u \<Longrightarrow> holds w s"
  by (simp add: passed_def)

lemma passed_keys: "passed w s u \<Longrightarrow> keys_ok (wSessions w)"
  by (simp add: passed_def holds_def)

lemma store_sim: "store_step (wDB w) db \<Longrightarrow> sim d w (w\<lparr>wDB := db\<rparr>)"
  by (rule sim_store) auto

lemma login_sim:
  assumes "login d env req w = (resp, w')"
  shows "sim d w w'"
proof (rule simI)
  assume k: "keys_ok (wSessions w)"
  obtain found w1 where r: "requestSession d env req w = (found, w1)" by fastforce
  note rs = requestSession_sim [OF r k]
  obtain res m where c: "Create (at_rotate env) StateAnonymous 0 0 (wSessions w1) = (res, m)" by fastforce
  have created: "sim d w1 (w1\<lparr>wSessions := m\<rparr>)"
  proof (cases res)
    case (Inl e)
    then show ?thesis using Create_core [OF c rs(3)] by (auto intro: sim_shrinks)
  next
    case (Inr s)
    then have s: "gains (wSessions w1) s m" "core s = (StateAnonymous, 0, 0)" using Create_core [OF c rs(3)] by auto
    have visit: "(protocol_step d)\<^sup>*\<^sup>* (h, db) (g(sid \<mapsto> (StateAnonymous, 0, 0, {})), db)"
      if "g \<subseteq>\<^sub>m h" "g sid = None" for g h :: "string \<Rightarrow> holder option" and sid db
    proof (rule converse_rtranclp_into_rtranclp)
      show "protocol_step d (h, db) (g, db)" by (rule protocol_step.forget [OF that(1)])
      show "(protocol_step d)\<^sup>*\<^sup>* (g, db) (g(sid \<mapsto> (StateAnonymous, 0, 0, {})), db)"
        by (rule r_into_rtranclp, rule protocol_step.visit) (rule that(2))
    qed
    show ?thesis
      unfolding sim_def
    proof (intro allI impI)
      fix h assume "matches (wSessions w1) h"
      from matches_gains [OF this s(1)] obtain g where g: "g \<subseteq>\<^sub>m h" "g (SID s) = None"
        "matches m (g(SID s \<mapsto> (StateAnonymous, 0, 0, {})))" using s(2) by (fastforce simp: core_def)
      then show "\<exists>h'. (protocol_step d)\<^sup>*\<^sup>* (h, wDB w1) (h', wDB (w1\<lparr>wSessions := m\<rparr>)) \<and> matches (wSessions (w1\<lparr>wSessions := m\<rparr>)) h'"
        using visit [OF g(1,2)] by auto
    qed
  qed
  show "sim d w w'"
    using assms r c rs(1) sim_trans [OF rs(1) created]
    by (auto simp: login_def sim_same split: if_splits option.splits sum.splits)
qed

lemma login_failed_sim: "login_failed d env req s name w = (resp, w') \<Longrightarrow> sim d w w'"
  using sim_trans [OF sim_same recordAccess_sim, of
      "w\<lparr>wLogin := Failure (dLower d) (at_failure env) (requestAddress req) name (wLogin w)\<rparr>" w]
  by (auto simp: login_failed_def Let_def)

lemma preferences_store:
  assumes "preferences_of d k w = (cookies, w')"
  shows "store_step\<^sup>*\<^sup>* (wDB w) (wDB w')" "wSessions w' = wSessions w"
  using assms store_step.language [OF prod.collapse [symmetric]]
  by (auto simp: preferences_of_def Let_def split: sum.splits if_splits)

lemma login_accepted_sim:
  assumes "login_accepted d env req s name res w = (resp, w')" "holds w s" "SState s = StateAnonymous"
    and "store_authenticate (dIdkey d) (dBcrypt d) (wDB w) name' pw = Inr res" "rStep res \<noteq> StepInvalid"
  shows "sim d w w'"
proof -
  let ?u = "rUser res"
  let ?w2 = "recordAccess d env req (Some ?u) (Login ?u) ''login_success'' True (w\<lparr>wLogin := Success (dLower d) name (wLogin w)\<rparr>)"
  note a = Authenticate_accepts [OF assms(4,5)]
  have sessions2: "wSessions ?w2 = wSessions w" using recordAccess_store(2) by simp
  have stored2: "store_step\<^sup>*\<^sup>* (wDB w) (wDB ?w2)"
    using recordAccess_store(1) [where w = "w\<lparr>wLogin := Success (dLower d) name (wLogin w)\<rparr>"] by simp
  obtain r m where rot: "Rotate (at_rotate env) (SID s) (fst (nextState (rStep res))) (uID ?u) (AuthVersion ?u) (wSessions w) = (r, m)"
    by fastforce
  obtain cookies w3 where p: "preferences_of d (uID ?u) (?w2\<lparr>wSessions := m\<rparr>) = (cookies, w3)" by fastforce
  have w': "w' = ?w2\<lparr>wSessions := m\<rparr> \<or> w' = w3"
    using assms(1) rot p sessions2
    by (auto simp: login_accepted_def Let_def split: sum.splits if_splits prod.splits)
  then have "store_step\<^sup>*\<^sup>* (wDB w) (wDB w')" "wSessions w' = m"
    using preferences_store [OF p] stored2 by (auto intro: rtranclp_trans)
  then show ?thesis
  proof (intro Rotate_sim [OF rot assms(2), where db = "wDB w"])
    fix h :: "string \<Rightarrow> holder option" and P sid
    assume "h (SID s) = Some (SState s, SUserID s, SAuthVersion s, P)" "(h(SID s := None)) sid = None"
    then have hs: "h (SID s) = Some (StateAnonymous, SUserID s, SAuthVersion s, P)" "(h(SID s := None)) sid = None"
      using assms(3) by simp_all
    show "\<exists>P'. protocol_step d (h, wDB w)
        (replaced h (SID s) sid (fst (nextState (rStep res)), uID ?u, AuthVersion ?u, P'), wDB w)"
      unfolding a(4) by (rule exI, rule protocol_step.login [where h = h and sid = sid, OF hs a(1-3)])
  qed auto
qed

lemma login_allowed_same:
  "login_allowed d env req name pw w = (b, w') \<Longrightarrow> wDB w' = wDB w \<and> wSessions w' = wSessions w"
  by (auto simp: login_allowed_def split: if_splits prod.splits)

lemma authenticate_sim:
  assumes "authenticate d env req w = (resp, w')"
  shows "sim d w w'"
proof (rule simI)
  assume k: "keys_ok (wSessions w)"
  obtain found w1 where r: "requestSession d env req w = (found, w1)" by fastforce
  note rs = requestSession_sim [OF r k]
  show "sim d w w'"
  proof (cases "available_app d \<and> (\<exists>s. found = Some s \<and> SState s = StateAnonymous) \<and> is_form req")
    case False
    then have "w' = w \<or> w' = w1"
      using assms r by (auto simp: authenticate_def session_of_def split: if_splits option.splits)
    then show ?thesis using rs(1) sim_same by auto
  next
    case True
    then obtain s where s: "found = Some s" "SState s = StateAnonymous" by blast
    obtain form w2 where f: "post_form env req 8192 s w1 = (form, w2)" by fastforce
    note fs = post_form_sim [OF f rs(3)]
    have "sim d w2 w'"
    proof (cases form)
      case None
      then show ?thesis using assms r True s f by (auto simp: authenticate_def session_of_def intro: sim_same)
    next
      case (Some fm)
      let ?name = "form_value fm ''login''" and ?pw = "form_value fm ''password''"
      obtain b w3 where l: "login_allowed d env req ?name ?pw w2 = (b, w3)" by fastforce
      note same = login_allowed_same [OF l]
      have h: "holds w3 s" using fs(4) [OF Some rs(4) [OF s(1)]] same holds_cong by blast
      let ?auth = "store_authenticate (dIdkey d) (dBcrypt d) (wDB w3) ?name ?pw"
      have run: "(if b then (case ?auth of Inl e \<Rightarrow> (http_error 503, w3)
            | Inr res \<Rightarrow> if rStep res = StepInvalid then login_failed d env req s ?name w3
                        else login_accepted d env req s ?name res w3)
          else login_failed d env req s ?name w3) = (resp, w')"
        using assms r True s f Some l
        by (cases b) (simp_all add: authenticate_def session_of_def Let_def cong: sum.case_cong if_cong)
      have "sim d w3 w'"
        using run login_failed_sim [of d env req s ?name w3 resp w']
          login_accepted_sim [OF _ h s(2), where name' = ?name and pw = ?pw]
        by (auto simp: sim_same split: if_splits sum.splits)
      then show ?thesis using sim_trans [OF sim_same] same by blast
    qed
    then show ?thesis using sim_trans [OF sim_trans [OF rs(1) fs(1)]] by blast
  qed
qed


lemmas gate_defs = authenticatedUser_def passwordUser_def pendingTwoFactorUser_def

text \<open>Handlers that read only, or change nothing but the account's preferences.\<close>

lemma protected_sim:
  assumes "protected st title message d env req w = (resp, w')"
  shows "sim d w w'"
proof -
  obtain res w1 where g: "account_gate (\<lambda>x. x = st) (dUsers d) (\<lambda>x u. True) d env req w = (res, w1)" by fastforce
  show ?thesis
    by (rule gate_then [OF g]) (use assms g in \<open>auto simp: protected_def sim_same\<close>)
qed

lemma twoFactor_sim:
  assumes "twoFactor d env req w = (resp, w')"
  shows "sim d w w'"
proof -
  obtain res w1 where g: "pendingTwoFactorUser d env req w = (res, w1)" by fastforce
  show ?thesis
    by (rule gate_then [OF g [unfolded gate_defs]]) (use assms g in \<open>auto simp: twoFactor_def sim_same\<close>)
qed

lemma password_sim:
  assumes "password d env req w = (resp, w')"
  shows "sim d w w'"
proof -
  obtain res w1 where g: "passwordUser d env req w = (res, w1)" by fastforce
  show ?thesis
    by (rule gate_then [OF g [unfolded gate_defs]]) (use assms g in \<open>auto simp: password_def sim_same\<close>)
qed

lemma SetTheme_sim: "SetTheme k t (wDB w) = (r, db) \<Longrightarrow> sim d w (w\<lparr>wDB := db\<rparr>)"
  by (rule store_sim) (rule store_step.theme)

lemma SetLanguage_sim: "SetLanguage k t (wDB w) = (r, db) \<Longrightarrow> sim d w (w\<lparr>wDB := db\<rparr>)"
  by (rule store_sim) (rule store_step.language)

lemma changeTheme_sim:
  assumes "changeTheme d env req w = (resp, w')"
  shows "sim d w w'"
proof -
  obtain res w1 where g: "authenticatedUser d env req w = (res, w1)" by fastforce
  show ?thesis
  proof (rule gate_then [OF g [unfolded gate_defs]])
    fix s u assume r: "res = Inr (s, u)" "passed w1 s u"
    obtain form w2 where f: "post_form env req 4096 s w1 = (form, w2)" by fastforce
    have "sim d w1 w'" if "is_form req"
    proof (rule form_then [OF f r(2)])
      fix fm assume fm: "form = Some fm"
      obtain x db where x: "SetTheme (uID u) (form_value fm ''theme'') (wDB w2) = (x, db)" by fastforce
      show "sim d w2 w'"
        using assms g r f fm that x SetTheme_sim [OF x]
        by (auto simp: changeTheme_def sim_same Let_def split: if_splits sum.splits)
    qed (use assms g r f that in \<open>auto simp: changeTheme_def sim_same\<close>)
    then show "sim d w1 w'" using assms g r by (auto simp: changeTheme_def sim_same split: if_splits)
  qed (use assms g in \<open>auto simp: changeTheme_def sim_same\<close>)
qed

lemma changeLanguage_sim:
  assumes "changeLanguage d env req w = (resp, w')"
  shows "sim d w w'"
proof -
  obtain res w1 where g: "authenticatedUser d env req w = (res, w1)" by fastforce
  show ?thesis
  proof (rule gate_then [OF g [unfolded gate_defs]])
    fix s u assume r: "res = Inr (s, u)" "passed w1 s u"
    obtain form w2 where f: "post_form env req 4096 s w1 = (form, w2)" by fastforce
    have "sim d w1 w'" if "is_form req"
    proof (rule form_then [OF f r(2)])
      fix fm assume fm: "form = Some fm"
      obtain x db where x: "SetLanguage (uID u) (form_value fm ''language'') (wDB w2) = (x, db)" by fastforce
      show "sim d w2 w'"
        using assms g r f fm that x SetLanguage_sim [OF x]
        by (auto simp: changeLanguage_def sim_same Let_def split: if_splits sum.splits)
    qed (use assms g r f that in \<open>auto simp: changeLanguage_def sim_same\<close>)
    then show "sim d w1 w'" using assms g r by (auto simp: changeLanguage_def sim_same split: if_splits)
  qed (use assms g in \<open>auto simp: changeLanguage_def sim_same\<close>)
qed

lemma logout_sim:
  assumes "logout d env req w = (resp, w')"
  shows "sim d w w'"
proof (rule simI)
  assume k: "keys_ok (wSessions w)"
  obtain found w1 where r: "requestSession d env req w = (found, w1)" by fastforce
  note rs = requestSession_sim [OF r k]
  obtain form w2 where f: "post_form env req 4096 (session_of found) w1 = (form, w2)" by fastforce
  note fs = post_form_sim [OF f rs(3)]
  have left: "sim d w2 (w3\<lparr>wSessions := m\<rparr>)"
    if "w3 = w2 \<or> (\<exists>u. w3 = recordAccess d env req (Some u) (Login u) ''logout'' True w2)"
      "Destroy (at_rotate env) sid (wSessions w3) = (x, m)" for w3 m sid x
  proof -
    have "sim d w2 w3" "wSessions w3 = wSessions w2"
      using that(1) recordAccess_sim [of d w2] recordAccess_store(2) sim_same by auto
    moreover have "sim d w3 (w3\<lparr>wSessions := m\<rparr>)"
      using Destroy_core [OF that(2)] fs(3) calculation(2) by (auto intro: sim_shrinks)
    ultimately show ?thesis using sim_trans by blast
  qed
  let ?w3 = "if dUsers d then (case FindByID (SUserID (session_of found)) (wDB w2) of
      Inr (Some user) \<Rightarrow> recordAccess d env req (Some user) (Login user) ''logout'' True w2 | _ \<Rightarrow> w2) else w2"
  have w3: "?w3 = w2 \<or> (\<exists>u. ?w3 = recordAccess d env req (Some u) (Login u) ''logout'' True w2)"
    by (auto split: sum.splits option.splits)
  obtain x m where dest: "Destroy (at_rotate env) (SID (session_of found)) (wSessions ?w3) = (x, m)" by fastforce
  have "w' = invalidate d env (SID (session_of found)) w1 \<or> w' = w1 \<or> w' = w2 \<or> w' = ?w3\<lparr>wSessions := m\<rparr>"
    using assms unfolding logout_def r Let_def prod.case f
    by (simp only: dest prod.case split: if_splits option.splits) auto
  moreover have "sim d w w2" by (rule sim_trans [OF rs(1) fs(1)])
  ultimately show "sim d w w'"
    using rs(1) sim_trans [OF rs(1) invalidate_sim [OF rs(3)]] sim_trans [OF _ left [OF w3 dest]] by auto
qed


text \<open>Handlers that move a session forward.\<close>

lemma factor_valid_cases:
  assumes "factor_valid d env req u code w = (b, w')"
  shows "wDB w' = wDB w" "wSessions w' = wSessions w" "b \<Longrightarrow> Verify (dUpper d) (at_verify env) (null_string (TOTPSecret u)) code"
  using assms by (auto simp: factor_valid_def split: prod.splits)

lemma factor_failure_simps [simp]:
  "wDB (factor_failure d env req u w) = wDB w" "wSessions (factor_failure d env req u w) = wSessions w"
  by (simp_all add: factor_failure_def)

lemma factor_success_simps [simp]:
  "wDB (factor_success d u w) = wDB w" "wSessions (factor_success d u w) = wSessions w"
  by (simp_all add: factor_success_def)

lemma verifyTwoFactor_sim:
  assumes "verifyTwoFactor d env req w = (resp, w')"
  shows "sim d w w'"
proof -
  obtain res w1 where g: "pendingTwoFactorUser d env req w = (res, w1)" by fastforce
  show ?thesis
  proof (rule gate_then [OF g [unfolded gate_defs]])
    fix s u assume r: "res = Inr (s, u)" "passed w1 s u" "SState s = StateTwoFactor"
      and tf: "TOTPSecret u \<noteq> None \<and> TOTPEnabledAt u \<noteq> None"
    obtain secret where secret: "TOTPSecret u = Some secret" using tf by blast
    obtain form w2 where f: "post_form env req 4096 s w1 = (form, w2)" by fastforce
    have "sim d w1 w'" if c: "\<not> (\<not> dTwoFactor d \<or> \<not> dTwoFactorLimiter d)" "is_form req"
    proof (rule form_then [OF f r(2)])
      fix fm assume fm: "form = Some fm" "passed w2 s u"
      obtain b w3 where v: "factor_valid d env req u (form_value fm ''code'') w2 = (b, w3)" by fastforce
      note fv = factor_valid_cases [OF v]
      have p3: "passed w3 s u" by (rule passed_cong [OF fm(2) fv(1,2)])
      let ?ok = "recordAccess d env req (Some u) (Login u) ''two_factor_success'' True (factor_success d u w3)"
      let ?bad = "recordAccess d env req (Some u) (Login u) ''two_factor_failure'' False (factor_failure d env req u w3)"
      have "sim d w3 w'"
      proof (cases b)
        case True
        have run: "rotate_to env s (fst (after_factor u)) u (snd (after_factor u)) ?ok = (resp, w')"
          using assms g r(1) c f fm(1) v True by (simp add: verifyTwoFactor_def Let_def split: prod.splits)
        show ?thesis
        proof (rule rotate_to_sim [OF run passed_holds [OF p3], where db = "wDB w3"])
          fix h :: "string \<Rightarrow> holder option" and P sid
          assume "h (SID s) = Some (SState s, SUserID s, SAuthVersion s, P)" "(h(SID s := None)) sid = None"
          then have hs: "h (SID s) = Some (StateTwoFactor, uID u, AuthVersion u, P)" "(h(SID s := None)) sid = None"
            using r(3) p3 by (simp_all add: passed_def)
          have "FindByID (uID u) (wDB w3) = Inr (Some u)" using p3 by (simp add: passed_def)
          from protocol_step.factor [where h = h and sid = sid, OF hs this refl secret] fv(3) [OF True] secret
          show "\<exists>P'. protocol_step d (h, wDB w3) (replaced h (SID s) sid (fst (after_factor u), uID u, AuthVersion u, P'), wDB w3)"
            by (auto simp: null_string_def)
        qed (use recordAccess_store [where w = "factor_success d u w3"] in auto)
      next
        case False
        then have "w' = ?bad"
          using assms g r(1) c f fm(1) v by (simp add: verifyTwoFactor_def Let_def)
        then show ?thesis
          using sim_trans [OF sim_same recordAccess_sim, of "factor_failure d env req u w3" w3] by simp
      qed
      then show "sim d w2 w'" using sim_trans [OF sim_same [OF fv(1,2)]] by blast
    qed (use assms g r(1) f c in \<open>auto simp: verifyTwoFactor_def sim_same\<close>)
    then show "sim d w1 w'" using assms g r(1) by (auto simp: verifyTwoFactor_def sim_same split: if_splits)
  qed (use assms g in \<open>auto simp: verifyTwoFactor_def sim_same\<close>)
qed

text \<open>The end of both enrolments: the code was right and the account was updated.\<close>

lemma enrolled_sim:
  assumes run: "rotate_to env s st' u location w2 = (resp, w')"
    and "holds w s" "wSessions w2 = wSessions w" "store_step\<^sup>*\<^sup>* db (wDB w2)"
    and "EnableTOTP now (SUserID s) (SAuthVersion s) secret (wDB w) = (Inr u, db)"
    and "Verify (dUpper d) t secret code"
    and st: "SState s = StateTwoFactorSetup \<and> st' = fst (after_factor u) \<or> SState s = StateAuthenticated \<and> st' = SState s"
  shows "sim d w w'"
proof (rule rotate_to_sim [OF run assms(2,3), where db = db])
  fix h :: "string \<Rightarrow> holder option" and P sid
  assume hs: "h (SID s) = Some (SState s, SUserID s, SAuthVersion s, P)" "(h(SID s := None)) sid = None"
  from protocol_step.enroll [where h = h and sid = sid, OF this st assms(6,5)]
  show "\<exists>P'. protocol_step d (h, wDB w) (replaced h (SID s) sid (st', uID u, AuthVersion u, P'), db)" by blast
qed (use assms(4) store_step.enable [OF assms(5)] in auto)

lemma pendingEnrollmentUser_sim:
  assumes "pendingEnrollmentUser d env req w = (res, w1)" "keys_ok (wSessions w)"
  shows "sim d w w1"
    "res = Inr (s, u) \<Longrightarrow> holds w1 s \<and> SState s = StateTwoFactorSetup \<and> uID u = SUserID s \<and> AuthVersion u = SAuthVersion s"
proof -
  obtain res0 w0 where g: "account_gate (\<lambda>st. st = StateTwoFactorSetup) (dUsers d \<and> dEnrollment d)
      (\<lambda>st user. TwoFactorRequired user \<and> TOTPEnabledAt user = None) d env req w = (res0, w0)" by fastforce
  note gs = account_gate_sim [OF g assms(2)]
  have "sim d w w1 \<and> (res = Inr (s, u) \<longrightarrow>
      holds w1 s \<and> SState s = StateTwoFactorSetup \<and> uID u = SUserID s \<and> AuthVersion u = SAuthVersion s)"
  proof (cases res0)
    case (Inl resp)
    then show ?thesis using assms(1) g gs(1) by (auto simp: pendingEnrollmentUser_def)
  next
    case (Inr x)
    obtain s0 u0 where x: "x = (s0, u0)" by fastforce
    have p: "passed w0 s0 u0" "SState s0 = StateTwoFactorSetup" using gs(3) Inr x by auto
    show ?thesis
    proof (cases "TOTPSecret u0 \<noteq> None \<or> GenerateTOTPSecret (secret_bytes env) = None")
      case True
      then show ?thesis
        using assms(1) g Inr x p gs(1)
        by (auto simp: pendingEnrollmentUser_def passed_def split: if_splits)
    next
      case False
      then obtain secret where sec: "GenerateTOTPSecret (secret_bytes env) = Some secret" "TOTPSecret u0 = None" by auto
      obtain y db where y: "PrepareTOTP (stamp env) (uID u0) (AuthVersion u0) secret (wDB w0) = (y, db)" by fastforce
      have st: "sim d w (w0\<lparr>wDB := db\<rparr>)"
        by (rule sim_trans [OF gs(1) store_sim [OF store_step.prepare [OF y]]])
      have inv: "sim d w (invalidate d env (SID s0) (w0\<lparr>wDB := db\<rparr>))"
        by (rule sim_trans [OF st invalidate_sim]) (use passed_keys [OF p(1)] in simp)
      have ids: "uID v = uID u0 \<and> AuthVersion v = AuthVersion u0" if "y = Inr v" for v
        using y that
        by (auto simp: PrepareTOTP_def scanRequiredUser_def current_def split: if_splits option.splits dest!: find_SomeD)
      show ?thesis
        using assms(1) g Inr x sec y st inv ids p
        by (auto simp: pendingEnrollmentUser_def passed_def holds_def split: sum.splits)
    qed
  qed
  then show "sim d w w1"
    "res = Inr (s, u) \<Longrightarrow> holds w1 s \<and> SState s = StateTwoFactorSetup \<and> uID u = SUserID s \<and> AuthVersion u = SAuthVersion s"
    by blast+
qed

lemma twoFactorSetup_sim:
  assumes "twoFactorSetup d env req w = (resp, w')"
  shows "sim d w w'"
  by (rule simI)
     (use assms pendingEnrollmentUser_sim(1) in \<open>auto simp: twoFactorSetup_def split: prod.splits sum.splits\<close>)


lemma confirmTwoFactorSetup_sim:
  assumes "confirmTwoFactorSetup d env req w = (resp, w')"
  shows "sim d w w'"
proof (rule simI)
  assume k: "keys_ok (wSessions w)"
  obtain res w1 where g: "pendingEnrollmentUser d env req w = (res, w1)" by fastforce
  note gs = pendingEnrollmentUser_sim [OF g k]
  show "sim d w w'"
  proof (cases "\<exists>s u. res = Inr (s, u) \<and> dTwoFactor d \<and> dTwoFactorLimiter d \<and> dEnrollment d \<and> is_form req")
    case False
    then have "w' = w1"
      using assms g by (auto simp: confirmTwoFactorSetup_def Let_def split: sum.splits if_splits)
    then show ?thesis using gs(1) by simp
  next
    case True
    then obtain s u where r: "res = Inr (s, u)" and c: "dTwoFactor d" "dTwoFactorLimiter d" "dEnrollment d" "is_form req" by blast
    note h = gs(2) [OF r]
    have k1: "keys_ok (wSessions w1)" using h by (simp add: holds_def)
    obtain form w2 where f: "post_form env req 4096 s w1 = (form, w2)" by fastforce
    note fs = post_form_sim [OF f k1]
    have "sim d w2 w'"
    proof (cases form)
      case None
      then show ?thesis
        using assms g r c f by (auto simp: confirmTwoFactorSetup_def Let_def sim_same)
    next
      case (Some fm)
      have h2: "holds w2 s" using fs(4) [OF Some] h by blast
      obtain b w3 where v: "factor_valid d env req u (form_value fm ''code'') w2 = (b, w3)" by fastforce
      note fv = factor_valid_cases [OF v]
      have h3: "holds w3 s" using h2 fv(2) holds_cong by blast
      obtain y db where y: "EnableTOTP (stamp env) (uID u) (AuthVersion u) (null_string (TOTPSecret u)) (wDB w3) = (y, db)" by fastforce
      have st: "sim d w3 (w3\<lparr>wDB := db\<rparr>)" by (rule store_sim [OF store_step.enable [OF y]])
      have "sim d w3 w'"
      proof (cases "b \<and> (\<exists>v. y = Inr v)")
        case True
        then obtain v where yv: "y = Inr v" and b by blast
        let ?w4 = "factor_success d u (recordAccess d env req (Some v) (Login v) ''two_factor_enabled'' True (w3\<lparr>wDB := db\<rparr>))"
        have run: "rotate_to env s (fst (after_factor v)) v (snd (after_factor v)) ?w4 = (resp, w')"
          using assms g r c f Some \<open>factor_valid d env req u (form_value fm ''code'') w2 = (b, w3)\<close> y yv \<open>b\<close>
          by (simp add: confirmTwoFactorSetup_def Let_def split: prod.splits)
        show ?thesis
          by (rule enrolled_sim [OF run h3])
             (use y yv h fv(3) [OF \<open>b\<close>] recordAccess_store [where w = "w3\<lparr>wDB := db\<rparr>"] in auto)
      next
        case False
        then have "w' = factor_failure d env req u w3 \<or> w' = invalidate d env (SID s) (w3\<lparr>wDB := db\<rparr>)"
          using assms g r c f Some v y
          by (cases b; cases y) (auto simp: confirmTwoFactorSetup_def Let_def)
        moreover have "sim d w3 (invalidate d env (SID s) (w3\<lparr>wDB := db\<rparr>))"
          by (rule sim_trans [OF st invalidate_sim]) (use h3 in \<open>simp add: holds_def\<close>)
        ultimately show ?thesis using sim_same [of "factor_failure d env req u w3" w3] by auto
      qed
      then show ?thesis using sim_trans [OF sim_same [OF fv(1,2)]] by blast
    qed
    then show ?thesis using sim_trans [OF sim_trans [OF gs(1) fs(1)]] by blast
  qed
qed

lemma accountTwoFactorSetup_sim:
  assumes "accountTwoFactorSetup d env req w = (resp, w')"
  shows "sim d w w'"
proof -
  obtain res w1 where g: "authenticatedUser d env req w = (res, w1)" by fastforce
  show ?thesis
  proof (rule gate_then [OF g [unfolded gate_defs]])
    fix s u assume r: "res = Inr (s, u)"
    have "w' = w1 \<or> (\<exists>secret y db. PrepareTOTP (stamp env) (uID u) (AuthVersion u) secret (wDB w1) = (y, db) \<and> w' = w1\<lparr>wDB := db\<rparr>)"
      using assms g r
      by (auto simp: accountTwoFactorSetup_def Let_def split: if_splits option.splits sum.splits prod.splits)
    then show "sim d w1 w'"
      using sim_same store_sim [OF store_step.prepare] by auto
  qed (use assms g in \<open>auto simp: accountTwoFactorSetup_def sim_same\<close>)
qed

lemma confirmAccountTwoFactorSetup_sim:
  assumes "confirmAccountTwoFactorSetup d env req w = (resp, w')"
  shows "sim d w w'"
proof -
  obtain res w1 where g: "authenticatedUser d env req w = (res, w1)" by fastforce
  show ?thesis
  proof (rule gate_then [OF g [unfolded gate_defs]])
    fix s u assume r: "res = Inr (s, u)" "passed w1 s u" "SState s = StateAuthenticated"
    obtain form w2 where f: "post_form env req 8192 s w1 = (form, w2)" by fastforce
    show "sim d w1 w'"
    proof (rule form_then [OF f r(2)])
      fix fm assume fm: "form = Some fm" "passed w2 s u"
      let ?sec = "null_string (TOTPSecret u)"
      obtain y db where y: "EnableTOTP (stamp env) (uID u) (AuthVersion u) ?sec (wDB w2) = (y, db)" by fastforce
      have st: "sim d w2 (w2\<lparr>wDB := db\<rparr>)" by (rule store_sim [OF store_step.enable [OF y]])
      let ?go = "TOTPSecret u \<noteq> None \<and> dTwoFactor d \<and> dEnrollment d \<and> Verify (dUpper d) (at_verify env) ?sec (form_value fm ''code'')"
      have ids: "uID u = SUserID s" "AuthVersion u = SAuthVersion s" using fm(2) by (simp_all add: passed_def)
      consider (stop) "w' = w2 \<or> w' = w2\<lparr>wDB := db\<rparr>"
        | (enabled) v where ?go "y = Inr v" "rotate_to env s StateAuthenticated v ''/go/account/password''
            (recordAccess d env req (Some v) (Login v) ''two_factor_enabled'' True (w2\<lparr>wDB := db\<rparr>)) = (resp, w')"
        using assms g r(1) f fm(1) y
        by (cases y) (auto simp: confirmAccountTwoFactorSetup_def Let_def split: if_splits)
      then show "sim d w2 w'"
      proof cases
        case stop
        then show ?thesis using st sim_same by auto
      next
        case (enabled v)
        show ?thesis
          by (rule enrolled_sim [OF enabled(3) passed_holds [OF fm(2)]])
             (use y enabled(1,2) ids r(3) recordAccess_store [where w = "w2\<lparr>wDB := db\<rparr>"] in auto)
      qed
    qed (use assms g r(1) f in \<open>auto simp: confirmAccountTwoFactorSetup_def Let_def sim_same\<close>)
  qed (use assms g in \<open>auto simp: confirmAccountTwoFactorSetup_def sim_same\<close>)
qed

lemma disableAccountTwoFactor_sim:
  assumes "disableAccountTwoFactor d env req w = (resp, w')"
  shows "sim d w w'"
proof -
  obtain res w1 where g: "authenticatedUser d env req w = (res, w1)" by fastforce
  show ?thesis
  proof (rule gate_then [OF g [unfolded gate_defs]])
    fix s u assume r: "res = Inr (s, u)" "passed w1 s u" "SState s = StateAuthenticated"
    obtain form w2 where f: "post_form env req 8192 s w1 = (form, w2)" by fastforce
    show "sim d w1 w'"
    proof (rule form_then [OF f r(2)])
      fix fm assume fm: "form = Some fm" "passed w2 s u"
      let ?sec = "null_string (TOTPSecret u)"
      obtain y db where y: "DisableTOTP (stamp env) (uID u) (AuthVersion u) (wDB w2) = (y, db)" by fastforce
      have st: "sim d w2 (w2\<lparr>wDB := db\<rparr>)" by (rule store_sim [OF store_step.disable [OF y]])
      consider (stop) "w' = w2 \<or> w' = w2\<lparr>wDB := db\<rparr>"
        | (disabled) v secret where "TOTPSecret u = Some secret"
            "Verify (dUpper d) (at_verify env) ?sec (form_value fm ''code'')" "y = Inr v"
            "rotate_to env s StateAuthenticated v ''/go/account/password''
              (recordAccess d env req (Some v) (Login v) ''two_factor_disabled'' True (w2\<lparr>wDB := db\<rparr>)) = (resp, w')"
        using assms g r(1) f fm(1) y
        by (cases y) (auto simp: disableAccountTwoFactor_def Let_def split: if_splits)
      then show "sim d w2 w'"
      proof cases
        case stop
        then show ?thesis using st sim_same by auto
      next
        case (disabled v secret)
        have p: "FindByID (SUserID s) (wDB w2) = Inr (Some u)"
            "DisableTOTP (stamp env) (SUserID s) (SAuthVersion s) (wDB w2) = (Inr v, db)"
          using fm(2) y disabled(3) by (simp_all add: passed_def)
        show ?thesis
        proof (rule rotate_to_sim [OF disabled(4) passed_holds [OF fm(2)], where db = db])
          fix h :: "string \<Rightarrow> holder option" and P sid
          assume "h (SID s) = Some (SState s, SUserID s, SAuthVersion s, P)" "(h(SID s := None)) sid = None"
          then have hs: "h (SID s) = Some (StateAuthenticated, SUserID s, SAuthVersion s, P)" "(h(SID s := None)) sid = None"
            using r(3) by simp_all
          from protocol_step.disable [where h = h and sid = sid, OF hs p(1) disabled(1) _ p(2)] disabled(1,2)
          show "\<exists>P'. protocol_step d (h, wDB w2) (replaced h (SID s) sid (StateAuthenticated, uID v, AuthVersion v, P'), db)"
            by (auto simp: null_string_def)
        qed (use store_step.disable [OF y] recordAccess_store [where w = "w2\<lparr>wDB := db\<rparr>"] in auto)
      qed
    qed (use assms g r(1) f in \<open>auto simp: disableAccountTwoFactor_def Let_def sim_same\<close>)
  qed (use assms g in \<open>auto simp: disableAccountTwoFactor_def sim_same\<close>)
qed


lemma changePassword_sim:
  assumes "changePassword d env req w = (resp, w')"
  shows "sim d w w'"
proof -
  obtain res w1 where g: "passwordUser d env req w = (res, w1)" by fastforce
  show ?thesis
  proof (rule gate_then [OF g [unfolded gate_defs]])
    fix s u assume r: "res = Inr (s, u)" "passed w1 s u" and st: "SState s = StatePassword \<or> SState s = StateAuthenticated"
    obtain form w2 where f: "post_form env req 8192 s w1 = (form, w2)" by fastforce
    have "sim d w1 w'" if c: "\<not> (\<not> dPasswords d \<or> \<not> dPasswordLimiter d)" "is_form req"
    proof (rule form_then [OF f r(2)])
      fix fm assume fm: "form = Some fm" "passed w2 s u"
      let ?old = "form_value fm ''current_password''" and ?new = "form_value fm ''new_password''"
      let ?verify = "\<lambda>p. VerifyPassword (dIdkey d) (dBcrypt d) p (PasswordHash u)"
      obtain b l where al: "Allowed (dLower d) (at_allowed env) (requestAddress req) (Login u) (wPassword w2) = (b, l)" by fastforce
      let ?w3 = "w2\<lparr>wPassword := l\<rparr>"
      have p3: "passed ?w3 s u" by (rule passed_cong [OF fm(2)]) simp_all
      consider (same) "wDB w' = wDB w2" "wSessions w' = wSessions w2"
        | (failed) hash e db where "ChangePassword (stamp env) (uID u) (AuthVersion u) (PasswordHash u) hash (wDB w2) = (Inl e, db)"
            "w' = invalidate d env (SID s) (?w3\<lparr>wDB := db\<rparr>)"
        | (changed) hash v db where "?verify ?old"
            "ChangePassword (stamp env) (uID u) (AuthVersion u) (PasswordHash u) hash (wDB w2) = (Inr v, db)"
            "rotate_to env s StateAuthenticated v ''/go/dashboard''
              (recordAccess d env req (Some v) (Login v) ''password_changed'' True
                 (?w3\<lparr>wDB := db, wPassword := Success (dLower d) (Login u) l\<rparr>)) = (resp, w')"
        using assms g r(1) f fm(1) c al
        by (auto simp: changePassword_def Let_def split: if_splits sum.splits prod.splits)
      then show "sim d w2 w'"
      proof cases
        case same
        then show ?thesis by (rule sim_same)
      next
        case (failed hash e db)
        have "sim d w2 (?w3\<lparr>wDB := db\<rparr>)"
          by (rule sim_store) (use store_step.change [OF failed(1)] in auto)
        moreover have "sim d (?w3\<lparr>wDB := db\<rparr>) w'"
          unfolding failed(2) by (rule invalidate_sim) (use passed_keys [OF fm(2)] in simp)
        ultimately show ?thesis by (rule sim_trans)
      next
        case (changed hash v db)
        have ch: "ChangePassword (stamp env) (SUserID s) (SAuthVersion s) (PasswordHash u) hash (wDB w2) = (Inr v, db)"
          using changed(2) fm(2) by (simp add: passed_def)
        show ?thesis
        proof (rule rotate_to_sim [OF changed(3) passed_holds [OF fm(2)], where db = db])
          fix h :: "string \<Rightarrow> holder option" and P sid
          assume hs: "h (SID s) = Some (SState s, SUserID s, SAuthVersion s, P)" "(h(SID s := None)) sid = None"
          from protocol_step.change [where h = h and sid = sid, OF hs st changed(1) ch]
          show "\<exists>P'. protocol_step d (h, wDB w2) (replaced h (SID s) sid (StateAuthenticated, uID v, AuthVersion v, P'), db)" by blast
        qed (use store_step.change [OF ch] recordAccess_store [where w = "?w3\<lparr>wDB := db, wPassword := Success (dLower d) (Login u) l\<rparr>"] in auto)
      qed
    qed (use assms g r(1) f c in \<open>auto simp: changePassword_def Let_def sim_same\<close>)
    then show "sim d w1 w'" using assms g r(1) by (auto simp: changePassword_def Let_def sim_same split: if_splits)
  qed (use assms g in \<open>auto simp: changePassword_def sim_same\<close>)
qed

end
