(* ===== verification/Webapp.thy ===== *)
theory Webapp
  imports Webapp_Refinement
begin

text \<open>
  The account side of the web server as a whole: the routes of the handlers, a run of the server, and what
  holds of every run.
\<close>

section \<open>Routes and runs\<close>

datatype handler =
    HLogin | HAuthenticate | HLogout
  | HPassword | HChangePassword | HChangeTheme | HChangeLanguage
  | HAccountTwoFactorSetup | HConfirmAccountTwoFactorSetup | HDisableAccountTwoFactor
  | HTwoFactor | HVerifyTwoFactor | HTwoFactorSetup | HConfirmTwoFactorSetup

definition routes :: "((string \<times> string) \<times> handler) list" where
  "routes =
     [((''GET'', ''/login''), HLogin),
      ((''POST'', ''/login''), HAuthenticate),
      ((''POST'', ''/logout''), HLogout),
      ((''GET'', ''/go/account/password''), HPassword),
      ((''POST'', ''/go/account/password''), HChangePassword),
      ((''POST'', ''/go/account/theme''), HChangeTheme),
      ((''POST'', ''/go/account/language''), HChangeLanguage),
      ((''GET'', ''/go/account/two-factor/setup''), HAccountTwoFactorSetup),
      ((''POST'', ''/go/account/two-factor/setup''), HConfirmAccountTwoFactorSetup),
      ((''POST'', ''/go/account/two-factor/disable''), HDisableAccountTwoFactor),
      ((''GET'', ''/go/two-factor''), HTwoFactor),
      ((''POST'', ''/go/two-factor''), HVerifyTwoFactor),
      ((''GET'', ''/go/two-factor/setup''), HTwoFactorSetup),
      ((''POST'', ''/go/two-factor/setup''), HConfirmTwoFactorSetup)]"

fun serve :: "handler \<Rightarrow> dependencies \<Rightarrow> request_env \<Rightarrow> http_request \<Rightarrow> web \<Rightarrow> http_response \<times> web" where
  "serve HLogin = login"
| "serve HAuthenticate = authenticate"
| "serve HLogout = logout"
| "serve HPassword = password"
| "serve HChangePassword = changePassword"
| "serve HChangeTheme = changeTheme"
| "serve HChangeLanguage = changeLanguage"
| "serve HAccountTwoFactorSetup = accountTwoFactorSetup"
| "serve HConfirmAccountTwoFactorSetup = confirmAccountTwoFactorSetup"
| "serve HDisableAccountTwoFactor = disableAccountTwoFactor"
| "serve HTwoFactor = twoFactor"
| "serve HVerifyTwoFactor = verifyTwoFactor"
| "serve HTwoFactorSetup = twoFactorSetup"
| "serve HConfirmTwoFactorSetup = confirmTwoFactorSetup"

text \<open>
  A step of the server: a request reaches one of these handlers, at any time and with any clock, random
  bytes and faults, or some other operation on the store takes place.
\<close>

inductive web_step :: "dependencies \<Rightarrow> web \<Rightarrow> web \<Rightarrow> bool" for d where
  request: "map_of routes (meth, req_path req) = Some kind \<Longrightarrow> serve kind d env req w = (resp, w') \<Longrightarrow> web_step d w w'"
| store: "store_step (wDB w) db \<Longrightarrow> web_step d w (w\<lparr>wDB := db\<rparr>)"

text \<open>The server starts without sessions.\<close>

definition web_init :: "web \<Rightarrow> bool" where
  "web_init w \<longleftrightarrow> sessions (wSessions w) = [] \<and> database_ok (wDB w)"

lemma serve_sim: "serve kind d env req w = (resp, w') \<Longrightarrow> sim d w w'"
  by (cases kind)
     (auto intro: login_sim authenticate_sim logout_sim password_sim changePassword_sim changeTheme_sim changeLanguage_sim
        accountTwoFactorSetup_sim confirmAccountTwoFactorSetup_sim disableAccountTwoFactor_sim
        twoFactor_sim verifyTwoFactor_sim twoFactorSetup_sim confirmTwoFactorSetup_sim)

lemma web_step_sim: "web_step d w w' \<Longrightarrow> sim d w w'"
  by (induction rule: web_step.induct) (auto intro: serve_sim store_sim)

lemma web_steps_sim: "(web_step d)\<^sup>*\<^sup>* w w' \<Longrightarrow> sim d w w'"
  by (induction rule: rtranclp_induct) (auto intro: sim_same sim_trans web_step_sim)

section \<open>Properties\<close>


definition plain_dependencies :: dependencies where
  "plain_dependencies =
     \<lparr>dSessions = True, dAuthenticator = True, dUsers = True, dAccessLog = True, dLoginLimiter = True, dTwoFactor = True,
      dTwoFactorLimiter = True, dEnrollment = True, dPasswords = True, dPasswordLimiter = True, dAuthorization = True,
      dSettings = True, dDefaultLanguage = ''fr'', dIdkey = (\<lambda>_ _ _ _ _ _. []),
      dBcrypt = (\<lambda>h p. h = ''$2y$10$alice'' \<and> p = ''right''), dLower = (\<lambda>r. r), dUpper = (\<lambda>r. r), dQrcode = Some\<rparr>"

definition plain_env :: request_env where
  "plain_env =
     \<lparr>calls = (\<lambda>_. \<lparr>clock = 0, pfault = NoFault, json_size = (\<lambda>_. 0)\<rparr>), stamp = ''t'',
      salt_bytes = Some (replicate 16 CHR ''s''), secret_bytes = Some (replicate 20 CHR ''k'')\<rparr>"

definition get_request :: "string \<Rightarrow> http_request" where
  "get_request path =
     \<lparr>req_path = path, req_cookies = [], req_content_type = '''', req_form = (\<lambda>_. None), req_remote = ''192.0.2.7:4711'',
      req_forwarded = '''', req_real_ip = '''', req_agent = ''agent''\<rparr>"

definition plain_web :: web where
  "plain_web =
     \<lparr>wDB = sample_database, wSessions = example_manager\<lparr>random := replicate 32 CHR ''a'' @ replicate 32 CHR ''b'' @ replicate 32 CHR ''c'' @ replicate 32 CHR ''d''\<rparr>, wLogin = NewLoginLimiter, wFactor = NewLoginLimiter,
      wPassword = NewLoginLimiter\<rparr>"

lemma plain_web_init: "web_init plain_web"
  using sample_database_ok by (simp add: web_init_def plain_web_def example_manager_def)

lemma plain_web_matches: "matches (wSessions plain_web) Map.empty"
  using plain_web_init by (simp add: web_init_def matches_def keys_ok_def core_map_def)

definition visited :: "http_response \<times> web" where
  "visited = login plain_dependencies plain_env (get_request ''/login'') plain_web"

lemma visited_step: "web_step plain_dependencies plain_web (snd visited)"
proof (rule web_step.request)
  show "map_of routes (''GET'', req_path (get_request ''/login'')) = Some HLogin"
    by (simp add: routes_def get_request_def)
  show "serve HLogin plain_dependencies plain_env (get_request ''/login'') plain_web = (fst visited, snd visited)"
    by (simp add: visited_def)
qed




definition cookie_of :: "http_response \<Rightarrow> string" where
  "cookie_of resp = (case resp_cookies resp of [] \<Rightarrow> '''' | c # cs \<Rightarrow> cookie_value c)"

definition csrf_of :: "http_response \<Rightarrow> string" where
  "csrf_of resp = (case resp_page resp of LoginPage csrf failed notice language \<Rightarrow> csrf | _ \<Rightarrow> '''')"

definition login_request :: http_request where
  "login_request = (get_request ''/login'')
     \<lparr>req_cookies := [(CookieName, cookie_of (fst visited))],
      req_content_type := ''application/x-www-form-urlencoded'',
      req_form := (\<lambda>_. Some [(''_token'', csrf_of (fst visited)), (''login'', ''alice''), (''password'', ''right'')])\<rparr>"

definition logged_in :: "http_response \<times> web" where
  "logged_in = authenticate plain_dependencies plain_env login_request (snd visited)"

lemma visited_eval:
  "cookie_of (fst visited) = base64_encode base64_url (replicate 32 CHR ''a'')"
  "csrf_of (fst visited) = base64_encode base64_url (replicate 32 CHR ''b'')"
  by code_simp+


lemma logged_in_eval:
  "case logged_in of (resp, w) \<Rightarrow>
     map_option core (map_of (sessions (wSessions w)) (base64_encode base64_url (replicate 32 CHR ''c''))) =
       Some (StateAuthenticated, 2, 3) \<and> map_option AuthVersion (lookup 2 (wDB w)) = Some 3 \<and>
     resp_location resp = Some ''/go/dashboard''"
  by code_simp

lemma logged_in_step: "web_step plain_dependencies (snd visited) (snd logged_in)"
proof (rule web_step.request)
  show "map_of routes (''POST'', req_path login_request) = Some HAuthenticate"
    by (simp add: routes_def login_request_def get_request_def)
  show "serve HAuthenticate plain_dependencies plain_env login_request (snd visited) = (fst logged_in, snd logged_in)"
    by (simp add: logged_in_def)
qed


lemma Get_exact:
  "fst (Get env sid m) = Some s \<longleftrightarrow>
     (\<exists>s0. map_of (sessions m) sid = Some s0 \<and> \<not> expired (config m) (clock env) s0 \<and> s = s0\<lparr>LastSeenAt := clock env\<rparr>)"
  by (auto simp: Get_def Let_def split: option.splits)

lemma requestSession_exact:
  "fst (requestSession d env req w) = Some s \<longleftrightarrow>
     dSessions d \<and> (\<exists>sid s0. map_of (req_cookies req) CookieName = Some sid \<and> map_of (sessions (wSessions w)) sid = Some s0 \<and>
       \<not> expired (config (wSessions w)) (clock (at_session env)) s0 \<and> s = s0\<lparr>LastSeenAt := clock (at_session env)\<rparr>)"
proof -
  have "fst (requestSession d env req w) = Some s \<longleftrightarrow>
      dSessions d \<and> (\<exists>sid. map_of (req_cookies req) CookieName = Some sid \<and> fst (Get (at_session env) sid (wSessions w)) = Some s)"
    by (auto simp: requestSession_def split: option.splits prod.splits)
  then show ?thesis unfolding Get_exact by blast
qed

lemma requestSession_db: "requestSession d env req w = (found, w') \<Longrightarrow> wDB w' = wDB w"
  by (auto simp: requestSession_def split: if_splits option.splits prod.splits)

lemma authenticatedUser_exact:
  "(\<exists>w'. authenticatedUser d env req w = (Inr (s, u), w')) \<longleftrightarrow>
     dUsers d \<and> fst (requestSession d env req w) = Some s \<and> SState s = StateAuthenticated \<and>
     FindByID (SUserID s) (wDB w) = Inr (Some u) \<and> Status u = ''active'' \<and> AuthVersion u = SAuthVersion s"
proof -
  obtain found w1 where r: "requestSession d env req w = (found, w1)" by fastforce
  note db = requestSession_db [OF r]
  show ?thesis
    using r db
    by (cases found)
       (auto simp: authenticatedUser_def account_gate_def session_of_def Let_def split: sum.splits option.splits)
qed

text \<open>
  C3: what the modules' gate admits. A request is admitted as user \<open>u\<close> exactly when its cookie names a
  session the manager holds, the session has not expired and is authenticated, and its account exists,
  is active and is at the version the session was created for. Everything else is answered by the
  login page or, when the database does not answer, by an error.
\<close>

theorem request_gate_exact:
  "((\<exists>w'. authenticatedUser d env req w = (Inr (s, u), w')) \<longleftrightarrow>
      dSessions d \<and> dUsers d \<and> available (wDB w) \<and>
      (\<exists>sid s0 r. map_of (req_cookies req) CookieName = Some sid \<and> map_of (sessions (wSessions w)) sid = Some s0 \<and>
         \<not> expired (config (wSessions w)) (clock (at_session env)) s0 \<and>
         s = s0\<lparr>LastSeenAt := clock (at_session env)\<rparr> \<and> SState s0 = StateAuthenticated \<and>
         lookup (SUserID s0) (wDB w) = Some r \<and> u = scanUser r \<and> Status r = ''active'' \<and> AuthVersion r = SAuthVersion s0)) \<and>
   (case authenticatedUser d env req w of
      (Inr x, w') \<Rightarrow> wDB w' = wDB w
    | (Inl resp, w') \<Rightarrow> wDB w' = wDB w \<and> (resp = to_login \<or> resp = http_error 503 \<and> \<not> available (wDB w)))"
proof (rule conjI, goal_cases)
  case 1
  show ?case
    unfolding authenticatedUser_exact requestSession_exact FindByID_lookup by fastforce
next
  case 2
  show ?case
    by (auto simp: authenticatedUser_def account_gate_def Let_def FindByID_def findOne_def
          split: prod.splits sum.splits option.splits if_splits dest: requestSession_db)
qed




section \<open>Login attempts\<close>

lemma login_allowed_iff:
  "fst (login_allowed d env req name pw w) \<longleftrightarrow>
     3 \<le> length name \<and> length name \<le> 64 \<and> pw \<noteq> '''' \<and> length pw \<le> 1024 \<and>
     fst (Allowed (dLower d) (at_allowed env) (requestAddress req) name (wLogin w))"
  by (auto simp: login_allowed_def split: prod.splits)

lemma requestSession_limiter: "requestSession d env req w = (found, w') \<Longrightarrow> wLogin w' = wLogin w"
  by (auto simp: requestSession_def split: if_splits option.splits prod.splits)

lemma post_form_limiter: "post_form env req n s w = (form, w') \<Longrightarrow> wLogin w' = wLogin w"
  by (auto simp: post_form_def split: option.splits prod.splits)

lemma post_form_form: "post_form env req n s w = (Some form, w') \<Longrightarrow> req_form req n = Some form"
  by (auto simp: post_form_def split: option.splits prod.splits if_splits)

lemma login_failed_cookies:
  "login_failed d env req s name w = (resp, w') \<Longrightarrow> resp_cookies resp = [] \<and> wSessions w' = wSessions w"
  by (auto simp: login_failed_def Let_def renderLogin_def html_page_def recordAccess_store(2))

text \<open>
  C11: a locked-out login gets no session. While the failures counted for a login have reached the limit
  of the account, a login request for it is refused whatever the password is: no session is created or
  moved forward, and no session cookie is set.
\<close>

theorem locked_login_gets_no_session:
  assumes "keys_ok (wSessions w)" "req_form req 8192 = Some form"
    and "account (wLogin w) \<le> counted (live (at_allowed env) (wLogin w) (login_key (dLower d) (form_value form ''login'')))"
    and run: "authenticate d env req w = (resp, w')"
  shows "core_map (wSessions w') \<subseteq>\<^sub>m core_map (wSessions w) \<and>
    (resp_cookies resp = [] \<or> resp_cookies resp = [ExpiredCookie])"
proof -
  obtain found w1 where rs: "requestSession d env req w = (found, w1)" by fastforce
  have s1: "shrinks (wSessions w) (wSessions w1)" "keys_ok (wSessions w1)"
    using rs assms(1) Get_core(1) [OF _ assms(1)]
    by (auto simp: requestSession_def shrinks_def split: if_splits option.splits prod.splits)
  obtain f w2 where pf: "post_form env req 8192 (session_of found) w1 = (f, w2)" by fastforce
  have s2: "shrinks (wSessions w1) (wSessions w2)"
    using pf s1(2) ValidateCSRF_core(1) [OF _ s1(2)]
    by (auto simp: post_form_def shrinks_def split: option.splits prod.splits)
  obtain b w3 where al: "login_allowed d env req (form_value form ''login'') (form_value form ''password'') w2 = (b, w3)" by fastforce
  have "wLogin w2 = wLogin w" using requestSession_limiter [OF rs] post_form_limiter [OF pf] by simp
  then have "\<not> fst (login_allowed d env req (form_value form ''login'') (form_value form ''password'') w2)"
    using assms(3) by (simp add: login_allowed_iff Allowed_spec)
  then have b: "\<not> b" using al by simp
  have f: "f = Some fm \<Longrightarrow> fm = form" for fm using pf assms(2) post_form_form by fastforce
  obtain resp4 w4 where lf: "login_failed d env req (session_of found) (form_value form ''login'') w3 = (resp4, w4)" by fastforce
  note c4 = login_failed_cookies [OF lf] login_allowed_same [OF al]
  have "(w' = w \<or> w' = w1 \<or> w' = w2 \<or> w' = w4) \<and> (resp_cookies resp = [] \<or> resp_cookies resp = [ExpiredCookie])"
    using run rs pf al b lf c4 f
    by (auto simp: authenticate_def Let_def http_error_def redirect_def renderLogin_def html_page_def
          split: if_splits option.splits)
  then show ?thesis
    using s1(1) s2 c4 by (auto simp: shrinks_def intro: map_le_trans)
qed

theorem locked_login_gets_no_session_witness:
  "resp_cookies (fst (authenticate plain_dependencies plain_env login_request
     (plain_web\<lparr>wLogin := NewLoginLimiter\<lparr>entries := [(''login:alice'', \<lparr>count = 8, expiresAt = 1\<rparr>)]\<rparr>\<rparr>))) \<in> {[], [ExpiredCookie]}"
proof -
  let ?w = "plain_web\<lparr>wLogin := NewLoginLimiter\<lparr>entries := [(''login:alice'', \<lparr>count = 8, expiresAt = 1\<rparr>)]\<rparr>\<rparr>"
  let ?form = "[(''_token'', csrf_of (fst visited)), (''login'', ''alice''), (''password'', ''right'')]"
  have k: "keys_ok (wSessions ?w)" using plain_web_matches by (simp add: matches_def)
  have f: "req_form login_request 8192 = Some ?form" by (simp add: login_request_def)
  have name: "form_value ?form ''login'' = ''alice''" by (simp add: form_value_def)
  have "account (wLogin ?w) \<le> counted (live (at_allowed plain_env) (wLogin ?w) (login_key (dLower plain_dependencies) ''alice''))"
    by code_simp
  from locked_login_gets_no_session [OF k f, unfolded name, OF this prod.collapse [symmetric]] show ?thesis by auto
qed


text \<open>The steps of a successful login.\<close>

lemma Get_found:
  assumes "map_of (sessions m) sid = Some s" "\<not> expired (config m) (clock env) s"
  obtains m' where "Get env sid m = (Some (s\<lparr>LastSeenAt := clock env\<rparr>), m')"
    "sessions m' = AList.update sid (s\<lparr>LastSeenAt := clock env\<rparr>) (sessions m)"
    "random m' = random m" "config m' = config m" "persistencePath m' = persistencePath m"
proof -
  let ?m1 = "m\<lparr>sessions := AList.update sid (s\<lparr>LastSeenAt := clock env\<rparr>) (sessions m)\<rparr>"
  have "Get env sid m = (Some (s\<lparr>LastSeenAt := clock env\<rparr>), ?m1) \<or>
      Get env sid m = (Some (s\<lparr>LastSeenAt := clock env\<rparr>), snd (persistLocked env ?m1))"
    using assms by (simp add: Get_def Let_def)
  then show thesis using that persistLocked_simps [of env ?m1] by auto
qed

lemma createLocked_first:
  assumes "64 \<le> length (random m)" "map_of (sessions m) (base64_encode base64_url (take 32 (random m))) = None"
    and "known_state st" "identity_ok st k v"
  obtains s m' where "createLocked now st k v m = (Inr s, m')"
proof -
  have "\<exists>s m'. allocate (Suc 3) now st k v m = (Inr s, m')" by (rule allocate_first [OF assms(1,2)])
  then show thesis using that assms(3,4) by (auto simp: createLocked_def eval_nat_numeral)
qed

lemma Rotate_first:
  assumes "64 \<le> length (random m)" "map_of (sessions m) (base64_encode base64_url (take 32 (random m))) = None"
    and "known_state st" "identity_ok st k v" "int (length (sessions m)) \<le> MaximumSessions (config m)"
    and "map_of (sessions m) sid \<noteq> None" "persistencePath m = [] \<or> pfault env = NoFault" "distinct_keys (sessions m)"
  obtains s m' where "Rotate env sid st k v m = (Inr s, m')" "map_of (sessions m') (SID s) = Some s" "core s = (st, k, v)"
proof -
  let ?m0 = "m\<lparr>sessions := AList.delete sid (sessions m)\<rparr>"
  let ?m1 = "removeExpiredLocked (clock env) ?m0"
  have r1: "random ?m1 = random m" by simp
  have n1: "map_of (sessions ?m1) (base64_encode base64_url (take 32 (random ?m1))) = None"
    using assms(2,8) by (simp add: sessions_removeExpired map_of_filter_distinct)
  have "length (sessions ?m1) \<le> length (AList.delete sid (sessions m))" by (simp add: sessions_removeExpired)
  moreover have "length (AList.delete sid (sessions m)) < length (sessions m)"
    using assms(6,8) length_delete_present [of "sessions m" sid] by auto
  ultimately have room: "\<not> MaximumSessions (config ?m1) \<le> int (length (sessions ?m1))" using assms(5) by simp
  obtain s m2 where c: "createLocked (clock env) st k v ?m1 = (Inr s, m2)"
    using createLocked_first [OF _ n1 assms(3,4)] assms(1) r1 by metis
  note cs = createLocked_Inr [OF c] same_frameD [OF createLocked_frame [OF c]]
  have "fst (persistLocked env m2) = None" using assms(7) cs by (auto simp: persistLocked_def)
  then obtain m3 where p: "persistLocked env m2 = (None, m3)" by (metis prod.collapse)
  have m3: "sessions m3 = sessions m2" by (rule persistLocked_cases(1) [OF p])
  have "Rotate env sid st k v m = (Inr s, m2) \<or> Rotate env sid st k v m = (Inr s, m3)"
    using room c p by (auto simp: Rotate_def Let_def)
  moreover have "map_of (sessions m2) (SID s) = Some s" "core s = (st, k, v)"
    using cs by (auto simp: fresh_session_def core_def)
  ultimately show thesis using that m3 by auto
qed


lemma csrf_same: "validToken t \<Longrightarrow> CSRFToken s = t \<Longrightarrow> Get env sid m = (Some s, m') \<Longrightarrow> ValidateCSRF env sid t m = (True, m')"
  by (auto simp: ValidateCSRF_def validToken_def split: option.splits)

text \<open>A request that carries an anonymous session, its token, a login and a password of admissible length.\<close>

definition login_form_ok :: "request_env \<Rightarrow> http_request \<Rightarrow> web \<Rightarrow> session \<Rightarrow> (string \<times> string) list \<Rightarrow> bool" where
  "login_form_ok env req w s form \<longleftrightarrow>
     map_of (req_cookies req) CookieName = Some (SID s) \<and> map_of (sessions (wSessions w)) (SID s) = Some s \<and>
     SState s = StateAnonymous \<and> \<not> expired (config (wSessions w)) (clock (at_session env)) s \<and>
     \<not> expired (config (wSessions w)) (clock (at_csrf env)) (s\<lparr>LastSeenAt := clock (at_session env)\<rparr>) \<and>
     is_form req \<and> req_form req 8192 = Some form \<and> form_value form ''_token'' = CSRFToken s \<and> validToken (CSRFToken s) \<and>
     3 \<le> length (form_value form ''login'') \<and> length (form_value form ''login'') \<le> 64 \<and>
     form_value form ''password'' \<noteq> '''' \<and> length (form_value form ''password'') \<le> 1024"

text \<open>The manager can make a session: room, random bytes for an unused identifier, and a working disk.\<close>

definition can_create :: "request_env \<Rightarrow> manager \<Rightarrow> bool" where
  "can_create env m \<longleftrightarrow>
     distinct_keys (sessions m) \<and> int (length (sessions m)) \<le> MaximumSessions (config m) \<and>
     64 \<le> length (random m) \<and> map_of (sessions m) (base64_encode base64_url (take 32 (random m))) = None \<and>
     (persistencePath m = [] \<or> pfault (at_rotate env) = NoFault)"

lemma can_create_touch:
  assumes "can_create env m" "map_of (sessions m) sid = Some s" "sessions m' = AList.update sid s' (sessions m)"
    "random m' = random m" "config m' = config m" "persistencePath m' = persistencePath m"
  shows "can_create env m'"
proof -
  have "length (AList.update sid s' (sessions m)) = length (sessions m)" by (rule length_update_present [OF assms(2)])
  moreover have "sid \<noteq> base64_encode base64_url (take 32 (random m))" using assms(1,2) by (auto simp: can_create_def)
  ultimately show ?thesis using assms by (simp add: can_create_def)
qed

lemma login_form_passes:
  assumes "login_form_ok env req w s form" "can_create env (wSessions w)" "dSessions d"
  obtains w1 m2 where "requestSession d env req w = (Some (s\<lparr>LastSeenAt := clock (at_session env)\<rparr>), w1)"
    "post_form env req 8192 (s\<lparr>LastSeenAt := clock (at_session env)\<rparr>) w1 = (Some form, w\<lparr>wSessions := m2\<rparr>)"
    "can_create env m2" "map_of (sessions m2) (SID s) \<noteq> None"
proof -
  let ?s1 = "s\<lparr>LastSeenAt := clock (at_session env)\<rparr>"
  let ?s2 = "?s1\<lparr>LastSeenAt := clock (at_csrf env)\<rparr>"
  note ok = assms(1) [unfolded login_form_ok_def]
  obtain m1 where m1: "Get (at_session env) (SID s) (wSessions w) = (Some ?s1, m1)"
      "sessions m1 = AList.update (SID s) ?s1 (sessions (wSessions w))"
      "random m1 = random (wSessions w)" "config m1 = config (wSessions w)" "persistencePath m1 = persistencePath (wSessions w)"
    using Get_found [of "wSessions w" "SID s" s "at_session env"] ok by blast
  have l1: "map_of (sessions m1) (SID s) = Some ?s1" using m1(2) by simp
  obtain m2 where m2: "Get (at_csrf env) (SID s) m1 = (Some ?s2, m2)"
      "sessions m2 = AList.update (SID s) ?s2 (sessions m1)"
      "random m2 = random m1" "config m2 = config m1" "persistencePath m2 = persistencePath m1"
    using Get_found [OF l1, of "at_csrf env"] ok m1(4) by auto
  have "ValidateCSRF (at_csrf env) (SID s) (CSRFToken s) m1 = (True, m2)"
    by (rule csrf_same [OF _ _ m2(1)]) (use ok in simp_all)
  then have pf: "post_form env req 8192 ?s1 (w\<lparr>wSessions := m1\<rparr>) = (Some form, w\<lparr>wSessions := m2\<rparr>)"
    using ok by (simp add: post_form_def)
  have rs: "requestSession d env req w = (Some ?s1, w\<lparr>wSessions := m1\<rparr>)"
    using ok assms(3) m1(1) by (simp add: requestSession_def)
  have "can_create env m1" by (rule can_create_touch [OF assms(2) _ m1(2-5)]) (use ok in simp)
  then have c2: "can_create env m2" by (rule can_create_touch [OF _ l1 m2(2-5)])
  show thesis by (rule that [OF rs pf c2]) (simp add: m2(2))
qed

text \<open>
  C12: the right password lets in. If the request carries the token of its live anonymous session, the
  limiter allows the attempt, the authenticator decides that the account needs nothing but its
  password, and the manager can make a session, then the response redirects to the dashboard and sets
  the cookie of a session that is authenticated for that account at its version.
\<close>

theorem login_succeeds:
  assumes "available_app d" "dUsers d" "login_form_ok env req w s form" "can_create env (wSessions w)"
    and "fst (Allowed (dLower d) (at_allowed env) (requestAddress req) (form_value form ''login'') (wLogin w))"
    and "store_authenticate (dIdkey d) (dBcrypt d) (wDB w) (form_value form ''login'') (form_value form ''password'') =
      Inr \<lparr>rUser = u, rStep = StepAuthenticated\<rparr>"
    and "1 \<le> uID u" "1 \<le> AuthVersion u"
  shows "\<exists>s' cookies w'. authenticate d env req w = (redirect (Cookie (SID s') # cookies) ''/go/dashboard'', w') \<and>
    map_of (sessions (wSessions w')) (SID s') = Some s' \<and> core s' = (StateAuthenticated, uID u, AuthVersion u)"
proof -
  let ?s1 = "s\<lparr>LastSeenAt := clock (at_session env)\<rparr>" and ?name = "form_value form ''login''"
    and ?pw = "form_value form ''password''"
  note ok = assms(3) [unfolded login_form_ok_def]
  have sessions: "dSessions d" using assms(1) by (simp add: available_app_def)
  obtain w1 m2 where p: "requestSession d env req w = (Some ?s1, w1)"
      "post_form env req 8192 ?s1 w1 = (Some form, w\<lparr>wSessions := m2\<rparr>)"
      "can_create env m2" "map_of (sessions m2) (SID s) \<noteq> None"
    by (rule login_form_passes [OF assms(3,4) sessions])
  obtain l where l: "Allowed (dLower d) (at_allowed env) (requestAddress req) ?name (wLogin w) = (True, l)"
    using assms(5) by (metis prod.collapse)
  let ?w3 = "w\<lparr>wSessions := m2, wLogin := l\<rparr>"
  have al: "login_allowed d env req ?name ?pw (w\<lparr>wSessions := m2\<rparr>) = (True, ?w3)"
    using ok l by (simp add: login_allowed_def)
  have run: "authenticate d env req w = login_accepted d env req ?s1 ?name \<lparr>rUser = u, rStep = StepAuthenticated\<rparr> ?w3"
    using assms(1,6) ok p(1,2) al by (simp add: authenticate_def session_of_def Let_def)
  have c2: "64 \<le> length (random m2)" "map_of (sessions m2) (base64_encode base64_url (take 32 (random m2))) = None"
      "known_state StateAuthenticated" "identity_ok StateAuthenticated (uID u) (AuthVersion u)"
      "int (length (sessions m2)) \<le> MaximumSessions (config m2)" "map_of (sessions m2) (SID s) \<noteq> None"
      "persistencePath m2 = [] \<or> pfault (at_rotate env) = NoFault" "distinct_keys (sessions m2)"
    using p(3,4) assms(7,8) by (simp_all add: can_create_def identity_ok_def)
  obtain s' m3 where rot: "Rotate (at_rotate env) (SID s) StateAuthenticated (uID u) (AuthVersion u) m2 = (Inr s', m3)"
      "map_of (sessions m3) (SID s') = Some s'" "core s' = (StateAuthenticated, uID u, AuthVersion u)"
    by (rule Rotate_first [OF c2])
  let ?w4 = "recordAccess d env req (Some u) (Login u) ''login_success'' True (?w3\<lparr>wLogin := Success (dLower d) ?name l\<rparr>)"
  obtain cookies w5 where pr: "preferences_of d (uID u) (?w4\<lparr>wSessions := m3\<rparr>) = (cookies, w5)" by fastforce
  have "login_accepted d env req ?s1 ?name \<lparr>rUser = u, rStep = StepAuthenticated\<rparr> ?w3 =
      (redirect (Cookie (SID s') # cookies) ''/go/dashboard'', w5)"
    using rot(1) pr assms(2) recordAccess_store(2)
    by (simp add: login_accepted_def Let_def nextState_def)
  moreover have "wSessions w5 = m3" using preferences_store(2) [OF pr] by simp
  ultimately show ?thesis using run rot(2,3) by auto
qed


definition visitor :: session where
  "visitor =
     \<lparr>SID = base64_encode base64_url (replicate 32 CHR ''a''), CSRFToken = base64_encode base64_url (replicate 32 CHR ''b''),
      SState = StateAnonymous, SUserID = 0, SAuthVersion = 0, CreatedAt = 0, LastSeenAt = 0\<rparr>"

lemma visited_state:
  "snd visited = plain_web\<lparr>wSessions := (wSessions plain_web)\<lparr>sessions := [(SID visitor, visitor)],
     random := replicate 32 CHR ''c'' @ replicate 32 CHR ''d''\<rparr>\<rparr>"
  by code_simp

abbreviation alice_form :: "(string \<times> string) list" where
  "alice_form \<equiv> [(''_token'', CSRFToken visitor), (''login'', ''alice''), (''password'', ''right'')]"

lemma visitor_form: "login_form_ok plain_env login_request (snd visited) visitor alice_form"
proof -
  have "req_form login_request 8192 = Some alice_form" "map_of (req_cookies login_request) CookieName = Some (SID visitor)"
    by (simp_all add: login_request_def visited_eval visitor_def)
  moreover have "validToken (CSRFToken visitor)" by code_simp
  moreover have "\<not> expired DefaultConfig 0 visitor" by code_simp
  ultimately show ?thesis
    unfolding login_form_ok_def visited_state
    by (simp add: plain_web_def example_manager_def plain_env_def visitor_def form_value_def login_request_def is_form_def)
qed

theorem login_succeeds_witness:
  "\<exists>s' cookies w'. authenticate plain_dependencies plain_env login_request (snd visited) =
      (redirect (Cookie (SID s') # cookies) ''/go/dashboard'', w') \<and> core s' = (StateAuthenticated, 2, 3)"
proof -
  have 1: "available_app plain_dependencies" "dUsers plain_dependencies"
    by (simp_all add: available_app_def plain_dependencies_def)
  have 2: "can_create plain_env (wSessions (snd visited))" unfolding visited_state by code_simp
  have 3: "fst (Allowed (dLower plain_dependencies) (at_allowed plain_env) (requestAddress login_request)
      (form_value alice_form ''login'') (wLogin (snd visited)))"
    unfolding visited_state by (simp add: Allowed_spec plain_web_def NewLoginLimiter_def live_def counted_def)
  have 4: "store_authenticate (dIdkey plain_dependencies) (dBcrypt plain_dependencies) (wDB (snd visited))
      (form_value alice_form ''login'') (form_value alice_form ''password'') =
      Inr \<lparr>rUser = scanUser (users sample_database ! 1), rStep = StepAuthenticated\<rparr>"
    unfolding visited_state by code_simp
  have 5: "uID (scanUser (users sample_database ! 1)) = 2" "AuthVersion (scanUser (users sample_database ! 1)) = 3"
    by code_simp+
  from login_succeeds [OF 1 visitor_form 2 3 4] show ?thesis unfolding 5 by auto
qed

section \<open>The address an attempt is counted for\<close>

lemma split_char_last: "c \<notin> set v \<Longrightarrow> split_char c (u @ c # v) = split_char c u @ [v]"
  by (induction u) (auto simp: split_char_no_sep split: list.splits)

text \<open>
  C14: a client cannot choose the address it is counted for. For a direct connection the headers are
  ignored. Behind a proxy on the loopback interface the address is the last one of
  \<^verbatim>\<open>X-Forwarded-For\<close>, the one the proxy appended, whatever the client wrote in front of it.
\<close>

theorem forwarded_address_trusted:
  "((case ParseIP (remoteAddress (req_remote req)) of None \<Rightarrow> True | Some peer \<Rightarrow> \<not> IsLoopback peer) \<longrightarrow>
      requestAddress req = remoteAddress (req_remote req)) \<and>
   (\<forall>peer addr appended claimed.
      ParseIP (remoteAddress (req_remote req)) = Some peer \<and> IsLoopback peer \<and>
      CHR '','' \<notin> set appended \<and> ParseIP (trim_space appended) = Some addr \<and>
      (req_forwarded req = appended \<or> req_forwarded req = claimed @ '','' @ appended) \<longrightarrow>
      requestAddress req = ip_text addr)"
  by (auto simp: requestAddress_def Let_def split_char_last split_char_no_sep split: option.splits)

theorem forwarded_address_trusted_witness:
  "requestAddress ((get_request ''/'')\<lparr>req_remote := ''127.0.0.1:5000'', req_forwarded := ''10.9.8.7, 192.0.2.1''\<rparr>) = ''192.0.2.1'' \<and>
   requestAddress ((get_request ''/'')\<lparr>req_forwarded := ''10.9.8.7''\<rparr>) = ''192.0.2.7''"
proof -
  let ?local = "(get_request ''/'')\<lparr>req_remote := ''127.0.0.1:5000'', req_forwarded := ''10.9.8.7, 192.0.2.1''\<rparr>"
  let ?direct = "(get_request ''/'')\<lparr>req_forwarded := ''10.9.8.7''\<rparr>"
  have l: "ParseIP (remoteAddress (req_remote ?local)) = Some (v4_prefix @ [127, 0, 0, 1])"
      "IsLoopback (v4_prefix @ [127, 0, 0, 1])" "ParseIP (trim_space '' 192.0.2.1'') = Some (v4_prefix @ [192, 0, 2, 1])"
      "ip_text (v4_prefix @ [192, 0, 2, 1]) = ''192.0.2.1''"
    by code_simp+
  have d: "ParseIP (remoteAddress (req_remote ?direct)) = Some (v4_prefix @ [192, 0, 2, 7])"
      "\<not> IsLoopback (v4_prefix @ [192, 0, 2, 7])" "remoteAddress (req_remote ?direct) = ''192.0.2.7''"
    by code_simp+
  have "req_forwarded ?local = ''10.9.8.7'' @ '','' @ '' 192.0.2.1''" by simp
  then show ?thesis
    using forwarded_address_trusted [of ?local, THEN conjunct2, rule_format, of "v4_prefix @ [127, 0, 0, 1]" "'' 192.0.2.1''"
        "v4_prefix @ [192, 0, 2, 1]" "''10.9.8.7''"] forwarded_address_trusted [of ?direct, THEN conjunct1] l d by auto
qed

end
