(* ===== verification/Webapp_Actions.thy ===== *)
theory Webapp_Actions
  imports Webapp
begin

text \<open>
  The handlers of the modules that make the backend do something (\<^verbatim>\<open>internal/webapp\<close>, \<^verbatim>\<open>webapp.go\<close> and
  \<^verbatim>\<open>system_modules.go\<close>). Such a handler returns, with its response and the state, the calls it made to the
  providers, in order. The providers are an argument: which of them the server was given, and what each
  call answers (a result such as the identifier of an execution, or \<open>None\<close> for an error).

  The parser of \<^verbatim>\<open>net/url\<close> is a parameter: nothing is assumed of it.
\<close>

section \<open>Calls to the backend\<close>

datatype backend_call =
    RestartService string
  | RestartPHP string
  | RestartMySQL
  | TorAction string
  | ApacheAction string
  | ApacheSiteAction string string string string
  | Fail2banAction string string string
  | FirewallReload
  | FirewallSetEnabled bool
  | FirewallAdd string string string string
  | FirewallDelete int
  | CronAction string string string string string
  | CronBackupCreate "string list"
  | CronBackupAction string string
  | CertbotStart string "string list"
  | StartUpgrade
  | RefreshComposer
  | Reboot int

record providers =
  provided :: "string \<Rightarrow> bool"
  reply :: "backend_call \<Rightarrow> string option"
  parse_url :: "string \<Rightarrow> (string \<times> string \<times> string) option"

type_synonym outcome = "http_response \<times> backend_call list \<times> web"

definition modulePermission :: "dependencies \<Rightarrow> web \<Rightarrow> user \<Rightarrow> string \<Rightarrow> http_response + string option" where
  "modulePermission d w user module =
     (if \<not> dAuthorization d then Inl (http_error 503)
      else case PermissionForModule user module (wDB w) of Inl e \<Rightarrow> Inl (http_error 503) | Inr level \<Rightarrow> Inr level)"

text \<open>The opening all these handlers have: the gate, then the level the account has for the module.\<close>

definition with_permission ::
    "dependencies \<Rightarrow> request_env \<Rightarrow> http_request \<Rightarrow> web \<Rightarrow> string \<Rightarrow> (session \<Rightarrow> string option \<Rightarrow> web \<Rightarrow> outcome) \<Rightarrow> outcome" where
  "with_permission d env req w module act =
     (case authenticatedUser d env req w of
        (Inl resp, w1) \<Rightarrow> (resp, [], w1)
      | (Inr (session, user), w1) \<Rightarrow>
          (case modulePermission d w1 user module of
             Inl resp \<Rightarrow> (resp, [], w1)
           | Inr level \<Rightarrow> act session level w1))"

definition with_form ::
    "request_env \<Rightarrow> http_request \<Rightarrow> nat \<Rightarrow> session \<Rightarrow> web \<Rightarrow> ((string \<times> string) list \<Rightarrow> web \<Rightarrow> outcome) \<Rightarrow> outcome" where
  "with_form env req limit session w act =
     (case post_form env req limit session w of
        (None, w1) \<Rightarrow> (http_error 400, [], w1)
      | (Some form, w1) \<Rightarrow> act form w1)"

text \<open>A call, and the response to its failure or to its result.\<close>

definition perform :: "providers \<Rightarrow> backend_call \<Rightarrow> http_response \<Rightarrow> (string \<Rightarrow> http_response) \<Rightarrow> web \<Rightarrow> outcome" where
  "perform b call failed succeeded w =
     ((case reply b call of None \<Rightarrow> failed | Some result \<Rightarrow> succeeded result), [call], w)"

abbreviation refuse :: "int \<Rightarrow> web \<Rightarrow> outcome" where
  "refuse status w \<equiv> (http_error status, [], w)"

abbreviation may_act :: "string option \<Rightarrow> bool" where
  "may_act level \<equiv> level = Some ''action'' \<or> level = Some ''modify''"

abbreviation may_modify :: "string option \<Rightarrow> bool" where
  "may_modify level \<equiv> level = Some ''modify''"

section \<open>Services, PHP, MySQL, Tor\<close>

definition restartService :: "dependencies \<Rightarrow> providers \<Rightarrow> request_env \<Rightarrow> http_request \<Rightarrow> web \<Rightarrow> outcome" where
  "restartService d b env req w =
     with_permission d env req w ''services'' (\<lambda>session level w1.
       if \<not> may_act level then refuse 403 w1
       else if \<not> provided b ''services'' \<or> \<not> is_form req then refuse 400 w1
       else with_form env req 4096 session w1 (\<lambda>form w2.
         perform b (RestartService (form_value form ''service'')) (http_error 503)
           (\<lambda>_. redirect [] ''/services?result=restarted'') w2))"

definition restartPHP :: "dependencies \<Rightarrow> providers \<Rightarrow> request_env \<Rightarrow> http_request \<Rightarrow> web \<Rightarrow> outcome" where
  "restartPHP d b env req w =
     with_permission d env req w ''php'' (\<lambda>session level w1.
       if \<not> may_act level then refuse 403 w1
       else if \<not> provided b ''php'' \<or> \<not> is_form req then refuse 400 w1
       else with_form env req 4096 session w1 (\<lambda>form w2.
         perform b (RestartPHP (form_value form ''runtime'')) (http_error 503)
           (\<lambda>_. redirect [] ''/php?result=restarted'') w2))"

definition restartMySQL :: "dependencies \<Rightarrow> providers \<Rightarrow> request_env \<Rightarrow> http_request \<Rightarrow> web \<Rightarrow> outcome" where
  "restartMySQL d b env req w =
     with_permission d env req w ''mysql'' (\<lambda>session level w1.
       if \<not> may_act level then refuse 403 w1
       else if \<not> provided b ''mysql'' \<or> \<not> is_form req then refuse 400 w1
       else with_form env req 4096 session w1 (\<lambda>form w2.
         perform b RestartMySQL (http_error 503) (\<lambda>_. redirect [] ''/mysql?result=restarted'') w2))"

definition torAction :: "dependencies \<Rightarrow> providers \<Rightarrow> request_env \<Rightarrow> http_request \<Rightarrow> string \<Rightarrow> web \<Rightarrow> outcome" where
  "torAction d b env req action w =
     with_permission d env req w ''tor'' (\<lambda>session level w1.
       if \<not> may_act level then refuse 403 w1
       else if action \<noteq> ''reload'' \<and> action \<noteq> ''restart'' then refuse 404 w1
       else with_form env req 4096 session w1 (\<lambda>form w2.
         if \<not> provided b ''tor'' then refuse 503 w2
         else perform b (TorAction action) (http_error 503) (\<lambda>_. redirect [] (''/tor?result='' @ action)) w2))"

section \<open>Apache\<close>

text \<open>The regular expressions, as the strings they match.\<close>

definition host_char :: "char \<Rightarrow> bool" where
  "host_char c \<longleftrightarrow> is_alnum c \<or> c = CHR ''.'' \<or> c = CHR ''-''"

definition apacheHostPattern :: "string \<Rightarrow> bool" where
  "apacheHostPattern s \<longleftrightarrow>
     (let host = trim_prefix s ''*.''
      in host \<noteq> [] \<and> length host \<le> 253 \<and> is_alnum (hd host) \<and> is_alnum (last host) \<and> list_all host_char host)"

definition dns_label :: "(char \<Rightarrow> bool) \<Rightarrow> string \<Rightarrow> bool" where
  "dns_label letter s \<longleftrightarrow>
     s \<noteq> [] \<and> length s \<le> 63 \<and> letter (hd s) \<and> letter (last s) \<and> list_all (\<lambda>c. letter c \<or> c = CHR ''-'') s"

definition certbotDomainPattern :: "string \<Rightarrow> bool" where
  "certbotDomainPattern s \<longleftrightarrow>
     (let labels = split_char CHR ''.'' s
      in 2 \<le> length labels \<and> list_all (dns_label (\<lambda>c. is_lower c \<or> is_digit c)) labels \<and> is_lower (hd (last labels)))"

definition email_char :: "char \<Rightarrow> bool" where
  "email_char c \<longleftrightarrow> is_alnum c \<or> c \<in> set ''.!#$%&*+/=?^_{}|~-'' \<or> c = CHR 0x27"

definition certbotEmailPattern :: "string \<Rightarrow> bool" where
  "certbotEmailPattern s \<longleftrightarrow>
     (case cut_char CHR ''@'' s of
        None \<Rightarrow> False
      | Some (local, host) \<Rightarrow>
          let labels = split_char CHR ''.'' host
          in local \<noteq> [] \<and> list_all email_char local \<and> 2 \<le> length labels \<and> list_all (dns_label is_alnum) labels)"

definition separators_to_space :: "string \<Rightarrow> string" where
  "separators_to_space s = map (\<lambda>c. if c = CHR '','' \<or> c = CHR '';'' then CHR '' '' else c) s"

fun certbot_domains :: "(nat \<Rightarrow> nat) \<Rightarrow> string list \<Rightarrow> string list \<Rightarrow> string list option" where
  "certbot_domains u [] domains = Some domains"
| "certbot_domains u (v # vs) domains =
     (let domain = to_lower u (trim_suffix (trim_space v) ''.'')
      in if \<not> certbotDomainPattern domain \<or> has_suffix domain ''.onion'' then None
         else certbot_domains u vs (if domain \<in> set domains then domains else domains @ [domain]))"

definition certbotIssueValues :: "(nat \<Rightarrow> nat) \<Rightarrow> string \<Rightarrow> string \<Rightarrow> string list option" where
  "certbotIssueValues u email0 rawDomains =
     (let email = trim_space email0
      in if length email < 3 \<or> 254 < length email \<or> \<not> certbotEmailPattern email then None
         else case certbot_domains u (Go_Prelude.fields (separators_to_space rawDomains)) [] of
                None \<Rightarrow> None
              | Some domains \<Rightarrow> if domains = [] then None else Some domains)"

definition contains_any :: "string \<Rightarrow> string \<Rightarrow> bool" where
  "contains_any s chars \<longleftrightarrow> (\<exists>c \<in> set s. c \<in> set chars)"

abbreviation newline :: string where "newline \<equiv> [CHR 0x0A]"
abbreviation line_breaks :: string where "line_breaks \<equiv> [CHR 0x0D, CHR 0x0A, CHR 0x00]"

definition trim_right_slash :: "string \<Rightarrow> string" where
  "trim_right_slash s = rev (dropWhile (\<lambda>c. c = CHR ''/'') (rev s))"

definition website_text :: "string \<Rightarrow> string \<Rightarrow> string \<Rightarrow> string" where
  "website_text root options override =
     ''    DocumentRoot '' @ root @ newline @ newline @ ''    <Directory '' @ root @ ''>'' @ newline @
     ''        Options '' @ options @ newline @ ''        AllowOverride '' @ override @ newline @
     ''        Require all granted'' @ newline @ ''    </Directory>'' @ newline"

definition website_body :: "(string \<times> string) list \<Rightarrow> string option" where
  "website_body form =
     (let root = trim_space (form_value form ''document_root'');
          override = (if form_value form ''allow_override'' = ''All'' then ''All'' else ''None'');
          options = ''-Indexes'' @ (if form_value form ''follow_sym_links'' = ''1'' then '' +FollowSymLinks'' else '''')
      in if root = '''' \<or> \<not> has_prefix root ''/'' \<or> contains_any root line_breaks then None
         else Some (website_text root options override))"

definition proxy_text :: "string \<Rightarrow> string" where
  "proxy_text value =
     ''    ProxyPreserveHost On'' @ newline @ ''    ProxyPass / '' @ value @ newline @
     ''    ProxyPassReverse / '' @ value @ newline"

definition proxy_body :: "providers \<Rightarrow> (string \<times> string) list \<Rightarrow> string option" where
  "proxy_body b form =
     (case parse_url b (trim_space (form_value form ''target_url'')) of
        None \<Rightarrow> None
      | Some (scheme, host, url) \<Rightarrow>
          if host = '''' \<or> (scheme \<noteq> ''http'' \<and> scheme \<noteq> ''https'') \<or> contains_any url line_breaks then None
          else Some (proxy_text (trim_right_slash url @ ''/'')))"

definition site_text :: "string \<Rightarrow> string list \<Rightarrow> string \<Rightarrow> string \<Rightarrow> string" where
  "site_text serverName aliases body base =
     ''<VirtualHost *:80>'' @ newline @ ''    ServerName '' @ serverName @ newline @
     (if aliases = [] then '''' else ''    ServerAlias '' @ join '' '' aliases @ newline) @ body @ newline @
     ''    ErrorLog ${APACHE_LOG_DIR}/'' @ base @ ''-error.log'' @ newline @
     ''    CustomLog ${APACHE_LOG_DIR}/'' @ base @ ''-access.log combined'' @ newline @
     ''</VirtualHost>'' @ newline"

text \<open>The file name and the contents.\<close>

definition apacheSiteConfiguration ::
    "(nat \<Rightarrow> nat) \<Rightarrow> providers \<Rightarrow> (string \<times> string) list \<Rightarrow> (string \<times> string) option" where
  "apacheSiteConfiguration u b form =
     (let serverName = trim_space (form_value form ''server_name'');
          aliases = Go_Prelude.fields (separators_to_space (form_value form ''aliases''));
          base = trim_prefix (to_lower u serverName) ''*.'';
          kind = form_value form ''site_type''
      in if \<not> apacheHostPattern serverName \<or> \<not> list_all apacheHostPattern aliases then None
         else case (if kind = ''website'' then website_body form
                    else if kind = ''proxy'' then proxy_body b form else None) of
                None \<Rightarrow> None
              | Some body \<Rightarrow> Some (base @ ''.conf'', site_text serverName aliases body base))"

abbreviation apache_failed :: http_response where
  "apache_failed \<equiv> redirect [] ''/apache?error=''"

text \<open>The text of an error follows \<^verbatim>\<open>/apache?error=\<close>; it is not kept.\<close>

definition apacheAction :: "dependencies \<Rightarrow> providers \<Rightarrow> request_env \<Rightarrow> http_request \<Rightarrow> string \<Rightarrow> web \<Rightarrow> outcome" where
  "apacheAction d b env req action w =
     with_permission d env req w ''apache'' (\<lambda>session level w1.
       if \<not> may_act level then refuse 403 w1
       else if \<not> (action = ''reload'' \<or> action = ''restart'' \<or>
                 may_modify level \<and> action \<in> set [''create'', ''update'', ''enable'', ''disable'', ''delete'', ''issue-certificate''])
       then refuse 404 w1
       else with_form env req 1048576 session w1 (\<lambda>form w2.
         let finished = redirect [] (''/apache?result='' @ action) in
         if \<not> provided b ''apache'' then (apache_failed, [], w2)
         else if action = ''reload'' \<or> action = ''restart'' then perform b (ApacheAction action) apache_failed (\<lambda>_. finished) w2
         else if action = ''issue-certificate'' then
           (case certbotIssueValues (dLower d) (form_value form ''email'') (form_value form ''domains'') of
              None \<Rightarrow> (apache_failed, [], w2)
            | Some domains \<Rightarrow>
                if \<not> provided b ''certbot'' \<or> domains = [] then (apache_failed, [], w2)
                else perform b
                       (CertbotStart ''issue'' (trim_space (form_value form ''email'') #
                          (if form_value form ''redirect'' = ''1'' then ''redirect'' else ''no-redirect'') # domains))
                       apache_failed (\<lambda>execution. redirect [] (''/certbot?execution='' @ query_escape execution)) w2)
         else (case (if action = ''create'' then apacheSiteConfiguration (dLower d) b form
                     else Some (form_value form ''filename'', form_value form ''content'')) of
                 None \<Rightarrow> (apache_failed, [], w2)
               | Some (filename, content) \<Rightarrow>
                   perform b (ApacheSiteAction action (form_value form ''config_id'') filename content) apache_failed
                     (\<lambda>_. finished) w2)))"

section \<open>Fail2ban and the firewall\<close>

definition fail2banAction :: "dependencies \<Rightarrow> providers \<Rightarrow> request_env \<Rightarrow> http_request \<Rightarrow> string \<Rightarrow> web \<Rightarrow> outcome" where
  "fail2banAction d b env req action w =
     with_permission d env req w ''fail2ban'' (\<lambda>session level w1.
       let required = (if action = ''ban'' \<or> action = ''unban'' then ''modify'' else ''action'') in
       if \<not> (level = Some ''modify'' \<or> required = ''action'' \<and> level = Some ''action'') then refuse 403 w1
       else with_form env req 4096 session w1 (\<lambda>form w2.
         let jail = form_value form ''jail'' in
         if \<not> provided b ''fail2ban'' then refuse 503 w2
         else perform b (Fail2banAction action jail (form_value form ''address'')) (http_error 503)
                (\<lambda>_. redirect [] (''/fail2ban?jail='' @ query_escape jail @ ''&result='' @ action)) w2))"

text \<open>A call through a \<^verbatim>\<open>nil\<close> provider panics before anything is done.\<close>

definition perform_or_panic ::
    "providers \<Rightarrow> string \<Rightarrow> backend_call \<Rightarrow> http_response \<Rightarrow> (string \<Rightarrow> http_response) \<Rightarrow> web \<Rightarrow> outcome" where
  "perform_or_panic b provider call failed succeeded w =
     (if provided b provider then perform b call failed succeeded w else (panicked, [], w))"

text \<open>The text of an error follows \<^verbatim>\<open>/firewall?error=\<close>; it is not kept.\<close>

definition firewallAction :: "dependencies \<Rightarrow> providers \<Rightarrow> request_env \<Rightarrow> http_request \<Rightarrow> string \<Rightarrow> web \<Rightarrow> outcome" where
  "firewallAction d b env req action w =
     with_permission d env req w ''firewall'' (\<lambda>session level w1.
       let required = (if action = ''add'' \<or> action = ''delete'' then ''modify'' else ''action'') in
       if \<not> (level = Some ''modify'' \<or> required = ''action'' \<and> level = Some ''action'') then refuse 403 w1
       else with_form env req 8192 session w1 (\<lambda>form w2.
         let failed = redirect [] ''/firewall?error='';
             call = (\<lambda>c. perform_or_panic b ''firewall'' c failed (\<lambda>_. redirect [] (''/firewall?result='' @ action)) w2)
         in if action = ''reload'' then call FirewallReload
            else if action = ''enable'' then call (FirewallSetEnabled True)
            else if action = ''disable'' then call (FirewallSetEnabled False)
            else if action = ''add'' then
              call (FirewallAdd (form_value form ''rule_action'') (form_value form ''ports'')
                      (form_value form ''protocol'') (form_value form ''source''))
            else if action = ''delete'' then
              (case atoi (form_value form ''id'') of (n, ok) \<Rightarrow> if ok then call (FirewallDelete n) else (failed, [], w2))
            else refuse 404 w2))"

section \<open>Cron\<close>

definition cronBackupCreate :: "dependencies \<Rightarrow> providers \<Rightarrow> request_env \<Rightarrow> http_request \<Rightarrow> web \<Rightarrow> outcome" where
  "cronBackupCreate d b env req w =
     with_permission d env req w ''cron'' (\<lambda>session level w1.
       if \<not> may_modify level then refuse 403 w1
       else with_form env req 32768 session w1 (\<lambda>form w2.
         perform_or_panic b ''cron''
           (CronBackupCreate
              (map (form_value form)
                 [''name'', ''kind'', ''source'', ''destination'', ''schedule'', ''remote_host'', ''remote_user'',
                  ''remote_port'', ''remote_path'', ''ssh_key'', ''retention_days''] @
               [if form_value form ''remove_local'' = ''true'' then ''true'' else ''false'']))
           (http_error 503) (\<lambda>_. redirect [] ''/cron?result=backup-create'') w2))"

definition cronBackupAction :: "dependencies \<Rightarrow> providers \<Rightarrow> request_env \<Rightarrow> http_request \<Rightarrow> string \<Rightarrow> web \<Rightarrow> outcome" where
  "cronBackupAction d b env req action w =
     with_permission d env req w ''cron'' (\<lambda>session level w1.
       if \<not> (level = Some ''modify'' \<or> level = Some ''action'' \<and> action = ''run'') \<or> action \<noteq> ''run'' \<and> action \<noteq> ''delete''
       then refuse 403 w1
       else with_form env req 4096 session w1 (\<lambda>form w2.
         perform_or_panic b ''cron'' (CronBackupAction action (form_value form ''task_id'')) (http_error 503)
           (\<lambda>execution. redirect [] (if action = ''run'' then ''/cron?execution='' @ query_escape execution
                                     else ''/cron?result=backup-delete'')) w2))"

definition cronAction :: "dependencies \<Rightarrow> providers \<Rightarrow> request_env \<Rightarrow> http_request \<Rightarrow> string \<Rightarrow> web \<Rightarrow> outcome" where
  "cronAction d b env req action w =
     with_permission d env req w ''cron'' (\<lambda>session level w1.
       if action \<notin> set [''run'', ''create'', ''update'', ''suspend'', ''resume'', ''delete''] then refuse 404 w1
       else let required = (if action = ''run'' then ''action'' else ''modify'') in
       if \<not> (level = Some ''modify'' \<or> required = ''action'' \<and> level = Some ''action'') then refuse 403 w1
       else with_form env req 16384 session w1 (\<lambda>form w2.
         if \<not> provided b ''cron'' then refuse 503 w2
         else perform b
                (CronAction action (form_value form ''user'') (form_value form ''task_id'') (form_value form ''schedule'')
                   (form_value form ''command''))
                (http_error 503)
                (\<lambda>execution. redirect [] (if action = ''run'' then ''/cron?execution='' @ query_escape execution
                                          else ''/cron?result='' @ query_escape action)) w2))"

section \<open>Certbot and the updates\<close>

definition certbot_arguments :: "string \<Rightarrow> (string \<times> string) list \<Rightarrow> string list option" where
  "certbot_arguments action form =
     (if action = ''renew-test'' \<or> action = ''renew'' then Some []
      else if action = ''delete'' \<or> action = ''reinstall'' \<or> action = ''renew-replace'' then Some [form_value form ''certificate'']
      else if action = ''issue'' then
        Some (form_value form ''email'' # form_value form ''redirect'' # Go_Prelude.fields (form_value form ''domains''))
      else None)"

definition certbotAction :: "dependencies \<Rightarrow> providers \<Rightarrow> request_env \<Rightarrow> http_request \<Rightarrow> string \<Rightarrow> web \<Rightarrow> outcome" where
  "certbotAction d b env req action w =
     with_permission d env req w ''certbot'' (\<lambda>session level w1.
       if \<not> may_act level then refuse 403 w1
       else with_form env req 16384 session w1 (\<lambda>form w2.
         case certbot_arguments action form of
           None \<Rightarrow> refuse 404 w2
         | Some args \<Rightarrow>
             perform_or_panic b ''certbot'' (CertbotStart action args) (http_error 503)
               (\<lambda>execution. redirect [] (''/certbot?execution='' @ query_escape execution)) w2))"

text \<open>These two set no limit of their own; \<^verbatim>\<open>ParseForm\<close> then reads at most 10 MB.\<close>

definition startUpdates :: "dependencies \<Rightarrow> providers \<Rightarrow> request_env \<Rightarrow> http_request \<Rightarrow> web \<Rightarrow> outcome" where
  "startUpdates d b env req w =
     with_permission d env req w ''updates'' (\<lambda>session level w1.
       if \<not> may_modify level then refuse 403 w1
       else with_form env req 10485760 session w1 (\<lambda>form w2.
         perform_or_panic b ''updates'' StartUpgrade (http_error 503)
           (\<lambda>job. redirect [] (''/updates?job='' @ query_escape job)) w2))"

definition refreshComposer :: "dependencies \<Rightarrow> providers \<Rightarrow> request_env \<Rightarrow> http_request \<Rightarrow> web \<Rightarrow> outcome" where
  "refreshComposer d b env req w =
     with_permission d env req w ''updates'' (\<lambda>session level w1.
       if \<not> may_modify level then refuse 403 w1
       else with_form env req 10485760 session w1 (\<lambda>form w2.
         perform_or_panic b ''updates'' RefreshComposer (http_error 503) (\<lambda>_. redirect [] ''/updates'') w2))"

definition reboot_response :: "dependencies \<Rightarrow> web \<Rightarrow> user \<Rightarrow> int \<Rightarrow> http_response" where
  "reboot_response d w user delay =
     (if delay = 0 then html_page (RebootWaitPage (languageForUser d (wDB w) (uID user))) 200
      else redirect [] (''/updates?reboot='' @ query_escape (itoa delay)))"

definition rebootServer :: "dependencies \<Rightarrow> providers \<Rightarrow> request_env \<Rightarrow> http_request \<Rightarrow> web \<Rightarrow> outcome" where
  "rebootServer d b env req w =
     (case authenticatedUser d env req w of
        (Inl resp, w1) \<Rightarrow> (resp, [], w1)
      | (Inr (session, user), w1) \<Rightarrow>
          if Type user \<noteq> ''root'' then refuse 403 w1
          else with_form env req 4096 session w1 (\<lambda>form w2.
            if form_value form ''confirmation'' \<noteq> ''reboot'' then refuse 400 w2
            else (case atoi (form_value form ''delay'') of (delay, ok) \<Rightarrow>
              if \<not> ok \<or> delay \<notin> set [0, 5, 15, 30, 60] then refuse 400 w2
              else if \<not> provided b ''updates'' then (panicked, [], w2)
              else (case reply b (Reboot delay) of
                      None \<Rightarrow> (http_error 503, [Reboot delay],
                               recordAccess d env req (Some user) (Login user) ''server_reboot_scheduled'' False w2)
                    | Some _ \<Rightarrow> (reboot_response d w1 user delay, [Reboot delay],
                                 recordAccess d env req (Some user) (Login user) ''server_reboot_scheduled'' True w2)))))"

section \<open>What a call needs\<close>

datatype action_handler =
    ARestartService | ARestartPHP | ARestartMySQL | ATor string | AApache string | AFail2ban string | AFirewall string
  | ACronBackupCreate | ACronBackup string | ACron string | ACertbot string | AStartUpdates | ARefreshComposer | AReboot

fun serve_action ::
    "action_handler \<Rightarrow> dependencies \<Rightarrow> providers \<Rightarrow> request_env \<Rightarrow> http_request \<Rightarrow> web \<Rightarrow> outcome" where
  "serve_action ARestartService d b env req w = restartService d b env req w"
| "serve_action ARestartPHP d b env req w = restartPHP d b env req w"
| "serve_action ARestartMySQL d b env req w = restartMySQL d b env req w"
| "serve_action (ATor action) d b env req w = torAction d b env req action w"
| "serve_action (AApache action) d b env req w = apacheAction d b env req action w"
| "serve_action (AFail2ban action) d b env req w = fail2banAction d b env req action w"
| "serve_action (AFirewall action) d b env req w = firewallAction d b env req action w"
| "serve_action ACronBackupCreate d b env req w = cronBackupCreate d b env req w"
| "serve_action (ACronBackup action) d b env req w = cronBackupAction d b env req action w"
| "serve_action (ACron action) d b env req w = cronAction d b env req action w"
| "serve_action (ACertbot action) d b env req w = certbotAction d b env req action w"
| "serve_action AStartUpdates d b env req w = startUpdates d b env req w"
| "serve_action ARefreshComposer d b env req w = refreshComposer d b env req w"
| "serve_action AReboot d b env req w = rebootServer d b env req w"

text \<open>The specification: for each call, the module and whether operating it is enough or changing it is needed.\<close>

definition has_level :: "string list \<Rightarrow> string \<Rightarrow> user \<Rightarrow> database \<Rightarrow> bool" where
  "has_level levels module user db \<longleftrightarrow> (\<exists>level \<in> set levels. PermissionForModule user module db = Inr (Some level))"

abbreviation operate :: "string \<Rightarrow> user \<Rightarrow> database \<Rightarrow> bool" where
  "operate \<equiv> has_level [''action'', ''modify'']"

abbreviation change :: "string \<Rightarrow> user \<Rightarrow> database \<Rightarrow> bool" where
  "change \<equiv> has_level [''modify'']"

fun call_needs :: "backend_call \<Rightarrow> user \<Rightarrow> database \<Rightarrow> bool" where
  "call_needs (RestartService name) = operate ''services''"
| "call_needs (RestartPHP runtime) = operate ''php''"
| "call_needs RestartMySQL = operate ''mysql''"
| "call_needs (TorAction action) = operate ''tor''"
| "call_needs (ApacheAction action) = operate ''apache''"
| "call_needs (ApacheSiteAction action ident name content) = change ''apache''"
| "call_needs (Fail2banAction action jail addr) =
     (if action = ''ban'' \<or> action = ''unban'' then change ''fail2ban'' else operate ''fail2ban'')"
| "call_needs FirewallReload = operate ''firewall''"
| "call_needs (FirewallSetEnabled on) = operate ''firewall''"
| "call_needs (FirewallAdd action ports protocol source) = change ''firewall''"
| "call_needs (FirewallDelete n) = change ''firewall''"
| "call_needs (CronAction action account_name task schedule command) =
     (if action = ''run'' then operate ''cron'' else change ''cron'')"
| "call_needs (CronBackupCreate args) = change ''cron''"
| "call_needs (CronBackupAction action task) = (if action = ''run'' then operate ''cron'' else change ''cron'')"
| "call_needs (CertbotStart action args) =
     (\<lambda>user db. operate ''certbot'' user db \<or> action = ''issue'' \<and> change ''apache'' user db)"
| "call_needs StartUpgrade = change ''updates''"
| "call_needs RefreshComposer = change ''updates''"
| "call_needs (Reboot delay) = (\<lambda>user db. Type user = ''root'')"

text \<open>The form of a request carries the token of the session.\<close>

definition token_valid :: "request_env \<Rightarrow> http_request \<Rightarrow> session \<Rightarrow> web \<Rightarrow> bool" where
  "token_valid env req session w \<longleftrightarrow>
     (\<exists>limit form. req_form req limit = Some form \<and>
        fst (ValidateCSRF (at_csrf env) (SID session) (form_value form ''_token'') (wSessions w)))"

text \<open>
  The contract of a guarded family of handlers: an effect of a request comes from a user the gate
  admitted, who has what the effect needs, and who submitted the token of the session.
\<close>

locale guarded =
  fixes effects :: "'h \<Rightarrow> dependencies \<Rightarrow> request_env \<Rightarrow> http_request \<Rightarrow> web \<Rightarrow> 'e set"
    and needs :: "'e \<Rightarrow> user \<Rightarrow> database \<Rightarrow> bool"
    and submitted :: "'h \<Rightarrow> request_env \<Rightarrow> http_request \<Rightarrow> session \<Rightarrow> web \<Rightarrow> bool"
  assumes guarded_effect:
    "e \<in> effects h d env req w \<Longrightarrow>
       \<exists>s u w1. authenticatedUser d env req w = (Inr (s, u), w1) \<and> needs e u (wDB w) \<and> submitted h env req s w1"
begin

lemma effect_session:
  assumes "e \<in> effects h d env req w"
  shows "\<exists>sid s r. map_of (req_cookies req) CookieName = Some sid \<and> map_of (sessions (wSessions w)) sid = Some s \<and>
    \<not> expired (config (wSessions w)) (clock (at_session env)) s \<and> SState s = StateAuthenticated \<and>
    lookup (SUserID s) (wDB w) = Some r \<and> Status r = ''active'' \<and> AuthVersion r = SAuthVersion s \<and>
    needs e (scanUser r) (wDB w)"
proof -
  obtain s u where "\<exists>w1. authenticatedUser d env req w = (Inr (s, u), w1)" and n: "needs e u (wDB w)"
    using guarded_effect [OF assms] by blast
  then have "fst (requestSession d env req w) = Some s" "SState s = StateAuthenticated"
      "FindByID (SUserID s) (wDB w) = Inr (Some u)" "Status u = ''active''" "AuthVersion u = SAuthVersion s"
    unfolding authenticatedUser_exact by blast+
  then show ?thesis using n unfolding requestSession_exact FindByID_lookup by fastforce
qed

lemma no_cookie_no_effect: "map_of (req_cookies req) CookieName = None \<Longrightarrow> effects h d env req w = {}"
  using effect_session by fastforce

lemma no_account_no_effect: "users (wDB w) = [] \<Longrightarrow> effects h d env req w = {}"
  using effect_session by (fastforce simp: lookup_def)

end

section \<open>The handlers keep the contract\<close>

abbreviation made :: "outcome \<Rightarrow> backend_call list" where
  "made result \<equiv> fst (snd result)"

definition action_effects ::
    "providers \<Rightarrow> action_handler \<Rightarrow> dependencies \<Rightarrow> request_env \<Rightarrow> http_request \<Rightarrow> web \<Rightarrow> backend_call set" where
  "action_effects b h d env req w = set (made (serve_action h d b env req w))"

lemma authenticatedUser_db: "authenticatedUser d env req w = (res, w1) \<Longrightarrow> wDB w1 = wDB w"
  by (auto simp: authenticatedUser_def account_gate_def Let_def invalidate_def
        split: prod.splits sum.splits option.splits if_splits dest: requestSession_db)

lemma made_perform [simp]: "made (perform b call failed succeeded w) = [call]"
  by (simp add: perform_def)

lemma made_perform_or_panic [simp]:
  "made (perform_or_panic b p call failed succeeded w) = (if provided b p then [call] else [])"
  by (simp add: perform_or_panic_def)

lemma made_with_form:
  "c \<in> set (made (with_form env req n s w act)) \<Longrightarrow>
     token_valid env req s w \<and> (\<exists>form w2. c \<in> set (made (act form w2)))"
  by (auto simp: with_form_def post_form_def token_valid_def split: prod.splits option.splits if_splits
        intro!: exI [of _ n])

lemma made_with_permission:
  assumes "c \<in> set (made (with_permission d env req w module act))"
    and "\<And>s level w1. c \<in> set (made (act s level w1)) \<Longrightarrow>
      token_valid env req s w1 \<and> (\<forall>u. PermissionForModule u module (wDB w) = Inr level \<longrightarrow> call_needs c u (wDB w))"
  shows "\<exists>s u w1. authenticatedUser d env req w = (Inr (s, u), w1) \<and> call_needs c u (wDB w) \<and> token_valid env req s w1"
  using assms
  by (fastforce simp: with_permission_def modulePermission_def
        split: prod.splits sum.splits if_splits dest: authenticatedUser_db)

lemmas action_guards = has_level_def Let_def

lemma rebootServer_guarded:
  assumes "c \<in> set (made (rebootServer d b env req w))"
  shows "\<exists>s u w1. authenticatedUser d env req w = (Inr (s, u), w1) \<and> call_needs c u (wDB w) \<and> token_valid env req s w1"
  using assms
  by (auto simp: rebootServer_def split: prod.splits sum.splits if_splits option.splits dest!: made_with_form)

lemma apacheAction_guarded:
  assumes "c \<in> set (made (apacheAction d b env req action w))"
  shows "\<exists>s u w1. authenticatedUser d env req w = (Inr (s, u), w1) \<and> call_needs c u (wDB w) \<and> token_valid env req s w1"
  using assms unfolding apacheAction_def
  by (rule made_with_permission)
     (auto simp: action_guards split: if_splits option.splits prod.splits dest!: made_with_form)

lemma serve_action_guarded:
  assumes "c \<in> set (made (serve_action h d b env req w))"
  shows "\<exists>s u w1. authenticatedUser d env req w = (Inr (s, u), w1) \<and> call_needs c u (wDB w) \<and> token_valid env req s w1"
  using assms
proof (cases h)
  case ARestartService
  show ?thesis using assms unfolding ARestartService serve_action.simps restartService_def
    by (rule made_with_permission) (auto simp: action_guards split: if_splits dest!: made_with_form)
next
  case ARestartPHP
  show ?thesis using assms unfolding ARestartPHP serve_action.simps restartPHP_def
    by (rule made_with_permission) (auto simp: action_guards split: if_splits dest!: made_with_form)
next
  case ARestartMySQL
  show ?thesis using assms unfolding ARestartMySQL serve_action.simps restartMySQL_def
    by (rule made_with_permission) (auto simp: action_guards split: if_splits dest!: made_with_form)
next
  case (ATor action)
  show ?thesis using assms unfolding ATor serve_action.simps torAction_def
    by (rule made_with_permission) (auto simp: action_guards split: if_splits dest!: made_with_form)
next
  case (AFail2ban action)
  show ?thesis using assms unfolding AFail2ban serve_action.simps fail2banAction_def
    by (rule made_with_permission) (auto simp: action_guards split: if_splits dest!: made_with_form)
next
  case (AFirewall action)
  show ?thesis using assms unfolding AFirewall serve_action.simps firewallAction_def
    by (rule made_with_permission) (auto simp: action_guards split: if_splits prod.splits dest!: made_with_form)
next
  case ACronBackupCreate
  show ?thesis using assms unfolding ACronBackupCreate serve_action.simps cronBackupCreate_def
    by (rule made_with_permission) (auto simp: action_guards split: if_splits dest!: made_with_form)
next
  case (ACronBackup action)
  show ?thesis using assms unfolding ACronBackup serve_action.simps cronBackupAction_def
    by (rule made_with_permission) (auto simp: action_guards split: if_splits dest!: made_with_form)
next
  case (ACron action)
  show ?thesis using assms unfolding ACron serve_action.simps cronAction_def
    by (rule made_with_permission) (auto simp: action_guards split: if_splits dest!: made_with_form)
next
  case (ACertbot action)
  show ?thesis using assms unfolding ACertbot serve_action.simps certbotAction_def
    by (rule made_with_permission) (auto simp: action_guards split: if_splits option.splits dest!: made_with_form)
next
  case AStartUpdates
  show ?thesis using assms unfolding AStartUpdates serve_action.simps startUpdates_def
    by (rule made_with_permission) (auto simp: action_guards split: if_splits dest!: made_with_form)
next
  case ARefreshComposer
  show ?thesis using assms unfolding ARefreshComposer serve_action.simps refreshComposer_def
    by (rule made_with_permission) (auto simp: action_guards split: if_splits dest!: made_with_form)
qed (auto intro: rebootServer_guarded apacheAction_guarded)

interpretation module_actions: guarded "action_effects b" call_needs "\<lambda>h. token_valid" for b
  by unfold_locales (simp add: action_effects_def serve_action_guarded)

text \<open>A request makes at most one call.\<close>

definition at_most_one :: "outcome \<Rightarrow> bool" where
  "at_most_one result \<longleftrightarrow> length (made result) \<le> 1"

lemma at_most_one_simps [simp]:
  "at_most_one (resp, [], w)" "at_most_one (resp, [c], w)"
  "at_most_one (perform b call failed succeeded w)" "at_most_one (perform_or_panic b p call failed succeeded w)"
  by (simp_all add: at_most_one_def)

lemma at_most_one_form: "(\<And>form w2. at_most_one (act form w2)) \<Longrightarrow> at_most_one (with_form env req n s w act)"
  by (simp add: with_form_def split: prod.splits option.splits)

lemma at_most_one_permission:
  "(\<And>s level w1. at_most_one (act s level w1)) \<Longrightarrow> at_most_one (with_permission d env req w module act)"
  by (simp add: with_permission_def split: prod.splits sum.splits)

lemma serve_action_at_most_one: "at_most_one (serve_action h d b env req w)"
  by (cases h)
     (auto simp: restartService_def restartPHP_def restartMySQL_def torAction_def apacheAction_def fail2banAction_def
        firewallAction_def cronBackupCreate_def cronBackupAction_def cronAction_def certbotAction_def startUpdates_def
        refreshComposer_def rebootServer_def Let_def split: prod.splits sum.splits option.splits if_splits
        intro!: at_most_one_permission at_most_one_form)

section \<open>Properties\<close>


definition root_token :: string where
  "root_token = base64_encode base64_url (replicate 32 CHR ''r'')"

definition root_web :: web where
  "root_web = plain_web\<lparr>wSessions := example_manager\<lparr>sessions :=
     [(root_token, zero_session\<lparr>SID := root_token, SState := StateAuthenticated, SUserID := 1, SAuthVersion := 1,
         CSRFToken := root_token, CreatedAt := 0, LastSeenAt := 0\<rparr>)]\<rparr>\<rparr>"

definition root_request :: "(string \<times> string) list \<Rightarrow> http_request" where
  "root_request form = (get_request '''')
     \<lparr>req_cookies := [(CookieName, root_token)], req_form := (\<lambda>_. Some ((''_token'', root_token) # form))\<rparr>"

definition plain_providers :: providers where
  "plain_providers = \<lparr>provided = (\<lambda>_. True), reply = (\<lambda>_. Some ''0''), parse_url = (\<lambda>_. None)\<rparr>"

definition reboot_run :: outcome where
  "reboot_run = serve_action AReboot plain_dependencies plain_providers plain_env
     (root_request [(''confirmation'', ''reboot''), (''delay'', ''5'')]) root_web"

lemma reboot_run_eval: "made reboot_run = [Reboot 5]"
  by code_simp


section \<open>Generated virtual hosts\<close>

text \<open>The specification of a generated file: its lines.\<close>

datatype site_body = Website string string string | Proxy string

fun body_lines :: "site_body \<Rightarrow> string list" where
  "body_lines (Website root options override) =
     [''    DocumentRoot '' @ root, '''', ''    <Directory '' @ root @ ''>'', ''        Options '' @ options,
      ''        AllowOverride '' @ override, ''        Require all granted'', ''    </Directory>'']"
| "body_lines (Proxy target) =
     [''    ProxyPreserveHost On'', ''    ProxyPass / '' @ target, ''    ProxyPassReverse / '' @ target]"

definition site_lines :: "string \<Rightarrow> string list \<Rightarrow> site_body \<Rightarrow> string \<Rightarrow> string list" where
  "site_lines server aliases body base =
     [''<VirtualHost *:80>'', ''    ServerName '' @ server] @
     (if aliases = [] then [] else [''    ServerAlias '' @ join '' '' aliases]) @ body_lines body @
     ['''', ''    ErrorLog ${APACHE_LOG_DIR}/'' @ base @ ''-error.log'',
      ''    CustomLog ${APACHE_LOG_DIR}/'' @ base @ ''-access.log combined'', ''</VirtualHost>'']"

abbreviation one_line :: "string \<Rightarrow> bool" where
  "one_line s \<equiv> CHR 0x0A \<notin> set s"

definition ended_lines :: "string list \<Rightarrow> string" where
  "ended_lines ls = concat (map (\<lambda>l. l @ newline) ls)"

lemma ended_lines_simps [simp]:
  "ended_lines [] = ''''" "ended_lines (l # ls) = l @ newline @ ended_lines ls"
  "ended_lines (ls @ ms) = ended_lines ls @ ended_lines ms"
  by (simp_all add: ended_lines_def)

lemma split_ended_lines: "list_all one_line ls \<Longrightarrow> split_char CHR 0x0A (ended_lines ls) = ls @ ['''']"
  by (induction ls) (simp_all add: split_char_append_sep)

lemma host_char_one_line: "list_all host_char s \<Longrightarrow> one_line s"
  by (auto simp: list_all_iff host_char_def is_alnum_def is_digit_def is_lower_def is_upper_def in_range_def)

lemma host_char_ascii: "host_char c \<Longrightarrow> byte_val c < 0x80"
  by (auto simp: host_char_def is_alnum_def is_digit_def is_lower_def is_upper_def in_range_def)

lemma host_char_lower: "host_char c \<Longrightarrow> host_char (lower_char c)"
  by (auto simp: host_char_def is_alnum_def is_digit_def is_lower_def is_upper_def in_range_def lower_char_def)

lemma apacheHostPattern_cases:
  assumes "apacheHostPattern s"
  shows "\<exists>host. (s = host \<or> s = ''*.'' @ host) \<and> host \<noteq> [] \<and> list_all host_char host"
  using assms by (auto simp: apacheHostPattern_def Let_def trim_prefix_def has_prefix_iff split: if_splits)

lemma apacheHostPattern_one_line: "apacheHostPattern s \<Longrightarrow> one_line s"
  using apacheHostPattern_cases [of s] host_char_one_line by auto

lemma base_host_char:
  assumes "apacheHostPattern s"
  shows "trim_prefix (to_lower u s) ''*.'' \<noteq> '''' \<and> list_all host_char (trim_prefix (to_lower u s) ''*.'')"
proof -
  from apacheHostPattern_cases [OF assms] obtain host
    where s: "s = host \<or> s = ''*.'' @ host" and h: "host \<noteq> []" "list_all host_char host" by blast
  have ascii: "is_ascii s" using s h(2) host_char_ascii by (auto simp: is_ascii_def list_all_iff)
  have low: "list_all host_char (map lower_char host)" using h(2) host_char_lower by (auto simp: list_all_iff)
  have "\<not> has_prefix (map lower_char host) ''*.''"
    using low h(1) by (cases host) (auto simp: host_char_def is_alnum_def is_digit_def is_lower_def is_upper_def in_range_def)
  moreover have "map lower_char (''*.'' @ host) = ''*.'' @ map lower_char host"
    by (simp add: lower_char_def is_upper_def in_range_def)
  ultimately have "trim_prefix (to_lower u s) ''*.'' = map lower_char host"
    using s ascii by (auto simp: to_lower_def trim_prefix_def)
  then show ?thesis using low h(1) by simp
qed

lemma join_one_line: "list_all one_line xs \<Longrightarrow> one_line (join '' '' xs)"
  by (induction "'' ''" xs rule: join.induct) auto

lemma site_texts:
  "website_text root options override = ended_lines (body_lines (Website root options override))"
  "proxy_text target = ended_lines (body_lines (Proxy target))"
  by (simp_all add: website_text_def proxy_text_def)

lemma no_breaks_one_line: "\<not> contains_any s line_breaks \<Longrightarrow> one_line s"
  by (auto simp: contains_any_def)

lemma website_body_cases:
  assumes "website_body form = Some inner"
  obtains root options override where "inner = website_text root options override"
    and "one_line root" "one_line options" "one_line override"
proof (rule that)
  show "inner = website_text (trim_space (form_value form ''document_root''))
      (''-Indexes'' @ (if form_value form ''follow_sym_links'' = ''1'' then '' +FollowSymLinks'' else ''''))
      (if form_value form ''allow_override'' = ''All'' then ''All'' else ''None'')"
    using assms by (simp add: website_body_def Let_def split: if_splits)
  show "one_line (trim_space (form_value form ''document_root''))"
    using assms by (intro no_breaks_one_line) (simp add: website_body_def Let_def split: if_splits)
qed simp_all

lemma proxy_body_cases:
  assumes "proxy_body b form = Some inner"
  obtains url where "inner = proxy_text (trim_right_slash url @ ''/'')" "one_line url"
  using assms no_breaks_one_line unfolding proxy_body_def
  by (auto split: option.splits if_splits)

lemma site_body_lines:
  assumes "website_body form = Some inner \<or> proxy_body b form = Some inner"
  shows "\<exists>body. inner = ended_lines (body_lines body) \<and> list_all one_line (body_lines body)"
  using assms
proof
  assume "website_body form = Some inner"
  then obtain root options override where "inner = website_text root options override"
    "one_line root" "one_line options" "one_line override" by (rule website_body_cases)
  then show ?thesis by (intro exI [of _ "Website root options override"]) (simp add: site_texts)
next
  assume "proxy_body b form = Some inner"
  then obtain url where "inner = proxy_text (trim_right_slash url @ ''/'')" "one_line url" by (rule proxy_body_cases)
  moreover from this(2) have "one_line (trim_right_slash url)"
    by (auto simp: trim_right_slash_def dest: set_dropWhileD)
  ultimately show ?thesis by (intro exI [of _ "Proxy (trim_right_slash url @ ''/'')"]) (simp add: site_texts)
qed

text \<open>
  C16: a form value never adds a line to a virtual host. A file generated for a new site is
  exactly the intended lines, one directive each, whatever the values of the form are; its server
  name and aliases are host names, and the file name is a host name with \<^verbatim>\<open>.conf\<close>, so that it names a
  file of the directory it is written to.
\<close>

theorem virtual_host_lines:
  assumes "apacheSiteConfiguration u b form = Some (name, content)"
  shows "\<exists>server aliases body base. name = base @ ''.conf'' \<and> base \<noteq> '''' \<and> list_all host_char base \<and>
    apacheHostPattern server \<and> list_all apacheHostPattern aliases \<and>
    split_char CHR 0x0A content = site_lines server aliases body base @ ['''']"
proof -
  define server where "server = trim_space (form_value form ''server_name'')"
  define aliases where "aliases = Go_Prelude.fields (separators_to_space (form_value form ''aliases''))"
  define base where "base = trim_prefix (to_lower u server) ''*.''"
  from assms have ok: "apacheHostPattern server" "list_all apacheHostPattern aliases"
    by (auto simp: apacheSiteConfiguration_def Let_def server_def aliases_def split: if_splits)
  from assms obtain inner where inner: "website_body form = Some inner \<or> proxy_body b form = Some inner"
      and name: "name = base @ ''.conf''" and content: "content = site_text server aliases inner base"
    by (auto simp: apacheSiteConfiguration_def Let_def server_def aliases_def base_def split: if_splits option.splits)
  from site_body_lines [OF inner] obtain body
    where body: "inner = ended_lines (body_lines body)" "list_all one_line (body_lines body)" by blast
  note base = base_host_char [OF ok(1), of u, folded base_def]
  have "content = ended_lines (site_lines server aliases body base)"
    by (simp add: content body(1) site_lines_def site_text_def)
  moreover have "one_line server" "one_line base" "one_line (join '' '' aliases)"
    using ok base host_char_one_line apacheHostPattern_one_line
    by (auto simp: list_all_iff intro!: join_one_line)
  then have "list_all one_line (site_lines server aliases body base)"
    using body(2) by (simp add: site_lines_def)
  ultimately show ?thesis using name base ok split_ended_lines by metis
qed

theorem virtual_host_lines_witness:
  "\<exists>server aliases body base. ''example.org.conf'' = base @ ''.conf'' \<and> list_all host_char base \<and>
     split_char CHR 0x0A (snd (the (apacheSiteConfiguration (\<lambda>r. r) plain_providers
       [(''server_name'', ''*.Example.org''), (''site_type'', ''website''), (''document_root'', ''/srv/www'')]))) =
     site_lines server aliases body base @ ['''']"
proof -
  let ?form = "[(''server_name'', ''*.Example.org''), (''site_type'', ''website''), (''document_root'', ''/srv/www'')]"
  have "map_option fst (apacheSiteConfiguration (\<lambda>r. r) plain_providers ?form) = Some ''example.org.conf''" by code_simp
  then obtain content where r: "apacheSiteConfiguration (\<lambda>r. r) plain_providers ?form = Some (''example.org.conf'', content)"
    by auto
  show ?thesis using virtual_host_lines [OF r] r by auto
qed

end
