(* ===== verification/Webapp_Admin.thy ===== *)
theory Webapp_Admin
  imports Webapp_Actions
begin

text \<open>
  The handlers that are reserved for root (\<^verbatim>\<open>internal/webapp\<close>: \<^verbatim>\<open>users.go\<close>, \<^verbatim>\<open>modules.go\<close>, \<^verbatim>\<open>settings.go\<close>, and
  the snapshots of \<^verbatim>\<open>configuration.go\<close>): accounts and their permissions, the navigation, the settings,
  the database's backup and restoration.

  \<open>admin_env\<close> holds what these handlers use from elsewhere: which dependencies are not \<^verbatim>\<open>nil\<close>, the parser of
  \<^verbatim>\<open>net/mail\<close>, \<^verbatim>\<open>strings.EqualFold\<close>, the cipher and the key of the store, the log sources, the faults of a
  restoration, and whether a call to the privileged backend succeeds.
\<close>

section \<open>The environment\<close>

datatype admin_call =
    UpdateAdminAccess bool string int string
  | ConfigurationCall string "string list"
  | BackupDownload

record admin_env =
  equipped :: "string \<Rightarrow> bool"
  parse_address :: "string \<Rightarrow> string option"
  equal_fold :: "string \<Rightarrow> string \<Rightarrow> bool"
  seal :: gcm_seal
  seal_key :: bytes
  seal_nonce :: "bytes option"
  log_sources :: "string list option"
  restore_fails :: "restore_stage \<Rightarrow> bool"
  backup_bytes :: "bytes option"
  succeeds :: "admin_call \<Rightarrow> bool"

type_synonym admin_outcome = "http_response \<times> admin_call list \<times> web"

text \<open>A multipart form with a file: the values, the size the header of the file gives, and what reading it gives.\<close>

record 'c upload =
  up_form :: "(string \<times> string) list option"
  up_size :: "nat option"
  up_content :: "'c option"

section \<open>Root and its forms\<close>

definition rootUser ::
    "admin_env \<Rightarrow> dependencies \<Rightarrow> request_env \<Rightarrow> http_request \<Rightarrow> web \<Rightarrow> (http_response + session \<times> user) \<times> web" where
  "rootUser a d env req w =
     (case authenticatedUser d env req w of
        (Inl resp, w1) \<Rightarrow> (Inl resp, w1)
      | (Inr (session, user), w1) \<Rightarrow>
          if Type user \<noteq> ''root'' \<or> \<not> equipped a ''UserAdmin'' then (Inl (http_error 403), w1)
          else (Inr (session, user), w1))"

definition validForm :: "request_env \<Rightarrow> http_request \<Rightarrow> session \<Rightarrow> web \<Rightarrow> (string \<times> string) list option \<times> web" where
  "validForm env req session w = post_form env req 131072 session w"

text \<open>The opening of the handlers of a form: root, then the form with its token.\<close>

definition root_form ::
    "admin_env \<Rightarrow> dependencies \<Rightarrow> request_env \<Rightarrow> http_request \<Rightarrow> web
     \<Rightarrow> (session \<Rightarrow> user \<Rightarrow> (string \<times> string) list \<Rightarrow> web \<Rightarrow> admin_outcome) \<Rightarrow> admin_outcome" where
  "root_form a d env req w act =
     (case rootUser a d env req w of
        (Inl resp, w1) \<Rightarrow> (resp, [], w1)
      | (Inr (session, user), w1) \<Rightarrow>
          (case validForm env req session w1 of
             (None, w2) \<Rightarrow> (http_error 400, [], w2)
           | (Some form, w2) \<Rightarrow> act session user form w2))"

abbreviation reject :: "int \<Rightarrow> web \<Rightarrow> admin_outcome" where
  "reject status w \<equiv> (http_error status, [], w)"

definition committed :: "'a result \<Rightarrow> http_response \<Rightarrow> http_response \<Rightarrow> web \<Rightarrow> admin_outcome" where
  "committed res failed succeeded w =
     (case res of (Inl e, db) \<Rightarrow> (failed, [], w\<lparr>wDB := db\<rparr>) | (Inr _, db) \<Rightarrow> (succeeded, [], w\<lparr>wDB := db\<rparr>))"

section \<open>Accounts\<close>

definition adminLoginPattern :: "string \<Rightarrow> bool" where
  "adminLoginPattern s \<longleftrightarrow>
     (let letter = (\<lambda>c. is_lower c \<or> is_digit c)
      in s \<noteq> [] \<and> letter (hd s) \<and> letter (last s) \<and> list_all (\<lambda>c. letter c \<or> c \<in> set ''._-'') s)"

definition form_level :: "(string \<times> string) list \<Rightarrow> string \<Rightarrow> string" where
  "form_level form key = (let level = form_value form key in if level = '''' then ''none'' else level)"

definition form_permissions :: "(string \<times> string) list \<Rightarrow> int \<Rightarrow> AssignableModule list \<Rightarrow> (int \<times> string) list" where
  "form_permissions form k ms =
     map (\<lambda>m. (asID m, form_level form ((if k = 0 then '''' else ''permission_'') @ itoa (asID m)))) ms"

definition adminUserForm ::
    "admin_env \<Rightarrow> (nat \<Rightarrow> nat) \<Rightarrow> (string \<times> string) list \<Rightarrow> int \<Rightarrow> database \<Rightarrow> (AdminUser \<times> (int \<times> string) list) option" where
  "adminUserForm a lower form k db =
     (let login = to_lower lower (trim_space (form_value form ''login''));
          first = trim_space (form_value form ''first_name'');
          last = trim_space (form_value form ''last_name'');
          email = to_lower lower (trim_space (form_value form ''email''));
          status = (if form_value form ''status'' = '''' then ''active'' else form_value form ''status'')
      in if length login < 3 \<or> 64 < length login \<or> \<not> adminLoginPattern login then None
         else if rune_count first < 1 \<or> 100 < rune_count first \<or> rune_count last < 1 \<or> 100 < rune_count last then None
         else if parse_address a email \<noteq> Some email then None
         else if status \<noteq> ''active'' \<and> status \<noteq> ''suspended'' then None
         else case AssignableModules db of
                Inl e \<Rightarrow> None
              | Inr ms \<Rightarrow>
                  Some (\<lparr>adID = k, adLogin = login, adFirstName = first, adLastName = last, adEmail = email, adType = '''',
                         adStatus = status, adMustChangePassword = False,
                         adTwoFactorRequired = (form_value form ''two_factor_required'' = ''1''),
                         adTwoFactorEnabled = False, adAuthVersion = 0\<rparr>,
                        form_permissions form k ms))"

text \<open>The message: the address is taken, or the login is.\<close>

fun userIdentityConflict :: "(string \<Rightarrow> string \<Rightarrow> bool) \<Rightarrow> AdminUser list \<Rightarrow> AdminUser \<Rightarrow> string option" where
  "userIdentityConflict same [] candidate = None"
| "userIdentityConflict same (existing # items) candidate =
     (if same (adEmail existing) (adEmail candidate) then Some ''email''
      else if same (adLogin existing) (adLogin candidate) then Some ''login''
      else userIdentityConflict same items candidate)"

definition createUser :: "admin_env \<Rightarrow> dependencies \<Rightarrow> request_env \<Rightarrow> http_request \<Rightarrow> web \<Rightarrow> admin_outcome" where
  "createUser a d env req w =
     root_form a d env req w (\<lambda>session user form w1.
       let page = (\<lambda>message status. html_page (UserCreatePage (CSRFToken session) message (languageForUser d (wDB w1) (uID user))) status)
       in case adminUserForm a (dLower d) form 0 (wDB w1) of
            None \<Rightarrow> reject 400 w1
          | Some (u, perms) \<Rightarrow>
              (case AssignableModules (wDB w1) of
                 Inl e \<Rightarrow> reject 503 w1
               | Inr ms \<Rightarrow>
                   (case AdminUsers (wDB w1) of
                      Inl e \<Rightarrow> reject 503 w1
                    | Inr items \<Rightarrow>
                        (case userIdentityConflict (equal_fold a) items u of
                           Some message \<Rightarrow> (page message 409, [], w1)
                         | None \<Rightarrow>
                             (case HashPassword (dIdkey d) (salt_bytes env) (form_value form ''password'') of
                                Inl e \<Rightarrow> (page ''password'' 400, [], w1)
                              | Inr hash \<Rightarrow>
                                  committed (CreateAdminUser (stamp env) u hash perms (wDB w1)) (page ''create'' 409)
                                    (redirect [] ''/users?result=created'') w1)))))"

definition updateUser :: "admin_env \<Rightarrow> dependencies \<Rightarrow> request_env \<Rightarrow> http_request \<Rightarrow> string \<Rightarrow> web \<Rightarrow> admin_outcome" where
  "updateUser a d env req path_id w =
     root_form a d env req w (\<lambda>session user form w1.
       case atoi path_id of (k, ok) \<Rightarrow>
         if \<not> ok then reject 404 w1
         else case adminUserForm a (dLower d) form k (wDB w1) of
                None \<Rightarrow> reject 400 w1
              | Some (u, perms) \<Rightarrow>
                  committed (UpdateAdminUser (stamp env) u perms (form_value form ''reset_totp'' = ''1'') (wDB w1))
                    (http_error 409) (redirect [] ''/users?result=updated'') w1)"

definition resetUserPassword :: "admin_env \<Rightarrow> dependencies \<Rightarrow> request_env \<Rightarrow> http_request \<Rightarrow> string \<Rightarrow> web \<Rightarrow> admin_outcome" where
  "resetUserPassword a d env req path_id w =
     root_form a d env req w (\<lambda>session user form w1.
       case atoi path_id of (k, ok) \<Rightarrow>
         let pw = form_value form ''password'' in
         if \<not> ok then reject 404 w1
         else if pw \<noteq> form_value form ''password_confirmation'' then reject 400 w1
         else case HashPassword (dIdkey d) (salt_bytes env) pw of
                Inl e \<Rightarrow> reject 400 w1
              | Inr hash \<Rightarrow>
                  committed (ResetAdminPassword (stamp env) k hash (wDB w1)) (http_error 409)
                    (redirect [] ''/users?result=password'') w1)"

definition deleteUser :: "admin_env \<Rightarrow> dependencies \<Rightarrow> request_env \<Rightarrow> http_request \<Rightarrow> string \<Rightarrow> web \<Rightarrow> admin_outcome" where
  "deleteUser a d env req path_id w =
     root_form a d env req w (\<lambda>session user form w1.
       case atoi path_id of (k, ok) \<Rightarrow>
         if \<not> ok then reject 404 w1
         else committed (DeleteAdminUser k (wDB w1)) (http_error 409) (redirect [] ''/users?result=deleted'') w1)"

section \<open>Navigation\<close>

text \<open>
  The operation is given the number of the path and the form; \<open>None\<close> stands for the error it returns
  before it reaches the store.
\<close>

definition navigationAction ::
    "admin_env \<Rightarrow> dependencies \<Rightarrow> request_env \<Rightarrow> http_request \<Rightarrow> string \<Rightarrow> web
     \<Rightarrow> (int \<Rightarrow> (string \<times> string) list \<Rightarrow> (database \<Rightarrow> unit result) option) \<Rightarrow> admin_outcome" where
  "navigationAction a d env req path_id w operation =
     root_form a d env req w (\<lambda>session user form w1.
       case atoi path_id of (k, ok) \<Rightarrow>
         if \<not> ok then reject 404 w1
         else case operation k form of
                None \<Rightarrow> reject 409 w1
              | Some change_db \<Rightarrow>
                  if \<not> equipped a ''NavigationAdmin'' then (panicked, [], w1)
                  else committed (change_db (wDB w1)) (http_error 409) (redirect [] ''/modules?result=updated'') w1)"

definition category_name :: "(string \<times> string) list \<Rightarrow> string option" where
  "category_name form =
     (let name = trim_space (form_value form ''name'') in if length name < 2 \<or> 64 < length name then None else Some name)"

definition createCategory :: "admin_env \<Rightarrow> dependencies \<Rightarrow> request_env \<Rightarrow> http_request \<Rightarrow> web \<Rightarrow> admin_outcome" where
  "createCategory a d env req w =
     root_form a d env req w (\<lambda>session user form w1.
       case category_name form of
         None \<Rightarrow> reject 400 w1
       | Some name \<Rightarrow>
           if \<not> equipped a ''NavigationAdmin'' then (panicked, [], w1)
           else committed (CreateCategory name (wDB w1)) (http_error 409) (redirect [] ''/modules?result=created'') w1)"

definition renameCategory :: "admin_env \<Rightarrow> dependencies \<Rightarrow> request_env \<Rightarrow> http_request \<Rightarrow> string \<Rightarrow> web \<Rightarrow> admin_outcome" where
  "renameCategory a d env req path_id w =
     navigationAction a d env req path_id w (\<lambda>k form. map_option (RenameCategory k) (category_name form))"

definition deleteCategory :: "admin_env \<Rightarrow> dependencies \<Rightarrow> request_env \<Rightarrow> http_request \<Rightarrow> string \<Rightarrow> web \<Rightarrow> admin_outcome" where
  "deleteCategory a d env req path_id w = navigationAction a d env req path_id w (\<lambda>k form. Some (DeleteCategory k))"

definition toggleModule :: "admin_env \<Rightarrow> dependencies \<Rightarrow> request_env \<Rightarrow> http_request \<Rightarrow> string \<Rightarrow> web \<Rightarrow> admin_outcome" where
  "toggleModule a d env req path_id w =
     navigationAction a d env req path_id w (\<lambda>k form. Some (ToggleModule k (form_value form ''enabled'' = ''true'')))"

definition moveCategory :: "admin_env \<Rightarrow> dependencies \<Rightarrow> request_env \<Rightarrow> http_request \<Rightarrow> string \<Rightarrow> web \<Rightarrow> admin_outcome" where
  "moveCategory a d env req path_id w =
     navigationAction a d env req path_id w (\<lambda>k form. Some (MoveCategory k (fst (atoi (form_value form ''direction'')))))"

definition moveModule :: "admin_env \<Rightarrow> dependencies \<Rightarrow> request_env \<Rightarrow> http_request \<Rightarrow> string \<Rightarrow> web \<Rightarrow> admin_outcome" where
  "moveModule a d env req path_id w =
     navigationAction a d env req path_id w (\<lambda>k form. Some (MoveModule k (fst (atoi (form_value form ''direction'')))))"

text \<open>
  The order of the menu comes as JSON: the token, the categories, and the modules of each category,
  the latter in the order in which the loop over the map visits its keys. \<open>None\<close> is a body that does not
  decode.
\<close>

record menu_order =
  order_token :: string
  order_categories :: "int list"
  order_modules :: "(string \<times> int list) list"

fun order_by_category :: "(string \<times> int list) list \<Rightarrow> (int \<times> int list) list \<Rightarrow> (int \<times> int list) list option" where
  "order_by_category [] byCategory = Some byCategory"
| "order_by_category ((key, ids) # rest) byCategory =
     (case atoi key of (k, ok) \<Rightarrow>
        if \<not> ok \<or> k < 1 then None else order_by_category rest (AList.update k ids byCategory))"

definition reorderNavigation ::
    "admin_env \<Rightarrow> dependencies \<Rightarrow> request_env \<Rightarrow> http_request \<Rightarrow> menu_order option \<Rightarrow> web \<Rightarrow> admin_outcome" where
  "reorderNavigation a d env req payload w =
     (case rootUser a d env req w of
        (Inl resp, w1) \<Rightarrow> (resp, [], w1)
      | (Inr (session, user), w1) \<Rightarrow>
          let answer = (\<lambda>success status. html_page (JsonResult success) status) in
          (case payload of
             None \<Rightarrow> (answer False 400, [], w1)
           | Some p \<Rightarrow>
               (case ValidateCSRF (at_csrf env) (SID session) (order_token p) (wSessions w1) of
                  (valid, m) \<Rightarrow>
                    let w2 = w1\<lparr>wSessions := m\<rparr> in
                    if \<not> valid then (answer False 400, [], w2)
                    else case order_by_category (order_modules p) [] of
                           None \<Rightarrow> (answer False 400, [], w2)
                         | Some byCategory \<Rightarrow>
                             if \<not> equipped a ''NavigationAdmin'' then (panicked, [], w2)
                             else committed (ReorderNavigation (order_categories p) byCategory (wDB w2))
                                    (answer False 409) (answer True 200) w2)))"

section \<open>Settings\<close>

definition smtp_valid :: "string \<Rightarrow> string \<Rightarrow> string \<Rightarrow> string \<Rightarrow> int \<Rightarrow> bool" where
  "smtp_valid host username pw security port \<longleftrightarrow>
     host \<noteq> '''' \<and> length host \<le> 253 \<and> \<not> contains_any host ([CHR 0x00, CHR 0x0D, CHR 0x0A] @ '' /'' @ [CHR 0x5C]) \<and>
     length username \<le> 254 \<and> \<not> contains_any username line_breaks \<and> length pw \<le> 1024 \<and> 1 \<le> port \<and> port \<le> 65535 \<and>
     security \<in> set [''none'', ''starttls'', ''tls'']"

definition updateSMTPSettings :: "admin_env \<Rightarrow> dependencies \<Rightarrow> request_env \<Rightarrow> http_request \<Rightarrow> web \<Rightarrow> admin_outcome" where
  "updateSMTPSettings a d env req w =
     root_form a d env req w (\<lambda>session user form w1.
       let host = trim_space (form_value form ''smtp_host'');
           username = trim_space (form_value form ''smtp_username'');
           pw = form_value form ''smtp_password'';
           security = to_lower (dLower d) (trim_space (form_value form ''smtp_security''));
           port = fst (atoi (form_value form ''smtp_port''));
           update = (if form_value form ''clear_password'' = ''1'' then Some '''' else if pw \<noteq> '''' then Some pw else None)
       in if \<not> smtp_valid host username pw security port then reject 400 w1
          else if \<not> dSettings d then (panicked, [], w1)
          else committed
                 (UpdateSMTPSettings (seal a) (seal_key a) (seal_nonce a)
                    \<lparr>Host = host, Username = username, Security = security, Port = port, PasswordConfigured = False\<rparr> update (wDB w1))
                 (http_error 503) (redirect [] ''/setting?result=smtp'') w1)"

definition updateSettings :: "admin_env \<Rightarrow> dependencies \<Rightarrow> request_env \<Rightarrow> http_request \<Rightarrow> web \<Rightarrow> admin_outcome" where
  "updateSettings a d env req w =
     root_form a d env req w (\<lambda>session user form w1.
       let defaultLog = trim_space (form_value form ''default_log'');
           email = to_lower (dLower d) (trim_space (form_value form ''certbot_email''));
           language = trim_space (form_value form ''default_language'')
       in if \<not> Supported language then reject 400 w1
          else if 128 < length defaultLog \<or> contains_any defaultLog line_breaks then reject 400 w1
          else if \<not> equipped a ''Logs'' then (panicked, [], w1)
          else case log_sources a of
                 None \<Rightarrow> reject 503 w1
               | Some sources \<Rightarrow>
                   if defaultLog \<noteq> '''' \<and> defaultLog \<notin> set sources then reject 400 w1
                   else if email \<noteq> '''' \<and> (parse_address a email \<noteq> Some email \<or> 254 < length email) then reject 400 w1
                   else if \<not> dSettings d then (panicked, [], w1)
                   else committed (UpdateSettings \<lparr>DefaultLog = defaultLog, CertbotEmail = email, DefaultLanguage = language\<rparr> (wDB w1))
                          (http_error 503) (redirect [] ''/setting?result=updated'') w1)"

definition request_backend :: "admin_env \<Rightarrow> admin_call \<Rightarrow> http_response \<Rightarrow> http_response \<Rightarrow> web \<Rightarrow> admin_outcome" where
  "request_backend a call failed succeeded w = (if succeeds a call then succeeded else failed, [call], w)"

definition updateAdminAccess :: "admin_env \<Rightarrow> dependencies \<Rightarrow> request_env \<Rightarrow> http_request \<Rightarrow> web \<Rightarrow> admin_outcome" where
  "updateAdminAccess a d env req w =
     root_form a d env req w (\<lambda>session user form w1.
       case atoi (form_value form ''port'') of (port, ok) \<Rightarrow>
         let addr = trim_space (form_value form ''address'');
             allow = trim_space (form_value form ''allow_from'')
         in if \<not> ok \<or> port < 1024 \<or> 65535 < port \<or> addr = '''' \<or> 768 < length addr \<or> allow = '''' \<or> 64 < length allow \<or>
               contains_any (addr @ allow) [CHR 0x00, CHR 0x0D]
            then reject 400 w1
            else if \<not> equipped a ''AdminAccess'' then (panicked, [], w1)
            else request_backend a (UpdateAdminAccess (form_value form ''enabled'' = ''1'') addr port allow) (http_error 503)
                   (redirect [] ''/setting?result=admin-access'') w1)"

section \<open>Backup and restoration\<close>

definition backupDatabase :: "admin_env \<Rightarrow> dependencies \<Rightarrow> request_env \<Rightarrow> http_request \<Rightarrow> web \<Rightarrow> admin_outcome" where
  "backupDatabase a d env req w =
     root_form a d env req w (\<lambda>session user form w1.
       if \<not> dSettings d then (panicked, [], w1)
       else case backup_bytes a of
              None \<Rightarrow> reject 503 w1
            | Some content \<Rightarrow> (html_page (Download content) 200, [BackupDownload], w1))"

definition multipart_form :: "request_env \<Rightarrow> 'c upload \<Rightarrow> session \<Rightarrow> web \<Rightarrow> (string \<times> string) list option \<times> web" where
  "multipart_form env up session w =
     (case up_form up of
        None \<Rightarrow> (None, w)
      | Some form \<Rightarrow>
          (case ValidateCSRF (at_csrf env) (SID session) (form_value form ''_token'') (wSessions w) of
             (valid, m) \<Rightarrow> (if valid then Some form else None, w\<lparr>wSessions := m\<rparr>)))"

text \<open>The session that asked for a restoration is destroyed with the others.\<close>

definition restoreDatabase ::
    "admin_env \<Rightarrow> dependencies \<Rightarrow> request_env \<Rightarrow> http_request \<Rightarrow> backup_content upload \<Rightarrow> web \<Rightarrow> admin_outcome" where
  "restoreDatabase a d env req up w =
     (case rootUser a d env req w of
        (Inl resp, w1) \<Rightarrow> (resp, [], w1)
      | (Inr (session, user), w1) \<Rightarrow>
          (case multipart_form env up session w1 of
             (None, w2) \<Rightarrow> reject 400 w2
           | (Some form, w2) \<Rightarrow>
               if form_value form ''confirmation'' \<noteq> ''restore'' then reject 400 w2
               else (case (up_size up, up_content up) of
                       (Some n, Some content) \<Rightarrow>
                         if n < 100 \<or> maximumRestoreBytes < n \<or> maximumRestoreBytes < bSize content then reject 400 w2
                         else if \<not> dSettings d then (panicked, [], w2)
                         else (case RestoreDatabase (restore_fails a) content (wDB w2) of
                                 (Inl e, db) \<Rightarrow> reject 400 (w2\<lparr>wDB := db\<rparr>)
                               | (Inr _, db) \<Rightarrow> (to_login, [], invalidate d env (SID session) (w2\<lparr>wDB := db\<rparr>)))
                     | _ \<Rightarrow> reject 400 w2)))"

section \<open>Snapshots of the configuration\<close>

definition configurationPost ::
    "admin_env \<Rightarrow> dependencies \<Rightarrow> request_env \<Rightarrow> http_request \<Rightarrow> string \<Rightarrow> ((string \<times> string) list \<Rightarrow> string list) \<Rightarrow> web
     \<Rightarrow> admin_outcome" where
  "configurationPost a d env req command args w =
     root_form a d env req w (\<lambda>session user form w1.
       if \<not> equipped a ''Configuration'' then (panicked, [], w1)
       else request_backend a (ConfigurationCall command (args form)) (http_error 503)
              (redirect [] (''/configuration?result='' @ command)) w1)"

definition createConfigurationSnapshot :: "admin_env \<Rightarrow> dependencies \<Rightarrow> request_env \<Rightarrow> http_request \<Rightarrow> web \<Rightarrow> admin_outcome" where
  "createConfigurationSnapshot a d env req w =
     configurationPost a d env req ''snapshot-create'' (\<lambda>form. [trim_space (form_value form ''name'')]) w"

definition renameConfigurationSnapshot ::
    "admin_env \<Rightarrow> dependencies \<Rightarrow> request_env \<Rightarrow> http_request \<Rightarrow> string \<Rightarrow> web \<Rightarrow> admin_outcome" where
  "renameConfigurationSnapshot a d env req path_id w =
     configurationPost a d env req ''snapshot-name'' (\<lambda>form. [path_id, trim_space (form_value form ''name'')]) w"

definition deleteConfigurationSnapshot ::
    "admin_env \<Rightarrow> dependencies \<Rightarrow> request_env \<Rightarrow> http_request \<Rightarrow> string \<Rightarrow> web \<Rightarrow> admin_outcome" where
  "deleteConfigurationSnapshot a d env req path_id w =
     configurationPost a d env req ''snapshot-delete'' (\<lambda>form. [path_id, form_value form ''confirmation'']) w"

definition importConfigurationSnapshot ::
    "admin_env \<Rightarrow> dependencies \<Rightarrow> request_env \<Rightarrow> http_request \<Rightarrow> bytes upload \<Rightarrow> web \<Rightarrow> admin_outcome" where
  "importConfigurationSnapshot a d env req up w =
     (case rootUser a d env req w of
        (Inl resp, w1) \<Rightarrow> (resp, [], w1)
      | (Inr (session, user), w1) \<Rightarrow>
          (case multipart_form env up session w1 of
             (None, w2) \<Rightarrow> reject 400 w2
           | (Some form, w2) \<Rightarrow>
               let name = trim_space (form_value form ''name'') in
               (case (up_size up, up_content up) of
                  (Some n, Some content) \<Rightarrow>
                    if name = '''' \<or> 100 < length name \<or> 5242880 < n \<or> 5242880 < length content then reject 400 w2
                    else if \<not> equipped a ''Configuration'' then (panicked, [], w2)
                    else request_backend a (ConfigurationCall ''snapshot-import'' [name, content]) (http_error 400)
                           (redirect [] ''/configuration?result=imported'') w2
                | _ \<Rightarrow> reject 400 w2)))"

section \<open>Only root\<close>

datatype admin_handler =
    ACreateUser | AUpdateUser string | AResetPassword string | ADeleteUser string
  | ACreateCategory | ARenameCategory string | ADeleteCategory string | AToggleModule string
  | AMoveCategory string | AMoveModule string | AReorder "menu_order option"
  | ASMTP | ASettings | AAdminAccess | ABackup | ARestore "backup_content upload"
  | ACreateSnapshot | ARenameSnapshot string | ADeleteSnapshot string | AImportSnapshot "bytes upload"

fun serve_admin :: "admin_handler \<Rightarrow> admin_env \<Rightarrow> dependencies \<Rightarrow> request_env \<Rightarrow> http_request \<Rightarrow> web \<Rightarrow> admin_outcome" where
  "serve_admin ACreateUser a d env req w = createUser a d env req w"
| "serve_admin (AUpdateUser k) a d env req w = updateUser a d env req k w"
| "serve_admin (AResetPassword k) a d env req w = resetUserPassword a d env req k w"
| "serve_admin (ADeleteUser k) a d env req w = deleteUser a d env req k w"
| "serve_admin ACreateCategory a d env req w = createCategory a d env req w"
| "serve_admin (ARenameCategory k) a d env req w = renameCategory a d env req k w"
| "serve_admin (ADeleteCategory k) a d env req w = deleteCategory a d env req k w"
| "serve_admin (AToggleModule k) a d env req w = toggleModule a d env req k w"
| "serve_admin (AMoveCategory k) a d env req w = moveCategory a d env req k w"
| "serve_admin (AMoveModule k) a d env req w = moveModule a d env req k w"
| "serve_admin (AReorder payload) a d env req w = reorderNavigation a d env req payload w"
| "serve_admin ASMTP a d env req w = updateSMTPSettings a d env req w"
| "serve_admin ASettings a d env req w = updateSettings a d env req w"
| "serve_admin AAdminAccess a d env req w = updateAdminAccess a d env req w"
| "serve_admin ABackup a d env req w = backupDatabase a d env req w"
| "serve_admin (ARestore up) a d env req w = restoreDatabase a d env req up w"
| "serve_admin ACreateSnapshot a d env req w = createConfigurationSnapshot a d env req w"
| "serve_admin (ARenameSnapshot k) a d env req w = renameConfigurationSnapshot a d env req k w"
| "serve_admin (ADeleteSnapshot k) a d env req w = deleteConfigurationSnapshot a d env req k w"
| "serve_admin (AImportSnapshot up) a d env req w = importConfigurationSnapshot a d env req up w"

text \<open>The effects of an administration request: calls to the backend, and a database that is no longer the same.\<close>

datatype admin_effect = Calls admin_call | Stores database

definition effects_of :: "web \<Rightarrow> admin_outcome \<Rightarrow> admin_effect set" where
  "effects_of w result =
     (case result of (resp, admin_calls, w') \<Rightarrow>
        Calls ` set admin_calls \<union> (if wDB w' = wDB w then {} else {Stores (wDB w')}))"

definition admin_effects ::
    "admin_env \<Rightarrow> admin_handler \<Rightarrow> dependencies \<Rightarrow> request_env \<Rightarrow> http_request \<Rightarrow> web \<Rightarrow> admin_effect set" where
  "admin_effects a h d env req w = effects_of w (serve_admin h a d env req w)"

definition root_needs :: "admin_effect \<Rightarrow> user \<Rightarrow> database \<Rightarrow> bool" where
  "root_needs e user db \<longleftrightarrow> Type user = ''root''"

text \<open>The token a request submits: in its form, in its multipart form or in its JSON.\<close>

definition csrf_valid :: "request_env \<Rightarrow> string \<Rightarrow> session \<Rightarrow> web \<Rightarrow> bool" where
  "csrf_valid env token session w \<longleftrightarrow> fst (ValidateCSRF (at_csrf env) (SID session) token (wSessions w))"

fun admin_token :: "admin_handler \<Rightarrow> request_env \<Rightarrow> http_request \<Rightarrow> session \<Rightarrow> web \<Rightarrow> bool" where
  "admin_token (AReorder payload) env req s w =
     (case payload of None \<Rightarrow> False | Some p \<Rightarrow> csrf_valid env (order_token p) s w)"
| "admin_token (ARestore up) env req s w =
     (case up_form up of None \<Rightarrow> False | Some form \<Rightarrow> csrf_valid env (form_value form ''_token'') s w)"
| "admin_token (AImportSnapshot up) env req s w =
     (case up_form up of None \<Rightarrow> False | Some form \<Rightarrow> csrf_valid env (form_value form ''_token'') s w)"
| "admin_token h env req s w = token_valid env req s w"

lemma rootUser_Inr:
  "rootUser a d env req w = (Inr (s, u), w1) \<longleftrightarrow>
     authenticatedUser d env req w = (Inr (s, u), w1) \<and> Type u = ''root'' \<and> equipped a ''UserAdmin''"
  by (auto simp: rootUser_def split: prod.splits sum.splits if_splits)

lemma rootUser_db: "rootUser a d env req w = (res, w1) \<Longrightarrow> wDB w1 = wDB w"
  by (auto simp: rootUser_def split: prod.splits sum.splits if_splits dest: authenticatedUser_db)

lemma post_form_db: "post_form env req n s w = (res, w1) \<Longrightarrow> wDB w1 = wDB w"
  by (auto simp: post_form_def split: option.splits prod.splits)

lemma root_form_effect:
  assumes "e \<in> effects_of w (root_form a d env req w act)"
  shows "\<exists>s u w1. authenticatedUser d env req w = (Inr (s, u), w1) \<and> root_needs e u (wDB w) \<and> token_valid env req s w1"
proof -
  obtain res w1 where r: "rootUser a d env req w = (res, w1)" by fastforce
  show ?thesis
  proof (cases res)
    case (Inl resp)
    then show ?thesis using assms r rootUser_db [OF r] by (simp add: root_form_def effects_of_def)
  next
    case (Inr x)
    obtain s u where x: "x = (s, u)" by fastforce
    obtain form w2 where f: "post_form env req 131072 s w1 = (form, w2)" by fastforce
    show ?thesis
    proof (cases form)
      case None
      then show ?thesis
        using assms r Inr x f rootUser_db [OF r] post_form_db [OF f] by (simp add: root_form_def effects_of_def validForm_def)
    next
      case (Some fm)
      then have "token_valid env req s w1"
        using f by (auto simp: post_form_def token_valid_def split: option.splits prod.splits if_splits intro!: exI [of _ 131072])
      then show ?thesis using r unfolding Inr x rootUser_Inr root_needs_def by blast
    qed
  qed
qed

lemma root_token_effect:
  assumes "e \<in> effects_of w (case rootUser a d env req w of (Inl resp, w1) \<Rightarrow> (resp, [], w1) | (Inr (s, u), w1) \<Rightarrow> act s u w1)"
    and "\<And>s u w1. \<not> valid s w1 \<Longrightarrow> effects_of w1 (act s u w1) = {}"
  shows "\<exists>s u w1. authenticatedUser d env req w = (Inr (s, u), w1) \<and> root_needs e u (wDB w) \<and> valid s w1"
proof -
  obtain res w1 where r: "rootUser a d env req w = (res, w1)" by fastforce
  have e: "effects_of w1 = effects_of w" using rootUser_db [OF r] by (simp add: effects_of_def fun_eq_iff)
  show ?thesis
  proof (cases res)
    case (Inl resp)
    then show ?thesis using assms(1) r rootUser_db [OF r] by (simp add: effects_of_def)
  next
    case (Inr x)
    obtain s u where x: "x = (s, u)" by fastforce
    have "e \<in> effects_of w1 (act s u w1)" using assms(1) r Inr x e by simp
    then have "valid s w1" using assms(2) by blast
    then show ?thesis using r unfolding Inr x rootUser_Inr root_needs_def by blast
  qed
qed

lemmas root_forms =
  createUser_def updateUser_def resetUserPassword_def deleteUser_def createCategory_def renameCategory_def
  deleteCategory_def toggleModule_def moveCategory_def moveModule_def navigationAction_def updateSMTPSettings_def
  updateSettings_def updateAdminAccess_def backupDatabase_def configurationPost_def createConfigurationSnapshot_def
  renameConfigurationSnapshot_def deleteConfigurationSnapshot_def

lemma serve_admin_guarded:
  assumes "e \<in> effects_of w (serve_admin h a d env req w)"
  shows "\<exists>s u w1. authenticatedUser d env req w = (Inr (s, u), w1) \<and> root_needs e u (wDB w) \<and> admin_token h env req s w1"
proof (cases h)
  case (AReorder payload)
  show ?thesis
    using assms unfolding AReorder serve_admin.simps reorderNavigation_def
    by (rule root_token_effect)
       (auto simp: effects_of_def csrf_valid_def Let_def split: option.splits prod.splits)
next
  case (ARestore up)
  show ?thesis
    using assms unfolding ARestore serve_admin.simps restoreDatabase_def
    by (rule root_token_effect)
       (auto simp: effects_of_def csrf_valid_def multipart_form_def split: option.splits prod.splits if_splits)
next
  case (AImportSnapshot up)
  show ?thesis
    using assms unfolding AImportSnapshot serve_admin.simps importConfigurationSnapshot_def
    by (rule root_token_effect)
       (auto simp: effects_of_def csrf_valid_def multipart_form_def split: option.splits prod.splits if_splits)
qed (use assms in \<open>auto simp only: serve_admin.simps admin_token.simps root_forms dest: root_form_effect\<close>)+

interpretation admin_actions: guarded "admin_effects a" root_needs admin_token for a
  by unfold_locales (simp add: admin_effects_def serve_admin_guarded)

section \<open>What becomes of the database\<close>

abbreviation after :: "admin_outcome \<Rightarrow> database" where
  "after result \<equiv> wDB (snd (snd result))"

lemma after_committed [simp]: "after (committed res failed succeeded w) = snd res"
  by (simp add: committed_def split: prod.splits sum.splits)

lemma after_request_backend [simp]: "after (request_backend a call failed succeeded w) = wDB w"
  by (simp add: request_backend_def)

lemma store_unchanged [simp, intro]: "store_step db db"
  using store_step.driver [of db "available db"] by simp

lemma store_operations [intro]:
  "store_step db (snd (CreateAdminUser now u hash perms db))"
  "store_step db (snd (UpdateAdminUser now u perms reset db))"
  "store_step db (snd (ResetAdminPassword now k hash db))"
  "store_step db (snd (DeleteAdminUser k db))"
  "store_step db (snd (CreateCategory name db))"
  "store_step db (snd (RenameCategory k name db))"
  "store_step db (snd (DeleteCategory k db))"
  "store_step db (snd (ToggleModule k enabled db))"
  "store_step db (snd (MoveCategory k dir db))"
  "store_step db (snd (MoveModule k dir db))"
  "store_step db (snd (ReorderNavigation cs byCategory db))"
  "store_step db (snd (UpdateSMTPSettings sl key nonce s p db))"
  "store_step db (snd (UpdateSettings v db))"
  by (metis store_step.intros prod.collapse)+

lemma root_form_store:
  assumes "\<And>s u form w2. store_step (wDB w2) (after (act s u form w2))"
  shows "store_step (wDB w) (after (root_form a d env req w act))"
proof -
  obtain res w1 where r: "rootUser a d env req w = (res, w1)" by fastforce
  show ?thesis
  proof (cases res)
    case (Inl resp)
    then show ?thesis using r rootUser_db [OF r] by (simp add: root_form_def)
  next
    case (Inr x)
    obtain s u where x: "x = (s, u)" by fastforce
    obtain form w2 where f: "post_form env req 131072 s w1 = (form, w2)" by fastforce
    show ?thesis
      using assms [of w2 s u "the form"] r Inr x f rootUser_db [OF r] post_form_db [OF f]
      by (cases form) (simp_all add: root_form_def validForm_def)
  qed
qed

lemma navigationAction_store:
  assumes "\<And>k form op db. operation k form = Some op \<Longrightarrow> store_step db (snd (op db))"
  shows "store_step (wDB w) (after (navigationAction a d env req path_id w operation))"
  unfolding navigationAction_def
  by (rule root_form_store) (auto split: prod.splits option.splits dest: assms)

lemma reorderNavigation_store: "store_step (wDB w) (after (reorderNavigation a d env req payload w))"
proof -
  obtain res w1 where r: "rootUser a d env req w = (res, w1)" by fastforce
  show ?thesis
    using rootUser_db [OF r] store_operations(11) [of "wDB w1"] r
    by (auto simp: reorderNavigation_def Let_def split: sum.splits prod.splits option.splits)
qed

lemma importConfigurationSnapshot_store: "after (importConfigurationSnapshot a d env req up w) = wDB w"
proof -
  obtain res w1 where r: "rootUser a d env req w = (res, w1)" by fastforce
  show ?thesis
    using rootUser_db [OF r] r
    by (auto simp: importConfigurationSnapshot_def multipart_form_def Let_def split: sum.splits prod.splits option.splits)
qed

lemma serve_admin_store:
  "(\<exists>up. h = ARestore up) \<or> store_step (wDB w) (after (serve_admin h a d env req w))"
proof (cases h)
  case (AReorder payload)
  then show ?thesis by (simp add: reorderNavigation_store)
next
  case (AImportSnapshot up)
  then show ?thesis by (simp add: importConfigurationSnapshot_store)
next
  case (ARenameCategory k)
  then show ?thesis by (auto simp: renameCategory_def intro!: navigationAction_store)
next
  case (ADeleteCategory k)
  then show ?thesis by (auto simp: deleteCategory_def intro!: navigationAction_store)
next
  case (AToggleModule k)
  then show ?thesis by (auto simp: toggleModule_def intro!: navigationAction_store)
next
  case (AMoveCategory k)
  then show ?thesis by (auto simp: moveCategory_def intro!: navigationAction_store)
next
  case (AMoveModule k)
  then show ?thesis by (auto simp: moveModule_def intro!: navigationAction_store)
qed (auto simp: root_forms Let_def split: option.splits prod.splits sum.splits intro!: root_form_store)

section \<open>Properties\<close>

text \<open>
  C7: only root administers. If a request to an administration handler calls the backend or leaves
  another database behind, its cookie names an unexpired authenticated session of the root account,
  active and at its current version, and the request submitted the token of the session; and what
  happens to the database is one operation of the store, or the restoration of a backup.
\<close>

theorem admin_only_root:
  assumes "serve_admin h a d env req w = (resp, admin_calls, w')" "admin_calls \<noteq> [] \<or> wDB w' \<noteq> wDB w"
  shows "(\<exists>sid s r. map_of (req_cookies req) CookieName = Some sid \<and> map_of (sessions (wSessions w)) sid = Some s \<and>
       \<not> expired (config (wSessions w)) (clock (at_session env)) s \<and> SState s = StateAuthenticated \<and>
       lookup (SUserID s) (wDB w) = Some r \<and> Status r = ''active'' \<and> AuthVersion r = SAuthVersion s \<and> Type r = ''root'') \<and>
    (\<exists>s u w1. authenticatedUser d env req w = (Inr (s, u), w1) \<and> admin_token h env req s w1) \<and>
    ((\<exists>up. h = ARestore up) \<or> store_step (wDB w) (wDB w'))"
proof -
  have "\<exists>e. e \<in> admin_effects a h d env req w"
    using assms by (cases admin_calls) (auto simp: admin_effects_def effects_of_def)
  then obtain e where e: "e \<in> admin_effects a h d env req w" ..
  obtain sid s r where sr: "map_of (req_cookies req) CookieName = Some sid" "map_of (sessions (wSessions w)) sid = Some s"
      "\<not> expired (config (wSessions w)) (clock (at_session env)) s" "SState s = StateAuthenticated"
      "lookup (SUserID s) (wDB w) = Some r" "Status r = ''active''" "AuthVersion r = SAuthVersion s"
      "root_needs e (scanUser r) (wDB w)"
    using admin_actions.effect_session [OF e] by blast
  from sr(8) have "Type r = ''root''" by (simp add: root_needs_def)
  with sr admin_actions.guarded_effect [OF e] serve_admin_store [of h w a d env req] show ?thesis
    unfolding assms(1) snd_conv by blast
qed

definition plain_admin :: admin_env where
  "plain_admin =
     \<lparr>equipped = (\<lambda>_. True), parse_address = Some, equal_fold = (=), seal = (\<lambda>_ _ _ _. []), seal_key = [], seal_nonce = None,
      log_sources = Some [], restore_fails = (\<lambda>_. False), backup_bytes = None, succeeds = (\<lambda>_. True)\<rparr>"

definition delete_run :: admin_outcome where
  "delete_run = serve_admin (ADeleteUser ''2'') plain_admin plain_dependencies plain_env (root_request []) root_web"

lemma validForm_root_request: "validForm env (root_request f) s w = post_form env (root_request f) 0 s w"
  by (simp add: validForm_def post_form_def root_request_def)

lemma delete_run_eval: "map uID (users (after delete_run)) = [1]"
  unfolding delete_run_def serve_admin.simps deleteUser_def root_form_def validForm_root_request
  by code_simp

theorem admin_only_root_witness: "store_step sample_database (after delete_run)"
proof -
  have run: "serve_admin (ADeleteUser ''2'') plain_admin plain_dependencies plain_env (root_request []) root_web =
      (fst delete_run, fst (snd delete_run), snd (snd delete_run))"
    by (simp add: delete_run_def)
  have db: "wDB root_web = sample_database" by (simp add: root_web_def plain_web_def)
  have "after delete_run \<noteq> wDB root_web"
    using delete_run_eval by (auto simp: db sample_database_def)
  then show ?thesis using admin_only_root [OF run] db by simp
qed

end
