(* ===== verification/Backend_Protocol.thy ===== *)
theory Backend_Protocol
  imports Go_Prelude
begin

text \<open>
  The privileged daemon and the way to it: the answers of \<^verbatim>\<open>internal/api\<close> and \<^verbatim>\<open>internal/protocol\<close>, the router
  of \<^verbatim>\<open>internal/router\<close>, one connection of \<^verbatim>\<open>internal/server\<close>, and the client of \<^verbatim>\<open>internal/client\<close>.

  A domain's handler is a function of the command, the arguments and the state of the system it acts on
  (type \<open>'w\<close>); each domain instantiates it. An error keeps its code; the text of its message is not
  modelled.
\<close>

named_theorems reply_simps "definitions of the answers, for the shape of a reply"

section \<open>Answers\<close>

datatype json = JNull | JBool bool | JInt int | JString string | JArray "json list" | JObject "(string \<times> json) list"

record api_response =
  rSuccess :: bool
  rAPI :: int
  rData :: "(string \<times> json) list option"
  rError :: "string option"

record backend_reply =
  exit_code :: int
  response :: api_response

record backend_request =
  qDomain :: string
  qCommand :: string
  qArguments :: "string list"

abbreviation (input) Version :: int where "Version \<equiv> 1"

definition Success :: "(string \<times> json) list \<Rightarrow> api_response" where
  "Success data = \<lparr>rSuccess = True, rAPI = Version, rData = Some data, rError = None\<rparr>"

definition Failure :: "string \<Rightarrow> api_response" where
  "Failure code = \<lparr>rSuccess = False, rAPI = Version, rData = None, rError = Some code\<rparr>"

definition success :: "(string \<times> json) list \<Rightarrow> backend_reply" where
  "success data = \<lparr>exit_code = 0, response = Success data\<rparr>"

definition failure :: "int \<Rightarrow> string \<Rightarrow> backend_reply" where
  "failure x code = \<lparr>exit_code = x, response = Failure code\<rparr>"

text \<open>What every answer is: data and exit code 0, or an error code and another exit code.\<close>

definition reply_ok :: "backend_reply \<Rightarrow> bool" where
  "reply_ok r \<longleftrightarrow>
     rAPI (response r) = Version \<and>
     (if rSuccess (response r) then exit_code r = 0 \<and> rData (response r) \<noteq> None \<and> rError (response r) = None
      else exit_code r \<noteq> 0 \<and> rData (response r) = None \<and> rError (response r) \<noteq> None)"

lemma reply_ok_success [simp, intro]: "reply_ok (success data)"
  by (simp add: reply_ok_def success_def Success_def)

lemma reply_ok_failure [simp]: "reply_ok (failure x code) \<longleftrightarrow> x \<noteq> 0"
  by (simp add: reply_ok_def failure_def Failure_def)

section \<open>The router\<close>

type_synonym 'w backend_handler = "string \<Rightarrow> string list \<Rightarrow> 'w \<Rightarrow> backend_reply \<times> 'w"

type_synonym 'w router = "(string \<times> 'w backend_handler) list"

definition domainPattern :: "string \<Rightarrow> bool" where
  "domainPattern s \<longleftrightarrow>
     (case s of [] \<Rightarrow> False
      | c # cs \<Rightarrow> is_lower c \<and> list_all (\<lambda>c. is_lower c \<or> is_digit c \<or> c = CHR ''_'' \<or> c = CHR ''-'') cs)"

definition knownDomains :: "string list" where
  "knownDomains =
     [''admin-access'', ''apache'', ''certbot'', ''configuration'', ''cron'', ''fail2ban'', ''firewall'', ''logs'',
      ''mysql'', ''network'', ''php'', ''services'', ''storage'', ''system'', ''tor'', ''updates'']"

definition New_router :: "'w router" where
  "New_router = []"

text \<open>\<open>None\<close> is the panic at start-up.\<close>

definition Register :: "string \<Rightarrow> 'w backend_handler option \<Rightarrow> 'w router \<Rightarrow> 'w router option" where
  "Register domain h r =
     (if \<not> domainPattern domain then None
      else case h of
             None \<Rightarrow> None
           | Some handle \<Rightarrow> if map_of r domain \<noteq> None then None else Some (AList.update domain handle r))"

definition Route :: "'w router \<Rightarrow> backend_request \<Rightarrow> 'w \<Rightarrow> backend_reply \<times> 'w" where
  "Route r req w =
     (if \<not> domainPattern (qDomain req) then (failure 10 ''INVALID_DOMAIN_NAME'', w)
      else if qDomain req \<notin> set knownDomains then (failure 3 ''DOMAIN_NOT_FOUND'', w)
      else case map_of r (qDomain req) of
             None \<Rightarrow> (failure 8 ''FEATURE_NOT_AVAILABLE'', w)
           | Some handle \<Rightarrow> handle (qCommand req) (qArguments req) w)"

text \<open>Registrations one after the other, as the daemon makes them.\<close>

fun register_all :: "(string \<times> 'w backend_handler) list \<Rightarrow> 'w router \<Rightarrow> 'w router option" where
  "register_all [] r = Some r"
| "register_all ((domain, h) # hs) r =
     (case Register domain (Some h) r of None \<Rightarrow> None | Some r' \<Rightarrow> register_all hs r')"

lemma register_all_lookup:
  "register_all hs r = Some r' \<Longrightarrow> map_of r' domain = (case map_of r domain of None \<Rightarrow> map_of hs domain | Some h \<Rightarrow> Some h)"
  by (induction hs r rule: register_all.induct)
     (auto simp: Register_def split: if_splits option.splits)

lemma register_all_total:
  "distinct (map fst hs) \<Longrightarrow> list_all domainPattern (map fst hs) \<Longrightarrow> \<forall>d \<in> set (map fst hs). map_of r d = None \<Longrightarrow>
     \<exists>r'. register_all hs r = Some r'"
  by (induction hs r rule: register_all.induct) (force simp: Register_def)+

lemma knownDomains_pattern: "list_all domainPattern knownDomains" "distinct knownDomains"
  by code_simp+

text \<open>
  The interface of a domain: its handler answers every command, with well-formed replies only.
\<close>

locale domain_handler =
  fixes handle :: "'w backend_handler"
  assumes handle_ok: "reply_ok (fst (handle command args w))"
begin

lemma reply_cases:
  "(\<exists>data. rData (response (fst (handle command args w))) = Some data \<and> exit_code (fst (handle command args w)) = 0) \<or>
   (\<exists>code. rError (response (fst (handle command args w))) = Some code \<and> exit_code (fst (handle command args w)) \<noteq> 0)"
  using handle_ok [of command args w] by (auto simp: reply_ok_def split: if_splits)

end

definition router_ok :: "'w router \<Rightarrow> bool" where
  "router_ok r \<longleftrightarrow> (\<forall>domain handle. map_of r domain = Some handle \<longrightarrow> domain_handler handle)"

lemma router_ok_New [simp]: "router_ok New_router"
  by (simp add: router_ok_def New_router_def)

lemma router_ok_Register:
  "router_ok r \<Longrightarrow> domain_handler handle \<Longrightarrow> Register domain (Some handle) r = Some r' \<Longrightarrow> router_ok r'"
  by (auto simp: router_ok_def Register_def split: if_splits)

lemma router_ok_register_all:
  "router_ok r \<Longrightarrow> \<forall>h \<in> set (map snd hs). domain_handler h \<Longrightarrow> register_all hs r = Some r' \<Longrightarrow> router_ok r'"
  by (induction hs r rule: register_all.induct) (auto split: option.splits dest: router_ok_Register)

lemma Route_ok: "router_ok r \<Longrightarrow> reply_ok (fst (Route r req w))"
  by (auto simp: Route_def router_ok_def domain_handler_def split: option.splits)

section \<open>One connection of the server\<close>

text \<open>\<open>None\<close>: the message could not be decoded.\<close>

definition handleConnection :: "'w router \<Rightarrow> backend_request option \<Rightarrow> 'w \<Rightarrow> backend_reply \<times> 'w" where
  "handleConnection r decoded w =
     (case decoded of None \<Rightarrow> (failure 2 ''INVALID_REQUEST'', w) | Some req \<Rightarrow> Route r req w)"

datatype socket_stat = SocketMissing | StatFailed | SocketPresent bool bool bool

text \<open>
  A path that exists: whether it is a socket, whether a server answers on it, whether it can be removed.
  The result is \<open>None\<close> for an error, and otherwise whether a stale socket was removed.
\<close>

definition prepareSocket :: "bool \<Rightarrow> bool \<Rightarrow> socket_stat \<Rightarrow> bool option" where
  "prepareSocket absolute directory_made st =
     (if \<not> absolute then None
      else if \<not> directory_made then None
      else case st of
             SocketMissing \<Rightarrow> Some False
           | StatFailed \<Rightarrow> None
           | SocketPresent is_socket answers removable \<Rightarrow>
               if \<not> is_socket then None else if answers then None else if \<not> removable then None else Some True)"

lemma prepareSocket_removes:
  "prepareSocket absolute made st = Some True \<longleftrightarrow> absolute \<and> made \<and> st = SocketPresent True False True"
  by (auto simp: prepareSocket_def split: socket_stat.splits)

section \<open>The client\<close>

abbreviation (input) defaultTimeout :: int where "defaultTimeout \<equiv> 10 * 10 ^ 9"
abbreviation (input) startupRetryWindow :: int where "startupRetryWindow \<equiv> 10 ^ 9"
abbreviation (input) startupRetryDelay :: int where "startupRetryDelay \<equiv> 25 * 10 ^ 6"

datatype dial_outcome = Connected | DialNotExist | DialRefused | DialFailed

record attempt =
  dial :: dial_outcome
  dial_time :: int
  oversleep :: int

datatype connect_result = Connection | DeadlineExceeded | DialError

text \<open>
  The loop of \<^verbatim>\<open>connect\<close>. What the network does is \<open>net\<close>: for each attempt (counted from 0) and the time that
  remains, the outcome of the dial, how long it took, and how much longer than asked the sleep was.
  The result counts the attempts.
\<close>

partial_function (option) connect_loop ::
    "(nat \<Rightarrow> int \<Rightarrow> attempt) \<Rightarrow> int \<Rightarrow> nat \<Rightarrow> int \<Rightarrow> (connect_result \<times> nat) option" where
  "connect_loop net deadline n now =
     (if deadline - now \<le> 0 then Some (DeadlineExceeded, n)
      else if dial (net n (deadline - now)) = Connected then Some (Connection, Suc n)
      else if dial (net n (deadline - now)) = DialFailed then Some (DialError, Suc n)
      else connect_loop net deadline (Suc n)
             (now + dial_time (net n (deadline - now)) + min startupRetryDelay (deadline - now) +
              oversleep (net n (deadline - now))))"

definition connect :: "(nat \<Rightarrow> int \<Rightarrow> attempt) \<Rightarrow> int \<Rightarrow> int \<Rightarrow> int \<Rightarrow> int \<Rightarrow> (connect_result \<times> nat) option" where
  "connect net timeout t0 t1 t2 =
     (let deadline = (if t1 + timeout < t0 + startupRetryWindow then t1 + timeout else t0 + startupRetryWindow)
      in connect_loop net deadline 0 t2)"

text \<open>\<open>send\<close> is the exchange over the connection; \<open>None\<close> when writing or reading fails.\<close>

definition Execute ::
    "(nat \<Rightarrow> int \<Rightarrow> attempt) \<Rightarrow> int \<Rightarrow> int \<Rightarrow> int \<Rightarrow> int \<Rightarrow> (backend_request \<Rightarrow> backend_reply option) \<Rightarrow> backend_request
     \<Rightarrow> backend_reply option option" where
  "Execute net timeout t0 t1 t2 send req =
     (case connect net timeout t0 t1 t2 of
        None \<Rightarrow> None
      | Some (Connection, n) \<Rightarrow> Some (send req)
      | Some (_, n) \<Rightarrow> Some None)"

text \<open>Time passes while a dial or a sleep takes place.\<close>

definition forward :: "(nat \<Rightarrow> int \<Rightarrow> attempt) \<Rightarrow> bool" where
  "forward net \<longleftrightarrow> (\<forall>n r. 0 \<le> dial_time (net n r) \<and> 0 \<le> oversleep (net n r))"

lemma connect_loop_returns:
  assumes "forward net" "deadline - now \<le> startupRetryDelay * int k"
  shows "\<exists>res m. connect_loop net deadline n now = Some (res, m) \<and> n \<le> m \<and> m \<le> n + k"
  using assms(2)
proof (induction k arbitrary: n now)
  case 0
  then show ?case by (subst connect_loop.simps) simp
next
  case (Suc k)
  let ?a = "net n (deadline - now)"
  let ?next = "now + dial_time ?a + min startupRetryDelay (deadline - now) + oversleep ?a"
  have "0 \<le> dial_time ?a" "0 \<le> oversleep ?a" using assms(1) by (simp_all add: forward_def)
  then have "deadline - ?next \<le> startupRetryDelay * int k"
    using Suc.prems by (auto simp: algebra_simps min_def)
  from Suc.IH [OF this, of "Suc n"] obtain res m
    where "connect_loop net deadline (Suc n) ?next = Some (res, m)" "Suc n \<le> m" "m \<le> Suc n + k" by blast
  then show ?case by (subst connect_loop.simps) auto
qed

text \<open>
  C24: the client always gets an answer about the socket. As long as time does not run backwards, the
  retry loop of the client returns, however often the socket is missing or refuses: after at most 40
  attempts.
\<close>

theorem connect_returns:
  assumes "forward net" "t0 \<le> t2"
  shows "\<exists>res n. connect net timeout t0 t1 t2 = Some (res, n) \<and> n \<le> 40"
proof -
  let ?deadline = "if t1 + timeout < t0 + startupRetryWindow then t1 + timeout else t0 + startupRetryWindow"
  have "?deadline - t2 \<le> startupRetryDelay * int 40" using assms(2) by auto
  from connect_loop_returns [OF assms(1) this, of 0] show ?thesis by (auto simp: connect_def Let_def)
qed

theorem connect_returns_witness:
  "\<exists>res n. connect (\<lambda>n r. \<lparr>dial = DialRefused, dial_time = 0, oversleep = 0\<rparr>) defaultTimeout 0 0 0 = Some (res, n) \<and> n \<le> 40"
  by (rule connect_returns) (simp_all add: forward_def)

end
