(* ===== verification/Go_Words.thy ===== *)
theory Go_Words
  imports Go_Prelude
begin

text \<open>
  The words of a line: what \<^verbatim>\<open>strings.Fields\<close> and \<^verbatim>\<open>strings.TrimSpace\<close> of \<open>Go_Prelude\<close> return, that joining the
  words of a line with spaces and splitting again changes nothing, and that neither adds a character.
\<close>

abbreviation words :: "string \<Rightarrow> string list" where
  "words s \<equiv> Go_Prelude.fields s"

text \<open>\<^verbatim>\<open>\s\<close> of a regular expression; \<^verbatim>\<open>TrimSpace\<close> and \<^verbatim>\<open>Fields\<close> know more kinds of space.\<close>

definition re_space :: "char \<Rightarrow> bool" where
  "re_space c \<longleftrightarrow> byte_val c \<in> {9, 10, 12, 13, 32}"

section \<open>Spaces\<close>

lemma space_width_zero:
  "space_width (a # s) = 0 \<longleftrightarrow>
     \<not> space1 (byte_val a) \<and>
     (case s of [] \<Rightarrow> True
      | b # t \<Rightarrow> \<not> space2 (byte_val a) (byte_val b) \<and>
          (case t of [] \<Rightarrow> True | c # u \<Rightarrow> \<not> space3 (byte_val a) (byte_val b) (byte_val c)))"
  by (cases "a # s" rule: space_width.cases) auto

lemma space_width_rev_zero:
  "space_width_rev (a # s) = 0 \<longleftrightarrow>
     \<not> space1 (byte_val a) \<and>
     (case s of [] \<Rightarrow> True
      | b # t \<Rightarrow> \<not> space2 (byte_val b) (byte_val a) \<and>
          (case t of [] \<Rightarrow> True | c # u \<Rightarrow> \<not> space3 (byte_val c) (byte_val b) (byte_val a)))"
  by (cases "a # s" rule: space_width_rev.cases) auto

lemma re_space_width: "space_width (c # cs) = 0 \<Longrightarrow> \<not> re_space c"
  by (auto simp: re_space_def space1_def space_width_zero)

lemma space_ends_word: "space_width (CHR '' '' # t) \<noteq> 0"
  by (simp add: space_width_zero space1_def)

lemma space_width_cut:
  "space_width (w @ r) = 0 \<Longrightarrow> w \<noteq> [] \<Longrightarrow> space_width (w @ CHR '' '' # t) = 0"
  by (cases w; cases "tl w"; cases "tl (tl w)")
     (auto simp: space_width_zero space2_def space3_def split: list.splits)

lemma space_width_rev_cut:
  "space_width_rev (w @ r) = 0 \<Longrightarrow> w \<noteq> [] \<Longrightarrow> space_width_rev (w @ CHR '' '' # t) = 0"
  by (cases w; cases "tl w"; cases "tl (tl w)")
     (auto simp: space_width_rev_zero space2_def space3_def split: list.splits)

lemma take_word_cut: "take_word s = (w, r) \<Longrightarrow> take_word (w @ CHR '' '' # t) = (w, CHR '' '' # t)"
proof (induction s arbitrary: w r)
  case Nil
  then show ?case by (simp add: space_ends_word)
next
  case (Cons c cs)
  show ?case
  proof (cases "space_width (c # cs) = 0")
    case True
    obtain w' r' where tw: "take_word cs = (w', r')" by fastforce
    with Cons.prems True have w: "w = c # w'" "r = r'" by (auto split: if_splits)
    have "space_width (c # w' @ r') = 0" using True take_word_append [OF tw] by simp
    then have "space_width (c # w' @ CHR '' '' # t) = 0" using space_width_cut [of "c # w'" r' t] by simp
    then show ?thesis using Cons.IH [OF tw] w by simp
  next
    case False
    with Cons.prems show ?thesis by (auto simp: space_ends_word split: if_splits)
  qed
qed

lemma take_word_chars: "take_word s = (w, r) \<Longrightarrow> list_all (\<lambda>c. \<not> re_space c) w"
  by (induction s arbitrary: w r) (auto split: if_splits prod.splits dest: re_space_width)

lemma words_Cons:
  "trim_left s \<noteq> [] \<Longrightarrow> words s = fst (take_word (trim_left s)) # words (snd (take_word (trim_left s)))"
  by (subst fields.simps) simp

lemma words_Nil: "trim_left s = [] \<Longrightarrow> words s = []"
  by (subst fields.simps) simp

text \<open>A word: what \<^verbatim>\<open>Fields\<close> returns.\<close>

definition word_ok :: "string \<Rightarrow> bool" where
  "word_ok w \<longleftrightarrow>
     w \<noteq> [] \<and> list_all (\<lambda>c. \<not> re_space c) w \<and> (\<forall>t. take_word (w @ CHR '' '' # t) = (w, CHR '' '' # t)) \<and>
     take_word w = (w, []) \<and> (\<forall>t. space_width (w @ CHR '' '' # t) = 0)"

lemma take_word_self: "take_word s = (w, r) \<Longrightarrow> take_word w = (w, [])"
proof (induction s arbitrary: w r)
  case Nil
  then show ?case by simp
next
  case (Cons c cs)
  show ?case
  proof (cases "space_width (c # cs) = 0")
    case True
    obtain w' r' where tw: "take_word cs = (w', r')" by fastforce
    with Cons.prems True have w: "w = c # w'" by (auto split: if_splits)
    have "space_width (c # w' @ r') = 0" using True take_word_append [OF tw] by simp
    then have "space_width (c # w') = 0"
      by (cases w'; cases "tl w'") (auto simp: space_width_zero split: list.splits)
    then show ?thesis using Cons.IH [OF tw] w by simp
  next
    case False
    with Cons.prems show ?thesis by (auto split: if_splits)
  qed
qed

lemma words_ok: "list_all word_ok (words s)"
proof (induction s rule: fields.induct)
  case (1 s)
  show ?case
  proof (cases "trim_left s = []")
    case True
    then show ?thesis by (simp add: words_Nil)
  next
    case False
    obtain w r where tw: "take_word (trim_left s) = (w, r)" by fastforce
    have "w \<noteq> []"
      using tw trim_left_head [of s] False by (cases "trim_left s") (auto split: prod.splits)
    moreover have "space_width (w @ r) = 0"
      using trim_left_head [of s] take_word_append [OF tw] by simp
    ultimately have "word_ok w"
      using take_word_chars [OF tw] take_word_cut [OF tw] take_word_self [OF tw] space_width_cut by (auto simp: word_ok_def)
    then show ?thesis using 1 [OF False] tw words_Cons [OF False] by simp
  qed
qed

lemma words_join: "list_all word_ok ws \<Longrightarrow> words (join '' '' ws) = ws"
proof (induction ws)
  case Nil
  then show ?case by (simp add: words_Nil trim_left_id)
next
  case (Cons w ws)
  have ok: "word_ok w" using Cons.prems by simp
  show ?case
  proof (cases "ws = []")
    case True
    have "space_width w = 0"
      using ok by (cases w; cases "tl w") (auto simp: word_ok_def space_width_zero split: list.splits)
    then have "trim_left w = w" by (rule trim_left_id)
    then show ?thesis using ok True by (subst words_Cons) (auto simp: word_ok_def words_Nil trim_left_id)
  next
    case False
    let ?s = "w @ CHR '' '' # join '' '' ws"
    have s: "join '' '' (w # ws) = ?s" using False by (simp add: join_Cons)
    have "trim_left ?s = ?s" using ok by (intro trim_left_id) (simp add: word_ok_def)
    moreover have "words (CHR '' '' # join '' '' ws) = words (join '' '' ws)"
    proof -
      have "trim_left (CHR '' '' # join '' '' ws) = trim_left (join '' '' ws)"
        by (subst trim_left.simps) (cases "CHR '' '' # join '' '' ws" rule: space_width.cases; simp add: space1_def)
      then show ?thesis
        by (cases "trim_left (join '' '' ws) = []") (simp_all add: words_Nil words_Cons)
    qed
    ultimately show ?thesis using ok Cons by (simp add: s) (subst words_Cons, auto simp: word_ok_def)
  qed
qed

section \<open>Trimming\<close>

lemma trim_space_id: "space_width s = 0 \<Longrightarrow> space_width_rev (rev s) = 0 \<Longrightarrow> trim_space s = s"
  by (simp add: trim_space_def trim_left_id trim_left_rev_id)

lemma trim_left_rev_end: "space_width_rev (trim_left_rev s) = 0"
proof (induction s rule: trim_left_rev.induct)
  case (1 s)
  then show ?case by (subst trim_left_rev.simps) auto
qed

lemma trim_left_suffix: "\<exists>u. s = u @ trim_left s"
proof (induction s rule: trim_left.induct)
  case (1 s)
  show ?case
  proof (cases "space_width s = 0")
    case True
    then show ?thesis by (simp add: trim_left_id)
  next
    case False
    from 1 [OF this] obtain u where "drop (space_width s) s = u @ trim_left (drop (space_width s) s)" by blast
    moreover have "trim_left s = trim_left (drop (space_width s) s)" using False by (subst trim_left.simps) simp
    ultimately show ?thesis by (metis append_assoc append_take_drop_id)
  qed
qed

lemma trim_left_rev_suffix: "\<exists>u. s = u @ trim_left_rev s"
proof (induction s rule: trim_left_rev.induct)
  case (1 s)
  show ?case
  proof (cases "space_width_rev s = 0")
    case True
    then show ?thesis by (simp add: trim_left_rev_id)
  next
    case False
    from 1 [OF this] obtain u where "drop (space_width_rev s) s = u @ trim_left_rev (drop (space_width_rev s) s)" by blast
    moreover have "trim_left_rev s = trim_left_rev (drop (space_width_rev s) s)" using False by (subst trim_left_rev.simps) simp
    ultimately show ?thesis by (metis append_assoc append_take_drop_id)
  qed
qed

lemma trim_space_set: "set (trim_space s) \<subseteq> set s"
proof -
  obtain u where "s = u @ trim_left s" using trim_left_suffix by blast
  moreover obtain v where "rev (trim_left s) = v @ trim_left_rev (rev (trim_left s))" using trim_left_rev_suffix by blast
  ultimately show ?thesis unfolding trim_space_def by (metis Un_iff set_append set_rev subsetI)
qed

lemma trim_space_head: "trim_space s \<noteq> [] \<Longrightarrow> \<not> re_space (hd (trim_space s))"
proof -
  assume ne: "trim_space s \<noteq> []"
  obtain v where v: "rev (trim_left s) = v @ trim_left_rev (rev (trim_left s))" using trim_left_rev_suffix by blast
  then have "trim_left s = trim_space s @ rev v" unfolding trim_space_def by (metis rev_append rev_rev_ident)
  then have "trim_left s = hd (trim_space s) # (tl (trim_space s) @ rev v)" using ne by (cases "trim_space s") auto
  then show ?thesis using trim_left_head [of s] re_space_width by metis
qed

lemma take_word_subset: "set (fst (take_word s)) \<subseteq> set s" "set (snd (take_word s)) \<subseteq> set s"
  using take_word_append [of s "fst (take_word s)" "snd (take_word s)"] by (metis prod.collapse set_append sup_ge1 sup_ge2)+

lemma trim_left_subset: "set (trim_left s) \<subseteq> set s"
  using trim_left_suffix [of s] by (metis set_append sup_ge2)

lemma words_subset: "w \<in> set (words s) \<Longrightarrow> set w \<subseteq> set s"
proof (induction s rule: fields.induct)
  case (1 s)
  show ?case
  proof (cases "trim_left s = []")
    case True
    with 1 show ?thesis by (simp add: words_Nil)
  next
    case False
    then show ?thesis
      using 1 words_Cons [OF False] take_word_subset [of "trim_left s"] trim_left_subset [of s] by fastforce
  qed
qed

lemma join_subset: "set (join sep ws) \<subseteq> set sep \<union> (\<Union>w \<in> set ws. set w)"
  by (induction sep ws rule: join.induct) auto

end
