(* ===== verification/Backend_System.thy ===== *)
theory Backend_System
  imports Backend_Protocol Go_Words "HOL-Library.List_Lexorder"
begin

text \<open>
  What the domains of the daemon share: the commands they run. The state a domain acts on is the list of
  the commands the daemon has run so far, each as the list of the program and its arguments. What a
  command prints and how it ends is an \<open>executor\<close>: a function of the commands before it and the command
  itself, so that the same command may answer differently the next time.

  A domain is confined when it runs only commands its specification permits for the request at hand; the
  locale \<open>confined_handler\<close> carries that over to any sequence of requests.
\<close>

named_theorems confined "what a step adds to the commands run"

record outcome_text =
  out :: string
  err :: string
  status :: int

type_synonym history = "string list list"

type_synonym executor = "history \<Rightarrow> string list \<Rightarrow> outcome_text"

definition run_command :: "executor \<Rightarrow> string list \<Rightarrow> history \<Rightarrow> outcome_text \<times> history" where
  "run_command x argv h = (x h argv, h @ [argv])"

abbreviation succeeded :: "outcome_text \<Rightarrow> bool" where
  "succeeded r \<equiv> status r = 0"

text \<open>The commands of \<open>h'\<close> that are not in \<open>h\<close> all satisfy \<open>P\<close>.\<close>

definition extends :: "(string list \<Rightarrow> bool) \<Rightarrow> history \<Rightarrow> history \<Rightarrow> bool" where
  "extends P h h' \<longleftrightarrow> (\<exists>new. h' = h @ new \<and> list_all P new)"

lemma extends_refl [confined, simp, intro]: "extends P h h"
  by (simp add: extends_def)

lemma extends_snoc [confined, simp]: "extends P h (h @ [argv]) \<longleftrightarrow> P argv"
  by (simp add: extends_def)

lemma extends_trans [trans]: "extends P h h' \<Longrightarrow> extends P h' h'' \<Longrightarrow> extends P h h''"
  by (force simp: extends_def)

lemma extends_mono: "extends P h h' \<Longrightarrow> (\<And>argv. P argv \<Longrightarrow> Q argv) \<Longrightarrow> extends Q h h'"
  by (auto simp: extends_def list_all_iff)

lemma extends_step: "extends P h (h @ [argv]) \<Longrightarrow> extends P (h @ [argv]) h' \<Longrightarrow> extends P h h'"
  by (rule extends_trans)

lemma snd_run_command [simp]: "snd (run_command x argv h) = h @ [argv]"
  by (simp add: run_command_def)

lemma run_command_eq: "run_command x argv h = (r, h') \<longleftrightarrow> r = x h argv \<and> h' = h @ [argv]"
  by (auto simp: run_command_def)

text \<open>Requests one after the other.\<close>

fun serve_requests :: "(string \<Rightarrow> string list \<Rightarrow> 'w \<Rightarrow> backend_reply \<times> 'w) \<Rightarrow> (string \<times> string list) list \<Rightarrow> 'w \<Rightarrow> 'w" where
  "serve_requests handle [] w = w"
| "serve_requests handle ((command, args) # rest) w = serve_requests handle rest (snd (handle command args w))"

locale confined_handler = domain_handler handle
  for handle :: "history backend_handler" +
  fixes permitted :: "string \<Rightarrow> string list \<Rightarrow> string list \<Rightarrow> bool"
  assumes handle_confined: "extends (permitted command args) h (snd (handle command args h))"
begin

lemma requests_confined:
  "extends (\<lambda>argv. \<exists>(command, args) \<in> set reqs. permitted command args argv) h (serve_requests handle reqs h)"
proof (induction reqs arbitrary: h)
  case Nil
  then show ?case by simp
next
  case (Cons req reqs)
  obtain command args where req: "req = (command, args)" by fastforce
  let ?P = "\<lambda>argv. \<exists>(command, args) \<in> set (req # reqs). permitted command args argv"
  have "extends ?P h (snd (handle command args h))"
    by (rule extends_mono [OF handle_confined]) (auto simp: req)
  also have "extends ?P (snd (handle command args h)) (serve_requests handle reqs (snd (handle command args h)))"
    by (rule extends_mono [OF Cons.IH]) auto
  finally show ?case by (simp add: req)
qed

lemma command_permitted:
  "argv \<in> set (serve_requests handle reqs []) \<Longrightarrow> \<exists>(command, args) \<in> set reqs. permitted command args argv"
  using requests_confined [of reqs "[]"] by (auto simp: extends_def list_all_iff)

end

section \<open>Sorting and lines\<close>

text \<open>\<^verbatim>\<open>sort.Strings\<close>: the order of the bytes.\<close>

definition sort_strings :: "string list \<Rightarrow> string list" where
  "sort_strings xs = sort_key (map byte_val) xs"

lemma set_sort_strings [simp]: "set (sort_strings xs) = set xs"
  by (simp add: sort_strings_def)

lemma distinct_sort_strings [simp]: "distinct (sort_strings xs) = distinct xs"
  by (simp add: sort_strings_def)

definition uniqueSorted :: "string list \<Rightarrow> string list" where
  "uniqueSorted xs = sort_strings (rev (remdups (rev xs)))"

lemma uniqueSorted [simp]: "set (uniqueSorted xs) = set xs" "distinct (uniqueSorted xs)"
  by (simp_all add: uniqueSorted_def)

abbreviation lines_of :: "string \<Rightarrow> string list" where
  "lines_of s \<equiv> split_char CHR 0x0A s"

text \<open>The part of a line before a comment, without surrounding white space.\<close>

definition without_comment :: "string \<Rightarrow> string" where
  "without_comment raw = trim_space (before_char CHR ''#'' raw)"

text \<open>What \<^verbatim>\<open>os.Stat\<close> says of a path: a regular file with an execute bit.\<close>

type_synonym executable = "string \<Rightarrow> bool"

end
