(* ===== verification/Domain_Services.thy ===== *)
theory Domain_Services
  imports Backend_System
begin

text \<open>
  The services domain of the daemon (\<^verbatim>\<open>internal/domain/services/services.go\<close>): the services an administrator
  may see and restart, their state as \<^verbatim>\<open>systemctl\<close> reports it, and the restart.

  \<open>services_host\<close> is what the domain reads: the file with the allowed services (\<open>None\<close> when it cannot be
  read) and the executor.
\<close>

record services_host =
  services_file :: "string option"
  services_exec :: executor

record service =
  svID :: string
  svExists :: bool
  svActive :: bool
  svEnabled :: bool
  svState :: string

section \<open>Allowed services\<close>

definition identifier_char :: "char \<Rightarrow> bool" where
  "identifier_char c \<longleftrightarrow> is_alnum c \<or> c \<in> set ''@._-''"

definition service_identifier :: "string \<Rightarrow> bool" where
  "service_identifier s \<longleftrightarrow> (case s of [] \<Rightarrow> False | c # cs \<Rightarrow> is_alnum c \<and> list_all identifier_char cs)"

text \<open>\<^verbatim>\<open>^php[0-9]+\.[0-9]+-fpm\.service$\<close>\<close>

definition digits :: "string \<Rightarrow> bool" where
  "digits s \<longleftrightarrow> s \<noteq> [] \<and> list_all is_digit s"

definition phpFPMUnitPattern :: "string \<Rightarrow> bool" where
  "phpFPMUnitPattern s \<longleftrightarrow>
     has_prefix s ''php'' \<and> has_suffix s ''-fpm.service'' \<and>
     (case cut_char CHR ''.'' (trim_suffix (trim_prefix s ''php'') ''-fpm.service'') of
        None \<Rightarrow> False
      | Some (major, minor) \<Rightarrow> digits major \<and> digits minor)"

definition defaultAllowedServices :: "string list" where
  "defaultAllowedServices =
     [''apache2'', ''httpd'', ''mysql'', ''mariadb'', ''mysqld'', ''fail2ban'', ''tor'', ''tor@default'', ''cron'', ''crond'',
      ''ssh'', ''sshd'']"

definition configuredServices :: "string option \<Rightarrow> string list" where
  "configuredServices content =
     (case content of
        None \<Rightarrow> defaultAllowedServices
      | Some text \<Rightarrow> uniqueSorted (filter service_identifier (map without_comment (lines_of text))))"

definition serviceAllowed :: "services_host \<Rightarrow> string \<Rightarrow> bool" where
  "serviceAllowed host name \<longleftrightarrow>
     phpFPMUnitPattern (name @ ''.service'') \<or> name \<in> set (configuredServices (services_file host))"

definition validateService :: "services_host \<Rightarrow> string \<Rightarrow> backend_reply option" where
  "validateService host name =
     (if \<not> service_identifier name then Some (failure 2 ''INVALID_SERVICE_IDENTIFIER'')
      else if serviceAllowed host name then None
      else Some (failure 6 ''SERVICE_NOT_ALLOWED''))"

section \<open>What systemctl prints\<close>

abbreviation systemctlCommand :: string where "systemctlCommand \<equiv> ''/usr/bin/systemctl''"

definition property :: "(string \<times> string) list \<Rightarrow> string \<Rightarrow> string" where
  "property current key = (case map_of current key of None \<Rightarrow> '''' | Some v \<Rightarrow> v)"

fun parse_show :: "string list \<Rightarrow> (string \<times> string) list \<Rightarrow> (string \<times> string) list list" where
  "parse_show [] current = (if current = [] then [] else [current])"
| "parse_show (raw # rest) current =
     (let line = trim_space raw in
      if line = '''' then (if current = [] then parse_show rest [] else current # parse_show rest [])
      else case cut_char CHR ''='' line of
             None \<Rightarrow> parse_show rest current
           | Some (key, v) \<Rightarrow>
               if key = ''Id'' \<and> property current ''Id'' \<noteq> ''''
               then current # parse_show rest [(key, v)]
               else parse_show rest (AList.update key v current))"

definition parseSystemctlShow :: "string \<Rightarrow> (string \<times> string) list list" where
  "parseSystemctlShow text = parse_show (lines_of text) []"

fun first_known :: "(string \<times> nat) list \<Rightarrow> string list \<Rightarrow> nat option" where
  "first_known byUnit [] = None"
| "first_known byUnit (name # names) =
     (case map_of byUnit name of Some i \<Rightarrow> Some i | None \<Rightarrow> first_known byUnit names)"

definition unit_index :: "(string \<times> nat) list \<Rightarrow> (string \<times> string) list \<Rightarrow> nat option" where
  "unit_index byUnit properties =
     (case map_of byUnit (property properties ''Id'') of
        Some i \<Rightarrow> Some i
      | None \<Rightarrow> first_known byUnit (words (property properties ''Names'')))"

definition record_status ::
    "string list \<Rightarrow> (string \<times> nat) list \<Rightarrow> (string \<times> string) list \<Rightarrow> service list \<Rightarrow> service list" where
  "record_status names byUnit properties results =
     (case unit_index byUnit properties of
        None \<Rightarrow> results
      | Some i \<Rightarrow>
          if property properties ''LoadState'' \<noteq> ''loaded'' \<and> property properties ''LoadState'' \<noteq> ''masked'' then results
          else results[i := \<lparr>svID = names ! i, svExists = True, svActive = (property properties ''ActiveState'' = ''active''),
                 svEnabled = (property properties ''UnitFileState'' = ''enabled''),
                 svState = (if property properties ''SubState'' = '''' then ''unknown'' else property properties ''SubState'')\<rparr>])"

definition index_units :: "string list \<Rightarrow> (string \<times> nat) list" where
  "index_units names = fold (\<lambda>i. AList.update (names ! i @ ''.service'') i) [0..<length names] []"

definition show_command :: "string list \<Rightarrow> string list" where
  "show_command names =
     [systemctlCommand, ''show'', ''--property=Id'', ''--property=Names'', ''--property=LoadState'', ''--property=ActiveState'',
      ''--property=UnitFileState'', ''--property=SubState'', ''--''] @ map (\<lambda>n. n @ ''.service'') names"

definition statuses :: "executor \<Rightarrow> string list \<Rightarrow> history \<Rightarrow> service list \<times> history" where
  "statuses x names h =
     (let missing = map (\<lambda>n. \<lparr>svID = n, svExists = False, svActive = False, svEnabled = False, svState = ''not-found''\<rparr>) names in
      case run_command x (show_command names) h of (r, h1) \<Rightarrow>
        if \<not> succeeded r \<and> out r = '''' then (missing, h1)
        else (fold (record_status names (index_units names)) (parseSystemctlShow (out r)) missing, h1))"

definition list_units_command :: "string list" where
  "list_units_command =
     [systemctlCommand, ''list-unit-files'', ''--type=service'', ''--no-legend'', ''--no-pager'', ''php*-fpm.service'']"

definition php_units :: "string \<Rightarrow> string list" where
  "php_units text =
     concat (map (\<lambda>line. case words line of
                           [] \<Rightarrow> []
                         | unit # rest \<Rightarrow> if phpFPMUnitPattern unit then [trim_suffix unit ''.service''] else [])
               (lines_of text))"

definition allowedServices :: "services_host \<Rightarrow> history \<Rightarrow> string list \<times> history" where
  "allowedServices host h =
     (case run_command (services_exec host) list_units_command h of (r, h1) \<Rightarrow>
        (uniqueSorted (configuredServices (services_file host) @ php_units (out r)), h1))"

definition List_services :: "services_host \<Rightarrow> history \<Rightarrow> service list \<times> history" where
  "List_services host h = (case allowedServices host h of (names, h1) \<Rightarrow> statuses (services_exec host) names h1)"

definition Status_service :: "services_host \<Rightarrow> string \<Rightarrow> history \<Rightarrow> service \<times> history" where
  "Status_service host name h = (case statuses (services_exec host) [name] h of (ss, h1) \<Rightarrow> (ss ! 0, h1))"

definition restart_command :: "string \<Rightarrow> string list" where
  "restart_command name = [systemctlCommand, ''restart'', ''--'', name @ ''.service'']"

section \<open>The handler\<close>

definition service_json :: "service \<Rightarrow> json" where
  "service_json s =
     JObject [(''id'', JString (svID s)), (''exists'', JBool (svExists s)), (''active'', JBool (svActive s)),
       (''enabled'', JBool (svEnabled s)), (''state'', JString (svState s))]"

definition services_handle :: "services_host \<Rightarrow> history backend_handler" where
  "services_handle host command args h =
     (if command = '''' then (failure 2 ''MISSING_COMMAND'', h)
      else if command = ''list'' then
        (if args \<noteq> [] then (failure 2 ''INVALID_ARGUMENT_COUNT'', h)
         else case List_services host h of (items, h1) \<Rightarrow>
                (success [(''services'', JArray (map service_json items))], h1))
      else if command = ''status'' then
        (case args of
           [name] \<Rightarrow>
             (case validateService host name of
                Some rep \<Rightarrow> (rep, h)
              | None \<Rightarrow> (case Status_service host name h of (s, h1) \<Rightarrow> (success [(''service'', service_json s)], h1)))
         | _ \<Rightarrow> (failure 2 ''INVALID_ARGUMENT_COUNT'', h))
      else if command = ''restart'' then
        (case args of
           [name] \<Rightarrow>
             (case validateService host name of
                Some rep \<Rightarrow> (rep, h)
              | None \<Rightarrow>
                  (case Status_service host name h of (s, h1) \<Rightarrow>
                     if \<not> svExists s then (failure 5 ''SERVICE_NOT_FOUND'', h1)
                     else (case run_command (services_exec host) (restart_command name) h1 of (r, h2) \<Rightarrow>
                             if \<not> succeeded r then (failure 10 ''SERVICE_RESTART_FAILED'', h2)
                             else (success [(''service'', JString name), (''action'', JString ''restart''),
                                            (''result'', JString ''success'')], h2))))
         | _ \<Rightarrow> (failure 2 ''INVALID_ARGUMENT_COUNT'', h))
      else (failure 4 ''COMMAND_NOT_FOUND'', h))"

section \<open>The domain is confined\<close>

text \<open>
  What the domain may run: it asks systemctl for unit files and states; and it restarts the unit of the
  request when the request is a restart of an allowed service.
\<close>

definition services_permitted :: "services_host \<Rightarrow> string \<Rightarrow> string list \<Rightarrow> string list \<Rightarrow> bool" where
  "services_permitted host command args argv \<longleftrightarrow>
     argv = list_units_command \<or> (\<exists>names. argv = show_command names) \<or>
     command = ''restart'' \<and>
       (\<exists>name. args = [name] \<and> argv = restart_command name \<and> service_identifier name \<and> serviceAllowed host name)"

lemma permitted_reads [simp]:
  "services_permitted host command args list_units_command"
  "services_permitted host command args (show_command names)"
  by (auto simp: services_permitted_def)

lemma statuses_history [simp]: "snd (statuses x names h) = h @ [show_command names]"
  by (simp add: statuses_def run_command_def Let_def)

lemma Status_service_history [simp]: "snd (Status_service host name h) = h @ [show_command [name]]"
  by (simp add: Status_service_def split_beta)

lemma allowedServices_history [simp]: "snd (allowedServices host h) = h @ [list_units_command]"
  by (simp add: allowedServices_def run_command_def)

lemma List_services_history:
  "snd (List_services host h) = h @ [list_units_command, show_command (fst (allowedServices host h))]"
  by (simp add: List_services_def split_beta)

lemma validateService_None:
  "validateService host name = None \<longleftrightarrow> service_identifier name \<and> serviceAllowed host name"
  by (simp add: validateService_def)

lemma validateService_ok: "validateService host name = Some rep \<Longrightarrow> reply_ok rep"
  by (auto simp: validateService_def split: if_splits)

interpretation services: confined_handler "services_handle host" "services_permitted host" for host
proof unfold_locales
  fix command args h
  show "reply_ok (fst (services_handle host command args h))"
    by (auto simp: services_handle_def split_beta split: list.splits option.splits dest: validateService_ok)
  show "extends (services_permitted host command args) h (snd (services_handle host command args h))"
    by (auto simp: services_handle_def split_beta extends_def List_services_history services_permitted_def validateService_None
          split: list.splits option.splits)
qed

end
