(* ===== verification/Go_Path.thy ===== *)
theory Go_Path
  imports Go_Prelude
begin

text \<open>
  \<^verbatim>\<open>path/filepath\<close> on Unix, as far as the daemon uses it: \<^verbatim>\<open>IsAbs\<close>, \<^verbatim>\<open>Clean\<close>, \<^verbatim>\<open>Join\<close>, \<^verbatim>\<open>Base\<close>, \<^verbatim>\<open>Dir\<close> and \<^verbatim>\<open>Rel\<close>, over the
  elements of a path, and what it means for a path to be below another.
\<close>

definition IsAbs :: "string \<Rightarrow> bool" where
  "IsAbs p \<longleftrightarrow> has_prefix p ''/''"

text \<open>The elements that remain, the last first; \<open>rooted\<close> says whether \<^verbatim>\<open>..\<close> at the top disappears.\<close>

fun clean_elements :: "bool \<Rightarrow> string list \<Rightarrow> string list \<Rightarrow> string list" where
  "clean_elements rooted acc [] = rev acc"
| "clean_elements rooted acc (e # es) =
     (if e = '''' \<or> e = ''.'' then clean_elements rooted acc es
      else if e = ''..'' then
        (case acc of
           [] \<Rightarrow> clean_elements rooted (if rooted then [] else [''..'']) es
         | a # as \<Rightarrow> clean_elements rooted (if a = ''..'' then ''..'' # acc else as) es)
      else clean_elements rooted (e # acc) es)"

definition elements :: "string \<Rightarrow> string list" where
  "elements p = clean_elements (IsAbs p) [] (split_char CHR ''/'' p)"

definition path_text :: "bool \<Rightarrow> string list \<Rightarrow> string" where
  "path_text rooted es = (if rooted then ''/'' @ join ''/'' es else if es = [] then ''.'' else join ''/'' es)"

definition Clean :: "string \<Rightarrow> string" where
  "Clean p = path_text (IsAbs p) (elements p)"

definition Join2 :: "string \<Rightarrow> string \<Rightarrow> string" where
  "Join2 a b = (if a = '''' then (if b = '''' then '''' else Clean b) else if b = '''' then Clean a else Clean (a @ ''/'' @ b))"

definition Base :: "string \<Rightarrow> string" where
  "Base p =
     (if p = '''' then ''.''
      else let t = rev (dropWhile (\<lambda>c. c = CHR ''/'') (rev p)) in if t = '''' then ''/'' else last (split_char CHR ''/'' t))"

fun strip_common :: "string list \<Rightarrow> string list \<Rightarrow> string list \<times> string list" where
  "strip_common (b # bs) (t # ts) = (if b = t then strip_common bs ts else (b # bs, t # ts))"
| "strip_common bs ts = (bs, ts)"

definition Rel :: "string \<Rightarrow> string \<Rightarrow> string option" where
  "Rel base target =
     (if Clean base = Clean target then Some ''.''
      else if IsAbs base \<noteq> IsAbs target then None
      else case strip_common (elements base) (elements target) of (bs, ts) \<Rightarrow>
             if ''..'' \<in> set bs then None
             else Some (join ''/'' (replicate (length bs) ''..'' @ ts)))"

text \<open>The test the callers make on the result of \<^verbatim>\<open>Rel\<close>.\<close>

definition inside :: "string \<Rightarrow> bool" where
  "inside relative \<longleftrightarrow> relative \<noteq> ''.'' \<and> relative \<noteq> ''..'' \<and> \<not> has_prefix relative ''../''"

section \<open>Below a directory\<close>

definition below :: "string \<Rightarrow> string \<Rightarrow> bool" where
  "below root p \<longleftrightarrow> (\<exists>rest. rest \<noteq> [] \<and> elements p = elements root @ rest \<and> ''..'' \<notin> set rest)"

lemma strip_common_append:
  "strip_common bs ts = (bs', ts') \<Longrightarrow> \<exists>c. bs = c @ bs' \<and> ts = c @ ts'"
  by (induction bs ts rule: strip_common.induct) (auto split: if_splits intro: exI [of _ "_ # _"] | force)+

lemma clean_elements_plain:
  "'''' \<notin> set acc \<Longrightarrow> ''.'' \<notin> set acc \<Longrightarrow> (rooted \<longrightarrow> ''..'' \<notin> set acc) \<Longrightarrow>
     '''' \<notin> set (clean_elements rooted acc es) \<and> ''.'' \<notin> set (clean_elements rooted acc es) \<and>
     (rooted \<longrightarrow> ''..'' \<notin> set (clean_elements rooted acc es))"
  by (induction rooted acc es rule: clean_elements.induct) (auto split: list.splits)

lemma elements_plain:
  "'''' \<notin> set (elements p)" "''.'' \<notin> set (elements p)" "IsAbs p \<Longrightarrow> ''..'' \<notin> set (elements p)"
  using clean_elements_plain [of "[]" "IsAbs p" "split_char CHR ''/'' p"] by (auto simp: elements_def)

lemma clean_elements_subset: "set (clean_elements rooted acc es) \<subseteq> set acc \<union> set es \<union> {''..''}"
proof (induction es arbitrary: acc)
  case Nil
  then show ?case by (simp add: subset_insertI)
next
  case (Cons e es)
  have step: "set acc' \<subseteq> set acc \<union> {e, ''..''} \<Longrightarrow> set (clean_elements rooted acc' es) \<subseteq> set acc \<union> set (e # es) \<union> {''..''}" for acc'
    using Cons.IH [of acc'] by auto
  show ?case
  proof (cases acc)
    case Nil
    then show ?thesis using step [of "[]"] step [of "[''..'']"] step [of "[e]"] by auto
  next
    case (Cons a as)
    then show ?thesis using step [of acc] step [of as] step [of "''..'' # acc"] step [of "e # acc"] by auto
  qed
qed

lemma clean_elements_slash:
  "\<forall>e \<in> set es \<union> set acc. CHR ''/'' \<notin> set e \<Longrightarrow> \<forall>e \<in> set (clean_elements rooted acc es). CHR ''/'' \<notin> set e"
  using clean_elements_subset [of rooted acc es] by auto

lemma elements_slash: "e \<in> set (elements p) \<Longrightarrow> CHR ''/'' \<notin> set e"
  using clean_elements_slash [of "split_char CHR ''/'' p" "[]" "IsAbs p"]
  by (auto simp: elements_def dest: split_char_parts_no_sep)

lemma join_dots: "0 < n \<Longrightarrow> \<not> inside (join ''/'' (replicate n ''..'' @ ts))"
proof (cases n)
  case (Suc k)
  show ?thesis
  proof (cases "replicate k ''..'' @ ts")
    case Nil
    then show ?thesis by (simp add: Suc inside_def)
  next
    case (Cons e es)
    then show ?thesis by (simp add: Suc inside_def)
  qed
qed simp

text \<open>What the callers' test is for: only a path below the directory passes it.\<close>

lemma Rel_below:
  assumes "Rel root p = Some relative" "inside relative" "IsAbs root"
  shows "below root p"
proof -
  have abs: "IsAbs p" and ne: "Clean root \<noteq> Clean p"
    using assms by (auto simp: Rel_def inside_def split: if_splits)
  obtain bs ts where sc: "strip_common (elements root) (elements p) = (bs, ts)" by fastforce
  have rel: "relative = join ''/'' (replicate (length bs) ''..'' @ ts)"
    using assms(1) ne sc by (auto simp: Rel_def split: if_splits)
  have "bs = []" using join_dots [of "length bs" ts] assms(2) rel by (cases bs) auto
  moreover obtain c where "elements root = c @ bs" "elements p = c @ ts" using strip_common_append [OF sc] by blast
  ultimately have e: "elements p = elements root @ ts" by simp
  have "ts \<noteq> []"
    using e ne abs assms(3) by (auto simp: Clean_def)
  then show ?thesis using e elements_plain(3) [OF abs] by (auto simp: below_def)
qed

lemma Rel_IsAbs: "Rel root p = Some relative \<Longrightarrow> inside relative \<Longrightarrow> IsAbs root \<Longrightarrow> IsAbs p"
  by (auto simp: Rel_def inside_def split: if_splits)

section \<open>Joining a name\<close>

definition plain_name :: "string \<Rightarrow> bool" where
  "plain_name n \<longleftrightarrow> n \<noteq> '''' \<and> n \<noteq> ''.'' \<and> n \<noteq> ''..'' \<and> CHR ''/'' \<notin> set n"

lemma split_char_snoc: "c \<notin> set t \<Longrightarrow> split_char c (s @ c # t) = split_char c s @ [t]"
  by (induction s) (auto simp: split_char_no_sep split: list.splits)

lemma clean_elements_snoc:
  "plain_name n \<Longrightarrow> clean_elements rooted acc (es @ [n]) = clean_elements rooted acc es @ [n]"
  by (induction rooted acc es rule: clean_elements.induct) (auto simp: plain_name_def split: list.splits)

lemma elements_snoc: "plain_name n \<Longrightarrow> IsAbs p \<Longrightarrow> elements (p @ CHR ''/'' # n) = elements p @ [n]"
  by (cases p) (auto simp: elements_def IsAbs_def plain_name_def split_char_snoc clean_elements_snoc)

lemma clean_elements_id:
  "'''' \<notin> set es \<Longrightarrow> ''.'' \<notin> set es \<Longrightarrow> ''..'' \<notin> set es \<Longrightarrow> clean_elements rooted acc es = rev acc @ es"
  by (induction rooted acc es rule: clean_elements.induct) auto

lemma elements_path_text:
  assumes "'''' \<notin> set es" "''.'' \<notin> set es" "''..'' \<notin> set es" "\<forall>e \<in> set es. CHR ''/'' \<notin> set e"
  shows "elements (path_text True es) = es"
proof (cases "es = []")
  case True
  then show ?thesis by (simp add: elements_def path_text_def IsAbs_def)
next
  case False
  then have "split_char CHR ''/'' (join ''/'' es) = es" using assms(4) split_char_join by blast
  then show ?thesis using assms by (simp add: elements_def path_text_def IsAbs_def clean_elements_id)
qed

lemma elements_Clean: "IsAbs p \<Longrightarrow> elements (Clean p) = elements p"
  unfolding Clean_def using elements_plain [of p] elements_slash [of _ p] by (simp add: elements_path_text)

lemma below_Join2:
  assumes "below root p" "IsAbs p" "plain_name n"
  shows "below root (Join2 p n)"
proof -
  have ne: "p \<noteq> ''''" "n \<noteq> ''''" using assms(2,3) by (auto simp: IsAbs_def plain_name_def)
  have "IsAbs (p @ CHR ''/'' # n)" using assms(2) ne by (cases p) (auto simp: IsAbs_def)
  then have "elements (Join2 p n) = elements p @ [n]"
    using ne assms(2,3) by (simp add: Join2_def elements_Clean elements_snoc)
  then show ?thesis using assms(1,3) by (auto simp: below_def plain_name_def)
qed

end
