(* ===== verification/Domain_Logs.thy ===== *)
theory Domain_Logs
  imports Backend_System Go_Path
begin

text \<open>
  The logs domain of the daemon (\<^verbatim>\<open>internal/domain/logs\<close>): the policy that says which directories and files
  below \<^verbatim>\<open>/var/log\<close> are offered, the list of the logs, and the last lines of one of them.

  \<open>logs_host\<close> is the file system as the domain sees it: links resolved (\<open>None\<close> for an error), the entries of a
  directory, which paths are regular files, the bytes of a file, and the executor.
\<close>

record dir_entry =
  entry_name :: string
  entry_symlink :: bool
  entry_regular :: bool

record logs_host =
  policy_file :: "string option"
  eval_symlinks :: "string \<Rightarrow> string option"
  read_dir :: "string \<Rightarrow> dir_entry list option"
  lstat_regular :: "string \<Rightarrow> bool"
  read_file :: "string \<Rightarrow> string option"
  logs_exec :: executor

section \<open>Policy\<close>

abbreviation logsRoot :: string where "logsRoot \<equiv> ''/var/log''"

definition defaultPolicy :: "string list \<times> string list" where
  "defaultPolicy =
     ([''/var/log/apache2'', ''/var/log/httpd'', ''/var/log/mysql'', ''/var/log/mariadb'', ''/var/log/php'', ''/var/log/nginx''],
      [''/var/log/fail2ban.log''])"

definition safeConfiguredPath :: "string \<Rightarrow> bool" where
  "safeConfiguredPath p \<longleftrightarrow>
     IsAbs p \<and> Clean p = p \<and> p \<noteq> logsRoot \<and> (case Rel logsRoot p of None \<Rightarrow> False | Some relative \<Rightarrow> inside relative)"

fun policy_lines :: "string list \<Rightarrow> string list \<Rightarrow> string list \<Rightarrow> string list \<times> string list" where
  "policy_lines [] directories files = (directories, files)"
| "policy_lines (raw # rest) directories files =
     (case cut_char CHR ''='' (without_comment raw) of
        None \<Rightarrow> policy_lines rest directories files
      | Some (kind, v) \<Rightarrow>
          let path = trim_space v in
          if \<not> safeConfiguredPath path then policy_lines rest directories files
          else if trim_space kind = ''directory'' then policy_lines rest (directories @ [path]) files
          else if trim_space kind = ''file'' then policy_lines rest directories (files @ [path])
          else policy_lines rest directories files)"

definition loadPolicy :: "string option \<Rightarrow> string list \<times> string list" where
  "loadPolicy content =
     (case content of
        None \<Rightarrow> defaultPolicy
      | Some text \<Rightarrow>
          (case policy_lines (lines_of text) [] [] of (directories, files) \<Rightarrow> (uniqueSorted directories, uniqueSorted files)))"

definition safeResolvedPath :: "logs_host \<Rightarrow> string \<Rightarrow> string \<Rightarrow> string option" where
  "safeResolvedPath fs root path =
     (case eval_symlinks fs path of
        None \<Rightarrow> None
      | Some resolved \<Rightarrow>
          if resolved \<noteq> Clean path then None
          else (case Rel root resolved of
                  None \<Rightarrow> None
                | Some relative \<Rightarrow> if inside relative then Some resolved else None))"

section \<open>The logs on offer\<close>

definition log_char :: "char \<Rightarrow> bool" where
  "log_char c \<longleftrightarrow> is_alnum c \<or> c \<in> set ''._/-''"

definition validIdentifier :: "string \<Rightarrow> bool" where
  "validIdentifier s \<longleftrightarrow>
     s \<noteq> '''' \<and> \<not> has_prefix s ''/'' \<and> \<not> contains s ''..'' \<and> \<not> contains s ''//'' \<and> list_all log_char s"

definition digitsOnly :: "string \<Rightarrow> bool" where
  "digitsOnly s \<longleftrightarrow> s \<noteq> '''' \<and> list_all is_digit s"

text \<open>\<^verbatim>\<open>\.[0-9]+$\<close>\<close>

definition numberedRotationPattern :: "string \<Rightarrow> bool" where
  "numberedRotationPattern s \<longleftrightarrow>
     (let tail_digits = takeWhile is_digit (rev s); rest = dropWhile is_digit (rev s)
      in tail_digits \<noteq> [] \<and> rest \<noteq> [] \<and> hd rest = CHR ''.'')"

definition excludedFilename :: "string \<Rightarrow> bool" where
  "excludedFilename name \<longleftrightarrow>
     (\<exists>suffix \<in> set [''.gz'', ''.xz'', ''.zst'', ''.zip'', ''.bz2'', ''.old'', ''.tmp'', ''.temp'', ''.swp'']. has_suffix name suffix) \<or>
     numberedRotationPattern name \<or>
     (\<exists>kind \<in> set [''.gz'', ''.xz'', ''.zst'', ''.zip'', ''.bz2'']. has_suffix name kind \<and> numberedRotationPattern (trim_suffix name kind))"

definition directory_logs :: "logs_host \<Rightarrow> string \<Rightarrow> (string \<times> string) list" where
  "directory_logs fs directory =
     (case safeResolvedPath fs logsRoot directory of
        None \<Rightarrow> []
      | Some resolved \<Rightarrow>
          (case read_dir fs resolved of
             None \<Rightarrow> []
           | Some es \<Rightarrow>
               concat (map (\<lambda>e.
                 let ident = Base resolved @ ''/'' @ entry_name e in
                 if entry_symlink e \<or> excludedFilename (entry_name e) \<or> \<not> entry_regular e \<or> \<not> validIdentifier ident then []
                 else [(ident, Join2 resolved (entry_name e))]) es)))"

definition file_logs :: "logs_host \<Rightarrow> string \<Rightarrow> (string \<times> string) list" where
  "file_logs fs path =
     (case safeResolvedPath fs logsRoot path of
        None \<Rightarrow> []
      | Some resolved \<Rightarrow>
          if \<not> lstat_regular fs resolved \<or> excludedFilename (Base path) \<or> \<not> validIdentifier (Base path) then []
          else [(Base path, resolved)])"

text \<open>
  \<^verbatim>\<open>sort.Slice\<close> by identifier. It leaves open how it orders logs of the same identifier (two directories
  with the same last element); here they stay in their order.
\<close>

definition Logs :: "logs_host \<Rightarrow> string list \<times> string list \<Rightarrow> (string \<times> string) list" where
  "Logs fs policy =
     (case policy of (directories, files) \<Rightarrow>
        sort_key (\<lambda>l. map byte_val (fst l))
          (concat (map (directory_logs fs) directories) @ concat (map (file_logs fs) files)))"

section \<open>The end of a log\<close>

abbreviation tailCommand :: string where "tailCommand \<equiv> ''/usr/bin/tail''"

definition countLines :: "string \<Rightarrow> nat" where
  "countLines text =
     length (filter (\<lambda>c. c = CHR 0x0A) text) + (if text \<noteq> [] \<and> last text \<noteq> CHR 0x0A then 1 else 0)"

definition trim_right_newlines :: "string \<Rightarrow> string" where
  "trim_right_newlines s = rev (dropWhile (\<lambda>c. c = CHR 0x0A) (rev s))"

datatype log_error = LogNotFound | LogNotReadable | LogReadFailed

definition tail_command :: "int \<Rightarrow> string \<Rightarrow> string list" where
  "tail_command n path = [tailCommand, ''-n'', itoa n, ''--'', path]"

definition Tail ::
    "logs_host \<Rightarrow> string list \<times> string list \<Rightarrow> string \<Rightarrow> int \<Rightarrow> history \<Rightarrow> (log_error + string list \<times> nat) \<times> history" where
  "Tail fs policy ident n h =
     (case find (\<lambda>l. fst l = ident) (Logs fs policy) of
        None \<Rightarrow> (Inl LogNotFound, h)
      | Some (_, path) \<Rightarrow>
          if path = '''' then (Inl LogNotFound, h)
          else (case read_file fs path of
                  None \<Rightarrow> (Inl LogNotReadable, h)
                | Some text \<Rightarrow>
                    (case run_command (logs_exec fs) (tail_command n path) h of (r, h1) \<Rightarrow>
                       if \<not> succeeded r then (Inl LogReadFailed, h1)
                       else let trimmed = trim_right_newlines (out r) in
                            (Inr (if trimmed = '''' then [] else lines_of trimmed, countLines text), h1))))"

definition logs_handle :: "logs_host \<Rightarrow> string list \<times> string list \<Rightarrow> history backend_handler" where
  "logs_handle fs policy command args h =
     (if command = '''' then (failure 2 ''MISSING_COMMAND'', h)
      else if command = ''list'' then
        (if args \<noteq> [] then (failure 2 ''INVALID_ARGUMENT_COUNT'', h)
         else (success [(''logs'', JArray (map (\<lambda>l. JObject [(''id'', JString (fst l))]) (Logs fs policy)))], h))
      else if command = ''tail'' then
        (case args of
           [ident, count_text] \<Rightarrow>
             if \<not> validIdentifier ident then (failure 2 ''INVALID_LOG_IDENTIFIER'', h)
             else (case atoi count_text of (n, ok) \<Rightarrow>
               if \<not> ok \<or> n < 1 \<or> 5000 < n \<or> \<not> digitsOnly count_text then (failure 2 ''INVALID_LINE_COUNT'', h)
               else (case Tail fs policy ident n h of
                       (Inl LogNotFound, h1) \<Rightarrow> (failure 5 ''LOG_NOT_FOUND'', h1)
                     | (Inl LogNotReadable, h1) \<Rightarrow> (failure 7 ''LOG_NOT_READABLE'', h1)
                     | (Inl LogReadFailed, h1) \<Rightarrow> (failure 10 ''LOG_READ_FAILED'', h1)
                     | (Inr (content, all_lines), h1) \<Rightarrow>
                         (success [(''id'', JString ident), (''requested_lines'', JInt n), (''total_lines'', JInt (int all_lines)),
                                   (''lines'', JArray (map JString content))], h1)))
         | _ \<Rightarrow> (failure 2 ''INVALID_ARGUMENT_COUNT'', h))
      else (failure 4 ''COMMAND_NOT_FOUND'', h))"

section \<open>The domain is confined\<close>

text \<open>It runs \<^verbatim>\<open>tail\<close> for at most 5000 lines of a log it offers.\<close>

definition logs_permitted :: "logs_host \<Rightarrow> string list \<times> string list \<Rightarrow> string \<Rightarrow> string list \<Rightarrow> string list \<Rightarrow> bool" where
  "logs_permitted fs policy command args argv \<longleftrightarrow>
     command = ''tail'' \<and>
     (\<exists>ident path n. args ! 0 = ident \<and> (ident, path) \<in> set (Logs fs policy) \<and> 1 \<le> n \<and> n \<le> 5000 \<and> argv = tail_command n path)"

lemma find_Some_set: "find P xs = Some x \<Longrightarrow> P x \<and> x \<in> set xs"
  by (auto simp: find_Some_iff)

lemma Tail_confined:
  assumes "Tail fs policy ident n h = (res, h')" "1 \<le> n" "n \<le> 5000"
  shows "extends (logs_permitted fs policy ''tail'' (ident # rest)) h h'"
  using assms
  by (auto simp: Tail_def run_command_def logs_permitted_def Let_def split: option.splits if_splits prod.splits dest!: find_Some_set)
     blast+

interpretation logs: confined_handler "logs_handle fs policy" "logs_permitted fs policy" for fs policy
proof unfold_locales
  fix command args h
  show "reply_ok (fst (logs_handle fs policy command args h))"
    by (auto simp: logs_handle_def split: list.splits prod.splits sum.splits log_error.splits)
  show "extends (logs_permitted fs policy command args) h (snd (logs_handle fs policy command args h))"
    by (auto simp: logs_handle_def split: list.splits prod.splits sum.splits log_error.splits intro: Tail_confined)
qed

section \<open>Nothing outside the log directory\<close>

lemma safeResolvedPath_below:
  assumes "safeResolvedPath fs logsRoot path = Some resolved"
  shows "below logsRoot resolved \<and> resolved = Clean path \<and> IsAbs resolved"
proof -
  from assms obtain relative where "Rel logsRoot resolved = Some relative" "inside relative" "resolved = Clean path"
    by (auto simp: safeResolvedPath_def split: option.splits if_splits)
  moreover have "IsAbs logsRoot" by (simp add: IsAbs_def)
  ultimately show ?thesis using Rel_below Rel_IsAbs by blast
qed

text \<open>The entries of a directory are names: not empty, not \<^verbatim>\<open>.\<close> or \<^verbatim>\<open>..\<close>, and without a slash.\<close>

definition plain_names :: "logs_host \<Rightarrow> bool" where
  "plain_names fs \<longleftrightarrow> (\<forall>dir es. read_dir fs dir = Some es \<longrightarrow> list_all (\<lambda>e. plain_name (entry_name e)) es)"

lemma directory_logs_below:
  assumes "plain_names fs" "(ident, path) \<in> set (directory_logs fs directory)"
  shows "below logsRoot path"
proof -
  from assms(2) obtain resolved where r: "safeResolvedPath fs logsRoot directory = Some resolved"
    by (cases "safeResolvedPath fs logsRoot directory") (auto simp: directory_logs_def)
  from assms(2) r obtain es e where es: "read_dir fs resolved = Some es" "e \<in> set es"
      and path: "path = Join2 resolved (entry_name e)"
    by (cases "read_dir fs resolved") (auto simp: directory_logs_def Let_def split: if_splits)
  have "plain_name (entry_name e)" using assms(1) es by (auto simp: plain_names_def list_all_iff)
  then show ?thesis using safeResolvedPath_below [OF r] path by (auto intro: below_Join2)
qed

lemma file_logs_below: "(ident, path) \<in> set (file_logs fs f) \<Longrightarrow> below logsRoot path"
  by (cases "safeResolvedPath fs logsRoot f")
     (auto simp: file_logs_def split: if_splits dest: safeResolvedPath_below)

lemma Logs_below: "plain_names fs \<Longrightarrow> (ident, path) \<in> set (Logs fs policy) \<Longrightarrow> below logsRoot path"
  by (cases policy) (auto simp: Logs_def intro: directory_logs_below file_logs_below)

text \<open>
  C15: the logs domain reads logs only. Whatever requests it gets, and whatever its policy file says,
  every command it ever runs is \<^verbatim>\<open>tail\<close> for between 1 and 5000 lines of a file below \<^verbatim>\<open>/var/log\<close> that it offers.
\<close>

theorem logs_stay_below_root:
  assumes "plain_names fs" "argv \<in> set (serve_requests (logs_handle fs (loadPolicy (policy_file fs))) reqs [])"
  shows "\<exists>ident path n. argv = tail_command n path \<and> 1 \<le> n \<and> n \<le> 5000 \<and> below logsRoot path \<and>
    (ident, path) \<in> set (Logs fs (loadPolicy (policy_file fs)))"
proof -
  let ?policy = "loadPolicy (policy_file fs)"
  obtain command args where "logs_permitted fs ?policy command args argv"
    using logs.command_permitted [OF assms(2)] by blast
  then obtain ident path n where "(ident, path) \<in> set (Logs fs ?policy)" "1 \<le> n" "n \<le> 5000" "argv = tail_command n path"
    by (auto simp: logs_permitted_def)
  then show ?thesis using Logs_below [OF assms(1)] by blast
qed

definition sample_logs :: logs_host where
  "sample_logs =
     \<lparr>policy_file = Some (''file = /var/log/../../etc/shadow'' @ [CHR 0x0A] @ ''directory = /var/log/nginx # the proxy''), eval_symlinks = Some,
      read_dir = (\<lambda>d. if d = ''/var/log/nginx'' then Some [\<lparr>entry_name = ''access.log'', entry_symlink = False, entry_regular = True\<rparr>,
        \<lparr>entry_name = ''access.log.1'', entry_symlink = False, entry_regular = True\<rparr>] else None),
      lstat_regular = (\<lambda>_. True), read_file = (\<lambda>_. Some ''x''), logs_exec = (\<lambda>_ _. \<lparr>out = ''x'', err = '''', status = 0\<rparr>)\<rparr>"

lemma sample_logs_run:
  "serve_requests (logs_handle sample_logs (loadPolicy (policy_file sample_logs)))
     [(''tail'', [''nginx/access.log'', ''20'']), (''tail'', [''shadow'', ''20'']), (''tail'', [''nginx/access.log.1'', ''20''])] [] =
   [tail_command 20 ''/var/log/nginx/access.log'']"
  by code_simp

theorem logs_stay_below_root_witness: "below logsRoot ''/var/log/nginx/access.log''"
proof -
  have "plain_names sample_logs"
    by (simp add: plain_names_def sample_logs_def plain_name_def)
  moreover have "tail_command 20 ''/var/log/nginx/access.log'' \<in> set (serve_requests
      (logs_handle sample_logs (loadPolicy (policy_file sample_logs)))
      [(''tail'', [''nginx/access.log'', ''20'']), (''tail'', [''shadow'', ''20'']), (''tail'', [''nginx/access.log.1'', ''20''])] [])"
    unfolding sample_logs_run by simp
  ultimately obtain n path where "tail_command 20 ''/var/log/nginx/access.log'' = tail_command n path" "below logsRoot path"
    using logs_stay_below_root by meson
  then show ?thesis by (simp add: tail_command_def)
qed

end
