(* ===== verification/Domain_Crontab.thy ===== *)
theory Domain_Crontab
  imports Backend_System Go_Base_Encoding Go_Crypto
begin

text \<open>
  The text of a crontab as the cron domain reads and writes it (\<^verbatim>\<open>internal/domain/cron\<close>: \<^verbatim>\<open>jobs.go\<close> and
  \<^verbatim>\<open>manage.go\<close>): markers of the tasks AegisAdmin manages, job lines, the records of a user's crontab, and
  the edits that create, change, suspend, resume and delete a task.
\<close>

section \<open>Lines\<close>

text \<open>
  \<^verbatim>\<open>(\S+)\s+\<close> repeated \<open>n\<close> times at the start of \<open>s\<close>: the words, the last run of white space, and the rest.
\<close>

fun re_words :: "nat \<Rightarrow> string \<Rightarrow> (string list \<times> string \<times> string) option" where
  "re_words 0 s = Some ([], [], s)"
| "re_words (Suc n) s =
     (let w = takeWhile (\<lambda>c. \<not> re_space c) s; r = dropWhile (\<lambda>c. \<not> re_space c) s;
          gap = takeWhile re_space r; t = dropWhile re_space r
      in if w = [] \<or> gap = [] then None
         else if n = 0 then Some ([w], gap, t)
         else case re_words n t of None \<Rightarrow> None | Some (ws, last_gap, rest) \<Rightarrow> Some (w # ws, last_gap, rest))"

text \<open>
  \<^verbatim>\<open>^\s*(\S+)\s+...(\S+)\s+(.+)$\<close> with \<open>n\<close> words before the last group. When nothing follows the white space,
  the last group takes its last character.
\<close>

definition re_line :: "nat \<Rightarrow> string \<Rightarrow> (string list \<times> string) option" where
  "re_line n s =
     (case re_words n (dropWhile re_space s) of
        None \<Rightarrow> None
      | Some (ws, gap, rest) \<Rightarrow>
          if rest \<noteq> [] then (if CHR 0x0A \<in> set rest then None else Some (ws, rest))
          else if 2 \<le> length gap \<and> last gap \<noteq> CHR 0x0A then Some (ws, [last gap])
          else None)"

definition name_char :: "char \<Rightarrow> bool" where
  "name_char c \<longleftrightarrow> is_alnum c \<or> c = CHR ''_''"

text \<open>\<^verbatim>\<open>^[A-Za-z_][A-Za-z0-9_]*\s*=\<close>\<close>

definition environment :: "string \<Rightarrow> bool" where
  "environment s \<longleftrightarrow>
     (case s of
        [] \<Rightarrow> False
      | c # cs \<Rightarrow>
          (is_lower c \<or> is_upper c \<or> c = CHR ''_'') \<and>
          (case dropWhile re_space (dropWhile name_char cs) of [] \<Rightarrow> False | x # xs \<Rightarrow> x = CHR ''=''))"

definition macros :: "string list" where
  "macros = [''reboot'', ''yearly'', ''annually'', ''monthly'', ''weekly'', ''daily'', ''midnight'', ''hourly'']"

text \<open>\<^verbatim>\<open>^@(reboot|...)\b\<close>, and the same to the end.\<close>

definition macroLine :: "string \<Rightarrow> bool" where
  "macroLine s \<longleftrightarrow>
     (\<exists>m \<in> set macros. has_prefix s (CHR ''@'' # m) \<and>
        (case drop (Suc (length m)) s of [] \<Rightarrow> True | c # cs \<Rightarrow> \<not> name_char c))"

definition macroExact :: "string \<Rightarrow> bool" where
  "macroExact s \<longleftrightarrow> (\<exists>m \<in> set macros. s = CHR ''@'' # m)"

text \<open>Schedule, user and command of a line; \<open>implicitUser\<close> is empty in a system crontab.\<close>

definition parseJobLine :: "string \<Rightarrow> string \<Rightarrow> (string \<times> string \<times> string) option" where
  "parseJobLine line implicitUser =
     (if has_prefix (trim_space line) ''@'' then
        (if \<not> macroLine (trim_space line) then None
         else if implicitUser = '''' then
           (case re_line 2 line of None \<Rightarrow> None | Some (ws, command) \<Rightarrow> Some (ws ! 0, ws ! 1, command))
         else (case re_line 1 line of None \<Rightarrow> None | Some (ws, command) \<Rightarrow> Some (ws ! 0, implicitUser, command)))
      else if implicitUser = '''' then
        (case re_line 6 line of None \<Rightarrow> None | Some (ws, command) \<Rightarrow> Some (join '' '' (take 5 ws), ws ! 5, command))
      else (case re_line 5 line of None \<Rightarrow> None | Some (ws, command) \<Rightarrow> Some (join '' '' ws, implicitUser, command)))"

definition normalizeSchedule :: "string \<Rightarrow> string" where
  "normalizeSchedule v = join '' '' (words v)"

definition line_break :: "string \<Rightarrow> bool" where
  "line_break s \<longleftrightarrow> CHR 0x00 \<in> set s \<or> CHR 0x0D \<in> set s \<or> CHR 0x0A \<in> set s"

definition validTaskInput :: "string \<Rightarrow> string \<Rightarrow> bool" where
  "validTaskInput schedule command \<longleftrightarrow>
     \<not> (schedule = '''' \<or> 128 < rune_count schedule \<or> line_break schedule \<or> trim_space command = '''' \<or>
        8192 < rune_count command \<or> line_break command) \<and>
     (let normalized = normalizeSchedule schedule
      in if has_prefix normalized ''@'' then macroExact normalized else length (words normalized) = 5)"

section \<open>Identifiers and markers\<close>

definition hex_digit :: "char \<Rightarrow> bool" where
  "hex_digit c \<longleftrightarrow> is_digit c \<or> in_range CHR ''a'' CHR ''f'' c"

definition managedID :: "string \<Rightarrow> bool" where
  "managedID s \<longleftrightarrow>
     (let parts = split_char CHR ''-'' s
      in map length parts = [8, 4, 4, 4, 12] \<and> list_all (list_all hex_digit) parts \<and>
         in_range CHR ''1'' CHR ''5'' (hd (parts ! 2)) \<and> hd (parts ! 3) \<in> set ''89ab'')"

definition legacyID :: "string \<Rightarrow> bool" where
  "legacyID s \<longleftrightarrow> has_prefix s ''legacy-'' \<and> length (drop 7 s) = 32 \<and> list_all hex_digit (drop 7 s)"

definition taskIdentifier :: "string \<Rightarrow> string list \<Rightarrow> string" where
  "taskIdentifier prefix parts = prefix @ ''-'' @ hex_encode (take 16 (sha256 (join [CHR 0x00] parts)))"

definition legacyTaskIdentifier :: "string \<Rightarrow> string \<Rightarrow> string \<Rightarrow> nat \<Rightarrow> string" where
  "legacyTaskIdentifier owner schedule command occurrence =
     taskIdentifier ''legacy'' [owner, normalizeSchedule schedule, trim_space command, decimal occurrence]"

definition marker_prefix :: string where
  "marker_prefix = ''# AEGISADMIN-TASK:''"

definition activeMarker :: "string \<Rightarrow> string" where
  "activeMarker k = marker_prefix @ '' '' @ k @ '' ACTIVE''"

definition suspendedMarker :: "string \<Rightarrow> string \<Rightarrow> string" where
  "suspendedMarker k line = marker_prefix @ '' '' @ k @ '' SUSPENDED '' @ base64_encode base64_url line"

definition payload_char :: "char \<Rightarrow> bool" where
  "payload_char c \<longleftrightarrow> is_alnum c \<or> c = CHR ''_'' \<or> c = CHR ''-''"

text \<open>\<^verbatim>\<open>managedMarker\<close>: the identifier, whether the task is suspended, and the payload, which may be missing.\<close>

definition managedMarker :: "string \<Rightarrow> (string \<times> bool \<times> string) option" where
  "managedMarker line =
     (if \<not> has_prefix line (marker_prefix @ '' '') then None
      else let rest = drop 19 line; k = take 36 rest; state = drop 36 rest in
        if \<not> managedID k then None
        else if state = '' ACTIVE'' then Some (k, False, '''')
        else if state = '' SUSPENDED'' then Some (k, True, '''')
        else if has_prefix state '' ACTIVE '' \<and> drop 8 state \<noteq> '''' \<and> list_all payload_char (drop 8 state)
        then Some (k, False, drop 8 state)
        else if has_prefix state '' SUSPENDED '' \<and> drop 11 state \<noteq> '''' \<and> list_all payload_char (drop 11 state)
        then Some (k, True, drop 11 state)
        else None)"

text \<open>\<open>newUUID\<close> from 16 random bytes.\<close>

definition version_byte :: "char \<Rightarrow> char" where
  "version_byte c = char_of (byte_val c mod 16 + 0x40)"

definition variant_byte :: "char \<Rightarrow> char" where
  "variant_byte c = char_of (byte_val c mod 64 + 0x80)"

definition newUUID :: "bytes option \<Rightarrow> string option" where
  "newUUID random_bytes =
     (case random_bytes of
        None \<Rightarrow> None
      | Some bs \<Rightarrow>
          let v = bs[6 := version_byte (bs ! 6), 8 := variant_byte (bs ! 8)]
          in Some (hex_encode (take 4 v) @ ''-'' @ hex_encode (take 2 (drop 4 v)) @ ''-'' @ hex_encode (take 2 (drop 6 v)) @
                   ''-'' @ hex_encode (take 2 (drop 8 v)) @ ''-'' @ hex_encode (drop 10 v)))"

section \<open>Records\<close>

record cron_record =
  rcID :: string
  rcLine :: string
  rcSchedule :: string
  rcCommand :: string
  rcStart :: nat
  rcEnd :: nat
  rcEnabled :: bool
  rcManaged :: bool

text \<open>The lines of a crontab.\<close>

fun replace_crlf :: "string \<Rightarrow> string" where
  "replace_crlf [] = []"
| "replace_crlf [c] = [c]"
| "replace_crlf (c # c' # cs) =
     (if c = CHR 0x0D \<and> c' = CHR 0x0A then CHR 0x0A # replace_crlf cs else c # replace_crlf (c' # cs))"

definition splitContent :: "string \<Rightarrow> string list" where
  "splitContent content =
     (let text = trim_suffix (replace_crlf content) [CHR 0x0A] in if text = '''' then [] else lines_of text)"

text \<open>A line the parser passes over: blank, a comment, or an assignment.\<close>

definition skipped_line :: "string \<Rightarrow> bool" where
  "skipped_line line \<longleftrightarrow> line = '''' \<or> has_prefix line ''#'' \<or> environment line"

definition suspended_record :: "string \<Rightarrow> nat \<Rightarrow> string \<Rightarrow> string \<Rightarrow> cron_record option" where
  "suspended_record owner index k payload =
     (case base64_decode False base64_url payload of
        None \<Rightarrow> None
      | Some decoded \<Rightarrow>
          if decoded = '''' \<or> CHR 0x0D \<in> set decoded \<or> CHR 0x0A \<in> set decoded then None
          else (case parseJobLine decoded owner of
                  None \<Rightarrow> None
                | Some (schedule, _, command) \<Rightarrow>
                    Some \<lparr>rcID = k, rcLine = decoded, rcSchedule = schedule, rcCommand = command, rcStart = index, rcEnd = index,
                          rcEnabled = False, rcManaged = True\<rparr>))"

definition active_record :: "string \<Rightarrow> nat \<Rightarrow> string \<Rightarrow> string \<Rightarrow> cron_record option" where
  "active_record owner index k taskLine =
     (if skipped_line (trim_space taskLine) then None
      else case parseJobLine taskLine owner of
             None \<Rightarrow> None
           | Some (schedule, _, command) \<Rightarrow>
               Some \<lparr>rcID = k, rcLine = taskLine, rcSchedule = schedule, rcCommand = command, rcStart = index,
                     rcEnd = index + 1, rcEnabled = True, rcManaged = True\<rparr>)"

type_synonym occurrences = "(string \<times> nat) list"

definition occurred :: "occurrences \<Rightarrow> string \<Rightarrow> nat" where
  "occurred occ key = (case map_of occ key of None \<Rightarrow> 0 | Some n \<Rightarrow> n)"

definition legacy_record :: "string \<Rightarrow> nat \<Rightarrow> string \<Rightarrow> occurrences \<Rightarrow> (cron_record \<times> occurrences) option" where
  "legacy_record owner index raw occ =
     (case parseJobLine raw owner of
        None \<Rightarrow> None
      | Some (schedule, _, command) \<Rightarrow>
          let key = normalizeSchedule schedule @ [CHR 0x00] @ trim_space command;
              occ' = AList.update key (Suc (occurred occ key)) occ
          in Some (\<lparr>rcID = legacyTaskIdentifier owner schedule command (Suc (occurred occ key)), rcLine = raw,
                     rcSchedule = schedule, rcCommand = command, rcStart = index, rcEnd = index, rcEnabled = True,
                     rcManaged = False\<rparr>, occ'))"

text \<open>
  One pass of the loop: the record at a line, if it has one, and how many lines after it belong to it.
\<close>

definition record_at ::
  "string \<Rightarrow> nat \<Rightarrow> occurrences \<Rightarrow> string \<Rightarrow> string list \<Rightarrow> (cron_record list \<times> occurrences \<times> nat) option" where
  "record_at owner index occ raw rest =
     (case managedMarker (trim_space raw) of
        Some (k, True, payload) \<Rightarrow>
          (case suspended_record owner index k payload of None \<Rightarrow> None | Some r \<Rightarrow> Some ([r], occ, 0))
      | Some (k, False, payload) \<Rightarrow>
          (case rest of
             [] \<Rightarrow> None
           | taskLine # rest' \<Rightarrow>
               if payload \<noteq> '''' then None
               else (case active_record owner index k taskLine of None \<Rightarrow> None | Some r \<Rightarrow> Some ([r], occ, 1)))
      | None \<Rightarrow>
          if has_prefix (trim_space raw) marker_prefix then None
          else if skipped_line (trim_space raw) then Some ([], occ, 0)
          else (case legacy_record owner index raw occ of None \<Rightarrow> None | Some (r, occ') \<Rightarrow> Some ([r], occ', 0)))"

function parse_records :: "string \<Rightarrow> nat \<Rightarrow> occurrences \<Rightarrow> string list \<Rightarrow> (cron_record list \<times> occurrences) option" where
  "parse_records owner index occ [] = Some ([], occ)"
| "parse_records owner index occ (raw # rest) =
     (case record_at owner index occ raw rest of
        None \<Rightarrow> None
      | Some (new, occ', n) \<Rightarrow>
          map_option (apfst (append new)) (parse_records owner (index + 1 + n) occ' (drop n rest)))"
  by pat_completeness auto
termination
  by (relation "measure (\<lambda>(owner, index, occ, ls). length ls)") auto

definition parseRecords :: "string \<Rightarrow> string list \<Rightarrow> cron_record list option" where
  "parseRecords owner ls = map_option fst (parse_records owner 0 [] ls)"

definition findRecord :: "cron_record list \<Rightarrow> string \<Rightarrow> cron_record option" where
  "findRecord records k = (case filter (\<lambda>r. rcID r = k) records of [r] \<Rightarrow> Some r | _ \<Rightarrow> None)"

definition replace_lines :: "string list \<Rightarrow> nat \<Rightarrow> nat \<Rightarrow> string list \<Rightarrow> string list" where
  "replace_lines ls start stop replacement = take start ls @ replacement @ drop (stop + 1) ls"

section \<open>Edits\<close>

definition job_line :: "string \<Rightarrow> string \<Rightarrow> string" where
  "job_line schedule command = normalizeSchedule schedule @ '' '' @ trim_space command"

text \<open>The lines after an action on the task \<open>r\<close>, whose identifier becomes \<open>k\<close>; \<open>None\<close> when its state forbids it.\<close>

definition edited :: "string \<Rightarrow> string \<Rightarrow> string \<Rightarrow> string \<Rightarrow> cron_record \<Rightarrow> (string list \<times> bool) option" where
  "edited action k schedule command r =
     (if action = ''update'' then
        (let line = job_line schedule command
         in Some (if rcEnabled r then [activeMarker k, line] else [suspendedMarker k line], rcEnabled r))
      else if action = ''suspend'' then
        (if rcEnabled r then Some ([suspendedMarker k (rcLine r)], False) else None)
      else if action = ''resume'' then
        (if rcEnabled r then None else Some ([activeMarker k, rcLine r], True))
      else Some ([], False))"

lemma words_normalize: "words (normalizeSchedule v) = words v"
  by (simp add: normalizeSchedule_def words_join words_ok)

section \<open>Lines the domain writes\<close>

lemma re_words_join:
  assumes "list_all word_ok ws" "ws \<noteq> []" "t \<noteq> []" "\<not> re_space (hd t)"
  shows "re_words (length ws) (join '' '' ws @ CHR '' '' # t) = Some (ws, '' '', t)"
  using assms(1,2)
proof (induction ws)
  case Nil
  then show ?case by simp
next
  case (Cons w ws)
  have w: "w \<noteq> []" "\<forall>c \<in> set w. \<not> re_space c" using Cons.prems by (auto simp: word_ok_def list_all_iff)
  have sp: "re_space CHR '' ''" by (simp add: re_space_def)
  have tk: "takeWhile (\<lambda>c. \<not> re_space c) (w @ CHR '' '' # u) = w"
      "dropWhile (\<lambda>c. \<not> re_space c) (w @ CHR '' '' # u) = CHR '' '' # u" for u
    using w sp by (simp_all add: takeWhile_append dropWhile_append)
  show ?case
  proof (cases "ws = []")
    case True
    have "takeWhile re_space t = []" "dropWhile re_space t = t" using assms(3,4) by (cases t; simp)+
    then show ?thesis using True w(1) tk sp by (simp add: Let_def)
  next
    case False
    let ?u = "join '' '' ws @ CHR '' '' # t"
    obtain w2 ws2 where ws: "ws = w2 # ws2" using False by (cases ws) auto
    have "w2 \<noteq> []" "\<not> re_space (hd w2)" using Cons.prems ws by (auto simp: word_ok_def list_all_iff)
    then have "?u \<noteq> []" "\<not> re_space (hd ?u)" using ws by (cases ws2; auto)+
    then have "takeWhile re_space ?u = []" "dropWhile re_space ?u = ?u" by (cases ?u; simp)+
    then show ?thesis
      using Cons.IH Cons.prems False w(1) tk sp by (simp add: join_Cons Let_def)
  qed
qed

lemma re_line_join:
  assumes "list_all word_ok ws" "ws \<noteq> []" "t \<noteq> []" "\<not> re_space (hd t)" "CHR 0x0A \<notin> set t"
  shows "re_line (length ws) (join '' '' ws @ CHR '' '' # t) = Some (ws, t)"
proof -
  obtain w rest where ws: "ws = w # rest" using assms(2) by (cases ws) auto
  then have "w \<noteq> []" "\<not> re_space (hd w)" using assms(1) by (auto simp: word_ok_def list_all_iff)
  then have "dropWhile re_space (join '' '' ws @ CHR '' '' # t) = join '' '' ws @ CHR '' '' # t"
    by (cases w; cases rest; simp add: ws)
  then show ?thesis
    using assms(3,5) by (simp add: re_line_def re_words_join [OF assms(1-4)])
qed

lemma validTaskInput_parts:
  assumes "validTaskInput s c"
  shows "words s \<noteq> []" "trim_space c \<noteq> []" "\<not> re_space (hd (trim_space c))" "CHR 0x0A \<notin> set (trim_space c)"
    "has_prefix (normalizeSchedule s) ''@'' \<Longrightarrow> macroExact (normalizeSchedule s)"
    "\<not> has_prefix (normalizeSchedule s) ''@'' \<Longrightarrow> length (words s) = 5"
proof -
  show "words s \<noteq> []"
    using assms words_normalize [of s]
    by (auto simp: validTaskInput_def Let_def normalizeSchedule_def split: if_splits)
  show "trim_space c \<noteq> []" using assms by (simp add: validTaskInput_def)
  then show "\<not> re_space (hd (trim_space c))" by (rule trim_space_head)
  show "CHR 0x0A \<notin> set (trim_space c)"
    using assms trim_space_set [of c] by (auto simp: validTaskInput_def line_break_def)
qed (use assms words_normalize in \<open>auto simp: validTaskInput_def Let_def\<close>)

lemma normalize_head: "words s = w # ws \<Longrightarrow> w \<noteq> [] \<and> (\<exists>t. normalizeSchedule s = w @ t)"
  using words_ok [of s] by (cases ws) (auto simp: normalizeSchedule_def word_ok_def)

lemma trim_space_job_line:
  assumes "validTaskInput s c" shows "trim_space (job_line s c) = job_line s c"
proof (rule trim_space_id)
  obtain w ws where w: "words s = w # ws" using validTaskInput_parts(1) [OF assms] by (cases "words s") auto
  then have ok: "word_ok w" using words_ok [of s] by simp
  have "job_line s c = w @ CHR '' '' # (if ws = [] then trim_space c else join '' '' ws @ '' '' @ trim_space c)"
    using w by (simp add: job_line_def normalizeSchedule_def join_Cons)
  then show "space_width (job_line s c) = 0" using ok by (simp add: word_ok_def)
  have "space_width_rev (rev (trim_space c) @ []) = 0"
    using trim_left_rev_end by (simp add: trim_space_def)
  then have "space_width_rev (rev (trim_space c) @ CHR '' '' # rev (normalizeSchedule s)) = 0"
    by (rule space_width_rev_cut) (use validTaskInput_parts(2) [OF assms] in simp)
  then show "space_width_rev (rev (job_line s c)) = 0" by (simp add: job_line_def)
qed

lemma macroExact_word:
  assumes "macroExact (normalizeSchedule s)" shows "words s = [normalizeSchedule s]"
proof -
  have "CHR '' '' \<notin> set (normalizeSchedule s)" using assms by (auto simp: macroExact_def macros_def)
  then have "length (words s) \<le> 1"
    by (cases "words s"; cases "tl (words s)") (auto simp: normalizeSchedule_def)
  moreover have "words s \<noteq> []" using assms by (auto simp: normalizeSchedule_def macroExact_def)
  ultimately show ?thesis by (cases "words s"; cases "tl (words s)") (auto simp: normalizeSchedule_def)
qed

lemma macroLine_job_line:
  assumes "macroExact (normalizeSchedule s)" shows "macroLine (job_line s c)"
proof -
  obtain m where m: "m \<in> set macros" "normalizeSchedule s = CHR ''@'' # m" using assms by (auto simp: macroExact_def)
  then have "has_prefix (job_line s c) (CHR ''@'' # m)" "drop (Suc (length m)) (job_line s c) = CHR '' '' # trim_space c"
    using has_prefix_append [of "CHR ''@'' # m"] by (auto simp: job_line_def)
  then show ?thesis
    using m(1) by (auto simp: macroLine_def name_char_def is_alnum_def is_digit_def is_lower_def is_upper_def in_range_def)
qed

lemma parseJobLine_job_line:
  assumes valid: "validTaskInput s c" and user: "user \<noteq> ''''"
  shows "parseJobLine (job_line s c) user = Some (normalizeSchedule s, user, trim_space c)"
proof -
  note parts = validTaskInput_parts [OF valid]
  obtain w ws where w: "words s = w # ws" using parts(1) by (cases "words s") auto
  have line: "job_line s c = join '' '' (words s) @ CHR '' '' # trim_space c"
    by (simp add: job_line_def normalizeSchedule_def)
  note re = re_line_join [OF words_ok [of s] parts(1-4), folded line]
  have at: "has_prefix (job_line s c) ''@'' \<longleftrightarrow> has_prefix (normalizeSchedule s) ''@''"
    using normalize_head [OF w] by (cases w) (auto simp: job_line_def)
  show ?thesis
  proof (cases "has_prefix (normalizeSchedule s) ''@''")
    case True
    note exact = parts(5) [OF True]
    show ?thesis
      using True at user re macroExact_word [OF exact] macroLine_job_line [OF exact]
      by (simp add: parseJobLine_def trim_space_job_line [OF valid])
  next
    case False
    show ?thesis
      using False at user re parts(6) [OF False]
      by (simp add: parseJobLine_def trim_space_job_line [OF valid] normalizeSchedule_def)
  qed
qed

section \<open>Markers are read back\<close>

lemma managedID_parts:
  assumes "managedID k"
  obtains a b c d e where "k = a @ ''-'' @ b @ ''-'' @ c @ ''-'' @ d @ ''-'' @ e"
    "length a = 8" "length b = 4" "length c = 4" "length d = 4" "length e = 12"
proof -
  obtain a b c d e where parts: "split_char CHR ''-'' k = [a, b, c, d, e]"
    "length a = 8" "length b = 4" "length c = 4" "length d = 4" "length e = 12"
    using assms by (auto simp: managedID_def Let_def map_eq_Cons_conv)
  have "k = join [CHR ''-''] [a, b, c, d, e]" using parts(1) join_split_char [of "CHR ''-''" k] by simp
  then show thesis using that parts(2-) by simp
qed

lemma managedID_length: "managedID k \<Longrightarrow> length k = 36"
  by (elim managedID_parts) simp

lemma plain_end: "byte_val c < 128 \<Longrightarrow> \<not> space1 (byte_val c) \<Longrightarrow> space_width_rev (c # s) = 0"
  by (auto simp: space_width_rev_zero space2_def space3_def split: list.splits)

lemma payload_end: "payload_char c \<Longrightarrow> byte_val c < 128 \<and> \<not> space1 (byte_val c)"
  by (auto simp: payload_char_def is_alnum_def is_digit_def is_lower_def is_upper_def in_range_def space1_def)

lemma marker_head: "space_width (marker_prefix @ t) = 0"
  by (simp add: marker_prefix_def space1_def space2_def space3_def)

lemma managedMarker_active: "managedID k \<Longrightarrow> managedMarker (trim_space (activeMarker k)) = Some (k, False, '''')"
proof -
  assume k: "managedID k"
  have "trim_space (activeMarker k) = activeMarker k"
    by (rule trim_space_id) (simp_all add: activeMarker_def marker_head, simp add: space1_def space2_def space3_def)
  then show ?thesis
    using k managedID_length [OF k] has_prefix_append [of "marker_prefix @ '' ''" "k @ '' ACTIVE''"]
    by (simp add: managedMarker_def activeMarker_def Let_def) (simp add: marker_prefix_def)
qed

lemma base64_payload: "list_all payload_char (base64_encode base64_url bs)"
proof -
  have "list_all payload_char base64_url"
    unfolding base64_url_def payload_char_def is_alnum_def is_digit_def is_lower_def is_upper_def in_range_def by code_simp
  then show ?thesis using base64_encode_chars [OF good_base64_url, of bs] by (auto simp: list_all_iff)
qed

lemma managedMarker_suspended:
  assumes k: "managedID k" and line: "line \<noteq> []"
  shows "managedMarker (trim_space (suspendedMarker k line)) = Some (k, True, base64_encode base64_url line)"
proof -
  let ?p = "base64_encode base64_url line"
  have "length ?p \<noteq> 0" using line by (cases line) (simp_all add: base64_encode_length)
  then have p: "?p \<noteq> []" by auto
  then obtain c u where cu: "rev ?p = c # u" by (cases "rev ?p") auto
  then have "c \<in> set ?p" by (metis list.set_intros(1) set_rev)
  then have "payload_char c" using base64_payload [of line] by (auto simp: list_all_iff)
  then have "space_width_rev (rev (suspendedMarker k line)) = 0"
    using payload_end cu by (simp add: suspendedMarker_def plain_end)
  then have trim: "trim_space (suspendedMarker k line) = suspendedMarker k line"
    by (intro trim_space_id) (simp_all add: suspendedMarker_def marker_head)
  have split: "suspendedMarker k line = (marker_prefix @ '' '') @ k @ '' SUSPENDED '' @ ?p"
    by (simp add: suspendedMarker_def)
  have len: "length (marker_prefix @ '' '') = 19" by (simp add: marker_prefix_def)
  have "drop 19 (suspendedMarker k line) = k @ '' SUSPENDED '' @ ?p"
    unfolding split using len by (metis append_eq_conv_conj)
  then show ?thesis
    using k p base64_payload [of line] managedID_length [OF k] has_prefix_append [of "marker_prefix @ '' ''" "k @ '' SUSPENDED '' @ ?p"]
    unfolding trim by (simp add: managedMarker_def Let_def split)
qed

lemma suspended_record_line:
  assumes "parseJobLine line user = Some (s, u, c)" "line \<noteq> []" "CHR 0x0D \<notin> set line" "CHR 0x0A \<notin> set line"
  shows "suspended_record user i k (base64_encode base64_url line) =
           Some \<lparr>rcID = k, rcLine = line, rcSchedule = s, rcCommand = c, rcStart = i, rcEnd = i, rcEnabled = False, rcManaged = True\<rparr>"
  using assms by (simp add: suspended_record_def base64_decode_encode [OF good_base64_url])

section \<open>Reading a part of a crontab\<close>

text \<open>
  The same task at another place: a task AegisAdmin manages keeps its identifier, one it does not manage
  is numbered among its equals.
\<close>

definition same_task :: "cron_record \<Rightarrow> cron_record \<Rightarrow> bool" where
  "same_task r r' \<longleftrightarrow>
     rcLine r' = rcLine r \<and> rcSchedule r' = rcSchedule r \<and> rcCommand r' = rcCommand r \<and> rcEnabled r' = rcEnabled r \<and>
     rcManaged r' = rcManaged r \<and> (rcManaged r \<longrightarrow> rcID r' = rcID r)"

lemma suspended_record_elsewhere:
  "suspended_record user i k p = Some r \<Longrightarrow> \<exists>r'. suspended_record user j k p = Some r' \<and> same_task r r'"
  by (auto simp: suspended_record_def same_task_def split: option.splits if_splits)

lemma active_record_elsewhere:
  "active_record user i k l = Some r \<Longrightarrow> \<exists>r'. active_record user j k l = Some r' \<and> same_task r r'"
  by (auto simp: active_record_def same_task_def split: option.splits if_splits)

lemma legacy_record_elsewhere:
  "legacy_record user i raw occ = Some (r, occ1) \<Longrightarrow> \<exists>r' occ2. legacy_record user j raw occ' = Some (r', occ2) \<and> same_task r r'"
  by (auto simp: legacy_record_def same_task_def Let_def split: option.splits)

lemma record_at_elsewhere:
  assumes "record_at user i occ raw rest = Some (new, occ1, n)"
  shows "\<exists>new' occ2. record_at user j occ' raw rest = Some (new', occ2, n) \<and> list_all2 same_task new new'"
proof (cases "managedMarker (trim_space raw)")
  case None
  with assms show ?thesis
    by (auto simp: record_at_def split: option.splits if_splits dest: legacy_record_elsewhere [of user i raw occ _ _ j occ'])
next
  case (Some m)
  obtain k b p where m: "m = (k, b, p)" by (cases m)
  show ?thesis
  proof (cases b)
    case True
    with assms Some m show ?thesis
      by (auto simp: record_at_def split: option.splits dest: suspended_record_elsewhere [of user i k p _ j])
  next
    case False
    with assms Some m show ?thesis
      by (auto simp: record_at_def split: option.splits list.splits if_splits dest: active_record_elsewhere [of user i k _ _ j])
  qed
qed

lemma record_at_append:
  "record_at user i occ raw rest = Some (new, occ1, n) \<Longrightarrow>
     record_at user i occ raw (rest @ after) = Some (new, occ1, n) \<and> n \<le> length rest"
  by (auto simp: record_at_def split: option.splits list.splits if_splits bool.splits)

lemma parse_records_elsewhere:
  "parse_records user i occ ls = Some (rs, occ1) \<Longrightarrow>
     \<exists>rs' occ2. parse_records user j occ' ls = Some (rs', occ2) \<and> list_all2 same_task rs rs'"
proof (induction user i occ ls arbitrary: j occ' rs occ1 rule: parse_records.induct)
  case (1 user i occ)
  then show ?case by simp
next
  case (2 user i occ raw rest)
  from "2.prems" obtain new o1 n rs1 where at: "record_at user i occ raw rest = Some (new, o1, n)"
    and rest: "parse_records user (i + 1 + n) o1 (drop n rest) = Some (rs1, occ1)" and rs: "rs = new @ rs1"
    by (auto split: option.splits prod.splits)
  from record_at_elsewhere [OF at, of j occ'] obtain new' o2
    where at': "record_at user j occ' raw rest = Some (new', o2, n)" "list_all2 same_task new new'" by blast
  from "2.IH" [OF at refl refl rest, of "j + 1 + n" o2] obtain rs' o3
    where "parse_records user (j + 1 + n) o2 (drop n rest) = Some (rs', o3)" "list_all2 same_task rs1 rs'" by auto
  with at' rs show ?case by (auto intro: list_all2_appendI)
qed

lemma parse_records_append:
  "parse_records user i occ ls = Some (rs, occ1) \<Longrightarrow>
     parse_records user i occ (ls @ after) = map_option (apfst (append rs)) (parse_records user (i + length ls) occ1 after)"
proof (induction user i occ ls arbitrary: rs occ1 rule: parse_records.induct)
  case (1 user i occ)
  then show ?case by (simp add: option.map_ident apfst_def map_prod_def case_prod_beta)
next
  case (2 user i occ raw rest)
  from "2.prems" obtain new o1 n rs1 where at: "record_at user i occ raw rest = Some (new, o1, n)"
    and rest: "parse_records user (i + 1 + n) o1 (drop n rest) = Some (rs1, occ1)" and rs: "rs = new @ rs1"
    by (auto split: option.splits prod.splits)
  note at' = record_at_append [OF at, of after]
  from "2.IH" [OF at refl refl rest] at' rs show ?case
    by (simp add: option.map_comp comp_def apfst_def map_prod_def case_prod_beta)
qed

lemma legacy_record_place: "legacy_record user i raw occ = Some (r, occ1) \<Longrightarrow> rcStart r = i \<and> rcEnd r = i"
  by (cases "parseJobLine raw user") (auto simp: legacy_record_def Let_def)

lemma suspended_record_place: "suspended_record user i k p = Some r \<Longrightarrow> rcStart r = i \<and> rcEnd r = i"
  by (cases "base64_decode False base64_url p") (auto simp: suspended_record_def split: option.splits if_splits)

lemma active_record_place: "active_record user i k l = Some r \<Longrightarrow> rcStart r = i \<and> rcEnd r = Suc i"
  by (cases "parseJobLine l user") (auto simp: active_record_def split: if_splits)

lemma record_at_shape:
  assumes "record_at user i occ raw rest = Some (new, occ1, n)"
  shows "record_at user i occ raw (take n rest) = Some (new, occ1, n)"
    and "new = [] \<or> (\<exists>r. new = [r] \<and> rcStart r = i \<and> rcEnd r = i + n)"
proof -
  have "record_at user i occ raw (take n rest) = Some (new, occ1, n) \<and>
      (new = [] \<or> (\<exists>r. new = [r] \<and> rcStart r = i \<and> rcEnd r = i + n))"
  proof (cases "managedMarker (trim_space raw)")
    case None
    with assms show ?thesis
      by (auto simp: record_at_def split: option.splits if_splits dest: legacy_record_place)
  next
    case (Some m)
    obtain k b p where m: "m = (k, b, p)" by (cases m)
    with assms Some show ?thesis
      by (cases b; cases rest)
         (auto simp: record_at_def split: option.splits if_splits dest: suspended_record_place active_record_place)
  qed
  then show "record_at user i occ raw (take n rest) = Some (new, occ1, n)"
    and "new = [] \<or> (\<exists>r. new = [r] \<and> rcStart r = i \<and> rcEnd r = i + n)" by auto
qed

text \<open>Where the lines of a record are, and that they alone make it.\<close>

lemma parse_records_split:
  assumes "parse_records user i occ ls = Some (rs1 @ r # rs2, occ3)"
  shows "\<exists>before mine after occ1 occ2.
     ls = before @ mine @ after \<and> rcStart r = i + length before \<and> Suc (rcEnd r) = rcStart r + length mine \<and>
     parse_records user i occ before = Some (rs1, occ1) \<and>
     parse_records user (rcStart r) occ1 mine = Some ([r], occ2) \<and>
     parse_records user (Suc (rcEnd r)) occ2 after = Some (rs2, occ3)"
  using assms
proof (induction user i occ ls arbitrary: rs1 rule: parse_records.induct)
  case (1 user i occ)
  then show ?case by simp
next
  case (2 user i occ raw rest)
  from "2.prems" obtain new o1 n rs where at: "record_at user i occ raw rest = Some (new, o1, n)"
    and rest: "parse_records user (i + 1 + n) o1 (drop n rest) = Some (rs, occ3)" and rs: "new @ rs = rs1 @ r # rs2"
    by (auto split: option.splits prod.splits)
  note len = record_at_append [OF at, of "[]", THEN conjunct2]
  note shape = record_at_shape [OF at]
  show ?case
  proof (cases "new \<noteq> [] \<and> rs1 = []")
    case True
    with shape(2) rs have r: "new = [r]" "rs = rs2" "rcStart r = i" "rcEnd r = i + n" by auto
    have "raw # rest = [] @ (raw # take n rest) @ drop n rest \<and> rcStart r = i + length ([] :: string list) \<and>
        Suc (rcEnd r) = rcStart r + length (raw # take n rest) \<and> parse_records user i occ [] = Some (rs1, occ) \<and>
        parse_records user (rcStart r) occ (raw # take n rest) = Some ([r], o1) \<and>
        parse_records user (Suc (rcEnd r)) o1 (drop n rest) = Some (rs2, occ3)"
      using True r rest shape(1) len by simp
    then show ?thesis by blast
  next
    case False
    with shape(2) rs obtain rs1' where rs1: "rs1 = new @ rs1'" "rs = rs1' @ r # rs2" by (cases rs1) auto
    from "2.IH" [OF at refl refl rest [unfolded rs1(2)]] obtain before mine after occ1 occ2 where
      IH: "drop n rest = before @ mine @ after" "rcStart r = i + 1 + n + length before"
        "Suc (rcEnd r) = rcStart r + length mine" "parse_records user (i + 1 + n) o1 before = Some (rs1', occ1)"
        "parse_records user (rcStart r) occ1 mine = Some ([r], occ2)"
        "parse_records user (Suc (rcEnd r)) occ2 after = Some (rs2, occ3)" by auto
    let ?before = "raw # take n rest @ before"
    have "raw # rest = ?before @ mine @ after" using append_take_drop_id [of n rest] IH(1) by simp
    moreover have "parse_records user i occ ?before = Some (rs1, occ1)"
      using record_at_append [OF shape(1), of before] IH(4) len rs1(1) by simp
    moreover have "rcStart r = i + length ?before" using IH(2) len by simp
    ultimately show ?thesis using IH(3,5,6) by blast
  qed
qed
lemma parse_active:
  "managedID k \<Longrightarrow> parse_records user i occ (activeMarker k # l # after) =
     (case active_record user i k l of
        None \<Rightarrow> None | Some r \<Rightarrow> map_option (apfst ((#) r)) (parse_records user (i + 2) occ after))"
  by (simp add: record_at_def managedMarker_active append_Cons [abs_def] split: option.split)

lemma parse_suspended:
  "managedID k \<Longrightarrow> l \<noteq> [] \<Longrightarrow> parse_records user i occ (suspendedMarker k l # after) =
     (case suspended_record user i k (base64_encode base64_url l) of
        None \<Rightarrow> None | Some r \<Rightarrow> map_option (apfst ((#) r)) (parse_records user (i + 1) occ after))"
  by (simp add: record_at_def managedMarker_suspended append_Cons [abs_def] split: option.split)

text \<open>What the lines of a record say.\<close>

definition record_ok :: "string \<Rightarrow> string list \<Rightarrow> cron_record \<Rightarrow> bool" where
  "record_ok user ls r \<longleftrightarrow>
     (\<exists>u. parseJobLine (rcLine r) user = Some (rcSchedule r, u, rcCommand r)) \<and>
     (if rcEnabled r then rcLine r \<in> set ls else CHR 0x0A \<notin> set (rcLine r) \<and> CHR 0x0D \<notin> set (rcLine r) \<and> rcManaged r)"

lemma record_at_ok:
  assumes "record_at user i occ raw rest = Some (new, occ1, n)"
  shows "\<forall>r \<in> set new. record_ok user (raw # rest) r"
proof (cases "managedMarker (trim_space raw)")
  case None
  with assms show ?thesis
    by (auto simp: record_at_def record_ok_def legacy_record_def Let_def split: option.splits if_splits)
next
  case (Some m)
  obtain k b p where m: "m = (k, b, p)" by (cases m)
  show ?thesis
  proof (cases b)
    case True
    with assms Some m show ?thesis
      by (auto simp: record_at_def record_ok_def suspended_record_def split: option.splits if_splits)
  next
    case False
    with assms Some m show ?thesis
      by (auto simp: record_at_def record_ok_def active_record_def split: option.splits list.splits if_splits)
  qed
qed

lemma record_ok_mono: "record_ok user ls r \<Longrightarrow> set ls \<subseteq> set ls' \<Longrightarrow> record_ok user ls' r"
  by (auto simp: record_ok_def split: if_splits)

lemma parse_records_ok: "parse_records user i occ ls = Some (rs, occ1) \<Longrightarrow> r \<in> set rs \<Longrightarrow> record_ok user ls r"
proof (induction user i occ ls arbitrary: rs occ1 rule: parse_records.induct)
  case (1 user i occ)
  then show ?case by simp
next
  case (2 user i occ raw rest)
  from "2.prems" obtain new o1 n rs1 where at: "record_at user i occ raw rest = Some (new, o1, n)"
    and rest: "parse_records user (i + 1 + n) o1 (drop n rest) = Some (rs1, occ1)" and rs: "rs = new @ rs1"
    by (auto split: option.splits prod.splits)
  show ?case
  proof (cases "r \<in> set new")
    case True
    then show ?thesis using record_at_ok [OF at] by blast
  next
    case False
    then have "record_ok user (drop n rest) r" using "2.IH" [OF at refl refl rest] "2.prems"(2) rs by simp
    then show ?thesis by (rule record_ok_mono) (use set_drop_subset [of n rest] in auto)
  qed
qed

lemma re_line_Nil: "0 < n \<Longrightarrow> re_line n [] = None"
  by (cases n) (simp_all add: re_line_def)

lemma parseJobLine_nonempty: "parseJobLine line user = Some p \<Longrightarrow> line \<noteq> []"
  by (auto simp: parseJobLine_def re_line_Nil trim_space_id split: if_splits)
section \<open>What an action does to a crontab\<close>

declare parse_records.simps(2) [simp del]

lemma splitContent_lines: "l \<in> set (splitContent content) \<Longrightarrow> CHR 0x0A \<notin> set l"
  by (auto simp: splitContent_def Let_def split: if_splits dest: split_char_parts_no_sep)

lemma job_line_chars: "set (job_line s c) \<subseteq> {CHR '' ''} \<union> set s \<union> set c"
  using join_subset [of "'' ''" "words s"] words_subset [of _ s] trim_space_set [of c]
  by (auto simp: job_line_def normalizeSchedule_def)

lemma job_line_breaks:
  "validTaskInput s c \<Longrightarrow> CHR 0x0A \<notin> set (job_line s c)" "validTaskInput s c \<Longrightarrow> CHR 0x0D \<notin> set (job_line s c)"
  using job_line_chars [of s c] by (auto simp: validTaskInput_def line_break_def)

text \<open>The record a task leaves after an action; nothing after its deletion.\<close>

definition task_after :: "string \<Rightarrow> string \<Rightarrow> string \<Rightarrow> string \<Rightarrow> cron_record \<Rightarrow> cron_record list" where
  "task_after action k schedule command r =
     (if action = ''update'' then
        [r\<lparr>rcID := k, rcLine := job_line schedule command, rcSchedule := normalizeSchedule schedule,
           rcCommand := trim_space command, rcEnd := (if rcEnabled r then Suc (rcStart r) else rcStart r), rcManaged := True\<rparr>]
      else if action = ''suspend'' then [r\<lparr>rcID := k, rcEnd := rcStart r, rcEnabled := False, rcManaged := True\<rparr>]
      else if action = ''resume'' then [r\<lparr>rcID := k, rcEnd := Suc (rcStart r), rcEnabled := True, rcManaged := True\<rparr>]
      else [])"

text \<open>
  When the crontab stays readable: a line that is to run must not read as a comment or an assignment, and
  a line that is suspended must not hold a carriage return.
\<close>

definition stays_readable :: "string \<Rightarrow> string \<Rightarrow> string \<Rightarrow> cron_record \<Rightarrow> bool" where
  "stays_readable action schedule command r \<longleftrightarrow>
     (if action = ''update'' then rcEnabled r \<longrightarrow> \<not> skipped_line (job_line schedule command)
      else if action = ''suspend'' then CHR 0x0D \<notin> set (rcLine r)
      else action = ''resume'' \<longrightarrow> \<not> skipped_line (trim_space (rcLine r)))"

lemma append_one: "(@) [x] = (#) x"
  by (rule ext) simp

lemma parse_replacement:
  assumes k: "managedID k" and user: "user \<noteq> ''''" and ok: "record_ok user ls r" "\<forall>l \<in> set ls. CHR 0x0A \<notin> set l"
    and valid: "action = ''update'' \<Longrightarrow> validTaskInput s c"
    and edit: "edited action k s c r = Some (replacement, enabled)" and start: "rcStart r = i"
  shows "parse_records user i occ (replacement @ after) =
    (if stays_readable action s c r
     then map_option (apfst (append (task_after action k s c r))) (parse_records user (i + length replacement) occ after)
     else None)"
proof -
  obtain u where job: "parseJobLine (rcLine r) user = Some (rcSchedule r, u, rcCommand r)" using ok by (auto simp: record_ok_def)
  note ne = parseJobLine_nonempty [OF job]
  have lf: "CHR 0x0A \<notin> set (rcLine r)" using ok by (auto simp: record_ok_def split: if_splits)
  consider "action = ''update''" "rcEnabled r" | "action = ''update''" "\<not> rcEnabled r"
    | "action = ''suspend''" | "action = ''resume''" | "action \<notin> {''update'', ''suspend'', ''resume''}" by auto
  then show ?thesis
  proof cases
    case 1
    note job' = parseJobLine_job_line [OF valid [OF 1(1)] user] trim_space_job_line [OF valid [OF 1(1)]]
    show ?thesis
      using 1 edit start job'
      by (cases r) (auto simp: edited_def parse_active [OF k] active_record_def stays_readable_def task_after_def append_one)
  next
    case 2
    note job' = parseJobLine_job_line [OF valid [OF 2(1)] user] job_line_breaks [OF valid [OF 2(1)]]
    show ?thesis
      using 2 edit start parseJobLine_nonempty [OF job'(1)]
      by (cases r) (auto simp: edited_def parse_suspended [OF k] suspended_record_line [OF job'(1)] job' stays_readable_def task_after_def append_one)
  next
    case 3
    show ?thesis
      using 3 edit start ne lf job
      by (cases r) (auto simp: edited_def parse_suspended [OF k] suspended_record_def base64_decode_encode [OF good_base64_url]
                     stays_readable_def task_after_def append_one split: if_splits)
  next
    case 4
    show ?thesis
      using 4 edit start job
      by (cases r) (auto simp: edited_def parse_active [OF k] active_record_def stays_readable_def task_after_def append_one split: if_splits)
  next
    case 5
    then show ?thesis using edit by (auto simp: edited_def stays_readable_def task_after_def append_one apfst_def map_prod_def case_prod_beta option.map_id)
  qed
qed

lemma parse_edit:
  assumes records: "parseRecords user (splitContent content) = Some (rs1 @ r # rs2)" and user: "user \<noteq> ''''" and k: "managedID k"
    and valid: "action = ''update'' \<Longrightarrow> validTaskInput s c"
    and edit: "edited action k s c r = Some (replacement, enabled)"
  defines "after_edit \<equiv> parseRecords user (replace_lines (splitContent content) (rcStart r) (rcEnd r) replacement)"
  shows "stays_readable action s c r \<Longrightarrow>
      \<exists>rs2'. after_edit = Some (rs1 @ task_after action k s c r @ rs2') \<and> list_all2 same_task rs2 rs2'"
    and "\<not> stays_readable action s c r \<Longrightarrow> after_edit = None"
proof -
  let ?ls = "splitContent content"
  from records obtain occ where full: "parse_records user 0 [] ?ls = Some (rs1 @ r # rs2, occ)"
    by (auto simp: parseRecords_def)
  from parse_records_split [OF full] obtain before mine after occ1 occ2 where
    parts: "?ls = before @ mine @ after" "rcStart r = length before" "Suc (rcEnd r) = rcStart r + length mine"
      "parse_records user 0 [] before = Some (rs1, occ1)" "parse_records user (Suc (rcEnd r)) occ2 after = Some (rs2, occ)"
    by auto
  have lines: "replace_lines ?ls (rcStart r) (rcEnd r) replacement = before @ replacement @ after"
    using parts(2,3) by (simp add: replace_lines_def parts(1))
  have "record_ok user ?ls r" by (rule parse_records_ok [OF full]) simp
  note new = parse_replacement [OF k user this _ valid edit, of "length before" occ1 after]
  have whole: "after_edit =
      (if stays_readable action s c r
       then map_option fst (map_option (apfst (append (rs1 @ task_after action k s c r)))
              (parse_records user (length before + length replacement) occ1 after))
       else None)"
    unfolding after_edit_def lines parseRecords_def parse_records_append [OF parts(4)]
    using new parts(2) splitContent_lines
    by (auto simp: option.map_comp comp_def apfst_def map_prod_def case_prod_beta)
  show "\<not> stays_readable action s c r \<Longrightarrow> after_edit = None" by (simp add: whole)
  assume "stays_readable action s c r"
  with parse_records_elsewhere [OF parts(5), of "length before + length replacement" occ1] whole
  show "\<exists>rs2'. after_edit = Some (rs1 @ task_after action k s c r @ rs2') \<and> list_all2 same_task rs2 rs2'"
    by auto
qed

section \<open>Identifiers\<close>

lemma hex_lower_digit:
  assumes "0 \<le> n" "n < 16" shows "hex_digit (hex_lower n)"
proof -
  have "\<forall>n \<in> set [0..15]. hex_digit (hex_lower n)" by code_simp
  then show ?thesis using assms by simp
qed

lemma of_char_int: "(of_char c :: int) = int (byte_val c)"
  by (rule of_nat_of_char [symmetric])

lemma hex_encode_Cons:
  "hex_encode (b # bs) = hex_lower (int (byte_val b div 16)) # hex_lower (int (byte_val b mod 16)) # hex_encode bs"
  by (simp add: hex_encode_def of_char_int zdiv_int zmod_int)

lemma hex_encode_digits: "list_all hex_digit (hex_encode bs)"
proof (induction bs)
  case Nil
  then show ?case by (simp add: hex_encode_def)
next
  case (Cons b bs)
  have "byte_val b < 256" by simp
  then have "byte_val b div 16 < 16" "byte_val b mod 16 < 16" by (simp_all add: less_mult_imp_div_less)
  with Cons show ?case by (simp add: hex_encode_Cons hex_lower_digit)
qed

lemma hex_encode_length: "length (hex_encode bs) = 2 * length bs"
  by (induction bs) (simp_all add: hex_encode_def)

lemma hex_lower_values:
  "hex_lower 4 = CHR ''4''" "hex_lower 8 = CHR ''8''" "hex_lower 9 = CHR ''9''" "hex_lower 10 = CHR ''a''" "hex_lower 11 = CHR ''b''"
  by code_simp+

lemma newUUID_managedID:
  assumes bs: "length bs = 16" and new: "newUUID (Some bs) = Some k" shows "managedID k"
proof -
  let ?v = "bs[6 := version_byte (bs ! 6), 8 := variant_byte (bs ! 8)]"
  let ?parts = "map hex_encode [take 4 ?v, take 2 (drop 4 ?v), take 2 (drop 6 ?v), take 2 (drop 8 ?v), drop 10 ?v]"
  have k: "k = join ''-'' ?parts" using new by (simp add: newUUID_def Let_def)
  have dash: "CHR ''-'' \<notin> set (hex_encode xs)" for xs
    using hex_encode_digits [of xs] by (auto simp: list_all_iff hex_digit_def is_digit_def in_range_def)
  have split: "split_char CHR ''-'' k = ?parts"
    unfolding k by (rule split_char_join) (simp_all add: dash)
  have "take 2 (drop 6 ?v) = [version_byte (bs ! 6), bs ! 7]" "take 2 (drop 8 ?v) = [variant_byte (bs ! 8), bs ! 9]"
    using bs by (auto intro!: nth_equalityI simp: less_Suc_eq eval_nat_numeral)
  moreover have "hd (hex_encode (version_byte x # xs)) = CHR ''4''" for x xs
  proof -
    have "byte_val (version_byte x) div 16 = 4" by (simp add: version_byte_def)
    then show ?thesis by (simp add: hex_encode_Cons hex_lower_values)
  qed
  moreover have "hd (hex_encode (variant_byte x # xs)) \<in> set ''89ab''" for x xs
  proof -
    have "byte_val (variant_byte x) = byte_val x mod 64 + 128" by (simp add: variant_byte_def)
    then have "byte_val (variant_byte x) div 16 \<in> {8, 9, 10, 11}" by auto
    then show ?thesis by (auto simp: hex_encode_Cons hex_lower_values)
  qed
  ultimately show ?thesis
    using bs by (simp add: managedID_def split hex_encode_length hex_encode_digits in_range_def)
qed

section \<open>The text of a crontab\<close>

text \<open>What \<open>install\<close> writes.\<close>

definition crontab_text :: "string list \<Rightarrow> string" where
  "crontab_text ls = join [CHR 0x0A] ls @ (if ls = [] then [] else [CHR 0x0A])"

lemma replace_crlf_id: "(\<And>u v. s \<noteq> u @ CHR 0x0D # CHR 0x0A # v) \<Longrightarrow> replace_crlf s = s"
proof (induction s rule: replace_crlf.induct)
  case (3 c c' cs)
  have tail: "\<And>u v. c' # cs \<noteq> u @ CHR 0x0D # CHR 0x0A # v" using "3.prems" by (metis append_Cons)
  have "\<not> (c = CHR 0x0D \<and> c' = CHR 0x0A)" using "3.prems" [of "[]" cs] by auto
  then show ?case using "3.IH"(2) tail by auto
qed auto

text \<open>Lines that can be written and read back: no line break in them and no carriage return at their end.\<close>

definition plain_line :: "string \<Rightarrow> bool" where
  "plain_line l \<longleftrightarrow> CHR 0x0A \<notin> set l \<and> (l \<noteq> [] \<longrightarrow> last l \<noteq> CHR 0x0D)"

lemma plain_no_crlf: "plain_line l \<Longrightarrow> l @ CHR 0x0A # t = u @ CHR 0x0D # CHR 0x0A # v \<Longrightarrow> \<exists>u'. t = u' @ CHR 0x0D # CHR 0x0A # v"
proof (induction l arbitrary: u)
  case Nil
  then show ?case by (cases u) auto
next
  case (Cons c l)
  then show ?case by (cases u; cases l) (auto simp: plain_line_def split: if_splits)
qed

lemma crontab_text_Cons: "crontab_text (l # ls) = l @ CHR 0x0A # crontab_text ls"
  by (cases ls) (simp_all add: crontab_text_def)

lemma crontab_text_no_crlf: "\<forall>l \<in> set ls. plain_line l \<Longrightarrow> crontab_text ls \<noteq> u @ CHR 0x0D # CHR 0x0A # v"
proof (induction ls arbitrary: u)
  case Nil
  then show ?case by (simp add: crontab_text_def)
next
  case (Cons l ls)
  then show ?case using plain_no_crlf [of l "crontab_text ls" u v] by (auto simp: crontab_text_Cons)
qed

lemma split_installed:
  assumes "\<forall>l \<in> set ls. plain_line l" "ls \<noteq> ['''']" shows "splitContent (crontab_text ls) = ls"
proof (cases "ls = []")
  case True
  then show ?thesis by (simp add: crontab_text_def splitContent_def trim_suffix_def has_suffix_def)
next
  case False
  have "replace_crlf (crontab_text ls) = crontab_text ls"
    using crontab_text_no_crlf [OF assms(1)] by (intro replace_crlf_id) blast
  moreover have "trim_suffix (crontab_text ls) [CHR 0x0A] = join [CHR 0x0A] ls"
    using False by (simp add: crontab_text_def trim_suffix_def has_suffix_def)
  moreover have "join [CHR 0x0A] ls \<noteq> []" using False assms(2) by (cases ls; cases "tl ls") auto
  moreover have "lines_of (join [CHR 0x0A] ls) = ls"
    using assms(1) False by (intro split_char_join) (auto simp: plain_line_def)
  ultimately show ?thesis by (simp add: splitContent_def Let_def)
qed

lemma marker_plain:
  assumes k: "managedID k" shows "plain_line (activeMarker k)" and "plain_line (suspendedMarker k l)"
proof -
  have "list_all (\<lambda>c. c \<notin> {CHR 0x0A, CHR 0x0D}) k"
  proof -
    have "\<forall>w \<in> set (split_char CHR ''-'' k). list_all hex_digit w" using k by (auto simp: managedID_def Let_def list_all_iff)
    then have "set (join ''-'' (split_char CHR ''-'' k)) \<subseteq> {CHR ''-''} \<union> {c. hex_digit c}"
      using join_subset [of "''-''" "split_char CHR ''-'' k"] by (fastforce simp: list_all_iff)
    then have "set k \<subseteq> {CHR ''-''} \<union> {c. hex_digit c}" by (simp add: join_split_char)
    then show ?thesis by (auto simp: list_all_iff hex_digit_def is_digit_def in_range_def)
  qed
  moreover have "list_all (\<lambda>c. c \<notin> {CHR 0x0A, CHR 0x0D}) (base64_encode base64_url l)"
    using base64_payload [of l]
    by (auto simp: list_all_iff payload_char_def is_alnum_def is_digit_def is_lower_def is_upper_def in_range_def)
  ultimately show "plain_line (activeMarker k)" "plain_line (suspendedMarker k l)"
    by (auto simp: plain_line_def activeMarker_def suspendedMarker_def marker_prefix_def list_all_iff last_append
             dest!: last_in_set)
qed

lemma reread:
  assumes "\<forall>l \<in> set ls. plain_line l" shows "parseRecords user (splitContent (crontab_text ls)) = parseRecords user ls"
proof (cases "ls = ['''']")
  case True
  then have "splitContent (crontab_text ls) = []" by (simp add: crontab_text_def splitContent_def trim_suffix_def has_suffix_def)
  moreover have "managedMarker [] = None" by (simp add: managedMarker_def marker_prefix_def)
  then have "parseRecords user [''''] = Some []"
    by (simp add: parseRecords_def parse_records.simps record_at_def trim_space_id skipped_line_def marker_prefix_def)
  ultimately show ?thesis using True by (auto simp: parseRecords_def)
next
  case False
  then show ?thesis using split_installed [OF assms] by simp
qed

lemma plain_no_breaks: "CHR 0x0A \<notin> set l \<Longrightarrow> CHR 0x0D \<notin> set l \<Longrightarrow> plain_line l"
  unfolding plain_line_def by (metis last_in_set)

lemma replacement_plain:
  assumes "managedID k" "record_ok user ls r" "\<forall>l \<in> set ls. plain_line l" "action = ''update'' \<Longrightarrow> validTaskInput s c"
    "edited action k s c r = Some (replacement, enabled)" "l \<in> set replacement"
  shows "plain_line l"
proof -
  have "plain_line (rcLine r)"
    using assms(2,3) by (auto simp: record_ok_def plain_no_breaks split: if_splits)
  moreover have "action = ''update'' \<Longrightarrow> plain_line (job_line s c)"
    using assms(4) job_line_breaks [of s c] by (simp add: plain_no_breaks)
  ultimately show ?thesis
    using assms(5,6) marker_plain [OF assms(1)] by (auto simp: edited_def Let_def split: if_splits)
qed

lemma replace_lines_subset: "set (replace_lines ls i j new) \<subseteq> set ls \<union> set new"
  using set_take_subset [of i ls] set_drop_subset [of "j + 1" ls] by (auto simp: replace_lines_def)

text \<open>
  C17: changing, suspending, resuming or deleting one task of a crontab and reading the installed text again
  gives every task before it unchanged, then the task as the action says (or nothing after a deletion),
  then every task after it unchanged but for its place and, for tasks AegisAdmin does not manage, its
  number among equal lines. The one exception is exact: when the line that is to run reads as a comment or
  an assignment, or the line to suspend holds a carriage return, the new crontab cannot be read at all.
\<close>

theorem cron_edit_exact:
  assumes "parseRecords user (splitContent content) = Some (rs1 @ r # rs2)" and "user \<noteq> ''''" and "managedID k"
    and "\<forall>l \<in> set (splitContent content). plain_line l"
    and "action = ''update'' \<longrightarrow> validTaskInput s c"
    and "edited action k s c r = Some (replacement, enabled)"
  shows "let installed = crontab_text (replace_lines (splitContent content) (rcStart r) (rcEnd r) replacement);
             found = parseRecords user (splitContent installed)
         in if stays_readable action s c r
            then \<exists>rs2'. found = Some (rs1 @ task_after action k s c r @ rs2') \<and> list_all2 same_task rs2 rs2'
            else found = None"
proof -
  obtain occ where full: "parse_records user 0 [] (splitContent content) = Some (rs1 @ r # rs2, occ)"
    using assms(1) by (auto simp: parseRecords_def)
  have "record_ok user (splitContent content) r" by (rule parse_records_ok [OF full]) simp
  then have "\<forall>l \<in> set replacement. plain_line l"
    using replacement_plain [OF assms(3) _ assms(4) _ assms(6)] assms(5) by blast
  then have "\<forall>l \<in> set (replace_lines (splitContent content) (rcStart r) (rcEnd r) replacement). plain_line l"
    using assms(4) replace_lines_subset by blast
  from reread [OF this, of user] parse_edit [OF assms(1-3) _ assms(6)] assms(5) show ?thesis by (simp add: Let_def)
qed

text \<open>
  Creating a task with input the domain accepts, and reading the installed text again, gives the tasks
  there were and the new one, enabled, with the schedule and command entered; unless the new line reads as
  a comment or an assignment, and then the crontab cannot be read any more.
\<close>

theorem cron_create_exact:
  assumes "parseRecords user (splitContent content) = Some rs" and "user \<noteq> ''''" and "managedID k"
    and "\<forall>l \<in> set (splitContent content). plain_line l" and "validTaskInput s c"
  shows "parseRecords user (splitContent (crontab_text (splitContent content @ [activeMarker k, job_line s c]))) =
    (if skipped_line (job_line s c) then None
     else Some (rs @ [\<lparr>rcID = k, rcLine = job_line s c, rcSchedule = normalizeSchedule s, rcCommand = trim_space c,
                       rcStart = length (splitContent content), rcEnd = length (splitContent content) + 1,
                       rcEnabled = True, rcManaged = True\<rparr>]))"
proof -
  obtain occ where full: "parse_records user 0 [] (splitContent content) = Some (rs, occ)"
    using assms(1) by (auto simp: parseRecords_def)
  have "\<forall>l \<in> set (splitContent content @ [activeMarker k, job_line s c]). plain_line l"
    using assms(4) marker_plain [OF assms(3)] plain_no_breaks [OF job_line_breaks [OF assms(5)]] by simp
  from reread [OF this, of user] show ?thesis
    by (simp add: parseRecords_def parse_records_append [OF full] parse_active [OF assms(3)] active_record_def
                  trim_space_job_line [OF assms(5)] parseJobLine_job_line [OF assms(5,2)])
qed

text \<open>A crontab with one task that is suspended, then resumed.\<close>

definition sample_id :: string where
  "sample_id = ''01234567-89ab-4cde-8f01-23456789abcd''"

definition sample_crontab :: string where
  "sample_crontab = crontab_text [''MAILTO=root'', suspendedMarker sample_id ''@daily /bin/true'']"

definition sample_record :: cron_record where
  "sample_record = \<lparr>rcID = sample_id, rcLine = ''@daily /bin/true'', rcSchedule = ''@daily'', rcCommand = ''/bin/true'',
                    rcStart = 1, rcEnd = 1, rcEnabled = False, rcManaged = True\<rparr>"

lemma sample_facts:
  "parseRecords ''bob'' (splitContent sample_crontab) = Some [sample_record]" "managedID sample_id"
  "\<forall>l \<in> set (splitContent sample_crontab). plain_line l"
  "edited ''resume'' sample_id '''' '''' sample_record = Some ([activeMarker sample_id, ''@daily /bin/true''], True)"
  "stays_readable ''resume'' '''' '''' sample_record"
  "validTaskInput ''# * * * *'' ''x''" "skipped_line (job_line ''# * * * *'' ''x'')"
  by code_simp+

theorem cron_edit_exact_witness:
  "parseRecords ''bob'' (splitContent (crontab_text (replace_lines (splitContent sample_crontab) 1 1
       [activeMarker sample_id, ''@daily /bin/true'']))) =
     Some [sample_record\<lparr>rcEnd := 2, rcEnabled := True\<rparr>]"
  using cron_edit_exact [of "''bob''" sample_crontab "[]" sample_record "[]" sample_id "''resume''" "''''" "''''"
      "[activeMarker sample_id, ''@daily /bin/true'']" True]
  by (simp add: sample_facts Let_def task_after_def) (simp add: sample_record_def)

theorem cron_create_exact_witness:
  "parseRecords ''bob'' (splitContent (crontab_text (splitContent sample_crontab @ [activeMarker sample_id, job_line ''# * * * *'' ''x'']))) =
     None"
  using cron_create_exact [of "''bob''" sample_crontab "[sample_record]" sample_id "''# * * * *''" "''x''"]
  by (simp add: sample_facts)

end
