(* ===== verification/Domain_Cron_Jobs.thy ===== *)
theory Domain_Cron_Jobs
  imports Domain_Crontab Go_Path
begin

text \<open>
  The users whose crontabs may be edited and the list of all jobs of the host (\<^verbatim>\<open>internal/domain/cron\<close>: \<^verbatim>\<open>users.go\<close>
  and \<^verbatim>\<open>jobs.go\<close>). The files and directories are parameters: what reading them answers.
\<close>

section \<open>Users\<close>

datatype file_read = Missing | Unreadable | Content string

record passwd_entry =
  peName :: string
  peUid :: int
  peHome :: string
  peShell :: string

record cron_user =
  cuName :: string
  cuUID :: int
  cuSystem :: bool

definition safeName :: "string \<Rightarrow> bool" where
  "safeName s \<longleftrightarrow> s \<noteq> '''' \<and> list_all (\<lambda>c. is_alnum c \<or> c = CHR ''_'' \<or> c = CHR ''-'') s"

fun read_entries :: "string list \<Rightarrow> passwd_entry list option" where
  "read_entries [] = Some []"
| "read_entries (line # rest) =
     (if line = '''' then read_entries rest
      else let parts = split_char CHR '':'' line in
        if length parts \<noteq> 7 \<or> \<not> safeName (parts ! 0) then None
        else if \<not> snd (atoi (parts ! 2)) \<or> fst (atoi (parts ! 2)) < 0 then None
        else map_option ((#) \<lparr>peName = parts ! 0, peUid = fst (atoi (parts ! 2)), peHome = parts ! 5, peShell = parts ! 6\<rparr>)
               (read_entries rest))"

definition readPasswd :: "string option \<Rightarrow> passwd_entry list option" where
  "readPasswd content = (case content of None \<Rightarrow> None | Some text \<Rightarrow> read_entries (lines_of text))"

fun first_minimum :: "string list \<Rightarrow> int" where
  "first_minimum [] = 1000"
| "first_minimum (raw # rest) =
     (case words (without_comment raw) of
        [key, v] \<Rightarrow> if key = ''UID_MIN'' \<and> snd (atoi v) \<and> 0 < fst (atoi v) then fst (atoi v) else first_minimum rest
      | _ \<Rightarrow> first_minimum rest)"

definition readMinimumUID :: "string option \<Rightarrow> int" where
  "readMinimumUID content = (case content of None \<Rightarrow> 1000 | Some text \<Rightarrow> first_minimum (lines_of text))"

fun allowed_names :: "string list \<Rightarrow> string list option" where
  "allowed_names [] = Some []"
| "allowed_names (raw # rest) =
     (let v = without_comment raw in
      if v = '''' then allowed_names rest
      else if \<not> safeName v \<or> v = ''root'' then None
      else map_option ((#) v) (allowed_names rest))"

definition readAllowedUsers :: "file_read \<Rightarrow> string list option" where
  "readAllowedUsers file =
     (case file of Missing \<Rightarrow> Some [] | Unreadable \<Rightarrow> None | Content text \<Rightarrow> allowed_names (lines_of text))"

definition usableLogin :: "passwd_entry \<Rightarrow> bool" where
  "usableLogin e \<longleftrightarrow>
     IsAbs (peHome e) \<and> IsAbs (peShell e) \<and> Base (peShell e) \<noteq> ''nologin'' \<and> Base (peShell e) \<noteq> ''false''"

text \<open>What the domain reads about the accounts of the host.\<close>

record accounts_files =
  passwd_file :: "string option"
  login_defs :: "string option"
  allowed_users :: file_read
  denied_users :: file_read

definition cron_user_of :: "int \<Rightarrow> string list \<Rightarrow> string list \<Rightarrow> passwd_entry \<Rightarrow> cron_user list" where
  "cron_user_of minimum explicit denied e =
     (if peName e = ''root'' \<or> peUid e = 65534 then []
      else if peName e \<in> set denied then []
      else let human = (minimum \<le> peUid e \<and> usableLogin e)
           in if human \<or> peName e \<in> set explicit
              then [\<lparr>cuName = peName e, cuUID = peUid e, cuSystem = (\<not> human)\<rparr>] else [])"

definition cron_users :: "accounts_files \<Rightarrow> cron_user list option" where
  "cron_users fs =
     (case readPasswd (passwd_file fs) of
        None \<Rightarrow> None
      | Some es \<Rightarrow>
          (case readAllowedUsers (allowed_users fs) of
             None \<Rightarrow> None
           | Some explicit \<Rightarrow>
               (case readAllowedUsers (denied_users fs) of
                  None \<Rightarrow> None
                | Some denied \<Rightarrow>
                    Some (sort_key (\<lambda>u. map byte_val (cuName u))
                            (concat (map (cron_user_of (readMinimumUID (login_defs fs)) explicit denied) es))))))"

definition editable :: "accounts_files \<Rightarrow> string \<Rightarrow> bool" where
  "editable fs who \<longleftrightarrow> (case cron_users fs of None \<Rightarrow> False | Some us \<Rightarrow> who \<in> set (map cuName us))"

section \<open>Jobs\<close>

record cron_job =
  jID :: string
  jSource :: string
  jType :: string
  jUser :: string
  jSchedule :: string
  jCommand :: string
  jLine :: "nat option"
  jEnabled :: bool
  jEditable :: bool
  jManaged :: bool

text \<open>\<^verbatim>\<open>/etc/cron\.(hourly|daily|weekly|monthly)(?:\s|;|\}|$)\<close>, anywhere in a command.\<close>

definition periodic_kinds :: "string list" where
  "periodic_kinds = [''hourly'', ''daily'', ''weekly'', ''monthly'']"

definition periodic_here :: "string \<Rightarrow> string list" where
  "periodic_here s =
     filter (\<lambda>kind. has_prefix s (''/etc/cron.'' @ kind) \<and>
               (case drop (10 + length kind) s of [] \<Rightarrow> True | c # cs \<Rightarrow> re_space c \<or> c = CHR '';'' \<or> c = CHR ''}''))
       periodic_kinds"

fun periodicPath :: "string \<Rightarrow> string option" where
  "periodicPath [] = None"
| "periodicPath (c # cs) = (case periodic_here (c # cs) of kind # kinds \<Rightarrow> Some kind | [] \<Rightarrow> periodicPath cs)"

record jobs_host =
  job_accounts :: accounts_files
  job_dir :: "string \<Rightarrow> (string \<times> bool option) list option option"
  job_file :: "string \<Rightarrow> string option"
  job_executable :: "string \<Rightarrow> bool"
  job_regular :: "string \<Rightarrow> bool"
  job_lookup :: "string \<Rightarrow> bool"

text \<open>
  The files of a directory. \<^verbatim>\<open>ReadDir\<close> answers that the directory does not exist (\<open>None\<close>), that it cannot be read
  (\<open>Some None\<close>), or its entries by name, each with whether it is a regular file, when its status can be read.
\<close>

definition safeFiles :: "jobs_host \<Rightarrow> string \<Rightarrow> string list option" where
  "safeFiles fs directory =
     (case job_dir fs directory of
        None \<Rightarrow> Some []
      | Some None \<Rightarrow> None
      | Some (Some es) \<Rightarrow>
          let safe = filter (safeName \<circ> fst) es in
          if list_ex (\<lambda>e. snd e = None) safe then None
          else Some (sort_strings (map (\<lambda>e. Join2 directory (fst e)) (filter (\<lambda>e. snd e = Some True) safe))))"

definition job_line_text :: "nat option \<Rightarrow> string" where
  "job_line_text line = (case line of None \<Rightarrow> ''None'' | Some n \<Rightarrow> decimal n)"

definition append_job :: "cron_job \<Rightarrow> cron_job list \<Rightarrow> cron_job list option" where
  "append_job j js =
     (if jUser j = '''' \<or> jSchedule j = '''' \<or> jCommand j = '''' then None
      else Some (js @ [if jID j \<noteq> '''' then j
                       else j\<lparr>jID := taskIdentifier ''readonly''
                                      [jSource j, jType j, jUser j, jSchedule j, jCommand j, job_line_text (jLine j)]\<rparr>]))"

fun append_scripts :: "jobs_host \<Rightarrow> string \<Rightarrow> string list \<Rightarrow> cron_job list \<Rightarrow> cron_job list option" where
  "append_scripts fs schedule [] js = Some js"
| "append_scripts fs schedule (script # scripts) js =
     (if \<not> job_executable fs script then append_scripts fs schedule scripts js
      else case append_job \<lparr>jID = '''', jSource = script, jType = ''periodic'', jUser = ''root'', jSchedule = schedule,
                             jCommand = script, jLine = None, jEnabled = True, jEditable = False, jManaged = False\<rparr> js of
             None \<Rightarrow> None
           | Some js' \<Rightarrow> append_scripts fs schedule scripts js')"

definition expandPeriodic :: "jobs_host \<Rightarrow> string \<Rightarrow> string \<Rightarrow> cron_job list \<Rightarrow> cron_job list option" where
  "expandPeriodic fs kind schedule js =
     (case safeFiles fs (''/etc/cron.'' @ kind) of
        None \<Rightarrow> None
      | Some scripts \<Rightarrow> append_scripts fs schedule scripts js)"

text \<open>
  One line of a crontab. The state is the identifier of a marker that waits for its line, the occurrences
  counted so far, and the jobs found.
\<close>

type_synonym listing = "string \<times> occurrences \<times> cron_job list"

record crontab_source =
  csPath :: string
  csKind :: string
  csUser :: string
  csExpand :: bool
  csEditable :: "string list"

definition list_suspended :: "crontab_source \<Rightarrow> nat \<Rightarrow> string \<Rightarrow> string \<Rightarrow> cron_job list \<Rightarrow> cron_job list option" where
  "list_suspended cs number k payload js =
     (if payload = '''' then None
      else case base64_decode False base64_url payload of
             None \<Rightarrow> None
           | Some decoded \<Rightarrow>
               if decoded = '''' \<or> CHR 0x0D \<in> set decoded \<or> CHR 0x0A \<in> set decoded then None
               else (case parseJobLine decoded (csUser cs) of
                       None \<Rightarrow> None
                     | Some (schedule, who, command) \<Rightarrow>
                         append_job \<lparr>jID = k, jSource = csPath cs, jType = ''user'', jUser = who, jSchedule = schedule,
                           jCommand = command, jLine = Some number, jEnabled = False, jEditable = (who \<in> set (csEditable cs)),
                           jManaged = True\<rparr> js))"

definition list_job :: "jobs_host \<Rightarrow> crontab_source \<Rightarrow> nat \<Rightarrow> string \<Rightarrow> listing \<Rightarrow> listing option" where
  "list_job fs cs number line = (\<lambda>(waiting, occ, js).
     (case parseJobLine line (csUser cs) of
        None \<Rightarrow> None
      | Some (schedule, who, command) \<Rightarrow>
          (case if csExpand cs then periodicPath command else None of
             Some kind \<Rightarrow>
               if waiting \<noteq> '''' then None
               else map_option (\<lambda>js'. (waiting, occ, js')) (expandPeriodic fs kind schedule js)
           | None \<Rightarrow>
               let key = normalizeSchedule schedule @ [CHR 0x00] @ trim_space command;
                   legacy = (waiting = '''' \<and> csUser cs \<noteq> '''');
                   occ' = (if legacy then AList.update key (Suc (occurred occ key)) occ else occ);
                   k = (if legacy then legacyTaskIdentifier (csUser cs) schedule command (Suc (occurred occ key)) else waiting)
               in map_option (\<lambda>js'. ('''', occ', js'))
                    (append_job \<lparr>jID = k, jSource = csPath cs, jType = csKind cs, jUser = who, jSchedule = schedule,
                       jCommand = command, jLine = Some number, jEnabled = True,
                       jEditable = (csKind cs = ''user'' \<and> who \<in> set (csEditable cs)), jManaged = (waiting \<noteq> '''')\<rparr> js))))"

definition list_line :: "jobs_host \<Rightarrow> crontab_source \<Rightarrow> nat \<Rightarrow> string \<Rightarrow> listing \<Rightarrow> listing option" where
  "list_line fs cs number raw = (\<lambda>(waiting, occ, js).
     (case managedMarker (trim_space raw) of
        Some (k, suspended, payload) \<Rightarrow>
          if csUser cs = '''' \<or> waiting \<noteq> '''' then None
          else if \<not> suspended then (if payload \<noteq> '''' then None else Some (k, occ, js))
          else map_option (\<lambda>js'. (waiting, occ, js')) (list_suspended cs number k payload js)
      | None \<Rightarrow>
          if has_prefix (trim_space raw) marker_prefix then None
          else if skipped_line (trim_space raw) then Some (waiting, occ, js)
          else list_job fs cs number (trim_space raw) (waiting, occ, js)))"

fun list_lines :: "jobs_host \<Rightarrow> crontab_source \<Rightarrow> nat \<Rightarrow> string list \<Rightarrow> listing \<Rightarrow> listing option" where
  "list_lines fs cs number [] st = Some st"
| "list_lines fs cs number (raw # rest) st =
     (case list_line fs cs number raw st of None \<Rightarrow> None | Some st' \<Rightarrow> list_lines fs cs (Suc number) rest st')"

definition list_content :: "jobs_host \<Rightarrow> crontab_source \<Rightarrow> string \<Rightarrow> cron_job list \<Rightarrow> cron_job list option" where
  "list_content fs cs content js =
     (if \<not> valid_utf8 content then None
      else case list_lines fs cs 1 (lines_of (replace_crlf content)) ('''', [], js) of
             None \<Rightarrow> None
           | Some (waiting, occ, js') \<Rightarrow> if waiting \<noteq> '''' then None else Some js')"

definition parseCrontab :: "jobs_host \<Rightarrow> crontab_source \<Rightarrow> cron_job list \<Rightarrow> cron_job list option" where
  "parseCrontab fs cs js =
     (case job_file fs (csPath cs) of None \<Rightarrow> None | Some content \<Rightarrow> list_content fs cs content js)"

fun anacron_lines :: "jobs_host \<Rightarrow> string \<Rightarrow> nat \<Rightarrow> string list \<Rightarrow> cron_job list \<Rightarrow> cron_job list option" where
  "anacron_lines fs path number [] js = Some js"
| "anacron_lines fs path number (raw # rest) js =
     (if skipped_line (trim_space raw) then anacron_lines fs path (Suc number) rest js
      else case re_line 3 (trim_space raw) of
             None \<Rightarrow> None
           | Some (ws, command) \<Rightarrow>
               let schedule = ''@anacron '' @ join '' '' ws in
               (case (case periodicPath command of
                        Some kind \<Rightarrow> expandPeriodic fs kind schedule js
                      | None \<Rightarrow> append_job \<lparr>jID = '''', jSource = path, jType = ''anacron'', jUser = ''root'', jSchedule = schedule,
                                  jCommand = command, jLine = Some number, jEnabled = True, jEditable = False, jManaged = False\<rparr> js) of
                  None \<Rightarrow> None
                | Some js' \<Rightarrow> anacron_lines fs path (Suc number) rest js'))"

definition parseAnacron :: "jobs_host \<Rightarrow> string \<Rightarrow> cron_job list \<Rightarrow> cron_job list option" where
  "parseAnacron fs path js =
     (case job_file fs path of
        None \<Rightarrow> None
      | Some content \<Rightarrow> if \<not> valid_utf8 content then None else anacron_lines fs path 1 (lines_of content) js)"

text \<open>The order of the list.\<close>

definition padded :: "nat option \<Rightarrow> string" where
  "padded line =
     (case line of
        None \<Rightarrow> ''-00000000001''
      | Some n \<Rightarrow> replicate (12 - length (decimal n)) CHR ''0'' @ decimal n)"

definition job_key :: "cron_job \<Rightarrow> nat list" where
  "job_key j = map byte_val (join [CHR 0x00] [jType j, jSource j, padded (jLine j), jUser j, jSchedule j, jCommand j])"

fun parse_crontabs :: "jobs_host \<Rightarrow> crontab_source list \<Rightarrow> cron_job list \<Rightarrow> cron_job list option" where
  "parse_crontabs fs [] js = Some js"
| "parse_crontabs fs (cs # rest) js =
     (case parseCrontab fs cs js of None \<Rightarrow> None | Some js' \<Rightarrow> parse_crontabs fs rest js')"

record jobs_paths =
  jpAnacron :: string
  jpAnacrontab :: string
  jpSystemCrontab :: string
  jpCronDirectory :: string
  jpSpoolDirectory :: string

text \<open>
  All jobs. The spools are checked one by one, so a crontab of an account that does not exist stops the
  list where it comes.
\<close>

fun parse_spools :: "jobs_host \<Rightarrow> string list \<Rightarrow> string list \<Rightarrow> cron_job list \<Rightarrow> cron_job list option" where
  "parse_spools fs who [] js = Some js"
| "parse_spools fs who (path # rest) js =
     (if \<not> job_lookup fs (Base path) then None
      else case parseCrontab fs \<lparr>csPath = path, csKind = ''user'', csUser = Base path, csExpand = True, csEditable = who\<rparr> js of
             None \<Rightarrow> None
           | Some js' \<Rightarrow> parse_spools fs who rest js')"

definition cron_jobs :: "jobs_host \<Rightarrow> jobs_paths \<Rightarrow> cron_job list option" where
  "cron_jobs fs p =
     (case cron_users (job_accounts fs) of
        None \<Rightarrow> None
      | Some us \<Rightarrow>
          let who = map cuName us;
              anacron = (job_executable fs (jpAnacron p) \<and> job_regular fs (jpAnacrontab p));
              system = (\<lambda>path expand. \<lparr>csPath = path, csKind = ''system'', csUser = '''', csExpand = expand, csEditable = who\<rparr>)
          in case parse_crontabs fs (if job_regular fs (jpSystemCrontab p) then [system (jpSystemCrontab p) (\<not> anacron)] else []) [] of
               None \<Rightarrow> None
             | Some js1 \<Rightarrow>
                 (case safeFiles fs (jpCronDirectory p) of
                    None \<Rightarrow> None
                  | Some files \<Rightarrow>
                      (case parse_crontabs fs (map (\<lambda>path. system path True) files) js1 of
                         None \<Rightarrow> None
                       | Some js2 \<Rightarrow>
                           (case safeFiles fs (jpSpoolDirectory p) of
                              None \<Rightarrow> None
                            | Some spools \<Rightarrow>
                                (case parse_spools fs who spools js2 of
                                   None \<Rightarrow> None
                                 | Some js3 \<Rightarrow>
                                     map_option (sort_key job_key)
                                       (if anacron then parseAnacron fs (jpAnacrontab p) js3 else Some js3))))))"

section \<open>Who may be edited\<close>

lemma editable_account:
  assumes "editable fs who"
  obtains e es explicit denied where "readPasswd (passwd_file fs) = Some es" "e \<in> set es" "peName e = who"
    "who \<noteq> ''root''" "peUid e \<noteq> 65534" "readAllowedUsers (denied_users fs) = Some denied" "who \<notin> set denied"
    "readAllowedUsers (allowed_users fs) = Some explicit"
    "readMinimumUID (login_defs fs) \<le> peUid e \<and> usableLogin e \<or> who \<in> set explicit"
  using assms
  by (fastforce simp: editable_def cron_users_def cron_user_of_def Let_def split: option.splits if_splits)

lemma read_entries_names: "read_entries ls = Some es \<Longrightarrow> e \<in> set es \<Longrightarrow> safeName (peName e)"
  by (induction ls arbitrary: es) (auto simp: Let_def split: if_splits)

lemma editable_safeName: "editable fs who \<Longrightarrow> safeName who"
  by (elim editable_account) (auto simp: readPasswd_def read_entries_names split: option.splits)

section \<open>The list after a task was created\<close>

lemma list_lines_append:
  "list_lines fs cs n (xs @ ys) st =
     (case list_lines fs cs n xs st of None \<Rightarrow> None | Some st' \<Rightarrow> list_lines fs cs (n + length xs) ys st')"
  by (induction xs arbitrary: n st) (auto split: option.splits)

lemma lines_of_crontab_text:
  assumes "\<forall>l \<in> set ls. plain_line l" shows "lines_of (replace_crlf (crontab_text ls)) = ls @ ['''']"
proof -
  have "replace_crlf (crontab_text ls) = crontab_text ls"
    using crontab_text_no_crlf [OF assms] by (intro replace_crlf_id) blast
  moreover have "crontab_text ls = join [CHR 0x0A] (ls @ [''''])"
    by (induction ls) (simp_all add: crontab_text_Cons join_Cons, simp add: crontab_text_def)
  moreover have "lines_of (join [CHR 0x0A] (ls @ [''''])) = ls @ ['''']"
    using assms by (intro split_char_join) (auto simp: plain_line_def)
  ultimately show ?thesis by simp
qed

lemma list_line_empty: "list_line fs cs n '''' st = Some st"
  by (cases st) (simp add: list_line_def trim_space_id managedMarker_def marker_prefix_def skipped_line_def)

lemma list_content_lines:
  assumes "\<forall>l \<in> set ls. plain_line l"
  shows "list_content fs cs (crontab_text ls) js =
    (if \<not> valid_utf8 (crontab_text ls) then None
     else case list_lines fs cs 1 ls ('''', [], js) of
            None \<Rightarrow> None | Some (waiting, occ, js') \<Rightarrow> if waiting \<noteq> '''' then None else Some js')"
  by (simp add: list_content_def lines_of_crontab_text [OF assms] list_lines_append list_line_empty split: option.split)

lemma list_line_active:
  assumes "managedID k" "csUser cs \<noteq> ''''" shows "list_line fs cs n (activeMarker k) ('''', occ, js) = Some (k, occ, js)"
  using assms by (simp add: list_line_def managedMarker_active)

lemma marker_skipped: "has_prefix s ''#'' \<Longrightarrow> skipped_line s"
  by (simp add: skipped_line_def)

lemma managedMarker_comment: "managedMarker s = Some m \<Longrightarrow> has_prefix s ''#''" "has_prefix s marker_prefix \<Longrightarrow> has_prefix s ''#''"
  by (auto simp: managedMarker_def marker_prefix_def has_prefix_iff split: if_splits)

text \<open>A line after a marker: it becomes the task of the marker, or the crontab cannot be listed.\<close>

definition listed_job :: "crontab_source \<Rightarrow> nat \<Rightarrow> string \<Rightarrow> string \<Rightarrow> string \<Rightarrow> cron_job" where
  "listed_job cs number k schedule command =
     \<lparr>jID = k, jSource = csPath cs, jType = csKind cs, jUser = csUser cs, jSchedule = normalizeSchedule schedule,
      jCommand = trim_space command, jLine = Some number, jEnabled = True,
      jEditable = (csKind cs = ''user'' \<and> csUser cs \<in> set (csEditable cs)), jManaged = True\<rparr>"

lemma list_line_job:
  assumes valid: "validTaskInput s c" and user: "csUser cs \<noteq> ''''" and k: "k \<noteq> ''''" and line: "\<not> skipped_line (job_line s c)"
  shows "list_line fs cs n (job_line s c) (k, occ, js) =
    (if csExpand cs \<and> periodicPath (trim_space c) \<noteq> None then None else Some ('''', occ, js @ [listed_job cs n k s c]))"
proof -
  have "managedMarker (job_line s c) = None" "\<not> has_prefix (job_line s c) marker_prefix"
    using line managedMarker_comment marker_skipped by (metis option.exhaust)+
  moreover have "normalizeSchedule s \<noteq> ''''" "trim_space c \<noteq> ''''"
    using validTaskInput_parts(1,2) [OF valid] normalize_head [of s] by (metis append_is_Nil_conv list.exhaust)+
  ultimately show ?thesis
    using k user line
    by (simp add: list_line_def list_job_def trim_space_job_line [OF valid] parseJobLine_job_line [OF valid user] append_job_def
                  listed_job_def split: option.split)
qed

lemma list_line_waiting:
  assumes valid: "validTaskInput s c" and k: "k \<noteq> ''''" and line: "skipped_line (job_line s c)"
  shows "list_line fs cs n (job_line s c) (k, occ, js) \<in> {None, Some (k, occ, js)}"
  using line k by (auto simp: list_line_def trim_space_job_line [OF valid] split: option.split)


text \<open>An empty crontab in which a task is created that calls the daily scripts.\<close>

definition sample_source :: crontab_source where
  "sample_source = \<lparr>csPath = ''/var/spool/cron/crontabs/bob'', csKind = ''user'', csUser = ''bob'', csExpand = True, csEditable = [''bob'']\<rparr>"

definition sample_jobs_host :: jobs_host where
  "sample_jobs_host =
     \<lparr>job_accounts = \<lparr>passwd_file = Some ''bob:x:1000:1000::/home/bob:/bin/sh'', login_defs = None, allowed_users = Missing, denied_users = Missing\<rparr>,
      job_dir = (\<lambda>_. None), job_file = (\<lambda>_. None), job_executable = (\<lambda>_. False), job_regular = (\<lambda>_. False), job_lookup = (\<lambda>_. True)\<rparr>"

lemma list_empty: "list_content fs cs (crontab_text []) js = Some js"
  by (subst list_content_lines) (simp_all add: crontab_text_def valid_utf8_ascii)

lemma sample_listing:
  "validTaskInput ''@daily'' ''run-parts /etc/cron.daily''" "periodicPath (trim_space ''run-parts /etc/cron.daily'') = Some ''daily''"
  "csUser sample_source \<noteq> ''''" "csExpand sample_source"
  by code_simp+

lemma sample_listing_utf8:
  "valid_utf8 (crontab_text ([] @ [activeMarker sample_id, job_line ''@daily'' ''run-parts /etc/cron.daily'']))"
  by (rule valid_utf8_ascii) code_simp


end
