(* ===== verification/Backend_Effects.thy ===== *)
theory Backend_Effects
  imports Backend_System
begin

text \<open>
  Effects that are not commands. What a domain does to the file system is recorded in the same history as
  the commands it runs, as an entry whose first word stands in parentheses: \<^verbatim>\<open>(mkdir)\<close>, \<^verbatim>\<open>(write)\<close>, \<^verbatim>\<open>(remove)\<close> and so
  on, with the path and, for a write, the content. Whether such a step succeeds, and what it returns, is
  answered by the executor too, so that every error the source checks for is a branch of the model.
\<close>

section \<open>Steps until the first failure\<close>

fun attempts :: "executor \<Rightarrow> string list list \<Rightarrow> history \<Rightarrow> bool \<times> history" where
  "attempts x [] h = (True, h)"
| "attempts x (argv # rest) h =
     (case run_command x argv h of (r, h1) \<Rightarrow> if succeeded r then attempts x rest h1 else (False, h1))"

lemma attempts_extends:
  "\<forall>argv \<in> set steps. P argv \<Longrightarrow> extends P h (snd (attempts x steps h))"
proof (induction steps arbitrary: h)
  case Nil
  then show ?case by simp
next
  case (Cons argv rest)
  have "extends P (h @ [argv]) (snd (attempts x rest (h @ [argv])))" using Cons by simp
  then show ?case using Cons.prems extends_trans [of P h "h @ [argv]"] by (simp add: run_command_def)
qed

lemma extends_add [intro]: "extends P h h' \<Longrightarrow> P argv \<Longrightarrow> extends P h (h' @ [argv])"
  by (auto simp: extends_def)

lemma extends_adds: "extends P h h' \<Longrightarrow> list_all P new \<Longrightarrow> extends P h (h' @ new)"
  by (auto simp: extends_def)

lemma attempts_after:
  "attempts x steps h' = (ok, h'') \<Longrightarrow> extends P h h' \<Longrightarrow> list_all P steps \<Longrightarrow> extends P h h''"
  using attempts_extends [of steps P h' x] extends_trans [of P h h' h''] by (simp add: list_all_iff)

lemma run_command_after:
  "run_command x argv h' = (r, h'') \<Longrightarrow> extends P h h' \<Longrightarrow> P argv \<Longrightarrow> extends P h h''"
  by (auto simp: run_command_eq)

text \<open>Steps that are all made; the result is whether all succeeded.\<close>

fun all_steps :: "executor \<Rightarrow> string list list \<Rightarrow> history \<Rightarrow> bool \<times> history" where
  "all_steps x [] h = (True, h)"
| "all_steps x (argv # rest) h =
     (case run_command x argv h of (r, h1) \<Rightarrow> case all_steps x rest h1 of (ok, h2) \<Rightarrow> (succeeded r \<and> ok, h2))"

lemma all_steps_history [simp]: "snd (all_steps x steps h) = h @ steps"
  by (induction steps arbitrary: h) (simp_all add: run_command_def split: prod.split, metis append.assoc append_Cons append_Nil snd_conv)

lemma all_steps_eq: "all_steps x steps h = (ok, h') \<Longrightarrow> h' = h @ steps"
  using all_steps_history [of x steps h] by simp

lemma extends_append: "extends P h (h @ new) \<longleftrightarrow> list_all P new"
  by (auto simp: extends_def)

text \<open>The answer to a request together with the history, when an earlier step already gave it.\<close>

definition finally_step :: "string list \<Rightarrow> 'a \<times> history \<Rightarrow> 'a \<times> history" where
  "finally_step argv = (\<lambda>(a, h). (a, h @ [argv]))"

lemma finally_step_simps [simp]: "fst (finally_step argv p) = fst p" "snd (finally_step argv p) = snd p @ [argv]"
  by (simp_all add: finally_step_def split: prod.split)

section \<open>Text\<close>

text \<open>\<^verbatim>\<open>strings.ToValidUTF8\<close> with the replacement character: one for each run of invalid bytes.\<close>

function to_valid :: "bool \<Rightarrow> string \<Rightarrow> string" where
  "to_valid invalid s =
     (if s = [] then []
      else let w = snd (decode_rune s) in
        if decode_rune s = (0xFFFD, 1)
        then (if invalid then [] else encode_rune 0xFFFD) @ to_valid True (drop w s)
        else take w s @ to_valid False (drop w s))"
  by pat_completeness auto
termination
proof (relation "measure (length \<circ> snd)", goal_cases)
  case 1
  then show ?case by simp
next
  case (2 invalid s x)
  then show ?case using decode_rune_width_pos [of s] by simp
next
  case (3 invalid s x)
  then show ?case using decode_rune_width_pos [of s] by simp
qed

declare to_valid.simps [simp del]

definition ToValidUTF8 :: "string \<Rightarrow> string" where
  "ToValidUTF8 s = to_valid False s"

text \<open>
  The lines \<^verbatim>\<open>bufio.Scanner\<close> gives, up to the first that does not fit its buffer of 64 KiB.
\<close>

definition drop_cr :: "string \<Rightarrow> string" where
  "drop_cr l = (if l \<noteq> [] \<and> last l = CHR 0x0D then butlast l else l)"

definition scan_lines :: "string \<Rightarrow> string list" where
  "scan_lines s =
     (let ls = lines_of s; ls = (if last ls = '''' then butlast ls else ls)
      in map drop_cr (takeWhile (\<lambda>l. length l < 65536) ls))"

end
