(* ===== verification/Backup_Runner.thy ===== *)
theory Backup_Runner
  imports Backend_Effects Go_Path
begin

text \<open>
  The backup runner (\<^verbatim>\<open>internal/backup/runner.go\<close>, the program \<^verbatim>\<open>aegisadmin-backup\<close> that cron starts as root): the
  validation of a task and one run of it, from reading the task to the purge of old archives.
\<close>

record backup_task =
  tID :: string
  tName :: string
  tKind :: string
  tSource :: string
  tDestination :: string
  tRemoteHost :: string
  tRemoteUser :: string
  tRemotePath :: string
  tSSHKey :: string
  tRemotePort :: int
  tRetentionDays :: int
  tRemoveLocal :: bool

section \<open>Validation\<close>

definition idPattern :: "string \<Rightarrow> bool" where
  "idPattern s \<longleftrightarrow> length s = 36 \<and> list_all (\<lambda>c. in_range CHR ''a'' CHR ''f'' c \<or> is_digit c \<or> c = CHR ''-'') s"

definition hostPattern :: "string \<Rightarrow> bool" where
  "hostPattern s \<longleftrightarrow>
     s \<noteq> [] \<and> length s \<le> 253 \<and> is_alnum (hd s) \<and> is_alnum (last s) \<and>
     list_all (\<lambda>c. is_alnum c \<or> c = CHR ''.'' \<or> c = CHR ''-'') s"

definition userPattern :: "string \<Rightarrow> bool" where
  "userPattern s \<longleftrightarrow>
     (case s of
        [] \<Rightarrow> False
      | c # cs \<Rightarrow> (is_lower c \<or> c = CHR ''_'') \<and> length cs \<le> 31 \<and>
                 list_all (\<lambda>c. is_lower c \<or> is_digit c \<or> c = CHR ''_'' \<or> c = CHR ''-'') cs)"

definition remotePathPattern :: "string \<Rightarrow> bool" where
  "remotePathPattern s \<longleftrightarrow>
     (case s of [] \<Rightarrow> False | c # cs \<Rightarrow> c = CHR ''/'' \<and> cs \<noteq> [] \<and> list_all (\<lambda>c. is_alnum c \<or> c \<in> set ''_./-'') cs)"

definition databaseListPattern :: "string \<Rightarrow> bool" where
  "databaseListPattern s \<longleftrightarrow>
     list_all (\<lambda>w. w \<noteq> [] \<and> list_all (\<lambda>c. is_alnum c \<or> c \<in> set ''_$-'') w) (split_char CHR '','' s)"

definition control_break :: "string \<Rightarrow> bool" where
  "control_break s \<longleftrightarrow> CHR 0x00 \<in> set s \<or> CHR 0x0D \<in> set s \<or> CHR 0x0A \<in> set s"

abbreviation storage :: string where "storage \<equiv> ''/var/backups/aegisadmin''"
abbreviation key_directory :: string where "key_directory \<equiv> ''/etc/aegisadmin-system/backup-ssh/''"

definition Validate :: "backup_task \<Rightarrow> bool" where
  "Validate t \<longleftrightarrow>
     (idPattern (tID t) \<and> tName t \<noteq> '''' \<and> 0 \<le> tRetentionDays t \<and> tRetentionDays t \<le> 3650) \<and>
     list_all (\<lambda>v. \<not> control_break v)
       [tSource t, tDestination t, tRemoteHost t, tRemoteUser t, tRemotePath t, tSSHKey t] \<and>
     IsAbs (tDestination t) \<and> (tKind t \<noteq> ''mysql'' \<longrightarrow> IsAbs (tSource t)) \<and>
     (Clean (tDestination t) = storage \<or> has_prefix (Clean (tDestination t)) (storage @ ''/'')) \<and>
     (tKind t = ''apache'' \<longrightarrow> Clean (tSource t) = ''/etc/apache2'') \<and>
     (tKind t = ''sites'' \<longrightarrow> Clean (tSource t) = ''/var/www'' \<or> has_prefix (Clean (tSource t)) ''/var/www/'') \<and>
     (tKind t = ''mysql'' \<longrightarrow> tSource t = '''' \<or> tSource t = ''all'' \<or> databaseListPattern (tSource t)) \<and>
     (tRemoteHost t \<noteq> '''' \<longrightarrow>
        hostPattern (tRemoteHost t) \<and> userPattern (tRemoteUser t) \<and> remotePathPattern (tRemotePath t) \<and>
        1 \<le> tRemotePort t \<and> tRemotePort t \<le> 65535) \<and>
     has_prefix (Clean (tSSHKey t)) key_directory"

section \<open>One run\<close>

definition name_ok :: "char \<Rightarrow> bool" where
  "name_ok c \<longleftrightarrow> is_alnum c \<or> c = CHR ''.'' \<or> c = CHR ''_'' \<or> c = CHR ''-''"

text \<open>\<^verbatim>\<open>[^a-zA-Z0-9._-]+\<close> replaced by a dash; \<open>replaced\<close> says that the run has its dash already.\<close>

fun dashed :: "bool \<Rightarrow> string \<Rightarrow> string" where
  "dashed replaced [] = []"
| "dashed replaced (c # cs) =
     (if name_ok c then c # dashed False cs else if replaced then dashed True cs else CHR ''-'' # dashed True cs)"

definition trim_ends :: "string \<Rightarrow> string" where
  "trim_ends s =
     (let end_char = (\<lambda>c. c = CHR ''-'' \<or> c = CHR ''.'')
      in rev (dropWhile end_char (rev (dropWhile end_char s))))"

definition archive_name :: "string \<Rightarrow> string" where
  "archive_name v = (let r = trim_ends (dashed False v) in if r = '''' then ''backup'' else r)"

text \<open>
  What a run finds: the task stored under an identifier (\<open>None\<close> when the file cannot be read or is not a
  task), the time stamp, whether the source is a directory, the size of an archive, and the entries of the
  destination, each with whether it is a regular file older than the retention.
\<close>

record backup_host =
  stored_task :: "string \<Rightarrow> backup_task option"
  stamp_at :: "history \<Rightarrow> string"
  source_directory :: "history \<Rightarrow> string \<Rightarrow> bool"
  archive_size :: "history \<Rightarrow> string \<Rightarrow> int option"
  old_entries :: "history \<Rightarrow> string \<Rightarrow> (string \<times> bool) list option"
  backup_exec :: executor

definition mysqldump_command :: "backup_task \<Rightarrow> string list" where
  "mysqldump_command t =
     (if tSource t \<noteq> '''' \<and> tSource t \<noteq> ''all''
      then [''/usr/bin/mysqldump'', ''--single-transaction'', ''--routines'', ''--events'', ''--triggers'', ''--databases''] @
             split_char CHR '','' (tSource t)
      else [''/usr/bin/mysqldump'', ''--single-transaction'', ''--routines'', ''--events'', ''--triggers'', ''--all-databases''])"

text \<open>
  Both kinds of archive are written to a temporary file that is renamed when everything succeeded and
  removed otherwise; \<open>fill\<close> is what writes into it.
\<close>

definition write_archive :: "executor \<Rightarrow> string list list \<Rightarrow> string \<Rightarrow> history \<Rightarrow> string option \<times> history" where
  "write_archive x fill path h =
     (case run_command x [''(create)'', path @ ''.tmp''] h of (r, h1) \<Rightarrow>
        if \<not> succeeded r then (None, h1)
        else case all_steps x (fill @ [[''(close)'', path @ ''.tmp'']]) h1 of (ok, h2) \<Rightarrow>
               if \<not> ok then (None, h2 @ [[''(remove)'', path @ ''.tmp'']])
               else case run_command x [''(rename)'', path @ ''.tmp'', path] h2 of (r', h3) \<Rightarrow>
                      (if succeeded r' then Some path else None, h3))"

definition mysqlDump :: "backup_host \<Rightarrow> backup_task \<Rightarrow> string \<Rightarrow> history \<Rightarrow> string option \<times> history" where
  "mysqlDump host t base h =
     (let path = Join2 (tDestination t) (base @ ''.sql.gz'')
      in write_archive (backup_exec host) [mysqldump_command t, [''(gzip)'', path @ ''.tmp'']] path h)"

definition tarSource :: "backup_host \<Rightarrow> backup_task \<Rightarrow> string \<Rightarrow> history \<Rightarrow> string option \<times> history" where
  "tarSource host t base h =
     (if \<not> source_directory host h (tSource t) then (None, h)
      else let path = Join2 (tDestination t) (base @ ''.tar.gz'')
           in write_archive (backup_exec host)
                [[''(tar)'', tSource t, path @ ''.tmp''], [''(end-tar)'', path @ ''.tmp''], [''(gzip)'', path @ ''.tmp'']] path h)"

definition rsh_text :: "backup_task \<Rightarrow> string" where
  "rsh_text t =
     ''ssh -i '' @ tSSHKey t @ '' -p '' @ itoa (tRemotePort t) @
     '' -o BatchMode=yes -o StrictHostKeyChecking=yes -o UserKnownHostsFile=/etc/aegisadmin-system/backup-ssh/known_hosts''"

definition transfer_command :: "backup_task \<Rightarrow> string \<Rightarrow> string list" where
  "transfer_command t archive =
     [''/usr/bin/rsync'', ''--archive'', ''--partial'', ''--protect-args'', ''--rsh'', rsh_text t, ''--'', archive,
      tRemoteUser t @ ''@'' @ tRemoteHost t @ '':'' @ rev (dropWhile (\<lambda>c. c = CHR ''/'') (rev (tRemotePath t))) @ ''/'']"

text \<open>Errors of the removals are ignored.\<close>

definition purged :: "backup_task \<Rightarrow> (string \<times> bool) list \<Rightarrow> string list" where
  "purged t es = map fst (filter (\<lambda>e. has_prefix (fst e) (archive_name (tName t) @ ''-'') \<and> snd e) es)"

definition purge :: "backup_host \<Rightarrow> backup_task \<Rightarrow> history \<Rightarrow> bool \<times> history" where
  "purge host t h =
     (if tRetentionDays t = 0 then (True, h)
      else case old_entries host h (tDestination t) of
             None \<Rightarrow> (False, h)
           | Some es \<Rightarrow> (True, h @ map (\<lambda>n. [''(remove)'', Join2 (tDestination t) n]) (purged t es)))"

definition make_archive :: "backup_host \<Rightarrow> backup_task \<Rightarrow> history \<Rightarrow> string option \<times> history" where
  "make_archive host t h =
     (let base = archive_name (tName t) @ ''-'' @ stamp_at host h
      in if tKind t = ''mysql'' then mysqlDump host t base h
         else if tKind t = ''apache'' \<or> tKind t = ''sites'' then tarSource host t base h
         else (None, h))"

definition send_archive :: "backup_host \<Rightarrow> backup_task \<Rightarrow> string \<Rightarrow> history \<Rightarrow> bool \<times> history" where
  "send_archive host t archive h =
     (if tRemoteHost t = '''' then (True, h)
      else attempts (backup_exec host)
             (transfer_command t archive # (if tRemoveLocal t then [[''(remove)'', archive]] else [])) h)"

definition lock_path :: "backup_task \<Rightarrow> string" where
  "lock_path t = Join2 (tDestination t) ''.aegisadmin-backup.lock''"

definition run_locked :: "backup_host \<Rightarrow> backup_task \<Rightarrow> history \<Rightarrow> bool \<times> history" where
  "run_locked host t h =
     (case make_archive host t h of
        (None, h1) \<Rightarrow> (False, h1)
      | (Some archive, h1) \<Rightarrow>
          (case archive_size host h1 archive of
             None \<Rightarrow> (False, h1)
           | Some n \<Rightarrow>
               if n = 0 then (False, h1)
               else (case send_archive host t archive h1 of (ok, h2) \<Rightarrow> if \<not> ok then (False, h2) else purge host t h2)))"

definition Run_backup :: "backup_host \<Rightarrow> string \<Rightarrow> history \<Rightarrow> bool \<times> history" where
  "Run_backup host k h =
     (if \<not> idPattern k then (False, h)
      else case stored_task host k of
             None \<Rightarrow> (False, h)
           | Some t \<Rightarrow>
               if tID t \<noteq> k then (False, h)
               else if \<not> Validate t then (False, h)
               else (case attempts (backup_exec host) [[''(mkdir)'', tDestination t], [''(open)'', lock_path t], [''(lock)'', lock_path t]] h of
                       (ok, h1) \<Rightarrow> if \<not> ok then (False, h1)
                                  else finally_step [''(unlock)'', lock_path t] (run_locked host t h1)))"

section \<open>Where a run may write\<close>

text \<open>A path of the storage: the directory of the task, which is the storage or below it, or below that.\<close>

definition stored_path :: "string \<Rightarrow> bool" where
  "stored_path p \<longleftrightarrow> (\<exists>rest. elements p = elements storage @ rest \<and> ''..'' \<notin> set rest)"

lemma stored_join: "stored_path p \<Longrightarrow> IsAbs p \<Longrightarrow> plain_name n \<Longrightarrow> stored_path (Join2 p n)"
proof -
  assume p: "stored_path p" "IsAbs p" and n: "plain_name n"
  have ne: "p \<noteq> ''''" "n \<noteq> ''''" "IsAbs (p @ CHR ''/'' # n)" using p(2) n by (auto simp: IsAbs_def plain_name_def has_prefix_iff)
  then have "elements (Join2 p n) = elements p @ [n]"
    using p(2) n by (simp add: Join2_def elements_Clean elements_snoc)
  then show ?thesis using p(1) n by (auto simp: stored_path_def plain_name_def)
qed

lemma path_text_snoc: "path_text True (es @ [n]) @ s = path_text True (es @ [n @ s])"
  by (induction es) (auto simp: path_text_def join_Cons)

lemma Join2_suffix:
  assumes "IsAbs p" "plain_name n" "plain_name (n @ s)" shows "Join2 p n @ s = Join2 p (n @ s)"
proof -
  have "p \<noteq> ''''" "n \<noteq> ''''" "n @ s \<noteq> ''''" "IsAbs (p @ CHR ''/'' # n)" "IsAbs (p @ CHR ''/'' # n @ s)"
    using assms(1,2) by (auto simp: IsAbs_def plain_name_def has_prefix_iff)
  then show ?thesis
    using assms elements_snoc [OF assms(3,1)] elements_snoc [OF assms(2,1)] path_text_snoc
    by (simp add: Join2_def Clean_def)
qed

lemma Clean_elements:
  assumes "IsAbs p" "has_prefix (Clean p) (''/'' @ join ''/'' es @ ''/'')" "es \<noteq> []" "\<forall>e \<in> set es. CHR ''/'' \<notin> set e"
  shows "\<exists>rest. elements p = es @ rest"
proof -
  obtain t where t: "Clean p = ''/'' @ join ''/'' es @ ''/'' @ t" using assms(2) by (auto simp: has_prefix_iff)
  have "join ''/'' (elements p) = join ''/'' es @ ''/'' @ t" using t assms(1) by (simp add: Clean_def path_text_def)
  moreover have "join ''/'' es @ ''/'' @ t = join ''/'' (es @ split_char CHR ''/'' t)"
    using assms(3) by (induction es rule: induct_list012) (auto simp: join_Cons join_split_char)
  moreover have "elements p \<noteq> []" using calculation assms(3) by auto
  ultimately have "elements p = es @ split_char CHR ''/'' t"
    using split_char_join [of "elements p" "CHR ''/''"] split_char_join [of "es @ split_char CHR ''/'' t" "CHR ''/''"]
      elements_slash [of _ p] assms(4) split_char_parts_no_sep [of _ "CHR ''/''" t]
    by (metis Un_iff append_is_Nil_conv set_append split_char_nonempty)
  then show ?thesis by blast
qed

lemma elements_storage: "elements storage = [''var'', ''backups'', ''aegisadmin'']"
  by code_simp

lemma Validate_destination:
  assumes "Validate t" shows "stored_path (tDestination t)" "IsAbs (tDestination t)"
proof -
  show abs: "IsAbs (tDestination t)" using assms by (simp add: Validate_def)
  have "\<exists>rest. elements (tDestination t) = elements storage @ rest"
  proof (cases "Clean (tDestination t) = storage")
    case True
    then show ?thesis using elements_Clean [OF abs] by (metis append_Nil2)
  next
    case False
    then have "has_prefix (Clean (tDestination t)) (''/'' @ join ''/'' [''var'', ''backups'', ''aegisadmin''] @ ''/'')"
      using assms by (simp add: Validate_def)
    from Clean_elements [OF abs this] show ?thesis by (simp add: elements_storage)
  qed
  then show "stored_path (tDestination t)" using elements_plain(3) [OF abs] by (fastforce simp: stored_path_def)
qed

lemma dashed_ok: "list_all name_ok (dashed b s)"
  by (induction b s rule: dashed.induct) (auto simp: name_ok_def)

lemma trim_ends_subset: "set (trim_ends s) \<subseteq> set s"
  unfolding trim_ends_def Let_def by (auto dest!: set_dropWhileD)

lemma archive_name_slash: "CHR ''/'' \<notin> set (archive_name v)"
proof -
  have "CHR ''/'' \<notin> set (dashed False v)"
    using dashed_ok [of False v]
    by (auto simp: list_all_iff name_ok_def is_alnum_def is_digit_def is_lower_def is_upper_def in_range_def)
  then show ?thesis using trim_ends_subset [of "dashed False v"] by (auto simp: archive_name_def Let_def)
qed

lemma dash_plain: "CHR ''-'' \<in> set n \<Longrightarrow> CHR ''/'' \<notin> set n \<Longrightarrow> plain_name n"
  by (auto simp: plain_name_def)

lemma archive_plain: "CHR ''/'' \<notin> set s \<Longrightarrow> plain_name (archive_name v @ CHR ''-'' # s)"
  by (rule dash_plain) (use archive_name_slash [of v] in auto)

text \<open>What a run of a task may do: every path it writes, renames or removes lies in the storage.\<close>

definition writes_stored :: "string list \<Rightarrow> bool" where
  "writes_stored argv \<longleftrightarrow>
     (\<exists>step p. argv = [step, p] \<and> has_prefix step ''('' \<and> stored_path p) \<or>
     (\<exists>p q. argv = [''(rename)'', p, q] \<and> stored_path p \<and> stored_path q)"

definition reads_source :: "backup_task \<Rightarrow> string list \<Rightarrow> bool" where
  "reads_source t argv \<longleftrightarrow>
     (\<exists>p. argv = [''(tar)'', tSource t, p] \<and> stored_path p \<and>
        (tKind t = ''apache'' \<and> Clean (tSource t) = ''/etc/apache2'' \<or>
         tKind t = ''sites'' \<and> (Clean (tSource t) = ''/var/www'' \<or> has_prefix (Clean (tSource t)) ''/var/www/'')))"

definition backup_permitted :: "backup_task \<Rightarrow> string list \<Rightarrow> bool" where
  "backup_permitted t argv \<longleftrightarrow>
     writes_stored argv \<or> reads_source t argv \<or> tKind t = ''mysql'' \<and> argv = mysqldump_command t \<or>
     tRemoteHost t \<noteq> '''' \<and> (\<exists>archive. argv = transfer_command t archive \<and> stored_path archive)"

lemma permitted_step: "stored_path p \<Longrightarrow> has_prefix step ''('' \<Longrightarrow> backup_permitted t [step, p]"
  by (auto simp: backup_permitted_def writes_stored_def)

lemma permitted_rename: "stored_path p \<Longrightarrow> stored_path q \<Longrightarrow> backup_permitted t [''(rename)'', p, q]"
  by (auto simp: backup_permitted_def writes_stored_def)

lemma write_archive_permitted:
  assumes "stored_path path" "stored_path (path @ ''.tmp'')" "list_all (backup_permitted t) fill"
  shows "extends (backup_permitted t) h (snd (write_archive x fill path h))"
proof -
  let ?tmp = "path @ ''.tmp''"
  obtain ok h2 where steps: "all_steps x (fill @ [[''(close)'', ?tmp]]) (h @ [[''(create)'', ?tmp]]) = (ok, h2)" by fastforce
  then have h2: "h2 = h @ [[''(create)'', ?tmp]] @ fill @ [[''(close)'', ?tmp]]" by (auto dest: all_steps_eq)
  have "list_all (backup_permitted t) [[''(create)'', ?tmp], [''(close)'', ?tmp], [''(remove)'', ?tmp], [''(rename)'', ?tmp, path]]"
    using assms(1,2) by (simp add: permitted_step permitted_rename)
  then have "extends (backup_permitted t) h h2" "extends (backup_permitted t) h (h2 @ [[''(remove)'', ?tmp]])"
      "extends (backup_permitted t) h (h2 @ [[''(rename)'', ?tmp, path]])" "backup_permitted t [''(create)'', ?tmp]"
    using assms(3) by (simp_all add: h2 extends_append)
  then show ?thesis by (simp add: write_archive_def run_command_def steps)
qed

lemma permitted_dump: "tKind t = ''mysql'' \<Longrightarrow> backup_permitted t (mysqldump_command t)"
  by (simp add: backup_permitted_def)

lemma permitted_tar: "reads_source t argv \<Longrightarrow> backup_permitted t argv"
  by (simp add: backup_permitted_def)

lemma write_archive_path: "fst (write_archive x fill path h) = Some a \<Longrightarrow> a = path"
  by (auto simp: write_archive_def run_command_def split: prod.splits if_splits)

definition plain_host :: "backup_host \<Rightarrow> bool" where
  "plain_host host \<longleftrightarrow>
     (\<forall>h. CHR ''/'' \<notin> set (stamp_at host h)) \<and>
     (\<forall>h d es. old_entries host h d = Some es \<longrightarrow> (\<forall>e \<in> set es. plain_name (fst e)))"

lemma make_archive_permitted:
  assumes "Validate t" "plain_host host"
  shows "extends (backup_permitted t) h (snd (make_archive host t h))"
    and "fst (make_archive host t h) = Some a \<Longrightarrow> stored_path a"
proof -
  let ?d = "tDestination t"
  note dest = Validate_destination [OF assms(1)]
  have path: "stored_path (Join2 ?d (archive_name (tName t) @ ''-'' @ stamp_at host h @ ext)) \<and>
      stored_path (Join2 ?d (archive_name (tName t) @ ''-'' @ stamp_at host h @ ext) @ ''.tmp'')"
    if "CHR ''/'' \<notin> set ext" for ext
  proof -
    let ?n = "archive_name (tName t) @ ''-'' @ stamp_at host h @ ext"
    have "plain_name ?n" "plain_name (?n @ ''.tmp'')"
      using that assms(2) archive_plain [of "stamp_at host h @ ext"] archive_plain [of "stamp_at host h @ ext @ ''.tmp''"]
      by (auto simp: plain_host_def)
    then show ?thesis using stored_join [OF dest] Join2_suffix [OF dest(2)] by metis
  qed
  have sql: "extends (backup_permitted t) h (snd (mysqlDump host t (archive_name (tName t) @ ''-'' @ stamp_at host h) h))" if "tKind t = ''mysql''"
    unfolding mysqlDump_def Let_def
    by (rule write_archive_permitted) (use path [of "''.sql.gz''"] that in \<open>simp_all add: permitted_step permitted_dump\<close>)
  have tar: "extends (backup_permitted t) h (snd (tarSource host t (archive_name (tName t) @ ''-'' @ stamp_at host h) h))"
    if "tKind t = ''apache'' \<or> tKind t = ''sites''"
  proof (cases "source_directory host h (tSource t)")
    case True
    have "reads_source t [''(tar)'', tSource t, Join2 ?d (archive_name (tName t) @ ''-'' @ stamp_at host h @ ''.tar.gz'') @ ''.tmp'']"
      using that assms(1) path [of "''.tar.gz''"] by (auto simp: reads_source_def Validate_def)
    then show ?thesis
      unfolding tarSource_def Let_def using True path [of "''.tar.gz''"]
      by (auto intro!: write_archive_permitted simp: permitted_step permitted_tar)
  next
    case False
    then show ?thesis by (simp add: tarSource_def)
  qed
  show "extends (backup_permitted t) h (snd (make_archive host t h))"
    using sql tar by (simp add: make_archive_def Let_def)
  show "fst (make_archive host t h) = Some a \<Longrightarrow> stored_path a"
    using path [of "''.sql.gz''"] path [of "''.tar.gz''"]
    by (auto simp: make_archive_def mysqlDump_def tarSource_def Let_def dest!: write_archive_path split: if_splits)
qed

lemma permitted_transfer: "tRemoteHost t \<noteq> '''' \<Longrightarrow> stored_path a \<Longrightarrow> backup_permitted t (transfer_command t a)"
  by (auto simp: backup_permitted_def)

lemma send_archive_permitted:
  "stored_path a \<Longrightarrow> extends (backup_permitted t) h (snd (send_archive host t a h))"
  unfolding send_archive_def
  by (auto intro!: attempts_extends simp: permitted_step permitted_transfer simp del: attempts.simps)

lemma purge_permitted:
  assumes "Validate t" "plain_host host" shows "extends (backup_permitted t) h (snd (purge host t h))"
proof (cases "old_entries host h (tDestination t)")
  case None
  then show ?thesis by (simp add: purge_def)
next
  case (Some es)
  have "backup_permitted t [''(remove)'', Join2 (tDestination t) (fst e)]" if "e \<in> set es" for e
    using that Some assms stored_join [OF Validate_destination [OF assms(1)]] by (auto simp: plain_host_def intro!: permitted_step)
  then show ?thesis using Some by (auto simp: purge_def purged_def extends_append list_all_iff)
qed

lemma run_locked_permitted:
  assumes "Validate t" "plain_host host" shows "extends (backup_permitted t) h (snd (run_locked host t h))"
proof -
  note made = make_archive_permitted [OF assms, of h]
  obtain a h1 where a: "make_archive host t h = (a, h1)" by fastforce
  show ?thesis
  proof (cases a)
    case None
    then show ?thesis using a made by (simp add: run_locked_def)
  next
    case (Some p)
    obtain ok h2 where send: "send_archive host t p h1 = (ok, h2)" by fastforce
    have "extends (backup_permitted t) h1 h2" using send_archive_permitted [of p t h1 host] made(2) a Some send by simp
    moreover have "extends (backup_permitted t) h2 (snd (purge host t h2))" by (rule purge_permitted [OF assms])
    ultimately show ?thesis
      using a Some send made(1) by (auto simp: run_locked_def split: option.split intro: extends_trans)
  qed
qed

lemma lock_stored: "Validate t \<Longrightarrow> stored_path (lock_path t)"
  using stored_join [OF Validate_destination] by (simp add: lock_path_def plain_name_def)

lemma Run_backup_permitted:
  assumes "plain_host host" "stored_task host k = Some t" "Validate t"
  shows "extends (backup_permitted t) h (snd (Run_backup host k h))"
proof -
  let ?steps = "[[''(mkdir)'', tDestination t], [''(open)'', lock_path t], [''(lock)'', lock_path t]]"
  obtain ok h1 where lock: "attempts (backup_exec host) ?steps h = (ok, h1)" by fastforce
  have "\<forall>argv \<in> set ?steps. backup_permitted t argv"
    using Validate_destination(1) [OF assms(3)] lock_stored [OF assms(3)] by (simp add: permitted_step)
  from attempts_extends [OF this, of h "backup_exec host"] lock have "extends (backup_permitted t) h h1" by simp
  moreover have "extends (backup_permitted t) h1 (snd (run_locked host t h1))" by (rule run_locked_permitted [OF assms(3,1)])
  moreover have "backup_permitted t [''(unlock)'', lock_path t]" using lock_stored [OF assms(3)] by (simp add: permitted_step)
  ultimately show ?thesis
    using assms(2,3) lock by (auto simp: Run_backup_def intro: extends_trans)
qed

text \<open>
  C23: a run of the backup program stays within its storage. Whatever task is stored and however its steps end,
  every file it creates, renames or removes lies in the storage of the backups, it reads only the Apache
  configuration or the web sites, dumps databases, and contacts a remote host only with an archive of the
  storage; and it does nothing at all for a task that is not valid.
\<close>

theorem backup_run_confined:
  assumes "plain_host host" "argv \<in> set (snd (Run_backup host k []))"
  shows "\<exists>t. stored_task host k = Some t \<and> Validate t \<and> backup_permitted t argv"
proof -
  obtain t where t: "stored_task host k = Some t" "Validate t"
    using assms(2) by (auto simp: Run_backup_def split: if_splits option.splits)
  then show ?thesis
    using Run_backup_permitted [OF assms(1) t, of "[]"] assms(2) by (auto simp: extends_def list_all_iff)
qed

text \<open>The options of the remote shell. A space in the path of the key starts another option.\<close>

lemma split_char_append: "split_char c (s @ c # t) = split_char c s @ split_char c t"
  by (induction s) (auto split: list.splits)

lemma rsh_options:
  "split_char CHR '' '' (rsh_text t) =
     [''ssh'', ''-i''] @ split_char CHR '' '' (tSSHKey t) @ [''-p''] @ split_char CHR '' '' (itoa (tRemotePort t)) @
     [''-o'', ''BatchMode=yes'', ''-o'', ''StrictHostKeyChecking=yes'', ''-o'', ''UserKnownHostsFile=/etc/aegisadmin-system/backup-ssh/known_hosts'']"
  using split_char_append [of "CHR '' ''" "''ssh''"] split_char_append [of "CHR '' ''" "''-i''"]
    split_char_append [of "CHR '' ''" "tSSHKey t"] split_char_append [of "CHR '' ''" "itoa (tRemotePort t)"]
  by (simp add: rsh_text_def)

definition sample_task :: backup_task where
  "sample_task =
     \<lparr>tID = ''01234567-89ab-4cde-8f01-23456789abcd'', tName = ''Sites'', tKind = ''sites'', tSource = ''/var/www'',
      tDestination = ''/var/backups/aegisadmin/sites'', tRemoteHost = ''backup.example.net'', tRemoteUser = ''backup'',
      tRemotePath = ''/srv/backups'', tSSHKey = ''/etc/aegisadmin-system/backup-ssh/key -o ProxyCommand=/tmp/x'', tRemotePort = 22,
      tRetentionDays = 2, tRemoveLocal = True\<rparr>"

definition sample_backup_host :: backup_host where
  "sample_backup_host =
     \<lparr>stored_task = (\<lambda>k. Some sample_task), stamp_at = (\<lambda>h. ''20260101T020000Z''), source_directory = (\<lambda>_ _. True),
      archive_size = (\<lambda>_ _. Some 9), old_entries = (\<lambda>_ _. Some [(''Sites-prod-20250101T020000Z.tar.gz'', True)]),
      backup_exec = (\<lambda>_ _. \<lparr>out = '''', err = '''', status = 0\<rparr>)\<rparr>"

text \<open>
  The task is valid, its key carries an option of its own, and the run removes an archive of another task
  whose name begins the same way.
\<close>

lemma sample_backup_run:
  "Validate sample_task"
  "split_char CHR '' '' (rsh_text sample_task) ! 4 = ''ProxyCommand=/tmp/x''"
  "[''(remove)'', ''/var/backups/aegisadmin/sites/Sites-prod-20250101T020000Z.tar.gz''] \<in> set (snd (Run_backup sample_backup_host (tID sample_task) []))"
  by code_simp+

theorem backup_run_confined_witness:
  "\<exists>t. stored_task sample_backup_host (tID sample_task) = Some t \<and> Validate t \<and>
     backup_permitted t [''(remove)'', ''/var/backups/aegisadmin/sites/Sites-prod-20250101T020000Z.tar.gz'']"
proof (rule backup_run_confined)
  show "plain_host sample_backup_host" by (simp add: plain_host_def sample_backup_host_def plain_name_def)
qed (rule sample_backup_run(3))

end
