(* ===== verification/Domain_Cron.thy ===== *)
theory Domain_Cron
  imports Domain_Cron_Jobs Backup_Runner
begin

text \<open>
  The cron domain of the daemon (\<^verbatim>\<open>internal/domain/cron\<close>: \<^verbatim>\<open>cron.go\<close>, \<^verbatim>\<open>profile.go\<close>, \<^verbatim>\<open>manage.go\<close>, \<^verbatim>\<open>result.go\<close> and \<^verbatim>\<open>backup.go\<close>):
  the handler and every command, with the commands and file operations each makes. The text of the tasks
  is in \<open>Domain_Crontab\<close>, the list of jobs in \<open>Domain_Cron_Jobs\<close>.
\<close>

section \<open>The host\<close>

record cron_backend =
  cbPackage :: string
  cbService :: string
  cbUnit :: string
  cbCrontab :: string
  cbPaths :: jobs_paths

record stored_result =
  srExecution :: string
  srStatus :: string
  srExit :: "int option"
  srTimedOut :: bool
  srTruncated :: bool
  srDuration :: int
  srStdout :: string
  srStderr :: string

text \<open>
  Besides what \<open>jobs_host\<close> gives: the mode of executables, the clock in nanoseconds and the time stamp of a
  backup, the entries of the directory of results (regular, time of change), and the result of an execution as the file system and JSON give it.
\<close>

datatype result_file = NoDirectory | BadDirectory | NoResult | BadResult | Result stored_result int

record cron_host =
  cron_files :: jobs_host
  cron_secure :: "string \<Rightarrow> bool"
  cron_now :: "history \<Rightarrow> int"
  cron_stamp :: "history \<Rightarrow> string"
  result_entries :: "history \<Rightarrow> (string \<times> (bool \<times> int) option) list"
  result_of :: "history \<Rightarrow> string \<Rightarrow> result_file"
  task_text :: "backup_task \<Rightarrow> string"
  cron_lower :: "nat \<Rightarrow> nat"
  cron_exec :: executor

abbreviation cron_executable :: "cron_host \<Rightarrow> string \<Rightarrow> bool" where
  "cron_executable host \<equiv> job_executable (cron_files host)"

abbreviation cron_systemctl :: string where "cron_systemctl \<equiv> ''/usr/bin/systemctl''"
abbreviation dpkgQuery :: string where "dpkgQuery \<equiv> ''/usr/bin/dpkg-query''"
abbreviation rpmQuery :: string where "rpmQuery \<equiv> ''/usr/bin/rpm''"
abbreviation systemdRun :: string where "systemdRun \<equiv> ''/usr/bin/systemd-run''"
abbreviation runnerPath :: string where "runnerPath \<equiv> ''/usr/local/lib/aegisadmin-system/libexec/cron-runner.py''"
abbreviation backupExecutable :: string where "backupExecutable \<equiv> ''/usr/libexec/aegisadmin/aegisadmin-backup''"
abbreviation lockFile :: string where "lockFile \<equiv> ''/run/lock/aegisadmin-cron.lock''"
abbreviation crontabBackups :: string where "crontabBackups \<equiv> ''/var/backups/aegisadmin-system/cron''"
abbreviation resultDirectory :: string where "resultDirectory \<equiv> ''/run/aegisadmin-system/cron''"
abbreviation taskDirectory :: string where "taskDirectory \<equiv> ''/etc/aegisadmin-system/backup-tasks''"

text \<open>\<^verbatim>\<open>runCommand\<close>: what a command printed, as text, trimmed unless a crontab was asked for.\<close>

definition cron_run :: "executor \<Rightarrow> string list \<Rightarrow> history \<Rightarrow> (string \<times> int) \<times> history" where
  "cron_run x argv h =
     (case run_command x argv h of (r, h1) \<Rightarrow>
        let t = ToValidUTF8 (out r)
        in ((if has_suffix (hd argv) ''/crontab'' \<and> 2 \<le> length argv \<and> last argv = ''-l'' then t else trim_space t, status r), h1))"

lemma snd_cron_run [simp]: "snd (cron_run x argv h) = h @ [argv]"
  by (simp add: cron_run_def run_command_def Let_def)

lemma cron_run_eq: "cron_run x argv h = (p, h') \<Longrightarrow> h' = h @ [argv]"
  using snd_cron_run [of x argv h] by simp

section \<open>Profile\<close>

definition profile_value :: "string \<Rightarrow> string \<Rightarrow> cron_backend \<Rightarrow> cron_backend" where
  "profile_value key v b =
     (if key = ''package'' then (if v \<in> {''cron'', ''cronie''} then b\<lparr>cbPackage := v\<rparr> else b)
      else if key = ''unit'' then
        (if v \<in> {''cron.service'', ''crond.service''} then b\<lparr>cbUnit := v, cbService := trim_suffix v ''.service''\<rparr> else b)
      else if key = ''crontab'' then (if v \<in> {''/usr/bin/crontab'', ''/usr/local/bin/crontab''} then b\<lparr>cbCrontab := v\<rparr> else b)
      else if key = ''spool_directory'' then
        (if v \<in> {''/var/spool/cron/crontabs'', ''/var/spool/cron''} then b\<lparr>cbPaths := (cbPaths b)\<lparr>jpSpoolDirectory := v\<rparr>\<rparr> else b)
      else if key = ''system_crontab'' then (if v = ''/etc/crontab'' then b\<lparr>cbPaths := (cbPaths b)\<lparr>jpSystemCrontab := v\<rparr>\<rparr> else b)
      else if key = ''cron_directory'' then (if v = ''/etc/cron.d'' then b\<lparr>cbPaths := (cbPaths b)\<lparr>jpCronDirectory := v\<rparr>\<rparr> else b)
      else if key = ''anacron'' then
        (if v \<in> {''/usr/sbin/anacron'', ''/usr/bin/anacron''} then b\<lparr>cbPaths := (cbPaths b)\<lparr>jpAnacron := v\<rparr>\<rparr> else b)
      else if key = ''anacrontab'' then (if v = ''/etc/anacrontab'' then b\<lparr>cbPaths := (cbPaths b)\<lparr>jpAnacrontab := v\<rparr>\<rparr> else b)
      else b)"

definition profile_line :: "string \<Rightarrow> cron_backend \<Rightarrow> cron_backend" where
  "profile_line raw b =
     (let line = trim_space raw in
      if line = '''' \<or> has_prefix line ''#'' then b
      else case cut_char CHR ''='' line of
             None \<Rightarrow> b
           | Some (key, v) \<Rightarrow> if trim_space v = ''auto'' then b else profile_value (trim_space key) (trim_space v) b)"

definition loadProfile :: "string option \<Rightarrow> cron_backend \<Rightarrow> cron_backend" where
  "loadProfile content b = (case content of None \<Rightarrow> b | Some text \<Rightarrow> fold profile_line (scan_lines text) b)"

definition NewLinuxBackend :: "(string \<Rightarrow> bool) \<Rightarrow> string option \<Rightarrow> cron_backend" where
  "NewLinuxBackend exe profile =
     (let rpm = (\<not> exe dpkgQuery \<and> exe rpmQuery) in
      loadProfile profile
        \<lparr>cbPackage = (if rpm then ''cronie'' else ''cron''), cbService = (if rpm then ''crond'' else ''cron''),
         cbUnit = (if rpm then ''crond.service'' else ''cron.service''), cbCrontab = ''/usr/bin/crontab'',
         cbPaths = \<lparr>jpAnacron = ''/usr/sbin/anacron'', jpAnacrontab = ''/etc/anacrontab'', jpSystemCrontab = ''/etc/crontab'',
                    jpCronDirectory = ''/etc/cron.d'',
                    jpSpoolDirectory = (if rpm then ''/var/spool/cron'' else ''/var/spool/cron/crontabs'')\<rparr>\<rparr>)"

lemma profile_value_crontab:
  "cbCrontab b \<in> {''/usr/bin/crontab'', ''/usr/local/bin/crontab''} \<Longrightarrow>
     cbCrontab (profile_value key v b) \<in> {''/usr/bin/crontab'', ''/usr/local/bin/crontab''}"
  by (simp add: profile_value_def)

lemma profile_line_crontab:
  "cbCrontab b \<in> {''/usr/bin/crontab'', ''/usr/local/bin/crontab''} \<Longrightarrow>
     cbCrontab (profile_line raw b) \<in> {''/usr/bin/crontab'', ''/usr/local/bin/crontab''}"
  using profile_value_crontab by (auto simp: profile_line_def Let_def split: option.splits)

lemma NewLinuxBackend_crontab: "cbCrontab (NewLinuxBackend exe profile) \<in> {''/usr/bin/crontab'', ''/usr/local/bin/crontab''}"
proof -
  have "cbCrontab b \<in> {''/usr/bin/crontab'', ''/usr/local/bin/crontab''} \<Longrightarrow>
      cbCrontab (fold profile_line ls b) \<in> {''/usr/bin/crontab'', ''/usr/local/bin/crontab''}" for ls b
    by (induction ls arbitrary: b) (simp_all del: insert_iff add: profile_line_crontab)
  then show ?thesis by (auto simp: NewLinuxBackend_def loadProfile_def Let_def split: option.split)
qed

section \<open>Changing a crontab\<close>

definition actionFailure :: "string \<Rightarrow> backend_reply" where
  "actionFailure action =
     failure 10 (if action = ''create'' then ''CRON_TASK_CREATE_FAILED'' else if action = ''update'' then ''CRON_TASK_UPDATE_FAILED''
       else if action = ''suspend'' then ''CRON_TASK_SUSPEND_FAILED'' else if action = ''resume'' then ''CRON_TASK_RESUME_FAILED''
       else if action = ''delete'' then ''CRON_TASK_DELETE_FAILED'' else if action = ''run'' then ''CRON_TASK_RUN_FAILED'' else '''')"

definition secure_directory :: "string \<Rightarrow> string list list" where
  "secure_directory path = [[''(mkdir)'', path], [''(chmod)'', path], [''(secure)'', path]]"

definition random_bytes :: "executor \<Rightarrow> history \<Rightarrow> bytes option \<times> history" where
  "random_bytes x h =
     (case run_command x [''(random)'', ''16''] h of (r, h1) \<Rightarrow> (if succeeded r then Some (out r) else None, h1))"

definition backup_crontab :: "cron_host \<Rightarrow> string \<Rightarrow> string \<Rightarrow> history \<Rightarrow> bool \<times> history" where
  "backup_crontab host who content h =
     (case attempts (cron_exec host) (secure_directory crontabBackups) h of (ok, h1) \<Rightarrow>
        if \<not> ok then (False, h1)
        else let path = Join2 crontabBackups (cron_stamp host h1 @ ''-'' @ who @ ''.crontab'')
             in attempts (cron_exec host) [[''(create)'', path], [''(write)'', path, content], [''(sync)'', path]] h1)"

definition unsupportedCronValidation :: "(nat \<Rightarrow> nat) \<Rightarrow> string \<Rightarrow> bool" where
  "unsupportedCronValidation low output \<longleftrightarrow>
     (let m = to_lower low output
      in contains m ''invalid option'' \<or> contains m ''illegal option'' \<or> contains m ''unknown option'' \<or>
         contains m ''usage:'' \<and> contains m ''crontab'')"

datatype install_result = Installed | InstallInvalid | InstallFailed

definition install_file :: "cron_host \<Rightarrow> cron_backend \<Rightarrow> string \<Rightarrow> string \<Rightarrow> string \<Rightarrow> history \<Rightarrow> install_result \<times> history" where
  "install_file host b who path content h =
     (case attempts (cron_exec host) [[''(chmod)'', path], [''(write)'', path, content], [''(sync)'', path], [''(close)'', path]] h of (ok, h1) \<Rightarrow>
        if \<not> ok then (InstallFailed, h1)
        else case cron_run (cron_exec host) [cbCrontab b, ''-u'', who, ''-n'', path] h1 of ((output, st), h2) \<Rightarrow>
          if st \<noteq> 0 \<and> \<not> unsupportedCronValidation (cron_lower host) output then (InstallInvalid, h2)
          else case cron_run (cron_exec host) [cbCrontab b, ''-u'', who, path] h2 of ((_, st'), h3) \<Rightarrow>
            if st' \<noteq> 0 then (InstallFailed, h3) else (Installed, h3))"

definition install :: "cron_host \<Rightarrow> cron_backend \<Rightarrow> string \<Rightarrow> string list \<Rightarrow> history \<Rightarrow> install_result \<times> history" where
  "install host b who ls h =
     (case run_command (cron_exec host) [''(create-temp)'', ''/run'', ''aegisadmin-cron-''] h of (r, h1) \<Rightarrow>
        if \<not> succeeded r then (InstallFailed, h1)
        else finally_step [''(remove)'', out r] (install_file host b who (out r) (crontab_text ls) h1))"

text \<open>The lines after the action, the identifier of the task and whether it is enabled; or the error.\<close>

definition changed_lines ::
    "cron_host \<Rightarrow> string \<Rightarrow> string \<Rightarrow> string \<Rightarrow> string \<Rightarrow> string list \<Rightarrow> cron_record list \<Rightarrow> history
     \<Rightarrow> (backend_reply + string list \<times> string \<times> bool) \<times> history" where
  "changed_lines host action k schedule command ls records h =
     (if action = ''create'' then
        (case random_bytes (cron_exec host) h of (bs, h1) \<Rightarrow>
           (case newUUID bs of
              None \<Rightarrow> (Inl (actionFailure action), h1)
            | Some k' \<Rightarrow> (Inr (ls @ [activeMarker k', job_line schedule command], k', True), h1)))
      else case findRecord records k of
             None \<Rightarrow> (Inl (failure 5 ''CRON_TASK_NOT_FOUND''), h)
           | Some task \<Rightarrow>
               (case if rcManaged task then (Some k, h)
                     else (case random_bytes (cron_exec host) h of (bs, h1) \<Rightarrow> (newUUID bs, h1)) of
                  (None, h1) \<Rightarrow> (Inl (actionFailure action), h1)
                | (Some k', h1) \<Rightarrow>
                    (case edited action k' schedule command task of
                       None \<Rightarrow> (Inl (failure 5 ''INVALID_CRON_TASK_STATE''), h1)
                     | Some (replacement, enabled) \<Rightarrow>
                         (Inr (replace_lines ls (rcStart task) (rcEnd task) replacement, k', enabled), h1))))"

text \<open>Results older than a day, which the next execution removes.\<close>

definition expired_results :: "cron_host \<Rightarrow> history \<Rightarrow> string list" where
  "expired_results host h =
     map fst (filter (\<lambda>(n, info). has_suffix n ''.json'' \<and>
                        (case info of None \<Rightarrow> False | Some (regular, time) \<Rightarrow> regular \<and> time < cron_now host h - 24 * 3600 * 10 ^ 9))
                (result_entries host h))"

definition startExecution :: "cron_host \<Rightarrow> string \<Rightarrow> string \<Rightarrow> string \<Rightarrow> history \<Rightarrow> backend_reply \<times> history" where
  "startExecution host who taskID command h =
     (if \<not> cron_secure host runnerPath then (actionFailure ''run'', h)
      else case attempts (cron_exec host) (secure_directory resultDirectory) h of (ok, h1) \<Rightarrow>
        if \<not> ok then (actionFailure ''run'', h1)
        else case random_bytes (cron_exec host) (h1 @ map (\<lambda>n. [''(remove)'', Join2 resultDirectory n]) (expired_results host h1)) of
          (None, h2) \<Rightarrow> (actionFailure ''run'', h2)
        | (Some bs, h2) \<Rightarrow>
            let execution = hex_encode bs;
                resultPath = Join2 resultDirectory (execution @ ''.json'');
                temporary = Join2 resultDirectory (''.'' @ execution @ ''.tmp'')
            in (case run_command (cron_exec host) [''(create)'', temporary] h2 of (r, h3) \<Rightarrow>
                 if \<not> succeeded r then (actionFailure ''run'', h3)
                 else (case attempts (cron_exec host) [[''(pending)'', temporary, execution], [''(sync)'', temporary]] h3 of (ok1, h4) \<Rightarrow>
                   case run_command (cron_exec host) [''(close)'', temporary] h4 of (rc, h5) \<Rightarrow>
                   case (if ok1 \<and> succeeded rc then attempts (cron_exec host) [[''(rename)'', temporary, resultPath]] h5 else (False, h5)) of
                     (ok2, h6) \<Rightarrow>
                       if \<not> ok2 then (actionFailure ''run'', h6 @ [[''(remove)'', temporary]])
                       else (case cron_run (cron_exec host)
                               [systemdRun, ''--quiet'', ''--collect'', ''--unit=aegisadmin-cron-run-'' @ execution, ''--property=Type=exec'',
                                ''--property=RuntimeMaxSec='' @ (if who = ''root'' then ''2h10min'' else ''70s''), runnerPath, execution, who, command] h6 of
                               ((_, st), h7) \<Rightarrow>
                                 if st \<noteq> 0 then (actionFailure ''run'', h7 @ [[''(remove)'', resultPath]])
                                 else (success [(''action'', JString ''run''), (''user'', JString who), (''id'', JString taskID),
                                                (''execution_id'', JString execution), (''result'', JString ''scheduled'')], h7)))))"

text \<open>The old crontab is saved before the new one is installed.\<close>

definition apply_change ::
    "cron_host \<Rightarrow> cron_backend \<Rightarrow> string \<Rightarrow> string \<Rightarrow> string \<Rightarrow> backend_reply + string list \<times> string \<times> bool \<Rightarrow> history
     \<Rightarrow> backend_reply \<times> history" where
  "apply_change host b action who original result h =
     (case result of
        Inl rep \<Rightarrow> (rep, h)
      | Inr (ls, k, enabled) \<Rightarrow>
          (case backup_crontab host who original h of (ok, h1) \<Rightarrow>
             if \<not> ok then (actionFailure action, h1)
             else (case install host b who ls h1 of
                     (InstallInvalid, h2) \<Rightarrow> (failure 2 ''INVALID_CRON_TASK'', h2)
                   | (InstallFailed, h2) \<Rightarrow> (actionFailure action, h2)
                   | (Installed, h2) \<Rightarrow>
                       (success [(''action'', JString action), (''user'', JString who), (''id'', JString k),
                                 (''enabled'', JBool enabled), (''result'', JString ''success'')], h2))))"

definition manage_locked ::
    "cron_host \<Rightarrow> cron_backend \<Rightarrow> string \<Rightarrow> string \<Rightarrow> string \<Rightarrow> string \<Rightarrow> string \<Rightarrow> history \<Rightarrow> backend_reply \<times> history" where
  "manage_locked host b action who k schedule command h =
     (case cron_run (cron_exec host) [cbCrontab b, ''-u'', who, ''-l''] h of ((output, st), h1) \<Rightarrow>
        if st \<noteq> 0 \<and> st \<noteq> 1 then (actionFailure action, h1)
        else let original = (if st = 1 then '''' else output); ls = splitContent original in
          (case parseRecords who ls of
             None \<Rightarrow> (failure 2 ''INVALID_CRON_TASK'', h1)
           | Some records \<Rightarrow>
               if action = ''run'' then
                 (case findRecord records k of
                    None \<Rightarrow> (failure 5 ''CRON_TASK_NOT_FOUND'', h1)
                  | Some task \<Rightarrow>
                      if \<not> rcEnabled task then (failure 5 ''INVALID_CRON_TASK_STATE'', h1)
                      else startExecution host who k (rcCommand task) h1)
               else
                 (case changed_lines host action k schedule command ls records h1 of (result, h2) \<Rightarrow>
                    apply_change host b action who original result h2)))"

definition manage :: "cron_host \<Rightarrow> cron_backend \<Rightarrow> string \<Rightarrow> string list \<Rightarrow> history \<Rightarrow> backend_reply \<times> history" where
  "manage host b action args h =
     (let who = args ! 0;
          k = (if action = ''create'' then '''' else args ! 1);
          schedule = (if action = ''create'' then args ! 1 else if action = ''update'' then args ! 2 else '''');
          command = (if action = ''create'' then args ! 2 else if action = ''update'' then args ! 3 else '''')
      in if \<not> editable (job_accounts (cron_files host)) who then (failure 2 ''INVALID_CRON_USER'', h)
         else if \<not> job_lookup (cron_files host) who then (failure 2 ''INVALID_CRON_TASK'', h)
         else if action \<noteq> ''create'' \<and> \<not> managedID k \<and> \<not> legacyID k then (failure 2 ''INVALID_CRON_TASK_ID'', h)
         else if (action = ''create'' \<or> action = ''update'') \<and> \<not> validTaskInput schedule command then (failure 2 ''INVALID_CRON_TASK'', h)
         else case attempts (cron_exec host) [[''(mkdir)'', ''/run/lock''], [''(open)'', lockFile], [''(lock)'', lockFile]] h of (ok, h1) \<Rightarrow>
           if \<not> ok then (actionFailure action, h1)
           else finally_step [''(unlock)'', lockFile] (manage_locked host b action who k schedule command h1))"

section \<open>Results, backup tasks and the handler\<close>

definition executionID :: "string \<Rightarrow> bool" where
  "executionID s \<longleftrightarrow> length s = 32 \<and> list_all hex_digit s"

abbreviation (input) maximumResultBytes :: nat where "maximumResultBytes \<equiv> 256 * 1024"

definition validResult :: "stored_result \<Rightarrow> bool" where
  "validResult r \<longleftrightarrow>
     srStatus r \<in> {''running'', ''finished'', ''failed''} \<and> 0 \<le> srDuration r \<and>
     length (srStdout r) + length (srStderr r) \<le> maximumResultBytes"

definition result_json :: "stored_result \<Rightarrow> (string \<times> json) list" where
  "result_json r =
     [(''execution_id'', JString (srExecution r)), (''status'', JString (srStatus r)),
      (''exit_code'', case srExit r of None \<Rightarrow> JNull | Some n \<Rightarrow> JInt n), (''timed_out'', JBool (srTimedOut r)),
      (''truncated'', JBool (srTruncated r)), (''duration_ms'', JInt (srDuration r)), (''stdout'', JString (srStdout r)),
      (''stderr'', JString (srStderr r))]"

definition unavailable_text :: string where
  "unavailable_text =
     ''Le r'' @ encode_rune 0xE9 @ ''sultat de l'' @ encode_rune 0x2019 @ ''ex'' @ encode_rune 0xE9 @ ''cution Cron n'' @ encode_rune 0x2019 @
     ''est pas disponible.''"

text \<open>
  \<open>Result r t\<close>: the file is secure, small enough, and holds the result \<open>r\<close> with all its fields; it was changed
  at \<open>t\<close>.
\<close>

definition runResult :: "cron_host \<Rightarrow> string \<Rightarrow> history \<Rightarrow> backend_reply" where
  "runResult host k h =
     (if \<not> executionID k then failure 2 ''INVALID_CRON_EXECUTION_ID''
      else case result_of host h k of
             NoDirectory \<Rightarrow> failure 5 ''CRON_EXECUTION_NOT_FOUND''
           | BadDirectory \<Rightarrow> failure 10 ''CRON_EXECUTION_READ_FAILED''
           | NoResult \<Rightarrow> failure 5 ''CRON_EXECUTION_NOT_FOUND''
           | BadResult \<Rightarrow> failure 10 ''CRON_EXECUTION_READ_FAILED''
           | Result r t \<Rightarrow>
               if srExecution r \<noteq> k \<or> \<not> validResult r then failure 10 ''CRON_EXECUTION_READ_FAILED''
               else success (result_json
                      (if srStatus r = ''running'' \<and> 75 * 10 ^ 9 < cron_now host h - t
                       then \<lparr>srExecution = k, srStatus = ''failed'', srExit = None, srTimedOut = True, srTruncated = False, srDuration = 75000,
                             srStdout = '''', srStderr = unavailable_text\<rparr>
                       else r)))"

text \<open>\<^verbatim>\<open>^[[:alnum:]A-y][[:alnum:]A-y ._-]{0,63}$\<close> over runes, with the accented letters from U+00C0 to U+00FF.\<close>

definition label_rune :: "nat \<Rightarrow> bool" where
  "label_rune r \<longleftrightarrow> r < 128 \<and> is_alnum (char_of r) \<or> 0xC0 \<le> r \<and> r \<le> 0xFF"

definition backupLabel :: "string \<Rightarrow> bool" where
  "backupLabel s \<longleftrightarrow>
     (case map fst (runes s) of
        [] \<Rightarrow> False
      | r # rs \<Rightarrow> label_rune r \<and> length rs \<le> 63 \<and> list_all (\<lambda>r. label_rune r \<or> r \<in> {0x20, 0x2E, 0x5F, 0x2D}) rs)"

definition ParseBool :: "string \<Rightarrow> bool option" where
  "ParseBool s =
     (if s \<in> {''1'', ''t'', ''T'', ''TRUE'', ''true'', ''True''} then Some True
      else if s \<in> {''0'', ''f'', ''F'', ''FALSE'', ''false'', ''False''} then Some False else None)"

definition backup_config :: "string \<Rightarrow> string" where
  "backup_config k = Join2 taskDirectory (k @ ''.json'')"

definition backup_cron :: "string \<Rightarrow> string" where
  "backup_cron k = Join2 ''/etc/cron.d'' (''aegisadmin-backup-'' @ k)"

definition backup_schedule :: "string \<Rightarrow> string \<Rightarrow> string \<Rightarrow> string" where
  "backup_schedule name schedule k =
     ''# Sauvegarde g'' @ encode_rune 0xE9 @ ''r'' @ encode_rune 0xE9 @ ''e par AegisAdmin : '' @ name @ [CHR 0x0A] @
     schedule @ '' root '' @ backupExecutable @ '' '' @ k @ [CHR 0x0A]"

definition store_backup_task :: "cron_host \<Rightarrow> backup_task \<Rightarrow> string \<Rightarrow> history \<Rightarrow> backend_reply \<times> history" where
  "store_backup_task host t schedule h =
     (if \<not> Validate t then (failure 2 ''INVALID_BACKUP_TASK'', h)
      else if \<not> cron_secure host backupExecutable then (failure 3 ''DEPENDENCY_NOT_FOUND'', h)
      else case attempts (cron_exec host) (secure_directory taskDirectory @ [[''(write)'', backup_config (tID t), task_text host t]]) h of (ok, h1) \<Rightarrow>
        if \<not> ok then (failure 10 ''BACKUP_TASK_CREATE_FAILED'', h1)
        else case run_command (cron_exec host) [''(write)'', backup_cron (tID t), backup_schedule (tName t) schedule (tID t)] h1 of (r, h2) \<Rightarrow>
          if \<not> succeeded r then (failure 10 ''BACKUP_TASK_CREATE_FAILED'', h2 @ [[''(remove)'', backup_config (tID t)]])
          else (success [(''id'', JString (tID t)), (''name'', JString (tName t)), (''kind'', JString (tKind t)), (''result'', JString ''success'')], h2))"

definition createBackupTask :: "cron_host \<Rightarrow> string list \<Rightarrow> history \<Rightarrow> backend_reply \<times> history" where
  "createBackupTask host args h =
     (let name = trim_space (args ! 0); kind = args ! 1; schedule = normalizeSchedule (args ! 4);
          port = atoi (args ! 7); retention = atoi (args ! 10); removal = ParseBool (args ! 11) in
      if \<not> backupLabel name \<or> kind \<notin> {''mysql'', ''apache'', ''sites''} \<or> \<not> validTaskInput schedule ''true'' \<or> \<not> snd port \<or>
         \<not> snd retention \<or> removal = None
      then (failure 2 ''INVALID_BACKUP_TASK'', h)
      else case random_bytes (cron_exec host) h of (bs, h1) \<Rightarrow>
        (case newUUID bs of
           None \<Rightarrow> (failure 10 ''BACKUP_TASK_CREATE_FAILED'', h1)
         | Some k \<Rightarrow>
             store_backup_task host
               \<lparr>tID = k, tName = name, tKind = kind, tSource = trim_space (args ! 2), tDestination = trim_space (args ! 3),
                tRemoteHost = trim_space (args ! 5), tRemoteUser = trim_space (args ! 6), tRemotePath = trim_space (args ! 8),
                tSSHKey = trim_space (args ! 9), tRemotePort = fst port, tRetentionDays = fst retention,
                tRemoveLocal = the removal\<rparr> schedule h1))"

text \<open>A removal that finds no file answers status 2.\<close>

definition deleteBackupTask :: "cron_host \<Rightarrow> string \<Rightarrow> history \<Rightarrow> backend_reply \<times> history" where
  "deleteBackupTask host k h =
     (if \<not> managedID k then (failure 2 ''INVALID_BACKUP_TASK'', h)
      else case run_command (cron_exec host) [''(lstat)'', backup_config k] h of (r, h1) \<Rightarrow>
        if \<not> succeeded r then (failure 5 ''BACKUP_TASK_NOT_FOUND'', h1)
        else case run_command (cron_exec host) [''(remove)'', backup_cron k] h1 of (r1, h2) \<Rightarrow>
          if \<not> succeeded r1 \<and> status r1 \<noteq> 2 then (failure 10 ''BACKUP_TASK_DELETE_FAILED'', h2)
          else case run_command (cron_exec host) [''(remove)'', backup_config k] h2 of (r2, h3) \<Rightarrow>
            if \<not> succeeded r2 then (failure 10 ''BACKUP_TASK_DELETE_FAILED'', h3)
            else (success [(''id'', JString k), (''result'', JString ''success'')], h3))"

definition runBackupTask :: "cron_host \<Rightarrow> string \<Rightarrow> history \<Rightarrow> backend_reply \<times> history" where
  "runBackupTask host k h =
     (if \<not> managedID k then (failure 2 ''INVALID_BACKUP_TASK'', h)
      else case run_command (cron_exec host) [''(lstat)'', backup_config k] h of (r, h1) \<Rightarrow>
        if \<not> succeeded r then (failure 5 ''BACKUP_TASK_NOT_FOUND'', h1)
        else startExecution host ''root'' k (backupExecutable @ '' '' @ k) h1)"

definition packageVersion :: "cron_host \<Rightarrow> cron_backend \<Rightarrow> history \<Rightarrow> string \<times> history" where
  "packageVersion host b h =
     (case if cron_executable host dpkgQuery
           then cron_run (cron_exec host) [dpkgQuery, ''--show'', ''--showformat=${Version}'', ''--'', cbPackage b] h else (('''', 1), h) of
        ((v1, st1), h1) \<Rightarrow>
          if st1 = 0 \<and> trim_space v1 \<noteq> '''' then (trim_space v1, h1)
          else case if cron_executable host rpmQuery
                    then cron_run (cron_exec host) [rpmQuery, ''-q'', ''--qf'', ''%{EVR}'', cbPackage b] h1 else (('''', 1), h1) of
                 ((v2, st2), h2) \<Rightarrow>
                   if st2 = 0 \<and> trim_space v2 \<noteq> '''' then (trim_space v2, h2)
                   else case cron_run (cron_exec host) [cbCrontab b, ''--version''] h2 of ((v3, st3), h3) \<Rightarrow>
                          (if st3 = 0 then trim_space (hd (lines_of v3)) else '''', h3))"

definition unit_property :: "cron_host \<Rightarrow> cron_backend \<Rightarrow> string \<Rightarrow> string \<Rightarrow> history \<Rightarrow> string \<times> history" where
  "unit_property host b name fallback h =
     (case cron_run (cron_exec host) [cron_systemctl, ''show'', ''--property='' @ name, ''--value'', ''--'', cbUnit b] h of ((v, _), h1) \<Rightarrow>
        (if v = '''' \<or> v = ''[not set]'' then fallback else v, h1))"

definition counter :: "string \<Rightarrow> int" where
  "counter v = (if snd (atoi v) \<and> 0 \<le> fst (atoi v) then fst (atoi v) else 0)"

text \<open>The three counters are read in the order Go happens to give the map; the model takes the order of the source.\<close>

definition cron_status :: "cron_host \<Rightarrow> cron_backend \<Rightarrow> history \<Rightarrow> (string \<times> json) list \<times> history" where
  "cron_status host b h =
     (case unit_property host b ''LoadState'' ''not-found'' h of (load, h1) \<Rightarrow>
        let found = (load = ''loaded'' \<or> load = ''masked'');
            data = (\<lambda>act en actst st pid mem tasks.
              [(''service'', JString (cbService b)), (''unit'', JString (cbUnit b)), (''exists'', JBool found), (''active'', JBool act),
               (''enabled'', JBool en), (''load_state'', JString load), (''active_state'', JString actst), (''state'', JString st),
               (''main_pid'', JInt pid), (''memory_bytes'', JInt mem), (''tasks'', JInt tasks)])
        in if \<not> found then (data False False ''inactive'' ''unknown'' 0 0 0, h1)
           else case cron_run (cron_exec host) [cron_systemctl, ''is-active'', ''--quiet'', ''--'', cbUnit b] h1 of ((_, act), h2) \<Rightarrow>
             case cron_run (cron_exec host) [cron_systemctl, ''is-enabled'', ''--quiet'', ''--'', cbUnit b] h2 of ((_, en), h3) \<Rightarrow>
             case unit_property host b ''ActiveState'' ''inactive'' h3 of (actst, h4) \<Rightarrow>
             case unit_property host b ''SubState'' ''unknown'' h4 of (st, h5) \<Rightarrow>
             case unit_property host b ''MainPID'' ''0'' h5 of (pid, h6) \<Rightarrow>
             case unit_property host b ''MemoryCurrent'' ''0'' h6 of (mem, h7) \<Rightarrow>
             case unit_property host b ''TasksCurrent'' ''0'' h7 of (tasks, h8) \<Rightarrow>
               (data (act = 0) (en = 0) actst st (counter pid) (counter mem) (counter tasks), h8))"

definition argumentCounts :: "(string \<times> nat) list" where
  "argumentCounts =
     [(''info'', 0), (''status'', 0), (''users'', 0), (''jobs'', 0), (''create'', 3), (''update'', 4), (''suspend'', 2), (''resume'', 2),
      (''delete'', 2), (''run'', 2), (''run-result'', 1), (''backup-create'', 12), (''backup-delete'', 1), (''backup-run'', 1)]"

definition dependencies :: "cron_host \<Rightarrow> cron_backend \<Rightarrow> string \<Rightarrow> bool" where
  "dependencies host b command \<longleftrightarrow>
     cron_executable host cron_systemctl \<and>
     (command = ''status'' \<or>
      (command \<noteq> ''info'' \<and> command \<noteq> ''jobs'' \<longrightarrow> cron_executable host (cbCrontab b)) \<and>
      (command = ''run'' \<or> command = ''run-result'' \<longrightarrow> cron_executable host systemdRun \<and> cron_executable host runnerPath))"

definition user_json :: "cron_user \<Rightarrow> json" where
  "user_json u = JObject [(''name'', JString (cuName u)), (''uid'', JInt (cuUID u)), (''system'', JBool (cuSystem u))]"

definition job_json :: "cron_job \<Rightarrow> json" where
  "job_json j =
     JObject [(''id'', JString (jID j)), (''source'', JString (jSource j)), (''type'', JString (jType j)), (''user'', JString (jUser j)),
       (''schedule'', JString (jSchedule j)), (''command'', JString (jCommand j)),
       (''line'', case jLine j of None \<Rightarrow> JNull | Some n \<Rightarrow> JInt (int n)), (''enabled'', JBool (jEnabled j)),
       (''editable'', JBool (jEditable j)), (''managed'', JBool (jManaged j))]"

definition cron_execute :: "cron_host \<Rightarrow> cron_backend \<Rightarrow> string \<Rightarrow> string list \<Rightarrow> history \<Rightarrow> backend_reply \<times> history" where
  "cron_execute host b command args h =
     (if command \<noteq> ''status'' \<and> \<not> cron_executable host (cbCrontab b) then (failure 5 ''CRON_NOT_INSTALLED'', h)
      else if command = ''info'' then
        (case packageVersion host b h of (v, h1) \<Rightarrow>
           if v = '''' then (failure 10 ''CRON_VERSION_UNAVAILABLE'', h1)
           else (success [(''product'', JString ''Cron''), (''version'', JString v), (''service'', JString (cbService b)), (''unit'', JString (cbUnit b)),
                   (''anacron_available'', JBool (cron_executable host (jpAnacron (cbPaths b)) \<and> job_regular (cron_files host) (jpAnacrontab (cbPaths b))))], h1))
      else if command = ''status'' then (case cron_status host b h of (data, h1) \<Rightarrow> (success data, h1))
      else if command = ''jobs'' then
        (case cron_jobs (cron_files host) (cbPaths b) of
           None \<Rightarrow> (failure 10 ''CRON_JOBS_READ_FAILED'', h)
         | Some js \<Rightarrow> (success [(''jobs'', JArray (map job_json js)), (''count'', JInt (int (length js)))], h))
      else if command = ''users'' then
        (case cron_users (job_accounts (cron_files host)) of
           None \<Rightarrow> (failure 10 ''CRON_USERS_READ_FAILED'', h)
         | Some us \<Rightarrow> (success [(''users'', JArray (map user_json us)), (''count'', JInt (int (length us)))], h))
      else if command = ''run-result'' then (runResult host (args ! 0) h, h)
      else if command = ''backup-create'' then createBackupTask host args h
      else if command = ''backup-delete'' then deleteBackupTask host (args ! 0) h
      else if command = ''backup-run'' then runBackupTask host (args ! 0) h
      else manage host b command args h)"

definition cron_handle :: "cron_host \<Rightarrow> cron_backend \<Rightarrow> history backend_handler" where
  "cron_handle host b command args h =
     (if command = '''' then (failure 2 ''MISSING_COMMAND'', h)
      else case map_of argumentCounts command of
             None \<Rightarrow> (failure 4 ''COMMAND_NOT_FOUND'', h)
           | Some expected \<Rightarrow>
               if length args \<noteq> expected then (failure 2 ''INVALID_ARGUMENT_COUNT'', h)
               else if \<not> dependencies host b command then (failure 3 ''DEPENDENCY_NOT_FOUND'', h)
               else cron_execute host b command args h)"

section \<open>The domain is confined\<close>

text \<open>
  What the surroundings of the domain are taken to do: a temporary file is created below \<^verbatim>\<open>/run\<close>, 16 random
  bytes are 16 bytes, and a time stamp holds no slash.
\<close>

definition cron_env :: "cron_host \<Rightarrow> bool" where
  "cron_env host \<longleftrightarrow>
     (\<forall>h. succeeded (cron_exec host h [''(create-temp)'', ''/run'', ''aegisadmin-cron-'']) \<longrightarrow>
        below ''/run'' (out (cron_exec host h [''(create-temp)'', ''/run'', ''aegisadmin-cron-'']))) \<and>
     (\<forall>h. succeeded (cron_exec host h [''(random)'', ''16'']) \<longrightarrow> length (out (cron_exec host h [''(random)'', ''16''])) = 16) \<and>
     (\<forall>h. CHR ''/'' \<notin> set (cron_stamp host h))"

text \<open>
  Files are written only below \<^verbatim>\<open>/run\<close>, as copies of a crontab in the directory for them, as the configuration of
  a backup task, or as the one entry of that task in \<^verbatim>\<open>/etc/cron.d\<close>.
\<close>

definition cron_write_ok :: "string \<Rightarrow> string \<Rightarrow> bool" where
  "cron_write_ok path content \<longleftrightarrow>
     below ''/run'' path \<or> below crontabBackups path \<or> (\<exists>k. managedID k \<and> path = backup_config k) \<or>
     (\<exists>k name schedule. managedID k \<and> path = backup_cron k \<and> content = backup_schedule name schedule k \<and> backupLabel name \<and>
        validTaskInput schedule ''true'')"

definition query_programs :: "string list" where
  "query_programs = [dpkgQuery, rpmQuery, cron_systemctl]"

definition run_unit :: "string \<Rightarrow> string \<Rightarrow> string \<Rightarrow> string list" where
  "run_unit execution who command =
     [systemdRun, ''--quiet'', ''--collect'', ''--unit=aegisadmin-cron-run-'' @ execution, ''--property=Type=exec'',
      ''--property=RuntimeMaxSec='' @ (if who = ''root'' then ''2h10min'' else ''70s''), runnerPath, execution, who, command]"

text \<open>
  Crontabs are read and installed only for the editable account the request names, and a command is
  started only as that account, or as root when it is the backup program with the identifier of a task.
\<close>

definition cron_spec :: "cron_host \<Rightarrow> cron_backend \<Rightarrow> string \<Rightarrow> string list \<Rightarrow> string list \<Rightarrow> bool" where
  "cron_spec host b command args argv \<longleftrightarrow>
     has_prefix (hd argv) ''('' \<and> (\<forall>path content. argv = [''(write)'', path, content] \<longrightarrow> cron_write_ok path content) \<or>
     hd argv \<in> set query_programs \<or> argv = [cbCrontab b, ''--version''] \<or>
     (\<exists>who rest. argv = cbCrontab b # ''-u'' # who # rest \<and> args \<noteq> [] \<and> who = hd args \<and> editable (job_accounts (cron_files host)) who) \<or>
     (\<exists>execution who line. argv = run_unit execution who line \<and>
        (args \<noteq> [] \<and> who = hd args \<and> editable (job_accounts (cron_files host)) who \<or>
         command = ''backup-run'' \<and> who = ''root'' \<and> (\<exists>k. args = [k] \<and> managedID k \<and> line = backupExecutable @ '' '' @ k)))"

definition cron_permitted :: "cron_host \<Rightarrow> cron_backend \<Rightarrow> string \<Rightarrow> string list \<Rightarrow> string list \<Rightarrow> bool" where
  "cron_permitted host b command args argv \<longleftrightarrow> (cron_env host \<longrightarrow> cron_spec host b command args argv)"

lemma permitted_effect:
  "has_prefix (hd argv) ''('' \<Longrightarrow> hd argv \<noteq> ''(write)'' \<Longrightarrow> cron_permitted host b command args argv"
  by (auto simp: cron_permitted_def cron_spec_def)

lemma permitted_write:
  "(cron_env host \<Longrightarrow> cron_write_ok path content) \<Longrightarrow> cron_permitted host b command args [''(write)'', path, content]"
  by (auto simp: cron_permitted_def cron_spec_def)

lemma permitted_query: "hd argv \<in> set query_programs \<Longrightarrow> cron_permitted host b command args argv"
  by (auto simp: cron_permitted_def cron_spec_def)

lemma permitted_version: "cron_permitted host b command args [cbCrontab b, ''--version'']"
  by (auto simp: cron_permitted_def cron_spec_def)

lemma permitted_crontab:
  "args \<noteq> [] \<Longrightarrow> editable (job_accounts (cron_files host)) (hd args) \<Longrightarrow>
     cron_permitted host b command args (cbCrontab b # ''-u'' # hd args # rest)"
  by (auto simp: cron_permitted_def cron_spec_def)

lemma permitted_unit:
  "args \<noteq> [] \<and> who = hd args \<and> editable (job_accounts (cron_files host)) who \<or>
   command = ''backup-run'' \<and> who = ''root'' \<and> (\<exists>k. args = [k] \<and> managedID k \<and> line = backupExecutable @ '' '' @ k) \<Longrightarrow>
     cron_permitted host b command args (run_unit execution who line)"
  unfolding cron_permitted_def cron_spec_def by blast

lemmas permitted_steps = permitted_effect permitted_query permitted_version

lemma cron_run_after: "cron_run x argv h' = (p, h'') \<Longrightarrow> extends P h h' \<Longrightarrow> P argv \<Longrightarrow> extends P h h''"
  by (auto dest: cron_run_eq)

lemma random_after:
  "random_bytes x h' = (bs, h'') \<Longrightarrow> extends P h h' \<Longrightarrow> P [''(random)'', ''16''] \<Longrightarrow> extends P h h''"
  by (auto simp: random_bytes_def run_command_def)

lemmas history_after = attempts_after run_command_after cron_run_after random_after

lemma secure_directory_permitted: "list_all (cron_permitted host b command args) (secure_directory path)"
  by (simp add: secure_directory_def permitted_effect)

lemma startExecution_confined:
  assumes unit: "\<And>execution. cron_permitted host b command args (run_unit execution who line)"
  shows "extends (cron_permitted host b command args) h (snd (startExecution host who k line h))"
proof -
  let ?P = "cron_permitted host b command args" and ?x = "cron_exec host"
  obtain ok h1 where s1: "attempts ?x (secure_directory resultDirectory) h = (ok, h1)" by fastforce
  let ?h1 = "h1 @ map (\<lambda>n. [''(remove)'', Join2 resultDirectory n]) (expired_results host h1)"
  obtain rb h2 where s2: "random_bytes ?x ?h1 = (rb, h2)" by fastforce
  let ?e = "hex_encode (the rb)"
  let ?result = "Join2 resultDirectory (?e @ ''.json'')" and ?tmp = "Join2 resultDirectory (''.'' @ ?e @ ''.tmp'')"
  obtain r h3 where s3: "run_command ?x [''(create)'', ?tmp] h2 = (r, h3)" by fastforce
  obtain ok1 h4 where s4: "attempts ?x [[''(pending)'', ?tmp, ?e], [''(sync)'', ?tmp]] h3 = (ok1, h4)" by fastforce
  obtain rc h5 where s5: "run_command ?x [''(close)'', ?tmp] h4 = (rc, h5)" by fastforce
  obtain ok2 h6 where s6: "(if ok1 \<and> succeeded rc then attempts ?x [[''(rename)'', ?tmp, ?result]] h5 else (False, h5)) = (ok2, h6)"
    by fastforce
  obtain os st h7 where s7: "cron_run ?x (run_unit ?e who line) h6 = ((os, st), h7)" by (metis prod.exhaust)
  have e1: "extends ?P h h1" by (rule attempts_after [OF s1]) (simp_all add: secure_directory_permitted)
  have "extends ?P h ?h1" by (rule extends_adds [OF e1]) (simp add: list_all_iff permitted_effect)
  from random_after [OF s2 this] have e2: "extends ?P h h2" by (simp add: permitted_effect)
  from run_command_after [OF s3 this] have e3: "extends ?P h h3" by (simp add: permitted_effect)
  from attempts_after [OF s4 this] have e4: "extends ?P h h4" by (simp add: permitted_effect)
  from run_command_after [OF s5 this] have e5: "extends ?P h h5" by (simp add: permitted_effect)
  have e6: "extends ?P h h6"
  proof (cases "ok1 \<and> succeeded rc")
    case True
    then have "attempts ?x [[''(rename)'', ?tmp, ?result]] h5 = (ok2, h6)" using s6 by (simp del: attempts.simps)
    from attempts_after [OF this e5] show ?thesis by (simp add: permitted_effect)
  next
    case False
    then show ?thesis using s6 e5 by auto
  qed
  from cron_run_after [OF s7 e6] have e7: "extends ?P h h7" by (simp add: unit)
  show ?thesis
    using e1 e2 e3 e6 e7 s1 s2 s3 s4 s5 s6 s7
    by (auto simp: startExecution_def Let_def run_unit_def permitted_effect simp del: attempts.simps split: option.splits intro!: extends_add)
qed

lemma below_plain: "below root (Join2 root n)" if "IsAbs root" "plain_name n"
proof -
  have "root \<noteq> ''''" "n \<noteq> ''''" "IsAbs (root @ CHR ''/'' # n)" using that by (auto simp: IsAbs_def plain_name_def has_prefix_iff)
  then have "elements (Join2 root n) = elements root @ [n]" using that by (simp add: Join2_def elements_Clean elements_snoc)
  then show ?thesis using that by (auto simp: below_def plain_name_def)
qed

lemma backup_crontab_confined:
  assumes "safeName who"
  shows "extends (cron_permitted host b command args) h (snd (backup_crontab host who content h))"
proof -
  let ?P = "cron_permitted host b command args" and ?x = "cron_exec host"
  obtain ok h1 where s1: "attempts ?x (secure_directory crontabBackups) h = (ok, h1)" by fastforce
  let ?path = "Join2 crontabBackups (cron_stamp host h1 @ ''-'' @ who @ ''.crontab'')"
  obtain ok2 h2 where s2: "attempts ?x [[''(create)'', ?path], [''(write)'', ?path, content], [''(sync)'', ?path]] h1 = (ok2, h2)" by fastforce
  have e1: "extends ?P h h1" by (rule attempts_after [OF s1]) (simp_all add: secure_directory_permitted)
  have "CHR ''/'' \<notin> set who"
    using assms by (auto simp: safeName_def list_all_iff is_alnum_def is_digit_def is_lower_def is_upper_def in_range_def)
  then have "cron_env host \<Longrightarrow> below crontabBackups ?path"
    by (intro below_plain dash_plain) (auto simp: cron_env_def IsAbs_def)
  then have "?P [''(write)'', ?path, content]" by (auto intro!: permitted_write simp: cron_write_ok_def)
  then have "extends ?P h h2" by (intro attempts_after [OF s2 e1]) (simp add: permitted_effect)
  then show ?thesis using e1 s1 s2 by (simp add: backup_crontab_def Let_def del: attempts.simps)
qed

lemma install_confined:
  assumes "args \<noteq> []" "editable (job_accounts (cron_files host)) (hd args)"
  shows "extends (cron_permitted host b command args) h (snd (install host b (hd args) ls h))"
proof -
  let ?P = "cron_permitted host b command args" and ?x = "cron_exec host"
  obtain r h1 where s1: "run_command ?x [''(create-temp)'', ''/run'', ''aegisadmin-cron-''] h = (r, h1)" by fastforce
  have e1: "extends ?P h h1" by (rule run_command_after [OF s1]) (simp_all add: permitted_effect)
  let ?p = "out r"
  obtain ok h2 where s2: "attempts ?x [[''(chmod)'', ?p], [''(write)'', ?p, crontab_text ls], [''(sync)'', ?p], [''(close)'', ?p]] h1 = (ok, h2)"
    by fastforce
  obtain o3 st3 h3 where s3: "cron_run ?x [cbCrontab b, ''-u'', hd args, ''-n'', ?p] h2 = ((o3, st3), h3)" by (metis prod.exhaust)
  obtain o4 st4 h4 where s4: "cron_run ?x [cbCrontab b, ''-u'', hd args, ?p] h3 = ((o4, st4), h4)" by (metis prod.exhaust)
  show ?thesis
  proof (cases "succeeded r")
    case True
    then have "cron_env host \<Longrightarrow> below ''/run'' ?p" using s1 by (auto simp: cron_env_def run_command_eq)
    then have "?P [''(write)'', ?p, crontab_text ls]" by (auto intro!: permitted_write simp: cron_write_ok_def)
    then have e2: "extends ?P h h2" by (intro attempts_after [OF s2 e1]) (simp add: permitted_effect)
    have e3: "extends ?P h h3" by (rule cron_run_after [OF s3 e2]) (rule permitted_crontab [OF assms])
    have e4: "extends ?P h h4" by (rule cron_run_after [OF s4 e3]) (rule permitted_crontab [OF assms])
    show ?thesis
      using True e2 e3 e4 s1 s2 s3 s4
      by (auto simp: install_def install_file_def permitted_effect simp del: attempts.simps intro!: extends_add)
  next
    case False
    then show ?thesis using e1 s1 by (simp add: install_def)
  qed
qed

lemma changed_lines_confined:
  "extends (cron_permitted host b command args) h (snd (changed_lines host action k s c ls records h))"
proof -
  obtain bs h1 where "random_bytes (cron_exec host) h = (bs, h1)" by fastforce
  moreover from this have "extends (cron_permitted host b command args) h h1"
    by (rule random_after) (simp_all add: permitted_effect)
  ultimately show ?thesis by (auto simp: changed_lines_def split: option.split if_splits)
qed

lemma apply_change_confined:
  assumes "args \<noteq> []" "editable (job_accounts (cron_files host)) (hd args)"
  shows "extends (cron_permitted host b command args) h (snd (apply_change host b action (hd args) original result h))"
proof (cases result)
  case (Inl rep)
  then show ?thesis by (simp add: apply_change_def)
next
  case (Inr p)
  let ?P = "cron_permitted host b command args"
  obtain ls k enabled where p: "p = (ls, k, enabled)" by (cases p)
  obtain ok h1 where s1: "backup_crontab host (hd args) original h = (ok, h1)" by fastforce
  have e1: "extends ?P h h1"
    using backup_crontab_confined [OF editable_safeName [OF assms(2)], of host b command args h] s1 by (metis snd_conv)
  obtain ir h2 where s2: "install host b (hd args) ls h1 = (ir, h2)" by fastforce
  have "extends ?P h h2" using install_confined [OF assms, of b command h1 ls] s2 extends_trans [OF e1] by (metis snd_conv)
  then show ?thesis using Inr p s1 s2 e1 by (cases ir) (simp_all add: apply_change_def)
qed

lemma manage_locked_confined:
  assumes "args \<noteq> []" "editable (job_accounts (cron_files host)) (hd args)"
  shows "extends (cron_permitted host b command args) h (snd (manage_locked host b action (hd args) k s c h))"
proof -
  let ?P = "cron_permitted host b command args" and ?x = "cron_exec host"
  obtain o1 st1 h1 where s1: "cron_run ?x [cbCrontab b, ''-u'', hd args, ''-l''] h = ((o1, st1), h1)" by (metis prod.exhaust)
  have e1: "extends ?P h h1" by (rule cron_run_after [OF s1]) (simp_all add: permitted_crontab [OF assms])
  have run: "extends ?P h (snd (startExecution host (hd args) k line h1))" for line
    by (rule extends_trans [OF e1 startExecution_confined], rule permitted_unit) (simp add: assms)
  have change: "extends ?P h (snd (apply_change host b action (hd args) original result h2))"
    if "changed_lines host action k s c ls records h1 = (result, h2)" for ls records original result h2
  proof -
    have "extends ?P h1 h2" using that changed_lines_confined [of host b command args h1 action k s c ls records] by simp
    from extends_trans [OF e1 this] show ?thesis by (rule extends_trans) (rule apply_change_confined [OF assms])
  qed
  show ?thesis
    using s1 e1 run change by (auto simp: manage_locked_def Let_def split: option.split prod.split)
qed

lemma manage_confined:
  assumes "args \<noteq> []" shows "extends (cron_permitted host b command args) h (snd (manage host b action args h))"
proof (cases "editable (job_accounts (cron_files host)) (args ! 0)")
  case True
  let ?P = "cron_permitted host b command args"
  have hd: "args ! 0 = hd args" using assms by (simp add: hd_conv_nth)
  let ?steps = "[[''(mkdir)'', ''/run/lock''], [''(open)'', lockFile], [''(lock)'', lockFile]]"
  obtain ok h1 where s1: "attempts (cron_exec host) ?steps h = (ok, h1)" by fastforce
  have e1: "extends ?P h h1" by (rule attempts_after [OF s1]) (simp_all add: permitted_effect)
  have "extends ?P h (snd (manage_locked host b action (hd args) k s c h1))" for k s c
    using e1 manage_locked_confined [OF assms True [unfolded hd], of b command h1] extends_trans by blast
  then show ?thesis
    using e1 s1 hd by (auto simp: manage_def Let_def permitted_effect simp del: attempts.simps intro!: extends_add)
next
  case False
  then show ?thesis by (simp add: manage_def Let_def)
qed

lemma store_backup_task_confined:
  assumes "cron_env host \<Longrightarrow> managedID (tID t)" "backupLabel (tName t)" "validTaskInput schedule ''true''"
  shows "extends (cron_permitted host b command args) h (snd (store_backup_task host t schedule h))"
proof -
  let ?P = "cron_permitted host b command args" and ?x = "cron_exec host"
  let ?steps = "secure_directory taskDirectory @ [[''(write)'', backup_config (tID t), task_text host t]]"
  let ?entry = "[''(write)'', backup_cron (tID t), backup_schedule (tName t) schedule (tID t)]"
  have w: "?P [''(write)'', backup_config (tID t), task_text host t]" "?P ?entry"
    using assms by (auto intro!: permitted_write simp: cron_write_ok_def)
  obtain ok h1 where s1: "attempts ?x ?steps h = (ok, h1)" by fastforce
  have e1: "extends ?P h h1" by (rule attempts_after [OF s1]) (simp_all add: secure_directory_permitted w)
  obtain r h2 where s2: "run_command ?x ?entry h1 = (r, h2)" by fastforce
  have "extends ?P h h2" by (rule run_command_after [OF s2 e1 w(2)])
  then show ?thesis
    using e1 s1 s2 by (auto simp: store_backup_task_def permitted_effect simp del: attempts.simps intro!: extends_add)
qed

lemma createBackupTask_confined: "extends (cron_permitted host b command args) h (snd (createBackupTask host args h))"
proof -
  let ?P = "cron_permitted host b command args"
  obtain bs h1 where s1: "random_bytes (cron_exec host) h = (bs, h1)" by fastforce
  have e1: "extends ?P h h1" by (rule random_after [OF s1]) (simp_all add: permitted_effect)
  have uuid: "managedID k" if "cron_env host" "newUUID bs = Some k" for k
    using that s1 newUUID_managedID [of "the bs" k]
    by (cases bs) (auto simp: newUUID_def cron_env_def random_bytes_def run_command_def split: if_splits)
  have "extends ?P h (snd (store_backup_task host t s h1))"
    if "newUUID bs = Some k" "tID t = k" "backupLabel (tName t)" "validTaskInput s ''true''" for t s k
    using that uuid e1 store_backup_task_confined [of host t s b command args h1] extends_trans by blast
  then show ?thesis using e1 s1 by (auto simp: createBackupTask_def Let_def split: option.split)
qed

lemma deleteBackupTask_confined: "extends (cron_permitted host b command args) h (snd (deleteBackupTask host k h))"
  by (simp add: deleteBackupTask_def run_command_def extends_append permitted_effect)

lemma runBackupTask_confined:
  "args = [k] \<Longrightarrow> extends (cron_permitted host b ''backup-run'' args) h (snd (runBackupTask host k h))"
proof (cases "managedID k")
  case True
  assume "args = [k]"
  then have "extends (cron_permitted host b ''backup-run'' args) (h @ [[''(lstat)'', backup_config k]])
      (snd (startExecution host ''root'' k (backupExecutable @ '' '' @ k) (h @ [[''(lstat)'', backup_config k]])))"
    using True by (intro startExecution_confined permitted_unit) auto
  moreover have "extends (cron_permitted host b ''backup-run'' args) h (h @ [[''(lstat)'', backup_config k]])"
    by (simp add: permitted_effect)
  ultimately have "extends (cron_permitted host b ''backup-run'' args) h
      (snd (startExecution host ''root'' k (backupExecutable @ '' '' @ k) (h @ [[''(lstat)'', backup_config k]])))"
    by (rule extends_trans [rotated])
  then show ?thesis using True by (simp add: runBackupTask_def run_command_def permitted_effect)
next
  case False
  then show ?thesis by (simp add: runBackupTask_def)
qed

lemma unit_property_after:
  "unit_property host b name fallback h' = (v, h'') \<Longrightarrow> extends (cron_permitted host b command args) h h' \<Longrightarrow>
     extends (cron_permitted host b command args) h h''"
  by (auto simp: unit_property_def query_programs_def split: prod.splits elim!: cron_run_after intro!: permitted_query)

lemma cron_status_confined: "extends (cron_permitted host b command args) h (snd (cron_status host b h))"
  by (auto simp: cron_status_def Let_def query_programs_def split: prod.split
           elim!: unit_property_after cron_run_after intro!: permitted_query)

lemma packageVersion_confined: "extends (cron_permitted host b command args) h (snd (packageVersion host b h))"
  by (auto simp: packageVersion_def query_programs_def split: prod.split if_splits
           elim!: cron_run_after intro!: permitted_query permitted_version)

lemma reply_ok_cases [simp]: "reply_ok (actionFailure action)"
  by (simp add: actionFailure_def)

lemma startExecution_ok: "reply_ok (fst (startExecution host who k line h))"
  by (auto simp: startExecution_def Let_def simp del: attempts.simps split: prod.split option.split)

lemma apply_change_ok: "(\<And>rep. result = Inl rep \<Longrightarrow> reply_ok rep) \<Longrightarrow> reply_ok (fst (apply_change host b action who original result h))"
  by (auto simp: apply_change_def split: sum.split prod.split install_result.split)

lemma changed_lines_ok: "changed_lines host action k s c ls records h = (Inl rep, h') \<Longrightarrow> reply_ok rep"
  by (auto simp: changed_lines_def split: if_splits prod.splits option.splits)

lemma manage_ok: "reply_ok (fst (manage host b action args h))"
proof -
  have "reply_ok (fst (manage_locked host b action who k s c h1))" for who k s c h1
    by (auto simp: manage_locked_def Let_def startExecution_ok split: prod.split option.split intro!: apply_change_ok dest: changed_lines_ok)
  then show ?thesis by (auto simp: manage_def Let_def simp del: attempts.simps split: prod.split)
qed

lemma backup_tasks_ok:
  "reply_ok (fst (createBackupTask host args h))" "reply_ok (fst (deleteBackupTask host k h))" "reply_ok (fst (runBackupTask host k h))"
  by (auto simp: createBackupTask_def store_backup_task_def deleteBackupTask_def runBackupTask_def Let_def startExecution_ok
           simp del: attempts.simps split: prod.split option.split)

lemma runResult_ok: "reply_ok (runResult host k h)"
  by (simp add: runResult_def split: result_file.split)

lemma cron_execute_ok: "reply_ok (fst (cron_execute host b command args h))"
  by (auto simp: cron_execute_def manage_ok backup_tasks_ok runResult_ok split: prod.split option.split)

lemma cron_execute_confined:
  assumes "map_of argumentCounts command = Some (length args)"
  shows "extends (cron_permitted host b command args) h (snd (cron_execute host b command args h))"
proof -
  have one: "\<exists>k. args = [k]" if "command = ''backup-run''"
    using assms that by (cases args) (auto simp: argumentCounts_def)
  have some: "args \<noteq> []" if "command \<notin> {''info'', ''status'', ''users'', ''jobs''}"
    using assms that by (auto simp: argumentCounts_def split: if_splits)
  have run: "extends (cron_permitted host b command args) h (snd (runBackupTask host (args ! 0) h))" if "command = ''backup-run''"
    using one that runBackupTask_confined by auto
  note parts = cron_status_confined [of host b command args h] packageVersion_confined [of host b command args h]
  show ?thesis
  proof (cases "command \<in> {''info'', ''status'', ''users'', ''jobs''}")
    case True
    then show ?thesis
      using parts by (elim insertE emptyE) (simp_all add: cron_execute_def case_prod_beta split: option.split)
  next
    case False
    show ?thesis
      using False run manage_confined [OF some [OF False], of host b command h command]
        createBackupTask_confined [of host b command args h] deleteBackupTask_confined [of host b command args h "args ! 0"]
      by (auto simp: cron_execute_def)
  qed
qed

interpretation cron: confined_handler "cron_handle host b" "cron_permitted host b" for host b
proof
  show "reply_ok (fst (cron_handle host b command args h))" for command args h
    by (auto simp: cron_handle_def cron_execute_ok split: option.split)
  show "extends (cron_permitted host b command args) h (snd (cron_handle host b command args h))" for command args h
    using cron_execute_confined [of command args host b h] by (auto simp: cron_handle_def split: option.split)
qed

section \<open>Entries of cron.d\<close>

lemma decode_rune_tail:
  "128 \<le> byte_val a \<Longrightarrow> c \<in> set (take (snd (decode_rune (a # s)) - 1) s) \<Longrightarrow> 128 \<le> byte_val c"
  by (cases s; cases "tl s"; cases "tl (tl s)")
     (auto simp: decode_rune_def cont_byte_def split: if_splits)

lemma decode_rune_ascii:
  assumes "c \<in> set (take (snd (decode_rune s)) s)" "byte_val c < 128" shows "fst (decode_rune s) = byte_val c"
proof (cases s)
  case Nil
  then show ?thesis using assms(1) by simp
next
  case (Cons a t)
  show ?thesis
  proof (cases "byte_val a < 128")
    case True
    then have "decode_rune s = (byte_val a, 1)" by (simp add: Cons decode_rune_def)
    then show ?thesis using assms(1) Cons by simp
  next
    case False
    have "c = a \<or> c \<in> set (take (snd (decode_rune s) - 1) t)"
      using assms(1) Cons by (cases "snd (decode_rune s)") auto
    then show ?thesis using assms(2) False decode_rune_tail [of a c t] Cons by auto
  qed
qed

lemma runes_ascii_member: "c \<in> set s \<Longrightarrow> byte_val c < 128 \<Longrightarrow> byte_val c \<in> fst ` set (runes s)"
proof (induction s rule: runes.induct)
  case (1 s)
  then have ne: "s \<noteq> []" by auto
  let ?w = "snd (decode_rune s)"
  have "c \<in> set (take ?w s) \<or> c \<in> set (drop ?w s)" using 1(2) by (metis Un_iff append_take_drop_id set_append)
  then show ?case
  proof
    assume "c \<in> set (take ?w s)"
    from decode_rune_ascii [OF this 1(3)] show ?thesis using ne by (subst runes.simps) (auto intro: rev_image_eqI)
  next
    assume "c \<in> set (drop ?w s)"
    from 1(1) [OF ne this 1(3)] show ?thesis using ne by (subst runes.simps) auto
  qed
qed

lemma backupLabel_no_break: "backupLabel name \<Longrightarrow> CHR 0x0A \<notin> set name"
proof
  assume label: "backupLabel name" and lf: "CHR 0x0A \<in> set name"
  have "10 \<in> fst ` set (runes name)" using runes_ascii_member [OF lf] by simp
  moreover have "\<not> label_rune 10" by (simp add: label_rune_def is_alnum_def is_digit_def is_lower_def is_upper_def in_range_def)
  ultimately show False
    using label by (cases "runes name") (auto simp: backupLabel_def list_all_iff)
qed

lemma managedID_chars: "managedID k \<Longrightarrow> c \<in> set k \<Longrightarrow> hex_digit c \<or> c = CHR ''-''"
proof -
  assume k: "managedID k" and c: "c \<in> set k"
  have "\<forall>w \<in> set (split_char CHR ''-'' k). list_all hex_digit w" using k by (auto simp: managedID_def Let_def list_all_iff)
  moreover have "c \<in> set (join ''-'' (split_char CHR ''-'' k))" using c by (simp add: join_split_char)
  ultimately show ?thesis using join_subset [of "''-''" "split_char CHR ''-'' k"] by (fastforce simp: list_all_iff)
qed

lemma managedID_no_break: "managedID k \<Longrightarrow> CHR 0x0A \<notin> set k" "managedID k \<Longrightarrow> CHR ''/'' \<notin> set k"
  using managedID_chars [of k] by (fastforce simp: hex_digit_def is_digit_def in_range_def)+

lemma backup_schedule_lines:
  assumes "backupLabel name" "validTaskInput schedule ''true''" "managedID k"
  shows "\<exists>comment. lines_of (backup_schedule name schedule k) = [comment, schedule @ '' root '' @ backupExecutable @ '' '' @ k, ''''] \<and> has_prefix comment ''#''"
proof -
  let ?c = "''# Sauvegarde g'' @ encode_rune 0xE9 @ ''r'' @ encode_rune 0xE9 @ ''e par AegisAdmin : '' @ name"
  let ?l = "schedule @ '' root '' @ backupExecutable @ '' '' @ k"
  have "encode_rune 0xE9 = [CHR 0xC3, CHR 0xA9]" by code_simp
  then have "CHR 0x0A \<notin> set ?c" using backupLabel_no_break [OF assms(1)] by simp
  moreover have "CHR 0x0A \<notin> set ?l"
    using assms(2) managedID_no_break(1) [OF assms(3)] by (auto simp: validTaskInput_def line_break_def)
  ultimately have "lines_of (join [CHR 0x0A] [?c, ?l, '''']) = [?c, ?l, '''']" by (intro split_char_join) simp_all
  moreover have "backup_schedule name schedule k = join [CHR 0x0A] [?c, ?l, '''']" by (simp add: backup_schedule_def)
  ultimately show ?thesis by (intro exI [of _ ?c]) simp
qed

lemma elements_roots:
  "elements ''/etc/cron.d'' = [''etc'', ''cron.d'']" "elements ''/run'' = [''run'']"
  "elements crontabBackups = [''var'', ''backups'', ''aegisadmin-system'', ''cron'']"
  "elements taskDirectory = [''etc'', ''aegisadmin-system'', ''backup-tasks'']"
  by code_simp+

lemma backup_config_elements:
  assumes "managedID k" shows "elements (backup_config k) = [''etc'', ''aegisadmin-system'', ''backup-tasks'', k @ ''.json'']"
proof -
  have "plain_name (k @ ''.json'')" using managedID_length [OF assms] managedID_no_break(2) [OF assms] by (cases k) (auto simp: plain_name_def)
  then show ?thesis
    using elements_snoc [of "k @ ''.json''" taskDirectory]
    by (simp add: backup_config_def Join2_def elements_Clean IsAbs_def elements_roots [unfolded append.simps] del: elements_roots)
       (simp add: elements_roots)
qed

text \<open>A file the domain writes to \<^verbatim>\<open>/etc/cron.d\<close>, whose jobs run as root, holds one job: a backup task.\<close>

lemma cron_write_cron_d:
  assumes "cron_write_ok path content" "below ''/etc/cron.d'' path"
  shows "\<exists>comment schedule k. lines_of content = [comment, schedule @ '' root '' @ backupExecutable @ '' '' @ k, ''''] \<and>
           has_prefix comment ''#'' \<and> managedID k"
proof -
  have "\<not> below ''/run'' path" "\<not> below crontabBackups path" "\<not> (\<exists>k. managedID k \<and> path = backup_config k)"
    using assms(2) backup_config_elements by (auto simp: below_def elements_roots)
  then show ?thesis using assms(1) backup_schedule_lines by (fastforce simp: cron_write_ok_def)
qed


text \<open>A host with one account, on which a backup task is started.\<close>

definition sample_cron_host :: cron_host where
  "sample_cron_host =
     \<lparr>cron_files = sample_jobs_host\<lparr>job_executable := (\<lambda>_. True)\<rparr>, cron_secure = (\<lambda>_. True), cron_now = (\<lambda>_. 0), cron_stamp = (\<lambda>_. ''now''),
      result_entries = (\<lambda>_. []), result_of = (\<lambda>_ _. NoResult), task_text = (\<lambda>_. ''{}''), cron_lower = (\<lambda>n. n),
      cron_exec = (\<lambda>h argv. \<lparr>out = (if hd argv = ''(random)'' then ''0123456789abcdef'' else if hd argv = ''(create-temp)'' then ''/run/t'' else ''''),
                             err = '''', status = 0\<rparr>)\<rparr>"

definition sample_unit :: "string list" where
  "sample_unit = run_unit (hex_encode ''0123456789abcdef'') ''root'' (backupExecutable @ '' '' @ sample_id)"

lemma sample_backup_start:
  "sample_unit \<in> set (serve_requests (cron_handle sample_cron_host (NewLinuxBackend (\<lambda>_. True) None)) [(''backup-run'', [sample_id])] [])"
  by code_simp

lemma sample_cron_env: "cron_env sample_cron_host"
proof -
  have "below ''/run'' ''/run/t''" unfolding below_def by (rule exI [of _ "[''t'']"]) code_simp
  then show ?thesis by (simp add: cron_env_def sample_cron_host_def)
qed


end
