(* ===== verification/Go_Regexp.thy ===== *)
theory Go_Regexp
  imports Go_Words
begin

text \<open>
  Regular expressions as \<^verbatim>\<open>regexp\<close> matches them. A match is the one a backtracking search finds first
  (leftmost, and among those the one the expression prefers: greedy repetitions try more first, lazy ones
  fewer, alternatives in order), with the text of the groups. The search is over bytes; the expressions of
  the sources only tell apart ASCII characters, so that it never ends within a rune.
\<close>

datatype re =
    Eps
  | Set "char \<Rightarrow> bool"
  | Seq re re
  | Alt re re
  | Star bool re
  | Group nat re
  | Begin
  | LineBegin
  | End
  | Border

text \<open>A state of the search: what was read, reversed, what is left, and the groups found.\<close>

type_synonym found = "(nat \<times> string) list"
type_synonym re_state = "string \<times> string \<times> found"

definition word_char :: "char \<Rightarrow> bool" where
  "word_char c \<longleftrightarrow> is_alnum c \<or> c = CHR ''_''"

definition at_border :: "string \<Rightarrow> string \<Rightarrow> bool" where
  "at_border done left \<longleftrightarrow>
     (case done of [] \<Rightarrow> False | c # cs \<Rightarrow> word_char c) \<noteq> (case left of [] \<Rightarrow> False | c # cs \<Rightarrow> word_char c)"

text \<open>
  The states after an expression, the preferred first. An iteration of a repetition that reads nothing ends it.
\<close>

function run_re :: "re \<Rightarrow> re_state \<Rightarrow> re_state list" where
  "run_re Eps st = [st]"
| "run_re (Set p) (done, left, g) = (case left of [] \<Rightarrow> [] | c # cs \<Rightarrow> if p c then [(c # done, cs, g)] else [])"
| "run_re (Seq a b) st = concat (map (run_re b) (run_re a st))"
| "run_re (Alt a b) st = run_re a st @ run_re b st"
| "run_re (Star greedy a) st =
     (let more = concat (map (\<lambda>st'. if length (fst (snd st')) < length (fst (snd st)) then run_re (Star greedy a) st' else [])
                           (run_re a st))
      in if greedy then more @ [st] else st # more)"
| "run_re (Group n a) (done, left, g) =
     map (\<lambda>(done', left', g'). (done', left', AList.update n (rev (take (length done' - length done) done')) g')) (run_re a (done, left, g))"
| "run_re Begin (done, left, g) = (if done = [] then [(done, left, g)] else [])"
| "run_re LineBegin (done, left, g) = (if done = [] \<or> hd done = CHR 0x0A then [(done, left, g)] else [])"
| "run_re End (done, left, g) = (if left = [] then [(done, left, g)] else [])"
| "run_re Border (done, left, g) = (if at_border done left then [(done, left, g)] else [])"
  by pat_completeness auto
termination
  by (relation "measures [size \<circ> fst, length \<circ> fst \<circ> snd \<circ> snd]") auto

declare run_re.simps(5) [simp del]

text \<open>The first position that matches: where the match begins (reversed text before it) and the state after it.\<close>

fun search_re :: "re \<Rightarrow> string \<Rightarrow> string \<Rightarrow> (string \<times> re_state) option" where
  "search_re r done [] = (case run_re r (done, [], []) of [] \<Rightarrow> None | st # sts \<Rightarrow> Some (done, st))"
| "search_re r done (c # cs) =
     (case run_re r (done, c # cs, []) of [] \<Rightarrow> search_re r (c # done) cs | st # sts \<Rightarrow> Some (done, st))"

definition MatchString :: "re \<Rightarrow> string \<Rightarrow> bool" where
  "MatchString r s \<longleftrightarrow> search_re r [] s \<noteq> None"

text \<open>\<^verbatim>\<open>FindStringSubmatch\<close>: the text of group \<open>n\<close>; a group that took no part is empty.\<close>

definition FindSubmatch :: "re \<Rightarrow> string \<Rightarrow> (nat \<Rightarrow> string) option" where
  "FindSubmatch r s =
     (case search_re r [] s of
        None \<Rightarrow> None
      | Some (_, (_, _, g)) \<Rightarrow> Some (\<lambda>n. case map_of g n of None \<Rightarrow> '''' | Some t \<Rightarrow> t))"

text \<open>The text before the match, the match, and the text after it.\<close>

definition FindIndex :: "re \<Rightarrow> string \<Rightarrow> (string \<times> string \<times> string) option" where
  "FindIndex r s =
     (case search_re r [] s of
        None \<Rightarrow> None
      | Some (before, (done, left, g)) \<Rightarrow> Some (rev before, rev (take (length done - length before) done), left))"

text \<open>
  \<^verbatim>\<open>FindAllStringSubmatch\<close> for expressions that never match the empty text: matches one after the other.
\<close>

function find_all :: "re \<Rightarrow> string \<Rightarrow> string \<Rightarrow> (nat \<Rightarrow> string) list" where
  "find_all r done s =
     (case search_re r done s of
        None \<Rightarrow> []
      | Some (_, (done', left, g)) \<Rightarrow>
          (\<lambda>n. case map_of g n of None \<Rightarrow> '''' | Some t \<Rightarrow> t) # (if length left < length s then find_all r done' left else []))"
  by pat_completeness auto
termination
  by (relation "measure (length \<circ> snd \<circ> snd)") auto

definition FindAllSubmatch :: "re \<Rightarrow> string \<Rightarrow> (nat \<Rightarrow> string) list" where
  "FindAllSubmatch r s = find_all r [] s"

section \<open>Notation of the sources\<close>

text \<open>A literal, a literal without regard to case, and the usual classes and repetitions.\<close>

definition Char :: "char \<Rightarrow> re" where
  "Char c = Set (\<lambda>x. x = c)"

definition Lit :: "string \<Rightarrow> re" where
  "Lit s = foldr (\<lambda>c. Seq (Char c)) s Eps"

text \<open>With \<^verbatim>\<open>(?i)\<close> the letters \<^verbatim>\<open>k\<close> and \<^verbatim>\<open>s\<close> also match the Kelvin sign and the long s.\<close>

definition Fold :: "char \<Rightarrow> re" where
  "Fold c =
     (let plain = Set (\<lambda>x. lower_char x = lower_char c) in
      if lower_char c = CHR ''k'' then Alt plain (Lit [CHR 0xE2, CHR 0x84, CHR 0xAA])
      else if lower_char c = CHR ''s'' then Alt plain (Lit [CHR 0xC5, CHR 0xBF])
      else plain)"

definition FoldLit :: "string \<Rightarrow> re" where
  "FoldLit s = foldr (\<lambda>c. Seq (Fold c)) s Eps"

definition seqs :: "re list \<Rightarrow> re" where
  "seqs rs = foldr Seq rs Eps"

abbreviation dot :: re where "dot \<equiv> Set (\<lambda>c. c \<noteq> CHR 0x0A)"
abbreviation space :: re where "space \<equiv> Set re_space"
abbreviation nonspace :: re where "nonspace \<equiv> Set (\<lambda>c. \<not> re_space c)"
abbreviation digit :: re where "digit \<equiv> Set is_digit"

definition Many :: "re \<Rightarrow> re" where "Many r = Star True r"
definition Plus :: "re \<Rightarrow> re" where "Plus r = Seq r (Star True r)"
definition LazyPlus :: "re \<Rightarrow> re" where "LazyPlus r = Seq r (Star False r)"
definition Opt :: "re \<Rightarrow> re" where "Opt r = Alt r Eps"
definition Choice :: "re list \<Rightarrow> re" where "Choice rs = foldr Alt (butlast rs) (last rs)"

section \<open>What a match consists of\<close>

text \<open>The search reads the text from left to right: nothing is lost or added.\<close>

lemma run_re_text: "st' \<in> set (run_re r st) \<Longrightarrow> rev (fst st') @ fst (snd st') = rev (fst st) @ fst (snd st)"
proof (induction r st arbitrary: st' rule: run_re.induct)
  case (3 a b st)
  then obtain st1 where "st1 \<in> set (run_re a st)" "st' \<in> set (run_re b st1)" by auto
  then show ?case using "3.IH" by metis
next
  case (5 greedy a st)
  then consider "st' = st"
    | st1 where "st1 \<in> set (run_re a st)" "length (fst (snd st1)) < length (fst (snd st))" "st' \<in> set (run_re (Star greedy a) st1)"
    by (subst (asm) run_re.simps(5)) (auto simp: Let_def split: if_splits simp del: run_re.simps)
  then show ?case using "5.IH" by cases metis+
qed (auto split: list.splits if_splits)

lemma search_re_text:
  "search_re r done s = Some (before, st) \<Longrightarrow> rev (fst st) @ fst (snd st) = rev done @ s"
proof (induction r "done" s rule: search_re.induct)
  case (1 r "done")
  then show ?case using run_re_text [of st r "(done, [], [])"] by (auto split: list.splits)
next
  case (2 r "done" c cs)
  then show ?case using run_re_text [of st r "(done, c # cs, [])"] by (auto split: list.splits)
qed

end
