(* ===== verification/Domain_Firewall.thy ===== *)
theory Domain_Firewall
  imports Backend_Effects Go_Regexp Go_Net Go_Crypto
begin

text \<open>
  The firewall domain of the daemon (\<^verbatim>\<open>internal/domain/firewall\<close>: \<^verbatim>\<open>firewall.go\<close>, \<^verbatim>\<open>delete.go\<close> and \<^verbatim>\<open>firewalld.go\<close>): status and
  rules of UFW or firewalld, adding a rule, and the deletion of a rule that was shown before, which is
  identified by its number and the digest of its line.
\<close>

record fw_rule =
  frID :: int
  frAction :: string
  frDirection :: string
  frProtocol :: string
  frPorts :: "string list"
  frSource :: string
  frDestination :: string
  frFamily :: string
  frLine :: string

record fw_listener =
  flPort :: int
  flProtocol :: string
  flService :: "string option"
  flProcess :: "string option"

record fw_host =
  fw_executable :: executable
  fw_defaults :: "string option"
  fw_lower :: "nat \<Rightarrow> nat"
  fw_exec :: executor

abbreviation ufw :: string where "ufw \<equiv> ''/usr/sbin/ufw''"
abbreviation firewallCMD :: string where "firewallCMD \<equiv> ''/usr/bin/firewall-cmd''"
abbreviation goCLI :: string where "goCLI \<equiv> ''/usr/local/sbin/aegisadmin-system-go''"
abbreviation fw_systemd_run :: string where "fw_systemd_run \<equiv> ''/usr/bin/systemd-run''"

definition uses_firewalld :: "fw_host \<Rightarrow> bool" where
  "uses_firewalld host \<longleftrightarrow> \<not> fw_executable host ufw \<and> fw_executable host firewallCMD"

definition fw_run :: "fw_host \<Rightarrow> string list \<Rightarrow> history \<Rightarrow> string option \<times> history" where
  "fw_run host argv h =
     (case run_command (fw_exec host) argv h of (r, h1) \<Rightarrow> (if succeeded r then Some (trim_space (out r)) else None, h1))"

text \<open>What a command printed, whether or not it succeeded.\<close>

definition fw_output :: "fw_host \<Rightarrow> string list \<Rightarrow> history \<Rightarrow> string \<times> history" where
  "fw_output host argv h = (case run_command (fw_exec host) argv h of (r, h1) \<Rightarrow> (trim_space (out r), h1))"

lemma fw_run_history [simp]: "snd (fw_run host argv h) = h @ [argv]" "snd (fw_output host argv h) = h @ [argv]"
  by (simp_all add: fw_run_def fw_output_def run_command_def)

section \<open>What UFW prints\<close>

definition numbered :: re where
  "numbered =
     seqs [Begin, Char CHR ''['', Many space, Group 1 (Plus digit), Char CHR '']'', Plus space, Group 2 (LazyPlus dot), space, Plus space,
           Group 3 (LazyPlus dot), space, Plus space, Group 4 (LazyPlus dot), Many space, End]"

definition versionPattern :: re where
  "versionPattern =
     seqs [Border, FoldLit ''ufw'', Plus space,
           Group 1 (Seq digit (Many (Choice [Set (\<lambda>c. is_alnum c \<or> c \<in> set ''.+:~_-''), Fold CHR ''k'', Fold CHR ''s''])))]"

definition status_re :: re where
  "status_re = seqs [Begin, FoldLit ''Status:'', Many space, Group 1 (Alt (FoldLit ''active'') (FoldLit ''inactive'')), End]"

definition logging_re :: re where
  "logging_re = seqs [Begin, FoldLit ''Logging:'', Many space, Group 1 (LazyPlus dot), Many space, End]"

definition default_re :: re where
  "default_re =
     seqs [Begin, FoldLit ''Default:'', Many space, Group 1 (Plus nonspace), Many space, FoldLit ''(incoming),'', Many space,
           Group 2 (Plus nonspace), Many space, FoldLit ''(outgoing),'', Many space, Group 3 (Plus nonspace), Many space,
           FoldLit ''(routed)'', End]"

record fw_status =
  fsActive :: bool
  fsLogging :: string
  fsIncoming :: string
  fsOutgoing :: string
  fsRouted :: string

definition unknown_status :: fw_status where
  "unknown_status = \<lparr>fsActive = False, fsLogging = ''unknown'', fsIncoming = ''unknown'', fsOutgoing = ''unknown'', fsRouted = ''unknown''\<rparr>"

definition verbose_line :: "(nat \<Rightarrow> nat) \<Rightarrow> string \<Rightarrow> fw_status \<Rightarrow> fw_status" where
  "verbose_line low raw d =
     (let l = trim_space raw;
          d = (case FindSubmatch status_re l of None \<Rightarrow> d | Some g \<Rightarrow> d\<lparr>fsActive := (map lower_char (g 1) = ''active'')\<rparr>);
          d = (case FindSubmatch logging_re l of None \<Rightarrow> d | Some g \<Rightarrow> d\<lparr>fsLogging := to_lower low (trim_space (g 1))\<rparr>)
      in case FindSubmatch default_re l of
           None \<Rightarrow> d
         | Some g \<Rightarrow> d\<lparr>fsIncoming := to_lower low (g 1), fsOutgoing := to_lower low (g 2), fsRouted := to_lower low (g 3)\<rparr>)"

definition parseVerbose :: "(nat \<Rightarrow> nat) \<Rightarrow> string \<Rightarrow> fw_status" where
  "parseVerbose low text = fold (verbose_line low) (lines_of text) unknown_status"

definition proto_re :: re where
  "proto_re = seqs [Char CHR ''/'', Group 1 (Alt (FoldLit ''tcp'') (FoldLit ''udp'')), Many space, End]"

definition ports_re :: re where
  "ports_re = seqs [Begin, Plus digit, Many (Seq (Set (\<lambda>c. c \<in> set '':,-'')) (Plus digit)), End]"

definition v6_re :: re where
  "v6_re = seqs [Many space, Char CHR ''('', Fold CHR ''v'', Char CHR ''6'', Char CHR '')'', Many space, End]"

text \<open>The expression ends at the end of the text, so at most one match is replaced.\<close>

definition without_v6 :: "string \<Rightarrow> string" where
  "without_v6 s = (case FindIndex v6_re s of None \<Rightarrow> s | Some (before, found, after) \<Rightarrow> before @ after)"

definition parse_rule :: "(nat \<Rightarrow> nat) \<Rightarrow> string \<Rightarrow> fw_rule list" where
  "parse_rule low raw =
     (case FindSubmatch numbered (trim_space raw) of
        None \<Rightarrow> []
      | Some g \<Rightarrow>
          let target0 = trim_space (g 2); parts = words (trim_space (g 3)); source0 = trim_space (g 4);
              family = (if contains (to_lower low target0) ''(v6)'' \<or> contains (to_lower low source0) ''(v6)'' then ''ipv6'' else ''ipv4'');
              target = without_v6 target0; source = without_v6 source0;
              action = (case parts of [] \<Rightarrow> ''unknown'' | a # as \<Rightarrow> to_lower low a);
              direction = (case parts of a # d # ds \<Rightarrow> to_lower low d | _ \<Rightarrow> ''in'');
              (protocol, destination) =
                (case (FindSubmatch proto_re target, FindIndex proto_re target) of
                   (Some g', Some (before, found, after)) \<Rightarrow> (to_lower low (g' 1), trim_space before)
                 | _ \<Rightarrow> (''any'', trim_space target));
              ports = (if MatchString ports_re destination then [destination] else []);
              destination = (if MatchString ports_re destination \<or> destination = '''' then ''any'' else destination)
          in [\<lparr>frID = fst (atoi (g 1)), frAction = action, frDirection = direction, frProtocol = protocol, frPorts = ports,
               frSource = source, frDestination = destination, frFamily = family, frLine = raw\<rparr>])"

definition parseRules :: "(nat \<Rightarrow> nat) \<Rightarrow> string \<Rightarrow> fw_rule list" where
  "parseRules low text = concat (map (parse_rule low) (lines_of text))"

definition ipv6_re :: re where
  "ipv6_re =
     seqs [Many space, FoldLit ''IPV6'', Many space, Char CHR ''='', Many space, Opt (Set (\<lambda>c. c = CHR 0x22 \<or> c = CHR 0x27)),
           Group 1 (Plus (Set (\<lambda>c. c \<noteq> CHR 0x22 \<and> c \<noteq> CHR 0x27 \<and> \<not> re_space c \<and> c \<noteq> CHR ''#'')))]"

text \<open>\<^verbatim>\<open>(?m)^\<close>: at the beginning of the text or after a line feed.\<close>

fun search_lines :: "re \<Rightarrow> bool \<Rightarrow> string \<Rightarrow> (nat \<Rightarrow> string) option" where
  "search_lines r start s =
     (case (if start then run_re r ([], s, []) else []) of
        (_, _, g) # sts \<Rightarrow> Some (\<lambda>n. case map_of g n of None \<Rightarrow> '''' | Some t \<Rightarrow> t)
      | [] \<Rightarrow> (case s of [] \<Rightarrow> None | c # cs \<Rightarrow> search_lines r (c = CHR 0x0A) cs))"

definition readIPv6 :: "(nat \<Rightarrow> nat) \<Rightarrow> string option \<Rightarrow> json" where
  "readIPv6 low content =
     (case content of
        None \<Rightarrow> JNull
      | Some text \<Rightarrow>
          (case search_lines ipv6_re True text of
             None \<Rightarrow> JNull
           | Some g \<Rightarrow>
               let v = to_lower low (g 1) in
               if v \<in> {''yes'', ''true'', ''1'', ''on''} then JBool True
               else if v \<in> {''no'', ''false'', ''0'', ''off''} then JBool False else JNull))"

section \<open>Validation\<close>

definition validID :: "string \<Rightarrow> int option" where
  "validID v =
     (case v of
        [] \<Rightarrow> None
      | c # cs \<Rightarrow> if in_range CHR ''1'' CHR ''9'' c \<and> list_all is_digit cs then Some (fst (atoi v)) else None)"

definition fingerprintPattern :: "string \<Rightarrow> bool" where
  "fingerprintPattern s \<longleftrightarrow> length s = 64 \<and> list_all (\<lambda>c. is_digit c \<or> in_range CHR ''a'' CHR ''f'' c) s"

text \<open>A port or a range. The error of the second number replaces that of the first.\<close>

definition port_range :: "string \<Rightarrow> (int \<times> int) option" where
  "port_range p =
     (let x = split_char CHR '':'' (trim_space p) in
      if 2 < length x then None
      else let first = atoi (x ! 0); final = (if length x = 2 then atoi (x ! 1) else first)
           in if \<not> snd final \<or> fst first < 1 \<or> fst final < fst first \<or> 65535 < fst final then None else Some (fst first, fst final))"

definition ParsePrefix :: "string \<Rightarrow> (bool \<times> ip \<times> nat) option" where
  "ParsePrefix s =
     (if CHR ''/'' \<notin> set s then None
      else let bits = last (split_char CHR ''/'' s); addr = take (length s - length bits - 1) s in
        case ParseAddr addr of
          None \<Rightarrow> None
        | Some (is4, bs, zone) \<Rightarrow>
            if zone \<noteq> '''' then None
            else if 1 < length bits \<and> \<not> in_range CHR ''1'' CHR ''9'' (hd bits) then None
            else if \<not> snd (atoi bits) \<or> fst (atoi bits) < 0 \<or> (if is4 then 32 else 128) < fst (atoi bits) then None
            else Some (is4, bs, nat (fst (atoi bits))))"

definition address_ok :: "string \<Rightarrow> bool" where
  "address_ok a \<longleftrightarrow> a = ''any'' \<or> ParsePrefix a \<noteq> None \<or> ParseAddr a \<noteq> None"

definition validateAdd :: "string list \<Rightarrow> backend_reply option" where
  "validateAdd a =
     (if a ! 0 \<notin> {''allow'', ''deny'', ''reject'', ''limit''} then Some (failure 2 ''INVALID_FIREWALL_ACTION'')
      else if a ! 2 \<noteq> ''tcp'' \<and> a ! 2 \<noteq> ''udp'' then Some (failure 2 ''INVALID_FIREWALL_PROTOCOL'')
      else if list_ex (\<lambda>p. port_range p = None) (split_char CHR '','' (a ! 1)) then Some (failure 2 ''INVALID_FIREWALL_RULE'')
      else if \<not> address_ok (a ! 3) then Some (failure 2 ''INVALID_FIREWALL_RULE'')
      else None)"

section \<open>firewalld\<close>

definition richAttribute :: re where
  "richAttribute =
     seqs [Group 1 (Plus (Set is_lower)), Char CHR ''='', Char CHR 0x22, Group 2 (Plus (Set (\<lambda>c. c \<noteq> CHR 0x22))), Char CHR 0x22]"

definition dash_to_colon :: "string \<Rightarrow> string" where
  "dash_to_colon s = map (\<lambda>c. if c = CHR ''-'' then CHR '':'' else c) s"

definition attribute :: "string \<Rightarrow> string \<Rightarrow> string" where
  "attribute line name =
     (case filter (\<lambda>g. g 1 = name) (rev (FindAllSubmatch richAttribute line)) of [] \<Rightarrow> '''' | g # gs \<Rightarrow> g 2)"

definition parseFirewalldRule :: "string \<Rightarrow> fw_rule option" where
  "parseFirewalldRule line =
     (let base = \<lparr>frID = 0, frAction = ''allow'', frDirection = ''in'', frProtocol = ''any'', frPorts = [], frSource = ''any'',
                  frDestination = ''any'', frFamily = ''ipv4'', frLine = ''''\<rparr>
      in if \<not> has_prefix line ''rule '' then
           (case cut_char CHR ''/'' line of
              None \<Rightarrow> None
            | Some (port, protocol) \<Rightarrow>
                if protocol \<noteq> ''tcp'' \<and> protocol \<noteq> ''udp'' then None
                else Some (base\<lparr>frProtocol := protocol, frPorts := [dash_to_colon port]\<rparr>))
         else
           let source = attribute line ''address''; protocol = attribute line ''protocol''; port = attribute line ''port'';
               v6 = (attribute line ''family'' = ''ipv6'' \<or>
                     source \<noteq> '''' \<and> (case ParsePrefix source of None \<Rightarrow> False | Some (is4, _) \<Rightarrow> \<not> is4));
               rule = base\<lparr>frFamily := (if v6 then ''ipv6'' else ''ipv4''), frSource := (if source \<noteq> '''' then source else ''any''),
                          frProtocol := (if protocol = ''tcp'' \<or> protocol = ''udp'' then protocol else ''any''),
                          frPorts := (if port \<noteq> '''' then [dash_to_colon port] else [])\<rparr>
           in if \<not> (has_suffix line '' accept'' \<or> has_suffix line '' drop'' \<or> has_suffix line '' reject'') \<or> frPorts rule = [] then None
              else Some (rule\<lparr>frAction := (if has_suffix line '' accept'' then ''allow''
                                           else if has_suffix line '' drop'' then ''deny'' else ''reject'')\<rparr>))"

fun number_rules :: "int \<Rightarrow> string list \<Rightarrow> fw_rule list" where
  "number_rules n [] = []"
| "number_rules n (line # ls) =
     (case parseFirewalldRule line of
        None \<Rightarrow> number_rules n ls
      | Some r \<Rightarrow> r\<lparr>frID := n, frLine := line\<rparr> # number_rules (n + 1) ls)"

definition firewalldRules :: "fw_host \<Rightarrow> history \<Rightarrow> (backend_reply + fw_rule list) \<times> history" where
  "firewalldRules host h =
     (case fw_run host [firewallCMD, ''--list-rich-rules''] h of
        (None, h1) \<Rightarrow> (Inl (failure 10 ''FIREWALLD_READ_FAILED''), h1)
      | (Some rich, h1) \<Rightarrow>
          (case fw_run host [firewallCMD, ''--list-ports''] h1 of
             (None, h2) \<Rightarrow> (Inl (failure 10 ''FIREWALLD_READ_FAILED''), h2)
           | (Some ports, h2) \<Rightarrow>
               (Inr (number_rules 1 (sort_strings (filter (\<lambda>l. l \<noteq> '''') (map trim_space (lines_of rich @ lines_of ports))))), h2)))"

section \<open>The rule a request names, and who uses it\<close>

definition rule_numbered :: "fw_host \<Rightarrow> int \<Rightarrow> history \<Rightarrow> (backend_reply + fw_rule) \<times> history" where
  "rule_numbered host n h =
     (if uses_firewalld host then
        (case firewalldRules host h of
           (Inl rep, h1) \<Rightarrow> (Inl rep, h1)
         | (Inr rules, h1) \<Rightarrow>
             (case find (\<lambda>r. frID r = n) rules of None \<Rightarrow> (Inl (failure 6 ''FIREWALL_RULE_NOT_FOUND''), h1) | Some r \<Rightarrow> (Inr r, h1)))
      else
        (case fw_run host [ufw, ''status'', ''numbered''] h of
           (None, h1) \<Rightarrow> (Inl (failure 10 ''UFW_READ_FAILED''), h1)
         | (Some text, h1) \<Rightarrow>
             (case find (\<lambda>r. frID r = n) (parseRules (fw_lower host) text) of
                None \<Rightarrow> (Inl (failure 6 ''UFW_RULE_NOT_FOUND''), h1)
              | Some r \<Rightarrow> (Inr r, h1))))"

definition fingerprint :: "string \<Rightarrow> string" where
  "fingerprint line = hex_encode (sha256 line)"

text \<open>The ports a rule speaks of, as a test.\<close>

definition rule_port :: "fw_rule \<Rightarrow> int \<Rightarrow> bool" where
  "rule_port r n \<longleftrightarrow>
     (let expr = (case frPorts r of [] \<Rightarrow> frDestination r | p # ps \<Rightarrow> p) in
      list_ex (\<lambda>item. let p = split_char CHR '':'' (trim_space item); first = atoi (p ! 0);
                          final = (if length p = 2 then fst (atoi (p ! 1)) else fst first)
                      in snd first \<and> fst first \<le> n \<and> n \<le> final \<and> n \<le> 65535)
        (split_char CHR '','' expr))"

definition service_re :: re where
  "service_re = seqs [Char CHR ''('', Char CHR 0x22, Group 1 (Plus (Set (\<lambda>c. c \<noteq> CHR 0x22))), Char CHR 0x22]"

definition port_re :: re where
  "port_re = seqs [Char CHR '':'', Group 1 (Plus digit), End]"

definition listener_of :: "(nat \<Rightarrow> nat) \<Rightarrow> fw_rule \<Rightarrow> string \<Rightarrow> fw_listener list" where
  "listener_of low r line =
     (let cols = words line in
      if length cols < 5 then []
      else case FindSubmatch port_re (cols ! 4) of
             None \<Rightarrow> []
           | Some g \<Rightarrow>
               let port = fst (atoi (g 1)); proto = to_lower low (cols ! 0); process = join '' '' (drop 6 cols) in
               if \<not> rule_port r port \<or> (frProtocol r \<noteq> ''any'' \<and> frProtocol r \<noteq> proto) then []
               else [\<lparr>flPort = port, flProtocol = proto,
                      flService = (if process = '''' then None
                                   else case FindSubmatch service_re process of None \<Rightarrow> None | Some g' \<Rightarrow> Some (g' 1)),
                      flProcess = (if process = '''' then None else Some process)\<rparr>])"

definition str :: "string option \<Rightarrow> string" where
  "str p = (case p of None \<Rightarrow> '''' | Some s \<Rightarrow> s)"

definition same_listener :: "fw_listener \<Rightarrow> fw_listener \<Rightarrow> bool" where
  "same_listener a b \<longleftrightarrow>
     flPort a = flPort b \<and> flProtocol a = flProtocol b \<and> str (flService a) = str (flService b) \<and> str (flProcess a) = str (flProcess b)"

fun distinct_listeners :: "fw_listener list \<Rightarrow> fw_listener list \<Rightarrow> fw_listener list" where
  "distinct_listeners seen [] = seen"
| "distinct_listeners seen (l # ls) =
     distinct_listeners (if list_ex (same_listener l) seen then seen else seen @ [l]) ls"

definition listener_key :: "fw_listener \<Rightarrow> int list list" where
  "listener_key l = [[flPort l], map of_char (flProtocol l), map of_char (str (flService l))]"

definition listeners :: "(nat \<Rightarrow> nat) \<Rightarrow> fw_rule \<Rightarrow> string \<Rightarrow> fw_listener list" where
  "listeners low r text = sort_key listener_key (distinct_listeners [] (concat (map (listener_of low r) (lines_of text))))"

definition ssh_risk :: "fw_listener \<Rightarrow> bool" where
  "ssh_risk l \<longleftrightarrow> flPort l = 22 \<or> str (flService l) = ''ssh'' \<or> str (flService l) = ''sshd''"

abbreviation ss_command :: "string list" where "ss_command \<equiv> [''/usr/bin/ss'', ''-H'', ''-lntup'']"

definition usage :: "fw_host \<Rightarrow> int \<Rightarrow> history \<Rightarrow> (backend_reply + fw_rule \<times> fw_listener list) \<times> history" where
  "usage host n h =
     (case rule_numbered host n h of
        (Inl rep, h1) \<Rightarrow> (Inl rep, h1)
      | (Inr r, h1) \<Rightarrow> (case fw_output host ss_command h1 of (text, h2) \<Rightarrow> (Inr (r, listeners (fw_lower host) r text), h2)))"

section \<open>Actions\<close>

definition rule_json :: "fw_rule \<Rightarrow> json" where
  "rule_json r =
     JObject [(''id'', JInt (frID r)), (''action'', JString (frAction r)), (''direction'', JString (frDirection r)),
       (''protocol'', JString (frProtocol r)), (''ports'', JArray (map JString (frPorts r))), (''source'', JString (frSource r)),
       (''destination'', JString (frDestination r)), (''family'', JString (frFamily r))]"

definition opt_json :: "string option \<Rightarrow> json" where
  "opt_json p = (case p of None \<Rightarrow> JNull | Some s \<Rightarrow> JString s)"

definition usage_json :: "int \<Rightarrow> fw_rule \<Rightarrow> fw_listener list \<Rightarrow> (string \<times> json) list" where
  "usage_json n r ls =
     [(''rule_id'', JInt n), (''fingerprint'', JString (fingerprint (frLine r))), (''in_use'', JBool (ls \<noteq> [])),
      (''ssh_access_risk'', JBool (list_ex ssh_risk ls)),
      (''listeners'', JArray (map (\<lambda>l. JObject [(''port'', JInt (flPort l)), (''protocol'', JString (flProtocol l)),
                                           (''service'', opt_json (flService l)), (''process'', opt_json (flProcess l))]) ls))]"

definition scheduled :: "string \<Rightarrow> string list \<Rightarrow> string list" where
  "scheduled command args = [fw_systemd_run, ''--quiet'', ''--collect'', ''--on-active=5s'', command] @ args"

definition schedule_json :: "string \<Rightarrow> string \<Rightarrow> (string \<times> json) list" where
  "schedule_json action backend =
     [(''action'', JString action), (''backend'', JString backend), (''result'', JString ''scheduled''), (''delay_seconds'', JInt 5)]"

definition schedule :: "fw_host \<Rightarrow> string \<Rightarrow> string \<Rightarrow> string list \<Rightarrow> history \<Rightarrow> backend_reply \<times> history" where
  "schedule host action command args h =
     (case fw_run host (scheduled command args) h of
        (None, h1) \<Rightarrow>
          (failure 10 (if action = ''add'' then ''UFW_ADD_FAILED'' else if action = ''enable'' then ''UFW_ENABLE_FAILED''
             else if action = ''disable'' then ''UFW_DISABLE_FAILED'' else if action = ''reload'' then ''UFW_RELOAD_FAILED''
             else if action = ''delete'' then ''UFW_ACTION_SCHEDULE_FAILED'' else ''''), h1)
      | (Some _, h1) \<Rightarrow> (success (schedule_json action ''ufw''), h1))"

definition scheduleFirewalld :: "fw_host \<Rightarrow> string \<Rightarrow> string \<Rightarrow> string list \<Rightarrow> history \<Rightarrow> backend_reply \<times> history" where
  "scheduleFirewalld host action command args h =
     (case fw_run host (scheduled command args) h of
        (None, h1) \<Rightarrow> (failure 10 ''FIREWALLD_ACTION_SCHEDULE_FAILED'', h1)
      | (Some _, h1) \<Rightarrow> (success (schedule_json action ''firewalld''), h1))"

definition completed :: "string \<Rightarrow> string \<Rightarrow> (string \<times> json) list" where
  "completed action backend = [(''action'', JString action), (''backend'', JString backend), (''result'', JString ''completed'')]"

definition remove_argument :: "string \<Rightarrow> string" where
  "remove_argument line = (if has_prefix line ''rule '' then ''--remove-rich-rule='' @ line else ''--remove-port='' @ line)"

definition execute_delete :: "fw_host \<Rightarrow> int \<Rightarrow> string \<Rightarrow> history \<Rightarrow> backend_reply \<times> history" where
  "execute_delete host n text h =
     (if uses_firewalld host then
        (case rule_numbered host n h of
           (Inl rep, h1) \<Rightarrow> (rep, h1)
         | (Inr r, h1) \<Rightarrow>
             (case fw_run host [firewallCMD, ''--permanent'', remove_argument (frLine r)] h1 of
                (None, h2) \<Rightarrow> (failure 10 ''FIREWALL_DELETE_FAILED'', h2)
              | (Some _, h2) \<Rightarrow>
                  (case fw_run host [firewallCMD, ''--reload''] h2 of
                     (None, h3) \<Rightarrow> (failure 10 ''FIREWALL_RELOAD_FAILED'', h3)
                   | (Some _, h3) \<Rightarrow> (success (completed ''delete'' ''firewalld'' @ [(''rule_id'', JInt n)]), h3))))
      else
        (case fw_run host [ufw, ''--force'', ''delete'', text] h of
           (None, h1) \<Rightarrow> (failure 10 ''UFW_DELETE_FAILED'', h1)
         | (Some _, h1) \<Rightarrow> (success (completed ''delete'' ''ufw'' @ [(''rule_id'', JInt n)]), h1)))"

definition delete_rule :: "fw_host \<Rightarrow> string \<Rightarrow> string list \<Rightarrow> history \<Rightarrow> backend_reply \<times> history" where
  "delete_rule host command a h =
     (case validID (a ! 0) of
        None \<Rightarrow> (failure 2 ''INVALID_RULE_ID'', h)
      | Some n \<Rightarrow>
          if \<not> fingerprintPattern (a ! 1) then (failure 2 ''INVALID_RULE_FINGERPRINT'', h)
          else if a ! 2 \<noteq> ''yes'' \<and> a ! 2 \<noteq> ''no'' then (failure 2 ''INVALID_CONFIRMATION'', h)
          else (case usage host n h of
                  (Inl rep, h1) \<Rightarrow> (rep, h1)
                | (Inr (r, ls), h1) \<Rightarrow>
                    if fingerprint (frLine r) \<noteq> a ! 1 then (failure 9 ''UFW_RULE_CHANGED'', h1)
                    else if a ! 2 \<noteq> ''yes'' \<and> ls \<noteq> [] then (failure 8 ''UFW_RULE_IN_USE'', h1)
                    else if command = ''delete'' then
                      (let args = [''firewall'', ''delete-execute'', a ! 0, a ! 1, a ! 2] in
                       if uses_firewalld host then scheduleFirewalld host ''delete'' goCLI args h1
                       else schedule host ''delete'' goCLI args h1)
                    else execute_delete host n (a ! 0) h1))"

definition check_delete :: "fw_host \<Rightarrow> string list \<Rightarrow> history \<Rightarrow> backend_reply \<times> history" where
  "check_delete host a h =
     (case validID (a ! 0) of
        None \<Rightarrow> (failure 2 ''INVALID_RULE_ID'', h)
      | Some n \<Rightarrow>
          (case usage host n h of
             (Inl rep, h1) \<Rightarrow> (rep, h1)
           | (Inr (r, ls), h1) \<Rightarrow> (success (usage_json n r ls), h1)))"

definition rich_family :: "string \<Rightarrow> string" where
  "rich_family a =
     (if a \<noteq> ''any'' \<and>
         ((case ParsePrefix a of None \<Rightarrow> False | Some (is4, _) \<Rightarrow> \<not> is4) \<or> (case ParseAddr a of None \<Rightarrow> False | Some (is4, _) \<Rightarrow> \<not> is4))
      then ''ipv6'' else ''ipv4'')"

definition rich_action :: "string \<Rightarrow> string" where
  "rich_action a = (if a = ''allow'' then ''accept'' else if a = ''deny'' then ''drop'' else if a = ''reject'' then ''reject'' else '''')"

definition quoted :: "string \<Rightarrow> string" where
  "quoted s = [CHR 0x22] @ s @ [CHR 0x22]"

definition colon_to_dash :: "string \<Rightarrow> string" where
  "colon_to_dash s = map (\<lambda>c. if c = CHR '':'' then CHR ''-'' else c) s"

definition rich_rule :: "string list \<Rightarrow> string \<Rightarrow> string" where
  "rich_rule a port =
     ''rule family='' @ quoted (rich_family (a ! 3)) @
     (if a ! 3 \<noteq> ''any'' then '' source address='' @ quoted (a ! 3) else '''') @
     '' port port='' @ quoted (colon_to_dash (trim_space port)) @ '' protocol='' @ quoted (a ! 2) @ '' '' @ rich_action (a ! 0)"

fun add_rich_rules :: "fw_host \<Rightarrow> string list \<Rightarrow> history \<Rightarrow> bool \<times> history" where
  "add_rich_rules host [] h = (True, h)"
| "add_rich_rules host (rich # rest) h =
     (case fw_run host [firewallCMD, ''--permanent'', ''--add-rich-rule='' @ rich] h of
        (None, h1) \<Rightarrow> (False, h1)
      | (Some _, h1) \<Rightarrow> add_rich_rules host rest h1)"

definition add_firewalld :: "fw_host \<Rightarrow> string \<Rightarrow> string list \<Rightarrow> history \<Rightarrow> backend_reply \<times> history" where
  "add_firewalld host command a h =
     (case validateAdd a of
        Some rep \<Rightarrow> (rep, h)
      | None \<Rightarrow>
          if a ! 0 = ''limit'' then (failure 2 ''UNSUPPORTED_FIREWALL_ACTION'', h)
          else if command = ''add'' then
            scheduleFirewalld host ''add'' goCLI [''firewall'', ''add-execute'', a ! 0, a ! 1, a ! 2, a ! 3] h
          else (case add_rich_rules host (map (rich_rule a) (split_char CHR '','' (a ! 1))) h of (ok, h1) \<Rightarrow>
                  if \<not> ok then (failure 10 ''FIREWALL_ADD_FAILED'', h1)
                  else (case fw_run host [firewallCMD, ''--reload''] h1 of
                          (None, h2) \<Rightarrow> (failure 10 ''FIREWALL_RELOAD_FAILED'', h2)
                        | (Some _, h2) \<Rightarrow> (success (completed ''add'' ''firewalld''), h2))))"

definition status_json :: "fw_status \<Rightarrow> (string \<times> json) list" where
  "status_json s =
     [(''active'', JBool (fsActive s)), (''logging'', JString (fsLogging s)), (''default_incoming'', JString (fsIncoming s)),
      (''default_outgoing'', JString (fsOutgoing s)), (''default_routed'', JString (fsRouted s))]"

definition info_json :: "string \<Rightarrow> string \<Rightarrow> json \<Rightarrow> json \<Rightarrow> fw_status \<Rightarrow> (string \<times> json) list" where
  "info_json backend product version v6 s =
     [(''backend'', JString backend), (''product'', JString product), (''installed'', JBool True), (''version'', version),
      (''active'', JBool (fsActive s)), (''ipv6'', v6), (''default_incoming'', JString (fsIncoming s)),
      (''default_outgoing'', JString (fsOutgoing s)), (''default_routed'', JString (fsRouted s))]"

definition rules_json :: "fw_rule list \<Rightarrow> (string \<times> json) list" where
  "rules_json rs = [(''rules'', JArray (map rule_json rs)), (''count'', JInt (int (length rs)))]"

definition read_firewalld :: "fw_host \<Rightarrow> string \<Rightarrow> history \<Rightarrow> backend_reply \<times> history" where
  "read_firewalld host command h =
     (case fw_run host [firewallCMD, ''--state''] h of (state, h1) \<Rightarrow>
        let s = unknown_status\<lparr>fsActive := (state = Some ''running'')\<rparr> in
        case firewalldRules host h1 of
          (Inl rep, h2) \<Rightarrow> (rep, h2)
        | (Inr rules, h2) \<Rightarrow>
            if command = ''rules'' then (success (rules_json rules), h2)
            else if command = ''status'' then (success (status_json s @ [(''rule_count'', JInt (int (length rules)))]), h2)
            else (case fw_run host [firewallCMD, ''--version''] h2 of (v, h3) \<Rightarrow>
                    (success (info_json ''firewalld'' ''firewalld'' (if v = None \<or> v = Some '''' then JNull else JString (the v)) (JBool True) s), h3)))"

definition executeFirewalld :: "fw_host \<Rightarrow> string \<Rightarrow> string list \<Rightarrow> history \<Rightarrow> backend_reply \<times> history" where
  "executeFirewalld host command a h =
     (if command \<in> {''info'', ''status'', ''rules''} then read_firewalld host command h
      else if command \<in> {''add'', ''add-execute''} then add_firewalld host command a h
      else if command = ''enable'' then scheduleFirewalld host ''enable'' ''/usr/bin/systemctl'' [''enable'', ''--now'', ''firewalld.service''] h
      else if command = ''disable'' then scheduleFirewalld host ''disable'' ''/usr/bin/systemctl'' [''disable'', ''--now'', ''firewalld.service''] h
      else if command = ''reload'' then scheduleFirewalld host ''reload'' firewallCMD [''--reload''] h
      else if command = ''delete-check'' then check_delete host a h
      else if command = ''delete'' \<or> command = ''delete-execute'' then delete_rule host command a h
      else (success [], h))"

definition read_ufw :: "fw_host \<Rightarrow> history \<Rightarrow> (fw_status \<times> fw_rule list) option \<times> history" where
  "read_ufw host h =
     (case fw_run host [ufw, ''status'', ''verbose''] h of
        (None, h1) \<Rightarrow> (None, h1)
      | (Some verbose, h1) \<Rightarrow>
          (case fw_run host [ufw, ''status'', ''numbered''] h1 of
             (None, h2) \<Rightarrow> (None, h2)
           | (Some text, h2) \<Rightarrow> (Some (parseVerbose (fw_lower host) verbose, parseRules (fw_lower host) text), h2)))"

definition show_ufw :: "fw_host \<Rightarrow> string \<Rightarrow> history \<Rightarrow> backend_reply \<times> history" where
  "show_ufw host command h =
     (case read_ufw host h of
        (None, h1) \<Rightarrow> (failure 10 ''UFW_READ_FAILED'', h1)
      | (Some (s, rules), h1) \<Rightarrow>
          if command = ''status'' then (success (status_json s @ [(''rule_count'', JInt (int (length rules)))]), h1)
          else if command = ''rules'' then (success (rules_json rules), h1)
          else (case fw_run host [ufw, ''version''] h1 of
                  (None, h2) \<Rightarrow> (failure 10 ''UFW_READ_FAILED'', h2)
                | (Some v, h2) \<Rightarrow>
                    (success (info_json ''ufw'' ''UFW'' (case FindSubmatch versionPattern v of None \<Rightarrow> JNull | Some g \<Rightarrow> JString (g 1))
                               (readIPv6 (fw_lower host) (fw_defaults host)) s), h2)))"

definition fw_execute :: "fw_host \<Rightarrow> string \<Rightarrow> string list \<Rightarrow> history \<Rightarrow> backend_reply \<times> history" where
  "fw_execute host command a h =
     (if uses_firewalld host then executeFirewalld host command a h
      else if command = ''add-execute'' then (failure 4 ''COMMAND_NOT_FOUND'', h)
      else if command \<in> {''info'', ''status'', ''rules''} then show_ufw host command h
      else if command = ''add'' then
        (case validateAdd a of
           Some rep \<Rightarrow> (rep, h)
         | None \<Rightarrow> schedule host ''add'' ufw [a ! 0, ''from'', a ! 3, ''to'', ''any'', ''port'', a ! 1, ''proto'', a ! 2] h)
      else if command = ''enable'' then schedule host ''enable'' ufw [''--force'', ''enable''] h
      else if command = ''disable'' then schedule host ''disable'' ufw [''--force'', ''disable''] h
      else if command = ''reload'' then schedule host ''reload'' ufw [''reload''] h
      else if command = ''delete-check'' then check_delete host a h
      else if command = ''delete'' \<or> command = ''delete-execute'' then delete_rule host command a h
      else (success [], h))"

definition fw_counts :: "(string \<times> nat) list" where
  "fw_counts =
     [(''info'', 0), (''status'', 0), (''rules'', 0), (''add'', 4), (''add-execute'', 4), (''delete-check'', 1), (''delete'', 3),
      (''delete-execute'', 3), (''enable'', 0), (''disable'', 0), (''reload'', 0)]"

definition firewall_handle :: "fw_host \<Rightarrow> history backend_handler" where
  "firewall_handle host command a h =
     (if command = '''' then (failure 2 ''MISSING_COMMAND'', h)
      else case map_of fw_counts command of
             None \<Rightarrow> (failure 4 ''COMMAND_NOT_FOUND'', h)
           | Some n \<Rightarrow>
               if length a \<noteq> n then (failure 2 ''INVALID_ARGUMENT_COUNT'', h)
               else if \<not> fw_executable host ufw \<and> \<not> fw_executable host firewallCMD then (failure 5 ''FIREWALL_NOT_INSTALLED'', h)
               else fw_execute host command a h)"

section \<open>The domain is confined\<close>

definition fw_reads :: "string list list" where
  "fw_reads =
     [[ufw, ''status'', ''verbose''], [ufw, ''status'', ''numbered''], [ufw, ''version''], ss_command, [firewallCMD, ''--list-rich-rules''],
      [firewallCMD, ''--list-ports''], [firewallCMD, ''--state''], [firewallCMD, ''--version'']]"

definition fw_adds :: "fw_host \<Rightarrow> string \<Rightarrow> string list \<Rightarrow> string list \<Rightarrow> bool" where
  "fw_adds host command a argv \<longleftrightarrow>
     validateAdd a = None \<and>
     (command = ''add'' \<and>
        (argv = scheduled ufw [a ! 0, ''from'', a ! 3, ''to'', ''any'', ''port'', a ! 1, ''proto'', a ! 2] \<or>
         argv = scheduled goCLI [''firewall'', ''add-execute'', a ! 0, a ! 1, a ! 2, a ! 3]) \<or>
      command = ''add-execute'' \<and> uses_firewalld host \<and>
        (argv = [firewallCMD, ''--reload''] \<or>
         (\<exists>port \<in> set (split_char CHR '','' (a ! 1)). argv = [firewallCMD, ''--permanent'', ''--add-rich-rule='' @ rich_rule a port])))"

definition fw_switches :: "string \<Rightarrow> string list \<Rightarrow> bool" where
  "fw_switches command argv \<longleftrightarrow>
     command = ''enable'' \<and>
       argv \<in> {scheduled ufw [''--force'', ''enable''], scheduled ''/usr/bin/systemctl'' [''enable'', ''--now'', ''firewalld.service'']} \<or>
     command = ''disable'' \<and>
       argv \<in> {scheduled ufw [''--force'', ''disable''], scheduled ''/usr/bin/systemctl'' [''disable'', ''--now'', ''firewalld.service'']} \<or>
     command = ''reload'' \<and> argv \<in> {scheduled ufw [''reload''], scheduled firewallCMD [''--reload'']}"

definition fw_deletes :: "fw_host \<Rightarrow> string \<Rightarrow> string list \<Rightarrow> string list \<Rightarrow> bool" where
  "fw_deletes host command a argv \<longleftrightarrow>
     validID (a ! 0) \<noteq> None \<and> fingerprintPattern (a ! 1) \<and> a ! 2 \<in> {''yes'', ''no''} \<and>
     (command = ''delete'' \<and> argv = scheduled goCLI [''firewall'', ''delete-execute'', a ! 0, a ! 1, a ! 2] \<or>
      command = ''delete-execute'' \<and>
        (if uses_firewalld host then argv = [firewallCMD, ''--reload''] \<or> (\<exists>line. argv = [firewallCMD, ''--permanent'', remove_argument line])
         else argv = [ufw, ''--force'', ''delete'', a ! 0]))"

definition firewall_permitted :: "fw_host \<Rightarrow> string \<Rightarrow> string list \<Rightarrow> string list \<Rightarrow> bool" where
  "firewall_permitted host command a argv \<longleftrightarrow>
     argv \<in> set fw_reads \<or> fw_adds host command a argv \<or> fw_switches command argv \<or> fw_deletes host command a argv"

lemma permitted_read [simp]:
  "firewall_permitted host command a [ufw, ''status'', ''verbose'']" "firewall_permitted host command a [ufw, ''status'', ''numbered'']"
  "firewall_permitted host command a [ufw, ''version'']" "firewall_permitted host command a ss_command"
  "firewall_permitted host command a [firewallCMD, ''--list-rich-rules'']" "firewall_permitted host command a [firewallCMD, ''--list-ports'']"
  "firewall_permitted host command a [firewallCMD, ''--state'']" "firewall_permitted host command a [firewallCMD, ''--version'']"
  by (simp_all add: firewall_permitted_def fw_reads_def)

lemma fw_run_eq: "fw_run host argv h = (r, h') \<Longrightarrow> h' = h @ [argv]" "fw_output host argv h = (t, h') \<Longrightarrow> h' = h @ [argv]"
  using fw_run_history [of host argv h] by auto

lemma firewalldRules_history:
  "extends (firewall_permitted host command a) h (snd (firewalldRules host h))"
  by (auto simp: firewalldRules_def extends_append split: prod.split option.split dest!: fw_run_eq)

lemma rule_numbered_history: "extends (firewall_permitted host command a) h (snd (rule_numbered host n h))"
  using firewalldRules_history [of host command a h]
  by (auto simp: rule_numbered_def split: prod.split option.split sum.split dest!: fw_run_eq)

lemma usage_history: "extends (firewall_permitted host command a) h (snd (usage host n h))"
proof -
  obtain r h1 where "rule_numbered host n h = (r, h1)" by fastforce
  moreover from this have "extends (firewall_permitted host command a) h h1" using rule_numbered_history [of host command a h n] by simp
  ultimately show ?thesis
    by (auto simp: usage_def split: sum.split prod.split dest!: fw_run_eq(2) intro: extends_trans [where h' = h1])
qed

lemma schedule_history:
  "snd (schedule host action command args h) = h @ [scheduled command args]"
  "snd (scheduleFirewalld host action command args h) = h @ [scheduled command args]"
  by (auto simp: schedule_def scheduleFirewalld_def split: prod.split option.split dest!: fw_run_eq)

lemma fw_run_after:
  "fw_run host argv h' = (r, h'') \<Longrightarrow> extends P h h' \<Longrightarrow> P argv \<Longrightarrow> extends P h h''"
  by (auto dest: fw_run_eq(1))

lemma rule_numbered_after:
  "rule_numbered host n h' = (r, h'') \<Longrightarrow> extends (firewall_permitted host command a) h h' \<Longrightarrow> extends (firewall_permitted host command a) h h''"
  using rule_numbered_history [of host command a h' n] extends_trans by fastforce

lemma delete_permitted:
  assumes "validID (a ! 0) \<noteq> None" "fingerprintPattern (a ! 1)" "a ! 2 \<in> {''yes'', ''no''}" "uses_firewalld host"
  shows "firewall_permitted host ''delete-execute'' a [firewallCMD, ''--permanent'', remove_argument line]"
    "firewall_permitted host ''delete-execute'' a [firewallCMD, ''--reload'']"
  using assms by (auto simp: firewall_permitted_def fw_deletes_def)

lemma execute_delete_confined:
  assumes "validID (a ! 0) \<noteq> None" "fingerprintPattern (a ! 1)" "a ! 2 \<in> {''yes'', ''no''}"
    and "extends (firewall_permitted host ''delete-execute'' a) h0 h"
  shows "extends (firewall_permitted host ''delete-execute'' a) h0 (snd (execute_delete host n (a ! 0) h))"
proof (cases "uses_firewalld host")
  case True
  note dp = delete_permitted [OF assms(1-3) True]
  show ?thesis
    using True assms(4)
    by (auto simp: execute_delete_def dp split: prod.split sum.split option.split
          dest!: fw_run_eq(1) rule_numbered_after [where h = h0 and command = "''delete-execute''" and a = a] intro!: extends_add)
next
  case False
  then have "firewall_permitted host ''delete-execute'' a [ufw, ''--force'', ''delete'', a ! 0]"
    using assms(1-3) by (auto simp: firewall_permitted_def fw_deletes_def)
  then show ?thesis
    using False assms(4) by (auto simp: execute_delete_def split: prod.split option.split dest!: fw_run_eq(1))
qed

lemma delete_rule_confined:
  assumes "command \<in> {''delete'', ''delete-execute''}"
  shows "extends (firewall_permitted host command a) h (snd (delete_rule host command a h))"
proof -
  have h1: "extends (firewall_permitted host command a) h h1" if "usage host n h = (u, h1)" for n u h1
    using usage_history [of host command a h n] that by simp
  have sched: "firewall_permitted host ''delete'' a (scheduled goCLI [''firewall'', ''delete-execute'', a ! 0, a ! 1, a ! 2])"
    if "validID (a ! 0) \<noteq> None" "fingerprintPattern (a ! 1)" "a ! 2 \<in> {''yes'', ''no''}"
    using that by (auto simp: firewall_permitted_def fw_deletes_def)
  show ?thesis
    using assms h1 sched execute_delete_confined [of a host h]
    by (auto simp: delete_rule_def Let_def schedule_history split: option.split sum.split prod.split intro!: extends_add)
qed

lemma check_delete_confined: "extends (firewall_permitted host command a) h (snd (check_delete host a h))"
proof (cases "validID (a ! 0)")
  case None
  then show ?thesis by (simp add: check_delete_def)
next
  case (Some n)
  then show ?thesis
    using usage_history [of host command a h n] by (auto simp: check_delete_def split: sum.split prod.split)
qed

lemma add_rich_rules_confined:
  "list_all (\<lambda>rich. P [firewallCMD, ''--permanent'', ''--add-rich-rule='' @ rich]) riches \<Longrightarrow> extends P h h'
   \<Longrightarrow> extends P h (snd (add_rich_rules host riches h'))"
  by (induction riches arbitrary: h') (auto split: prod.split option.split dest!: fw_run_eq(1))

lemma add_firewalld_confined:
  assumes "command \<in> {''add'', ''add-execute''}" "uses_firewalld host"
  shows "extends (firewall_permitted host command a) h (snd (add_firewalld host command a h))"
proof (cases "validateAdd a = None \<and> command = ''add-execute'' \<and> a ! 0 \<noteq> ''limit''")
  case True
  then have p: "list_all (\<lambda>rich. firewall_permitted host command a [firewallCMD, ''--permanent'', ''--add-rich-rule='' @ rich])
      (map (rich_rule a) (split_char CHR '','' (a ! 1)))" "firewall_permitted host command a [firewallCMD, ''--reload'']"
    using assms by (auto simp: list_all_iff firewall_permitted_def fw_adds_def)
  show ?thesis
    using True add_rich_rules_confined [OF p(1) extends_refl, of h host] p(2)
    by (auto simp: add_firewalld_def split: prod.split option.split dest!: fw_run_eq(1))
next
  case False
  then show ?thesis
    using assms by (auto simp: add_firewalld_def schedule_history firewall_permitted_def fw_adds_def split: option.split)
qed

lemma read_firewalld_confined: "extends (firewall_permitted host command a) h (snd (read_firewalld host command' h))"
proof -
  let ?P = "firewall_permitted host command a" and ?h = "h @ [[firewallCMD, ''--state'']]"
  have "extends ?P h (snd (firewalldRules host ?h))"
    by (rule extends_trans [OF _ firewalldRules_history]) simp
  then show ?thesis
    by (auto simp: read_firewalld_def Let_def split: prod.split sum.split dest!: fw_run_eq(1))
qed

lemma show_ufw_confined: "extends (firewall_permitted host command a) h (snd (show_ufw host command' h))"
  by (auto simp: show_ufw_def read_ufw_def extends_append split: prod.split option.split dest!: fw_run_eq(1))

lemma switch_permitted:
  "firewall_permitted host ''enable'' a (scheduled ufw [''--force'', ''enable''])"
  "firewall_permitted host ''enable'' a (scheduled ''/usr/bin/systemctl'' [''enable'', ''--now'', ''firewalld.service''])"
  "firewall_permitted host ''disable'' a (scheduled ufw [''--force'', ''disable''])"
  "firewall_permitted host ''disable'' a (scheduled ''/usr/bin/systemctl'' [''disable'', ''--now'', ''firewalld.service''])"
  "firewall_permitted host ''reload'' a (scheduled ufw [''reload''])"
  "firewall_permitted host ''reload'' a (scheduled firewallCMD [''--reload''])"
  by (simp_all add: firewall_permitted_def fw_switches_def)

lemma fw_execute_confined: "extends (firewall_permitted host command a) h (snd (fw_execute host command a h))"
proof (cases "uses_firewalld host")
  case True
  have "extends (firewall_permitted host command a) h (snd (executeFirewalld host command a h))"
    using True read_firewalld_confined add_firewalld_confined check_delete_confined delete_rule_confined
    by (auto simp: executeFirewalld_def schedule_history switch_permitted)
  then show ?thesis using True by (simp add: fw_execute_def)
next
  case False
  have "firewall_permitted host ''add'' a (scheduled ufw [a ! 0, ''from'', a ! 3, ''to'', ''any'', ''port'', a ! 1, ''proto'', a ! 2])"
    if "validateAdd a = None"
    using that by (simp add: firewall_permitted_def fw_adds_def)
  then show ?thesis
    using False show_ufw_confined check_delete_confined delete_rule_confined
    by (auto simp: fw_execute_def schedule_history switch_permitted split: option.split)
qed

lemma validateAdd_ok: "validateAdd a = Some rep \<Longrightarrow> reply_ok rep"
  by (auto simp: validateAdd_def split: if_splits)

lemma rule_numbered_ok: "rule_numbered host n h = (Inl rep, h') \<Longrightarrow> reply_ok rep"
  by (auto simp: rule_numbered_def firewalldRules_def split: prod.splits sum.splits option.splits if_splits)

lemma firewalldRules_ok: "firewalldRules host h = (Inl rep, h') \<Longrightarrow> reply_ok rep"
  by (auto simp: firewalldRules_def split: prod.splits option.splits)

lemma schedule_ok: "reply_ok (fst (schedule host action command args h))" "reply_ok (fst (scheduleFirewalld host action command args h))"
  by (auto simp: schedule_def scheduleFirewalld_def split: prod.split option.split)

lemma usage_ok: "usage host n h = (Inl rep, h') \<Longrightarrow> reply_ok rep"
  by (auto simp: usage_def split: prod.splits sum.splits dest: rule_numbered_ok)

lemma execute_delete_ok: "reply_ok (fst (execute_delete host n text h))"
  by (auto simp: execute_delete_def split: prod.split option.split sum.split dest: rule_numbered_ok)

lemma delete_ok: "reply_ok (fst (delete_rule host command a h))" "reply_ok (fst (check_delete host a h))"
  by (auto simp: delete_rule_def check_delete_def Let_def execute_delete_ok schedule_ok split: prod.split option.split sum.split dest: usage_ok)

lemma add_ok: "reply_ok (fst (add_firewalld host command a h))"
  by (auto simp: add_firewalld_def schedule_ok validateAdd_ok split: prod.split option.split)

lemma read_ok: "reply_ok (fst (read_firewalld host command h))" "reply_ok (fst (show_ufw host command h))"
  by (auto simp: read_firewalld_def show_ufw_def Let_def firewalldRules_ok split: prod.split option.split sum.split)

lemma fw_execute_ok: "reply_ok (fst (fw_execute host command a h))"
  by (auto simp: fw_execute_def executeFirewalld_def schedule_ok delete_ok add_ok read_ok validateAdd_ok split: option.split)

interpretation firewall: confined_handler "firewall_handle host" "firewall_permitted host" for host
  by unfold_locales (auto simp: firewall_handle_def fw_execute_ok fw_execute_confined split: option.split)

section \<open>A rule is deleted only as it was shown\<close>

abbreviation ufw_delete :: "string \<Rightarrow> string list" where
  "ufw_delete n \<equiv> [ufw, ''--force'', ''delete'', n]"

lemma ufw_delete_permitted:
  "firewall_permitted host command a (ufw_delete n) \<longleftrightarrow>
     command = ''delete-execute'' \<and> \<not> uses_firewalld host \<and> n = a ! 0 \<and> validID n \<noteq> None \<and> fingerprintPattern (a ! 1) \<and>
     a ! 2 \<in> {''yes'', ''no''}"
  by (auto simp: firewall_permitted_def fw_reads_def fw_adds_def fw_switches_def fw_deletes_def scheduled_def)

lemma handle_extends: "\<exists>new. snd (firewall_handle host command a h) = h @ new \<and> list_all (firewall_permitted host command a) new"
  using firewall.handle_confined [of host command a h] by (auto simp: extends_def)

definition checked_rule :: "fw_host \<Rightarrow> history \<Rightarrow> string \<Rightarrow> string \<Rightarrow> string \<Rightarrow> bool" where
  "checked_rule host h n fp confirm \<longleftrightarrow>
     (let listing = fw_exec host h [ufw, ''status'', ''numbered''];
          sockets = fw_exec host (h @ [[ufw, ''status'', ''numbered'']]) ss_command in
      status listing = 0 \<and>
      (case find (\<lambda>r. frID r = fst (atoi n)) (parseRules (fw_lower host) (trim_space (out listing))) of
         None \<Rightarrow> False
       | Some r \<Rightarrow> fingerprint (frLine r) = fp \<and>
                   (confirm = ''yes'' \<or> listeners (fw_lower host) r (trim_space (out sockets)) = [])))"

lemma usage_ufw:
  assumes "\<not> uses_firewalld host" "usage host n h = (Inr (r, ls), h1)"
  shows "h1 = h @ [[ufw, ''status'', ''numbered''], ss_command]"
    and "status (fw_exec host h [ufw, ''status'', ''numbered'']) = 0"
    and "find (\<lambda>r. frID r = n) (parseRules (fw_lower host) (trim_space (out (fw_exec host h [ufw, ''status'', ''numbered''])))) = Some r"
    and "ls = listeners (fw_lower host) r (trim_space (out (fw_exec host (h @ [[ufw, ''status'', ''numbered'']]) ss_command)))"
  using assms
  by (auto simp: usage_def rule_numbered_def fw_run_def fw_output_def run_command_def split: sum.splits prod.splits option.splits if_splits)

lemma validID_atoi: "validID v = Some n \<Longrightarrow> n = fst (atoi v)"
  by (auto simp: validID_def split: list.splits if_splits)

lemma delete_rule_checked:
  assumes "\<not> uses_firewalld host" "snd (delete_rule host ''delete-execute'' a h) = h @ new" "ufw_delete n \<in> set new"
  shows "new = [[ufw, ''status'', ''numbered''], ss_command, ufw_delete (a ! 0)] \<and> checked_rule host h (a ! 0) (a ! 1) (a ! 2)"
proof -
  obtain m where m: "validID (a ! 0) = Some m" using assms(2,3) by (cases "validID (a ! 0)") (auto simp: delete_rule_def)
  obtain u h1 where u: "usage host m h = (u, h1)" by fastforce
  have "ufw_delete n \<notin> set new'" if "h1 = h @ new'" for new'
  proof -
    have "extends (\<lambda>argv. argv \<noteq> ufw_delete n) h (snd (usage host m h))"
      using assms(1) by (auto simp: usage_def rule_numbered_def extends_append split: sum.split prod.split option.split dest!: fw_run_eq)
    then show ?thesis using u that by (auto simp: extends_append list_all_iff)
  qed
  then have h1: "h1 \<noteq> h @ new" using assms(3) by blast
  then have valid: "fingerprintPattern (a ! 1)" "a ! 2 = ''yes'' \<or> a ! 2 = ''no''"
    using assms m u by (auto simp: delete_rule_def split: if_splits)
  obtain r ls where r: "u = Inr (r, ls)"
    using h1 assms m u valid by (cases u) (auto simp: delete_rule_def)
  note chk = usage_ufw [OF assms(1) u [unfolded r]]
  have ok: "fingerprint (frLine r) = a ! 1" "a ! 2 = ''yes'' \<or> ls = []"
    using h1 assms m u valid r by (auto simp: delete_rule_def split: if_splits)
  have "snd (delete_rule host ''delete-execute'' a h) = h1 @ [ufw_delete (a ! 0)]"
    using m u valid r ok assms(1) by (auto simp: delete_rule_def execute_delete_def split: prod.split option.split dest!: fw_run_eq(1))
  then have "new = [[ufw, ''status'', ''numbered''], ss_command, ufw_delete (a ! 0)]"
    using assms(2) chk(1) by simp
  moreover have "checked_rule host h (a ! 0) (a ! 1) (a ! 2)"
    using chk ok validID_atoi [OF m] by (auto simp: checked_rule_def)
  ultimately show ?thesis by blast
qed


definition sample_rule_line :: string where
  "sample_rule_line = ''[ 1] 22/tcp  ALLOW IN  Any''"

definition sample_firewall :: fw_host where
  "sample_firewall =
     \<lparr>fw_executable = (\<lambda>p. p = ufw), fw_defaults = None, fw_lower = (\<lambda>n. n),
      fw_exec = (\<lambda>h argv. \<lparr>out = (if argv = [ufw, ''status'', ''numbered''] then sample_rule_line else ''''), err = '''', status = 0\<rparr>)\<rparr>"

definition sample_digest :: string where
  "sample_digest = ''daa5849ac7b0967c6a45050b986896303c1cea8c5efd0fe4af5cc694a401565a''"

lemma sample_fingerprint: "fingerprint sample_rule_line = sample_digest"
  by code_simp

lemma sample_rules:
  "find (\<lambda>r. frID r = 1) (parseRules (\<lambda>n. n) (trim_space sample_rule_line)) =
     Some \<lparr>frID = 1, frAction = ''allow'', frDirection = ''in'', frProtocol = ''tcp'', frPorts = [''22''], frSource = ''Any'',
           frDestination = ''any'', frFamily = ''ipv4'', frLine = sample_rule_line\<rparr>"
  by code_simp

lemma sample_deletion:
  "snd (firewall_handle sample_firewall ''delete-execute'' [''1'', sample_digest, ''yes''] []) =
     [] @ [[ufw, ''status'', ''numbered''], ss_command, ufw_delete ''1'']"
proof -
  have v: "validID ''1'' = Some 1" "fingerprintPattern sample_digest" by code_simp+
  have t: "trim_space '''' = ''''" by code_simp
  have host: "\<not> uses_firewalld sample_firewall" "fw_executable sample_firewall ufw" "fw_lower sample_firewall = (\<lambda>n. n)"
    by (simp_all add: uses_firewalld_def sample_firewall_def)
  have u: "usage sample_firewall 1 [] = (Inr (r, ls), [[ufw, ''status'', ''numbered''], ss_command])"
    if "find (\<lambda>r. frID r = 1) (parseRules (\<lambda>n. n) (trim_space sample_rule_line)) = Some r" "ls = listeners (\<lambda>n. n) r ''''" for r ls
    using that t by (simp add: usage_def rule_numbered_def host fw_run_def fw_output_def run_command_def) (simp add: sample_firewall_def fw_output_def run_command_def)
  show ?thesis
    using host v u [OF sample_rules refl]
    by (simp add: firewall_handle_def fw_counts_def fw_execute_def delete_rule_def execute_delete_def sample_fingerprint fw_run_def run_command_def)
qed


end
