(* ===== verification/Backend_Units.thy ===== *)
theory Backend_Units
  imports Backend_Effects "HOL-Library.Multiset"
begin

text \<open>
  The state of a systemd unit, as the domains for Fail2ban and Tor read it (\<^verbatim>\<open>value\<close>, \<^verbatim>\<open>exists\<close> and the common part
  of \<^verbatim>\<open>status\<close> in \<^verbatim>\<open>fail2ban.go\<close> and \<^verbatim>\<open>tor.go\<close>), and the profile files both read. Both domains run commands through
  a runner of their own; the locale \<open>command_runner\<close> states what a runner promises: it runs the command it is
  given and nothing else. For commands whose output and errors are read together, \<open>out\<close> is both.
\<close>

type_synonym runner = "string list \<Rightarrow> history \<Rightarrow> (string \<times> bool) \<times> history"

abbreviation systemctl_path :: string where "systemctl_path \<equiv> ''/usr/bin/systemctl''"
abbreviation systemd_run_path :: string where "systemd_run_path \<equiv> ''/usr/bin/systemd-run''"

definition show_property :: "string \<Rightarrow> string \<Rightarrow> string list" where
  "show_property unit p = [systemctl_path, ''show'', ''--property='' @ p, ''--value'', ''--'', unit]"

definition ask_unit :: "string \<Rightarrow> string \<Rightarrow> string list" where
  "ask_unit what unit = [systemctl_path, what, ''--quiet'', ''--'', unit]"

definition restart_later :: "string \<Rightarrow> string list" where
  "restart_later unit = [systemd_run_path, ''--quiet'', ''--collect'', ''--on-active=5s'', systemctl_path, ''restart'', ''--'', unit]"

definition unit_value :: "runner \<Rightarrow> string \<Rightarrow> string \<Rightarrow> string \<Rightarrow> history \<Rightarrow> string \<times> history" where
  "unit_value run unit p f h =
     (case run (show_property unit p) h of ((o1, ok), h1) \<Rightarrow> (if \<not> ok \<or> o1 = '''' then f else o1, h1))"

definition unit_loaded :: "string \<Rightarrow> bool" where
  "unit_loaded v \<longleftrightarrow> v = ''loaded'' \<or> v = ''masked''"

definition unit_exists :: "runner \<Rightarrow> string \<Rightarrow> history \<Rightarrow> bool \<times> history" where
  "unit_exists run unit h = (case unit_value run unit ''LoadState'' ''not-found'' h of (v, h1) \<Rightarrow> (unit_loaded v, h1))"

definition unit_active :: "runner \<Rightarrow> string \<Rightarrow> history \<Rightarrow> bool \<times> history" where
  "unit_active run unit h = (case run (ask_unit ''is-active'' unit) h of ((o1, ok), h1) \<Rightarrow> (ok, h1))"

text \<open>
  A loop over a Go map goes through its entries in an order that is not specified. The order is a parameter:
  each number picks one of the entries that are left.
\<close>

fun pick_order :: "nat list \<Rightarrow> 'a list \<Rightarrow> 'a list" where
  "pick_order [] xs = xs"
| "pick_order (n # ns) [] = []"
| "pick_order (n # ns) xs = (let i = n mod length xs in xs ! i # pick_order ns (take i xs @ drop (Suc i) xs))"

lemma mset_pick_order: "mset (pick_order ns xs) = mset xs"
proof (induction ns xs rule: pick_order.induct)
  case (3 n ns x xs)
  let ?ys = "x # xs" and ?i = "n mod length (x # xs)"
  have "mset ?ys = mset (take ?i ?ys @ ?ys ! ?i # drop (Suc ?i) ?ys)"
    by (subst id_take_nth_drop [symmetric]) simp_all
  then show ?case using 3 by (simp add: Let_def)
qed simp_all

lemma set_pick_order [simp]: "set (pick_order ns xs) = set xs"
  using mset_pick_order [of ns xs] mset_eq_setD by blast

definition unit_numbers :: "(string \<times> string) list" where
  "unit_numbers = [(''MainPID'', ''main_pid''), (''MemoryCurrent'', ''memory_bytes''), (''TasksCurrent'', ''tasks'')]"

fun read_numbers :: "runner \<Rightarrow> string \<Rightarrow> (string \<times> string) list \<Rightarrow> (string \<times> int) list \<Rightarrow> history \<Rightarrow> (string \<times> int) list \<times> history" where
  "read_numbers run unit [] d h = (d, h)"
| "read_numbers run unit ((p, k) # rest) d h =
     (case unit_value run unit p ''0'' h of (v, h1) \<Rightarrow>
        read_numbers run unit rest (if 0 \<le> fst (atoi v) then (k, fst (atoi v)) # d else d) h1)"

definition number_json :: "(string \<times> int) list \<Rightarrow> string \<Rightarrow> string \<times> json" where
  "number_json d k = (k, JInt (case map_of d k of None \<Rightarrow> 0 | Some n \<Rightarrow> n))"

definition unit_json :: "string \<Rightarrow> string \<Rightarrow> string \<Rightarrow> bool \<Rightarrow> bool \<Rightarrow> string \<Rightarrow> string \<Rightarrow> (string \<times> int) list \<Rightarrow> (string \<times> json) list" where
  "unit_json service unit load act enabled active_state state d =
     [(''service'', JString service), (''unit'', JString unit), (''exists'', JBool (unit_loaded load)), (''active'', JBool act),
      (''enabled'', JBool enabled), (''load_state'', JString load), (''active_state'', JString active_state), (''state'', JString state),
      number_json d ''main_pid'', number_json d ''memory_bytes'', number_json d ''tasks'']"

text \<open>What both domains report: whether the unit exists, whether it is active, and the fields of the reply.\<close>

definition unit_status ::
  "runner \<Rightarrow> (history \<Rightarrow> nat list) \<Rightarrow> string \<Rightarrow> string \<Rightarrow> history \<Rightarrow> (bool \<times> bool \<times> (string \<times> json) list) \<times> history" where
  "unit_status run order unit service h =
     (case unit_value run unit ''LoadState'' ''not-found'' h of (load, h1) \<Rightarrow>
        if \<not> unit_loaded load then ((False, False, unit_json service unit load False False ''inactive'' ''unknown'' []), h1)
        else case unit_active run unit h1 of (act, h2) \<Rightarrow>
             case run (ask_unit ''is-enabled'' unit) h2 of ((o2, enabled), h3) \<Rightarrow>
             case unit_value run unit ''ActiveState'' ''inactive'' h3 of (active_state, h4) \<Rightarrow>
             case unit_value run unit ''SubState'' ''unknown'' h4 of (state, h5) \<Rightarrow>
             case read_numbers run unit (pick_order (order h5) unit_numbers) [] h5 of (d, h6) \<Rightarrow>
               ((True, act, unit_json service unit load act enabled active_state state d), h6))"

definition unit_questions :: "string \<Rightarrow> string list list" where
  "unit_questions unit =
     map (show_property unit) [''LoadState'', ''ActiveState'', ''SubState'', ''MainPID'', ''MemoryCurrent'', ''TasksCurrent''] @
     map (\<lambda>what. ask_unit what unit) [''is-active'', ''is-enabled'']"

text \<open>A check that must not be refused, and a command that must succeed, before the rest.\<close>

definition unless_refused :: "backend_reply option \<times> history \<Rightarrow> (history \<Rightarrow> backend_reply \<times> history) \<Rightarrow> backend_reply \<times> history" where
  "unless_refused p rest = (case p of (Some rep, h) \<Rightarrow> (rep, h) | (None, h) \<Rightarrow> rest h)"

definition must_succeed ::
  "runner \<Rightarrow> string list \<Rightarrow> int \<Rightarrow> string \<Rightarrow> (history \<Rightarrow> backend_reply \<times> history) \<Rightarrow> history \<Rightarrow> backend_reply \<times> history" where
  "must_succeed run argv x code rest h =
     (case run argv h of ((o1, ok), h1) \<Rightarrow> if ok then rest h1 else (failure x code, h1))"

definition action_json :: "string \<Rightarrow> string \<Rightarrow> string \<Rightarrow> (string \<times> json) list" where
  "action_json action service result =
     [(''action'', JString action), (''service'', JString service), (''result'', JString result)]"

lemma unless_refused_ok:
  "(\<And>rep. fst p = Some rep \<Longrightarrow> reply_ok rep) \<Longrightarrow> (\<And>h'. reply_ok (fst (rest h'))) \<Longrightarrow> reply_ok (fst (unless_refused p rest))"
  by (auto simp: unless_refused_def split: prod.split option.split)

lemma must_succeed_ok: "x \<noteq> 0 \<Longrightarrow> (\<And>h'. reply_ok (fst (rest h'))) \<Longrightarrow> reply_ok (fst (must_succeed run argv x code rest h))"
  by (auto simp: must_succeed_def split: prod.split)

lemma unless_refused_after:
  "extends P h0 (snd p) \<Longrightarrow> (\<And>h'. fst p = None \<Longrightarrow> extends P h0 h' \<Longrightarrow> extends P h0 (snd (rest h'))) \<Longrightarrow> extends P h0 (snd (unless_refused p rest))"
  by (auto simp: unless_refused_def split: prod.split option.split)

locale command_runner =
  fixes run :: runner
  assumes run_history: "snd (run argv h) = h @ [argv]"
begin

lemma run_eq: "run argv h = (r, h') \<Longrightarrow> h' = h @ [argv]"
  using run_history [of argv h] by simp

lemma run_after: "run argv h' = (r, h'') \<Longrightarrow> extends P h h' \<Longrightarrow> P argv \<Longrightarrow> extends P h h''"
  by (auto dest: run_eq)

lemma unit_value_history [simp]: "snd (unit_value run unit p f h) = h @ [show_property unit p]"
  by (simp add: unit_value_def case_prod_beta run_history)

lemma unit_exists_history [simp]: "snd (unit_exists run unit h) = h @ [show_property unit ''LoadState'']"
  by (simp add: unit_exists_def case_prod_beta)

lemma unit_active_history [simp]: "snd (unit_active run unit h) = h @ [ask_unit ''is-active'' unit]"
  by (simp add: unit_active_def case_prod_beta run_history)

lemma read_numbers_history [simp]: "snd (read_numbers run unit ps d h) = h @ map (show_property unit \<circ> fst) ps"
  by (induction ps arbitrary: d h) (auto simp: case_prod_beta)

lemma must_succeed_after:
  "extends P h0 h \<Longrightarrow> P argv \<Longrightarrow> (\<And>h'. extends P h0 h' \<Longrightarrow> extends P h0 (snd (rest h')))
   \<Longrightarrow> extends P h0 (snd (must_succeed run argv x code rest h))"
  by (auto simp: must_succeed_def split: prod.split dest!: run_eq)

lemma unit_status_extends:
  assumes "\<And>argv. argv \<in> set (unit_questions unit) \<Longrightarrow> P argv"
  shows "extends P h (snd (unit_status run order unit service h))"
proof -
  have "P (show_property unit p)" if "p \<in> {''LoadState'', ''ActiveState'', ''SubState''} \<union> fst ` set unit_numbers" for p
    using that by (intro assms) (auto simp: unit_questions_def unit_numbers_def)
  moreover have "P (ask_unit what unit)" if "what \<in> {''is-active'', ''is-enabled''}" for what
    using that by (intro assms) (auto simp: unit_questions_def)
  ultimately show ?thesis
    by (simp add: unit_status_def case_prod_beta run_history extends_append list_all_iff)
qed

end

section \<open>Steps that give a value or a refusal\<close>

text \<open>A command may also not end in time, or not start at all.\<close>

datatype fault = NoFault | TimedOut | NotStarted

type_synonym 'a step = "(backend_reply + 'a) \<times> history"

definition and_then :: "'a step \<Rightarrow> ('a \<Rightarrow> history \<Rightarrow> 'b step) \<Rightarrow> 'b step" where
  "and_then p k = (case p of (Inl rep, h) \<Rightarrow> (Inl rep, h) | (Inr x, h) \<Rightarrow> k x h)"

text \<open>The reply of a handler: the refusal, or success with the data.\<close>

definition reply_of :: "(string \<times> json) list step \<Rightarrow> backend_reply \<times> history" where
  "reply_of p = (case p of (Inl rep, h) \<Rightarrow> (rep, h) | (Inr data, h) \<Rightarrow> (success data, h))"

text \<open>A refusal is well formed, and a failure.\<close>

definition step_ok :: "'a step \<Rightarrow> bool" where
  "step_ok p \<longleftrightarrow> (case fst p of Inl rep \<Rightarrow> reply_ok rep \<and> exit_code rep \<noteq> 0 | Inr _ \<Rightarrow> True)"

lemma exit_code_reply [simp]: "exit_code (failure x code) = x" "exit_code (success data) = 0"
  by (simp_all add: failure_def success_def)

lemma step_ok_simps [simp]: "step_ok (Inl rep, h) = (reply_ok rep \<and> exit_code rep \<noteq> 0)" "step_ok (Inr x, h)"
  by (simp_all add: step_ok_def)

lemma step_ok_and_then: "step_ok p \<Longrightarrow> (\<And>x h. step_ok (k x h)) \<Longrightarrow> step_ok (and_then p k)"
  unfolding and_then_def by (cases p) (auto split: sum.split)

lemma reply_of_ok: "step_ok p \<Longrightarrow> reply_ok (fst (reply_of p))"
  by (auto simp: reply_of_def step_ok_def split: prod.split sum.split)

lemma reply_of_exit: "step_ok p \<Longrightarrow> exit_code (fst (reply_of p)) = 0 \<longleftrightarrow> (\<exists>x. fst p = Inr x)"
  by (auto simp: reply_of_def step_ok_def split: prod.split sum.split)

lemma snd_reply_of [simp]: "snd (reply_of p) = snd p"
  by (simp add: reply_of_def split: prod.split sum.split)

lemma and_then_after:
  "extends P h0 (snd p) \<Longrightarrow> (\<And>x h. fst p = Inr x \<Longrightarrow> extends P h0 h \<Longrightarrow> extends P h0 (snd (k x h))) \<Longrightarrow> extends P h0 (snd (and_then p k))"
  by (auto simp: and_then_def split: prod.split sum.split)

section \<open>Text that is ASCII\<close>

lemma to_valid_ascii: "list_all (\<lambda>c. byte_val c < 128) s \<Longrightarrow> to_valid invalid s = s"
proof (induction s arbitrary: invalid)
  case (Cons c s)
  then have "decode_rune (c # s) = (byte_val c, 1)" by (simp add: decode_rune_def)
  then show ?case using Cons by (subst to_valid.simps) simp
qed (simp add: to_valid.simps)

lemma ToValidUTF8_ascii: "list_all (\<lambda>c. byte_val c < 128) s \<Longrightarrow> ToValidUTF8 s = s"
  by (simp add: ToValidUTF8_def to_valid_ascii)

section \<open>Profile files\<close>

text \<open>The entries of a profile, up to a line that does not fit the scanner's buffer.\<close>

definition profile_entry :: "string \<Rightarrow> (string \<times> string) list" where
  "profile_entry raw =
     (let line = trim_space raw in
      if line = '''' \<or> has_prefix line ''#'' then []
      else case cut_char CHR ''='' line of None \<Rightarrow> [] | Some (key, value) \<Rightarrow> [(trim_space key, trim_space value)])"

definition profile_entries :: "string \<Rightarrow> (string \<times> string) list" where
  "profile_entries text = concat (map profile_entry (scan_lines text))"

end
