(* ===== verification/Domain_Fail2ban.thy ===== *)
theory Domain_Fail2ban
  imports Backend_Units Go_Regexp Go_Net
begin

text \<open>
  The Fail2ban domain of the daemon (\<^verbatim>\<open>internal/domain/fail2ban\<close>: \<^verbatim>\<open>fail2ban.go\<close> and \<^verbatim>\<open>profile.go\<close>): the state of the
  service and its jails, and banning an address or lifting a ban.
\<close>

record f2b_backend =
  fbClient :: string
  fbUnit :: string
  fbService :: string

record f2b_host =
  f2b_executable :: executable
  f2b_lower :: "nat \<Rightarrow> nat"
  f2b_order :: "history \<Rightarrow> nat list"
  f2b_exec :: executor

abbreviation f2b_client :: string where "f2b_client \<equiv> ''/usr/bin/fail2ban-client''"
abbreviation f2b_local_client :: string where "f2b_local_client \<equiv> ''/usr/local/bin/fail2ban-client''"

definition fail2banUnitPattern :: "string \<Rightarrow> bool" where
  "fail2banUnitPattern s \<longleftrightarrow>
     has_prefix s ''fail2ban'' \<and> has_suffix s ''.service'' \<and>
     (let mid = take (length s - 16) (drop 8 s) in
      16 \<le> length s \<and>
      (case mid of [] \<Rightarrow> True
       | c # cs \<Rightarrow> (c = CHR ''-'' \<or> c = CHR ''@'') \<and> cs \<noteq> [] \<and> list_all (\<lambda>c. is_alnum c \<or> c \<in> set ''_.-'') cs))"

definition f2b_profile_value :: "string \<times> string \<Rightarrow> f2b_backend \<Rightarrow> f2b_backend" where
  "f2b_profile_value = (\<lambda>(key, value) b.
     if key = ''client'' then (if value = f2b_client \<or> value = f2b_local_client then b\<lparr>fbClient := value\<rparr> else b)
     else if key = ''unit'' then
       (if fail2banUnitPattern value then b\<lparr>fbUnit := value, fbService := trim_suffix value ''.service''\<rparr> else b)
     else b)"

definition f2b_loadProfile :: "string option \<Rightarrow> f2b_backend \<Rightarrow> f2b_backend" where
  "f2b_loadProfile content b =
     (case content of None \<Rightarrow> b | Some text \<Rightarrow> fold f2b_profile_value (profile_entries text) b)"

definition f2b_NewLinuxBackend :: "executable \<Rightarrow> string option \<Rightarrow> f2b_backend" where
  "f2b_NewLinuxBackend exe profile =
     (let b = f2b_loadProfile profile \<lparr>fbClient = f2b_client, fbUnit = ''fail2ban.service'', fbService = ''fail2ban''\<rparr>
      in if fbClient b = f2b_client \<and> \<not> exe (fbClient b) \<and> exe f2b_local_client then b\<lparr>fbClient := f2b_local_client\<rparr> else b)"

definition f2b_run :: "f2b_host \<Rightarrow> runner" where
  "f2b_run host argv h =
     (case run_command (f2b_exec host) argv h of (r, h1) \<Rightarrow> ((trim_space (ToValidUTF8 (out r)), succeeded r), h1))"

interpretation f2b: command_runner "f2b_run host" for host
  by unfold_locales (simp add: f2b_run_def run_command_def)

section \<open>Jails\<close>

definition jailPattern :: "string \<Rightarrow> bool" where
  "jailPattern s \<longleftrightarrow> s \<noteq> '''' \<and> list_all (\<lambda>c. is_alnum c \<or> c \<in> set ''._-'') s"

text \<open>The greedy \<^verbatim>\<open>.*\<close> only stops at the end of a line, so that \<^verbatim>\<open>(?m)$\<close> after it always holds.\<close>

definition jail_list_re :: re where
  "jail_list_re = seqs [Lit ''Jail list:'', Many space, Group 1 (Many dot)]"

definition banned_list_re :: re where
  "banned_list_re = seqs [Lit ''Banned IP list:'', Many space, Group 1 (Many dot)]"

text \<open>Names that only differ in case come in an order the code does not fix; here in the order of the bytes.\<close>

definition jail_names :: "(nat \<Rightarrow> nat) \<Rightarrow> string \<Rightarrow> string list" where
  "jail_names low text =
     (case FindSubmatch jail_list_re text of
        None \<Rightarrow> []
      | Some g \<Rightarrow> sort_key (map byte_val \<circ> to_lower low) (uniqueSorted (filter (\<lambda>v. v \<noteq> '''') (map trim_space (split_char CHR '','' (g 1))))))"

definition jails :: "f2b_host \<Rightarrow> f2b_backend \<Rightarrow> history \<Rightarrow> string list option \<times> history" where
  "jails host b h =
     (case f2b_run host [fbClient b, ''status''] h of
        ((o1, ok), h1) \<Rightarrow> (if ok then Some (jail_names (f2b_lower host) o1) else None, h1))"

definition requireActive :: "f2b_host \<Rightarrow> f2b_backend \<Rightarrow> history \<Rightarrow> backend_reply option \<times> history" where
  "requireActive host b h =
     (case unit_exists (f2b_run host) (fbUnit b) h of (ex, h1) \<Rightarrow>
        if \<not> ex then (Some (failure 5 ''FAIL2BAN_SERVICE_NOT_FOUND''), h1)
        else case unit_active (f2b_run host) (fbUnit b) h1 of (act, h2) \<Rightarrow>
               (if \<not> act then Some (failure 7 ''FAIL2BAN_SERVICE_NOT_ACTIVE'') else None, h2))"

definition requireJail :: "f2b_host \<Rightarrow> f2b_backend \<Rightarrow> string \<Rightarrow> history \<Rightarrow> backend_reply option \<times> history" where
  "requireJail host b j h =
     (if \<not> jailPattern j then (Some (failure 6 ''INVALID_JAIL''), h)
      else case jails host b h of
             (None, h1) \<Rightarrow> (Some (failure 10 ''FAIL2BAN_JAILS_FAILED''), h1)
           | (Some js, h1) \<Rightarrow> (if j \<in> set js then None else Some (failure 6 ''FAIL2BAN_JAIL_NOT_FOUND''), h1))"

definition integer_field :: "string \<Rightarrow> string \<Rightarrow> int" where
  "integer_field text label =
     (case FindSubmatch (seqs [Lit label, Char CHR '':'', Many space, Group 1 (Plus digit)]) text of
        None \<Rightarrow> 0
      | Some g \<Rightarrow> fst (atoi (g 1)))"

text \<open>\<^verbatim>\<open>netip.Addr\<close>: how it is written, and the order \<^verbatim>\<open>Compare\<close> gives: IPv4 first, then the bytes, then the zone.\<close>

definition addr_text :: "bool \<times> ip \<times> string \<Rightarrow> string" where
  "addr_text = (\<lambda>(is4, bs, zone).
     if is4 then ipv4_text (drop 12 bs)
     else (case To4 bs of Some v \<Rightarrow> ''::ffff:'' @ ipv4_text v | None \<Rightarrow> ipv6_text bs) @
          (if zone = '''' then '''' else CHR ''%'' # zone))"

definition addr_key :: "bool \<times> ip \<times> string \<Rightarrow> int list list" where
  "addr_key = (\<lambda>(is4, bs, zone). [[if is4 then 32 else 128], bs, map (int \<circ> byte_val) zone])"

definition banned_ips :: "string \<Rightarrow> string list" where
  "banned_ips text =
     (case FindSubmatch banned_list_re text of
        None \<Rightarrow> []
      | Some g \<Rightarrow> map addr_text (sort_key addr_key (remdups (concat (map (\<lambda>v. case ParseAddr v of None \<Rightarrow> [] | Some a \<Rightarrow> [a]) (words (g 1)))))))"

definition jail_json :: "string \<Rightarrow> json" where
  "jail_json text =
     JObject [(''currently_failed'', JInt (integer_field text ''Currently failed'')), (''total_failed'', JInt (integer_field text ''Total failed'')),
       (''currently_banned'', JInt (integer_field text ''Currently banned'')), (''total_banned'', JInt (integer_field text ''Total banned'')),
       (''banned_ips'', JArray (map JString (banned_ips text)))]"

definition jailStatus :: "f2b_host \<Rightarrow> f2b_backend \<Rightarrow> string \<Rightarrow> history \<Rightarrow> json option \<times> history" where
  "jailStatus host b j h =
     (case f2b_run host [fbClient b, ''status'', j] h of ((o1, ok), h1) \<Rightarrow> (if ok then Some (jail_json o1) else None, h1))"

section \<open>Commands of the domain\<close>

definition f2b_status :: "f2b_host \<Rightarrow> f2b_backend \<Rightarrow> history \<Rightarrow> backend_reply \<times> history" where
  "f2b_status host b h =
     (case unit_status (f2b_run host) (f2b_order host) (fbUnit b) (fbService b) h of
        ((ex, act, shown), h1) \<Rightarrow>
          if \<not> ex \<or> \<not> act then (success (shown @ [(''jails'', JArray [])]), h1)
          else case jails host b h1 of
                 (None, h2) \<Rightarrow> (failure 10 ''FAIL2BAN_JAILS_FAILED'', h2)
               | (Some js, h2) \<Rightarrow> (success (shown @ [(''jails'', JArray (map JString js))]), h2))"

definition f2b_info :: "f2b_host \<Rightarrow> f2b_backend \<Rightarrow> history \<Rightarrow> backend_reply \<times> history" where
  "f2b_info host b h =
     (case f2b_run host [fbClient b, ''--version''] h of ((o1, ok), h1) \<Rightarrow>
        let v = trim_prefix o1 ''Fail2Ban v'' in
        if v = '''' \<or> v = o1 then (failure 10 ''FAIL2BAN_VERSION_INVALID'', h1)
        else (success [(''product'', JString ''Fail2ban''), (''version'', JString v), (''service'', JString (fbService b)),
                       (''unit'', JString (fbUnit b))], h1))"

definition f2b_reload :: "f2b_host \<Rightarrow> f2b_backend \<Rightarrow> history \<Rightarrow> backend_reply \<times> history" where
  "f2b_reload host b h =
     unless_refused (requireActive host b h) (\<lambda>h1.
     must_succeed (f2b_run host) [fbClient b, ''--test''] 9 ''FAIL2BAN_CONFIG_INVALID'' (\<lambda>h2.
     must_succeed (f2b_run host) [fbClient b, ''reload''] 10 ''FAIL2BAN_RELOAD_FAILED'' (\<lambda>h3.
     (success (action_json ''reload'' (fbService b) ''success''), h3)) h2) h1)"

definition f2b_restart :: "f2b_host \<Rightarrow> f2b_backend \<Rightarrow> history \<Rightarrow> backend_reply \<times> history" where
  "f2b_restart host b h =
     (case unit_exists (f2b_run host) (fbUnit b) h of (ex, h1) \<Rightarrow>
        if \<not> ex then (failure 5 ''FAIL2BAN_SERVICE_NOT_FOUND'', h1)
        else must_succeed (f2b_run host) [fbClient b, ''--test''] 9 ''FAIL2BAN_CONFIG_INVALID'' (\<lambda>h2.
             must_succeed (f2b_run host) (restart_later (fbUnit b)) 10 ''FAIL2BAN_RESTART_FAILED'' (\<lambda>h3.
             (success (action_json ''restart'' (fbService b) ''scheduled'' @ [(''delay_seconds'', JInt 5)]), h3)) h2) h1)"

definition f2b_verb :: "string \<Rightarrow> string" where
  "f2b_verb c = (if c = ''ban'' then ''banip'' else if c = ''unban'' then ''unbanip'' else '''')"

definition f2b_ban :: "f2b_host \<Rightarrow> f2b_backend \<Rightarrow> string \<Rightarrow> string \<Rightarrow> string \<Rightarrow> history \<Rightarrow> backend_reply \<times> history" where
  "f2b_ban host b c j address h =
     unless_refused (requireActive host b h) (\<lambda>h1.
     unless_refused (requireJail host b j h1) (\<lambda>h2.
     case ParseAddr address of
       None \<Rightarrow> (failure 6 ''INVALID_IP_ADDRESS'', h2)
     | Some ip \<Rightarrow>
         must_succeed (f2b_run host) [fbClient b, ''set'', j, f2b_verb c, addr_text ip] 10
           (if c = ''ban'' then ''FAIL2BAN_BAN_FAILED'' else ''FAIL2BAN_UNBAN_FAILED'') (\<lambda>h3.
         (success [(''action'', JString c), (''jail'', JString j), (''address'', JString address), (''result'', JString ''success'')], h3)) h2))"

definition f2b_jail :: "f2b_host \<Rightarrow> f2b_backend \<Rightarrow> string \<Rightarrow> history \<Rightarrow> backend_reply \<times> history" where
  "f2b_jail host b j h =
     unless_refused (requireActive host b h) (\<lambda>h1.
     unless_refused (requireJail host b j h1) (\<lambda>h2.
     case jailStatus host b j h2 of
       (None, h3) \<Rightarrow> (failure 10 ''FAIL2BAN_JAIL_STATUS_FAILED'', h3)
     | (Some s, h3) \<Rightarrow> (success [(''jail'', JString j), (''status'', s)], h3)))"

definition f2b_execute :: "f2b_host \<Rightarrow> f2b_backend \<Rightarrow> string \<Rightarrow> string list \<Rightarrow> history \<Rightarrow> backend_reply \<times> history" where
  "f2b_execute host b c a h =
     (if c = ''info'' then f2b_info host b h
      else if c = ''status'' then f2b_status host b h
      else if c = ''jail'' then f2b_jail host b (a ! 0) h
      else if c = ''configtest'' then
        must_succeed (f2b_run host) [fbClient b, ''--test''] 9 ''FAIL2BAN_CONFIG_INVALID'' (\<lambda>h1.
        (success [(''valid'', JBool True), (''message'', JString ''La configuration de Fail2ban est valide.'')], h1)) h
      else if c = ''reload'' then f2b_reload host b h
      else if c = ''restart'' then f2b_restart host b h
      else if c = ''ban'' \<or> c = ''unban'' then f2b_ban host b c (a ! 0) (a ! 1) h
      else (success [], h))"

definition f2b_counts :: "(string \<times> nat) list" where
  "f2b_counts =
     [(''info'', 0), (''status'', 0), (''jail'', 1), (''configtest'', 0), (''reload'', 0), (''restart'', 0), (''ban'', 2), (''unban'', 2)]"

definition fail2ban_handle :: "f2b_host \<Rightarrow> f2b_backend \<Rightarrow> history backend_handler" where
  "fail2ban_handle host b command args h =
     (if command = '''' then (failure 2 ''MISSING_COMMAND'', h)
      else case map_of f2b_counts command of
             None \<Rightarrow> (failure 4 ''COMMAND_NOT_FOUND'', h)
           | Some n \<Rightarrow>
               if length args \<noteq> n then (failure 2 ''INVALID_ARGUMENT_COUNT'', h)
               else if \<not> f2b_executable host (fbClient b) then (failure 5 ''FAIL2BAN_NOT_INSTALLED'', h)
               else f2b_execute host b command args h)"

section \<open>The domain is confined\<close>

abbreviation f2b_set :: "f2b_backend \<Rightarrow> string \<Rightarrow> string \<Rightarrow> string \<Rightarrow> string list" where
  "f2b_set b j verb address \<equiv> [fbClient b, ''set'', j, verb, address]"

definition f2b_permitted :: "f2b_host \<Rightarrow> f2b_backend \<Rightarrow> string \<Rightarrow> string list \<Rightarrow> string list \<Rightarrow> bool" where
  "f2b_permitted host b command a argv \<longleftrightarrow>
     argv \<in> set (unit_questions (fbUnit b)) \<or>
     argv \<in> {[fbClient b, ''--version''], [fbClient b, ''--test''], [fbClient b, ''status'']} \<or>
     command = ''jail'' \<and> jailPattern (a ! 0) \<and> argv = [fbClient b, ''status'', a ! 0] \<or>
     command = ''reload'' \<and> argv = [fbClient b, ''reload''] \<or>
     command = ''restart'' \<and> argv = restart_later (fbUnit b) \<or>
     command \<in> {''ban'', ''unban''} \<and> jailPattern (a ! 0) \<and>
       (\<exists>ip. ParseAddr (a ! 1) = Some ip \<and> argv = f2b_set b (a ! 0) (f2b_verb command) (addr_text ip))"

lemma f2b_permitted_reads [simp]:
  "argv \<in> set (unit_questions (fbUnit b)) \<Longrightarrow> f2b_permitted host b command a argv"
  "f2b_permitted host b command a [fbClient b, ''--version'']" "f2b_permitted host b command a [fbClient b, ''--test'']"
  "f2b_permitted host b command a [fbClient b, ''status'']"
  "f2b_permitted host b command a (show_property (fbUnit b) ''LoadState'')" "f2b_permitted host b command a (ask_unit ''is-active'' (fbUnit b))"
  by (simp_all add: f2b_permitted_def unit_questions_def)

lemma f2b_run_history [simp]: "snd (f2b_run host argv h) = h @ [argv]"
  by (rule f2b.run_history)

lemma jails_history [simp]: "snd (jails host b h) = h @ [[fbClient b, ''status'']]"
  by (simp add: jails_def case_prod_beta)

lemma requireActive_history:
  "snd (requireActive host b h) =
     h @ show_property (fbUnit b) ''LoadState'' #
       (if fst (unit_exists (f2b_run host) (fbUnit b) h) then [ask_unit ''is-active'' (fbUnit b)] else [])"
  by (simp add: requireActive_def case_prod_beta)

lemma requireJail_history:
  "snd (requireJail host b j h) = (if jailPattern j then h @ [[fbClient b, ''status'']] else h)"
  by (simp add: requireJail_def case_prod_beta jails_def)

lemma requireActive_after:
  "extends (f2b_permitted host b command a) h0 h \<Longrightarrow> extends (f2b_permitted host b command a) h0 (snd (requireActive host b h))"
  by (auto simp: requireActive_history intro: extends_adds)

lemma requireJail_after:
  "extends (f2b_permitted host b command a) h0 h \<Longrightarrow> extends (f2b_permitted host b command a) h0 (snd (requireJail host b j h))"
  by (auto simp: requireJail_history)

lemma requireJail_pattern: "fst (requireJail host b j h) = None \<Longrightarrow> jailPattern j"
  by (auto simp: requireJail_def split: if_splits)

lemmas f2b_after = requireActive_after requireJail_after unless_refused_after f2b.must_succeed_after

lemma f2b_execute_confined:
  "extends (f2b_permitted host b command a) h (snd (f2b_execute host b command a h))"
proof -
  let ?P = "f2b_permitted host b command a"
  have status: "extends (f2b_permitted host b c a) h (snd (f2b_status host b h))" for c
    using f2b.unit_status_extends [of "fbUnit b" "f2b_permitted host b c a" h host "f2b_order host" "fbService b"]
    by (auto simp: f2b_status_def case_prod_beta jails_def split: option.split)
  have jail: "extends ?P h (snd (f2b_jail host b (a ! 0) h))" if "command = ''jail''"
    unfolding f2b_jail_def using that
    by (intro f2b_after extends_refl) (auto simp: jailStatus_def case_prod_beta f2b_permitted_def dest: requireJail_pattern split: option.split intro!: extends_add)
  have ban: "extends ?P h (snd (f2b_ban host b command (a ! 0) (a ! 1) h))" if "command \<in> {''ban'', ''unban''}"
    unfolding f2b_ban_def using that
    by (intro f2b_after extends_refl) (auto simp: f2b_permitted_def dest: requireJail_pattern split: option.split intro!: f2b.must_succeed_after)
  have reload: "extends ?P h (snd (f2b_reload host b h))" if "command = ''reload''"
    unfolding f2b_reload_def using that by (intro f2b_after extends_refl) (auto simp: f2b_permitted_def)
  have restart: "extends ?P h (snd (f2b_restart host b h))" if "command = ''restart''"
    unfolding f2b_restart_def using that
    by (auto simp: case_prod_beta f2b_permitted_def unit_questions_def intro!: f2b.must_succeed_after)
  have test: "extends (f2b_permitted host b c a) h (snd (must_succeed (f2b_run host) [fbClient b, ''--test''] 9 ''FAIL2BAN_CONFIG_INVALID'' (\<lambda>h1. (rep, h1)) h))" for c rep
    by (rule f2b.must_succeed_after) auto
  have info: "extends (f2b_permitted host b c a) h (snd (f2b_info host b h))" for c
    by (simp add: f2b_info_def case_prod_beta Let_def)
  show ?thesis
    using status jail ban reload restart test info by (simp add: f2b_execute_def)
qed

lemma requireActive_ok: "fst (requireActive host b h) = Some rep \<Longrightarrow> reply_ok rep"
  by (auto simp: requireActive_def case_prod_beta split: if_splits)

lemma requireJail_ok: "fst (requireJail host b j h) = Some rep \<Longrightarrow> reply_ok rep"
  by (auto simp: requireJail_def case_prod_beta split: if_splits option.splits)

lemma f2b_actions_ok:
  "reply_ok (fst (f2b_jail host b j h))" "reply_ok (fst (f2b_ban host b command j address h))"
  "reply_ok (fst (f2b_reload host b h))" "reply_ok (fst (f2b_restart host b h))"
  unfolding f2b_jail_def f2b_ban_def f2b_reload_def f2b_restart_def case_prod_beta
  subgoal by (intro unless_refused_ok) (auto elim: requireActive_ok requireJail_ok split: option.split)
  subgoal by (intro unless_refused_ok) (auto elim: requireActive_ok requireJail_ok split: option.split intro!: must_succeed_ok)
  subgoal by (intro unless_refused_ok must_succeed_ok) (auto elim: requireActive_ok)
  subgoal by (auto intro!: must_succeed_ok)
  done

lemma f2b_execute_ok: "reply_ok (fst (f2b_execute host b command a h))"
proof -
  have "reply_ok (fst (f2b_status host b h))" by (auto simp: f2b_status_def case_prod_beta split: option.split)
  moreover have "reply_ok (fst (f2b_info host b h))" by (simp add: f2b_info_def case_prod_beta Let_def)
  ultimately show ?thesis by (simp add: f2b_execute_def f2b_actions_ok must_succeed_ok)
qed

interpretation fail2ban: confined_handler "fail2ban_handle host b" "f2b_permitted host b" for host b
  by unfold_locales (auto simp: fail2ban_handle_def f2b_execute_ok f2b_execute_confined split: option.split)

section \<open>Bans are checked\<close>

text \<open>The service is loaded and active, and the jail is one of those the client lists; in this order of questions.\<close>

definition f2b_checked :: "f2b_host \<Rightarrow> f2b_backend \<Rightarrow> string \<Rightarrow> history \<Rightarrow> bool" where
  "f2b_checked host b j h \<longleftrightarrow>
     (let h1 = h @ [show_property (fbUnit b) ''LoadState'']; h2 = h1 @ [ask_unit ''is-active'' (fbUnit b)] in
      fst (unit_exists (f2b_run host) (fbUnit b) h) \<and> succeeded (f2b_exec host h1 (ask_unit ''is-active'' (fbUnit b))) \<and>
      succeeded (f2b_exec host h2 [fbClient b, ''status'']) \<and>
      j \<in> set (jail_names (f2b_lower host) (trim_space (ToValidUTF8 (out (f2b_exec host h2 [fbClient b, ''status'']))))))"

lemma requireActive_None:
  "fst (requireActive host b h) = None \<longleftrightarrow>
     fst (unit_exists (f2b_run host) (fbUnit b) h) \<and>
     succeeded (f2b_exec host (h @ [show_property (fbUnit b) ''LoadState'']) (ask_unit ''is-active'' (fbUnit b)))"
  by (auto simp: requireActive_def case_prod_beta unit_active_def f2b_run_def run_command_def)

lemma requireJail_None:
  "fst (requireJail host b j h) = None \<longleftrightarrow>
     jailPattern j \<and> succeeded (f2b_exec host h [fbClient b, ''status'']) \<and>
     j \<in> set (jail_names (f2b_lower host) (trim_space (ToValidUTF8 (out (f2b_exec host h [fbClient b, ''status''])))))"
  by (auto simp: requireJail_def case_prod_beta jails_def f2b_run_def run_command_def)

lemma unless_refused_beta: "unless_refused p rest = (case fst p of Some rep \<Rightarrow> (rep, snd p) | None \<Rightarrow> rest (snd p))"
  by (simp add: unless_refused_def split: prod.split option.split)

lemma snd_must_succeed: "(\<And>h'. snd (rest h') = h') \<Longrightarrow> snd (must_succeed (f2b_run host) argv x code rest h) = h @ [argv]"
  by (simp add: must_succeed_def case_prod_beta)

lemma f2b_ban_history:
  "snd (f2b_ban host b c j address h) =
     (if fst (requireActive host b h) \<noteq> None then snd (requireActive host b h)
      else let h2 = snd (requireActive host b h); h3 = snd (requireJail host b j h2) in
        case ParseAddr address of
          None \<Rightarrow> h3
        | Some ip \<Rightarrow> if fst (requireJail host b j h2) = None then h3 @ [f2b_set b j (f2b_verb c) (addr_text ip)] else h3)"
  by (auto simp: f2b_ban_def unless_refused_beta Let_def snd_must_succeed split: option.split)

lemma f2b_ban_checked:
  assumes "snd (f2b_ban host b c j address h) = h @ new" "f2b_set b j' verb x \<in> set new"
  shows "new = [show_property (fbUnit b) ''LoadState'', ask_unit ''is-active'' (fbUnit b), [fbClient b, ''status''],
                f2b_set b j (f2b_verb c) x] \<and>
         f2b_checked host b j h \<and> (\<exists>ip. ParseAddr address = Some ip \<and> x = addr_text ip)"
proof -
  have neq: "f2b_set b j' verb x \<noteq> show_property (fbUnit b) p" "f2b_set b j' verb x \<noteq> ask_unit ''is-active'' (fbUnit b)" for p
    by (simp_all add: show_property_def ask_unit_def)
  have act: "fst (requireActive host b h) = None"
    using assms neq by (auto simp: f2b_ban_history requireActive_history split: if_splits)
  let ?h = "h @ [show_property (fbUnit b) ''LoadState'', ask_unit ''is-active'' (fbUnit b)]"
  have h2: "snd (requireActive host b h) = ?h"
    using act by (simp add: requireActive_None requireActive_history)
  obtain ip where ip: "ParseAddr address = Some ip" and jail: "fst (requireJail host b j ?h) = None"
    using assms neq act h2 by (fastforce simp: f2b_ban_history requireJail_history Let_def split: option.splits if_splits)
  then have "new = [show_property (fbUnit b) ''LoadState'', ask_unit ''is-active'' (fbUnit b), [fbClient b, ''status''],
                f2b_set b j (f2b_verb c) (addr_text ip)]"
    using assms(1) act h2 by (simp add: f2b_ban_history requireJail_history requireJail_None Let_def)
  moreover from this have "x = addr_text ip" using assms(2) neq by auto
  moreover have "f2b_checked host b j h" using act jail by (simp add: f2b_checked_def requireActive_None requireJail_None Let_def)
  ultimately show ?thesis using ip by simp
qed

text \<open>
  C21: a request makes the Fail2ban client ban or unban an address only in one way: the command is \<^verbatim>\<open>ban\<close> or \<^verbatim>\<open>unban\<close>,
  the client gets the address the request names, parsed and written out again, for the jail it names; and
  before that, in this order and nothing else, systemd was asked whether the service is loaded and active,
  and the client listed its jails, with the answers that the service is, and that the jail is among them.
\<close>

theorem fail2ban_bans_checked:
  assumes "snd (fail2ban_handle host b command a h) = h @ new" "f2b_set b j verb x \<in> set new"
  shows "command \<in> {''ban'', ''unban''} \<and> length a = 2 \<and> a ! 0 = j \<and> jailPattern j \<and> verb = f2b_verb command \<and>
         (\<exists>ip. ParseAddr (a ! 1) = Some ip \<and> x = addr_text ip) \<and> f2b_checked host b j h \<and>
         new = [show_property (fbUnit b) ''LoadState'', ask_unit ''is-active'' (fbUnit b), [fbClient b, ''status''], f2b_set b j verb x]"
proof -
  have "list_all (f2b_permitted host b command a) new"
    using fail2ban.handle_confined [of host b command a h] assms(1) by (simp add: extends_append)
  then have "f2b_permitted host b command a (f2b_set b j verb x)" using assms(2) by (simp add: list_all_iff)
  then have cmd: "command \<in> {''ban'', ''unban''}" "jailPattern j" "j = a ! 0" "verb = f2b_verb command"
    by (auto simp: f2b_permitted_def unit_questions_def show_property_def ask_unit_def restart_later_def)
  then have len: "length a = 2" and run: "snd (f2b_ban host b command (a ! 0) (a ! 1) h) = h @ new"
    using assms by (auto simp: fail2ban_handle_def f2b_counts_def f2b_execute_def split: if_splits)
  show ?thesis using f2b_ban_checked [OF run assms(2)] cmd len by auto
qed

definition sample_f2b :: f2b_host where
  "sample_f2b =
     \<lparr>f2b_executable = (\<lambda>p. True), f2b_lower = (\<lambda>n. n), f2b_order = (\<lambda>h. []),
      f2b_exec = (\<lambda>h argv. \<lparr>out = (if argv = [f2b_client, ''status''] then ''Jail list: sshd''
                                  else if hd argv = systemctl_path then ''loaded'' else ''''), err = '''', status = 0\<rparr>)\<rparr>"

lemma sample_text:
  "ToValidUTF8 ''Jail list: sshd'' = ''Jail list: sshd''" "ToValidUTF8 ''loaded'' = ''loaded''" "ToValidUTF8 '''' = ''''"
  by (rule ToValidUTF8_ascii, code_simp)+

lemma sample_trimmed: "trim_space ''Jail list: sshd'' = ''Jail list: sshd''" "trim_space ''loaded'' = ''loaded''" "trim_space '''' = ''''"
  by code_simp+

lemma sample_jails: "jail_names (\<lambda>n. n) ''Jail list: sshd'' = [''sshd'']"
  by code_simp

lemma sample_words: "jailPattern ''sshd''" "map_option addr_text (ParseAddr ''192.0.2.7'') = Some ''192.0.2.7''"
  by code_simp+

definition sample_f2b_backend :: f2b_backend where
  "sample_f2b_backend = f2b_NewLinuxBackend (\<lambda>_. True) None"

lemma sample_f2b_backend [simp]:
  "fbClient sample_f2b_backend = f2b_client" "fbUnit sample_f2b_backend = ''fail2ban.service''"
  by code_simp+

lemma sample_f2b_run [simp]:
  "f2b_run sample_f2b (show_property unit p) h = ((''loaded'', True), h @ [show_property unit p])"
  "f2b_run sample_f2b [f2b_client, ''status''] h = ((''Jail list: sshd'', True), h @ [[f2b_client, ''status'']])"
  "snd (fst (f2b_run sample_f2b argv h))" "f2b_lower sample_f2b = (\<lambda>n. n)" "f2b_executable sample_f2b p"
  by (simp_all add: f2b_run_def run_command_def sample_f2b_def sample_text sample_trimmed show_property_def)

lemma sample_ban:
  "snd (fail2ban_handle sample_f2b sample_f2b_backend ''ban'' [''sshd'', ''192.0.2.7''] []) =
     [] @ [show_property ''fail2ban.service'' ''LoadState'', ask_unit ''is-active'' ''fail2ban.service'', [f2b_client, ''status''],
           [f2b_client, ''set'', ''sshd'', ''banip'', ''192.0.2.7'']]"
proof -
  let ?b = sample_f2b_backend
  have act: "requireActive sample_f2b ?b [] = (None, [show_property ''fail2ban.service'' ''LoadState'', ask_unit ''is-active'' ''fail2ban.service''])"
    by (simp add: requireActive_def unit_exists_def unit_value_def unit_active_def unit_loaded_def case_prod_beta)
  have jail: "requireJail sample_f2b ?b ''sshd'' h = (None, h @ [[f2b_client, ''status'']])" for h
    by (simp add: requireJail_def jails_def sample_words sample_jails)
  show ?thesis
    using sample_words
    by (auto simp: fail2ban_handle_def f2b_counts_def f2b_execute_def f2b_ban_history act jail f2b_verb_def)
qed

theorem fail2ban_bans_checked_witness: "f2b_checked sample_f2b sample_f2b_backend ''sshd'' []"
  using fail2ban_bans_checked [OF sample_ban, of "''sshd''" "''banip''" "''192.0.2.7''"] by simp

section \<open>Tested before it is switched\<close>

abbreviation f2b_switches :: "f2b_backend \<Rightarrow> string list list" where
  "f2b_switches b \<equiv> [[fbClient b, ''reload''], restart_later (fbUnit b)]"

lemma snd_must_succeed_f2b: "snd (must_succeed (f2b_run host) argv x code rest h) =
    (if succeeded (f2b_exec host h argv) then snd (rest (h @ [argv])) else h @ [argv])"
  by (simp add: must_succeed_def f2b_run_def run_command_def)

lemma f2b_switch_distinct:
  "argv \<in> set (f2b_switches b) \<Longrightarrow>
     argv \<notin> {[fbClient b, ''--test''], show_property (fbUnit b) p, ask_unit ''is-active'' (fbUnit b)} \<and> argv \<notin> set (unit_questions (fbUnit b))"
  by (auto simp: restart_later_def show_property_def ask_unit_def unit_questions_def)

lemma f2b_switch_tested:
  assumes "snd (fail2ban_handle host b command a h) = h @ new" "argv \<in> set new" "argv \<in> set (f2b_switches b)"
  shows "\<exists>before. new = before @ [[fbClient b, ''--test''], argv] \<and> succeeded (f2b_exec host (h @ before) [fbClient b, ''--test''])"
proof -
  have "f2b_permitted host b command a argv"
    using fail2ban.handle_confined [of host b command a h] assms(1,2) by (simp add: extends_append list_all_iff)
  then have cmd: "command = ''reload'' \<or> command = ''restart''"
    using assms(3) f2b_switch_distinct [OF assms(3)] by (auto simp: f2b_permitted_def restart_later_def)
  have "new \<noteq> []" using assms(2) by auto
  then have run: "snd (if command = ''reload'' then f2b_reload host b h else f2b_restart host b h) = h @ new"
    using assms(1) cmd by (auto simp: fail2ban_handle_def f2b_counts_def f2b_execute_def split: if_splits)
  show ?thesis
    using run assms(2) f2b_switch_distinct [OF assms(3)]
    by (auto simp: f2b_reload_def f2b_restart_def unless_refused_beta requireActive_history case_prod_beta snd_must_succeed_f2b
          split: if_splits option.splits)
qed

end
