(* ===== verification/Domain_Tor.thy ===== *)
theory Domain_Tor
  imports Backend_Units Go_Regexp Go_Path
begin

text \<open>
  The Tor domain of the daemon (\<^verbatim>\<open>internal/domain/tor\<close>: \<^verbatim>\<open>tor.go\<close> and \<^verbatim>\<open>profile.go\<close>): the state of the service, the onion
  services of its configuration, and reloading or restarting it once the configuration has been verified.
\<close>

record tor_backend =
  tbBinary :: string
  tbConfig :: string
  tbDefaults :: string
  tbUnit :: string
  tbService :: string
  tbDataDirectory :: string

record tor_host =
  tor_executable :: executable
  tor_regular :: "string \<Rightarrow> bool"
  tor_file :: "string \<Rightarrow> string option"
  tor_order :: "history \<Rightarrow> nat list"
  tor_exec :: executor

definition torUnitPattern :: "string \<Rightarrow> bool" where
  "torUnitPattern s \<longleftrightarrow>
     has_prefix s ''tor'' \<and> has_suffix s ''.service'' \<and> 11 \<le> length s \<and>
     (case take (length s - 11) (drop 3 s) of [] \<Rightarrow> True
      | c # cs \<Rightarrow> c = CHR ''@'' \<and> cs \<noteq> [] \<and> list_all (\<lambda>c. is_alnum c \<or> c \<in> set ''_.-'') cs)"

definition safeTorConfig :: "string \<Rightarrow> bool" where
  "safeTorConfig value \<longleftrightarrow> has_prefix (Clean value) ''/etc/tor/'' \<or> has_prefix (Clean value) ''/usr/local/etc/tor/''"

definition tor_profile_value :: "string \<times> string \<Rightarrow> tor_backend \<Rightarrow> tor_backend" where
  "tor_profile_value = (\<lambda>(key, value) b.
     if key = ''binary'' then (if value = ''/usr/sbin/tor'' \<or> value = ''/usr/bin/tor'' then b\<lparr>tbBinary := value\<rparr> else b)
     else if key = ''config'' then (if safeTorConfig value then b\<lparr>tbConfig := Clean value\<rparr> else b)
     else if key = ''defaults'' then
       (if value = '''' \<or> safeTorConfig value \<or> has_prefix (Clean value) ''/usr/share/tor/''
        then b\<lparr>tbDefaults := (if value = '''' then '''' else Clean value)\<rparr> else b)
     else if key = ''unit'' then
       (if torUnitPattern value then b\<lparr>tbUnit := value, tbService := trim_suffix value ''.service''\<rparr> else b)
     else if key = ''data_directory'' then
       (if Clean value = ''/var/lib/tor'' \<or> has_prefix (Clean value) ''/var/lib/tor-'' then b\<lparr>tbDataDirectory := Clean value\<rparr> else b)
     else b)"

definition tor_loadProfile :: "string option \<Rightarrow> tor_backend \<Rightarrow> tor_backend" where
  "tor_loadProfile content b =
     (case content of None \<Rightarrow> b | Some text \<Rightarrow> fold tor_profile_value (profile_entries text) b)"

definition tor_NewLinuxBackend :: "tor_host \<Rightarrow> tor_backend" where
  "tor_NewLinuxBackend host =
     (let b = tor_loadProfile (tor_file host ''/etc/aegisadmin-system/tor'')
                \<lparr>tbBinary = ''/usr/sbin/tor'', tbConfig = ''/etc/tor/torrc'', tbDefaults = ''/usr/share/tor/tor-service-defaults-torrc'',
                 tbUnit = ''tor@default.service'', tbService = ''tor@default'', tbDataDirectory = ''/var/lib/tor''\<rparr>;
          b = (if tbBinary b = ''/usr/sbin/tor'' \<and> \<not> tor_executable host (tbBinary b) \<and> tor_executable host ''/usr/bin/tor''
               then b\<lparr>tbBinary := ''/usr/bin/tor''\<rparr> else b)
      in if tbDefaults b \<noteq> '''' \<and> \<not> tor_regular host (tbDefaults b) then b\<lparr>tbDefaults := ''''\<rparr> else b)"

definition tor_run :: "tor_host \<Rightarrow> runner" where
  "tor_run host argv h = (case run_command (tor_exec host) argv h of (r, h1) \<Rightarrow> ((trim_space (out r), succeeded r), h1))"

interpretation tor: command_runner "tor_run host" for host
  by unfold_locales (simp add: tor_run_def run_command_def)

section \<open>Onion services\<close>

record onion =
  onID :: string
  onHostname :: "string option"
  onPorts :: "(int \<times> string) list"

definition dir_re :: re where
  "dir_re = seqs [Begin, FoldLit ''HiddenServiceDir'', Plus space, Group 1 (Plus nonspace), Many space, End]"

definition onion_port_re :: re where
  "onion_port_re =
     seqs [Begin, FoldLit ''HiddenServicePort'', Plus space, Group 1 (Plus digit), Plus space, Group 2 (Plus nonspace), Many space, End]"

definition onion_name :: "string \<Rightarrow> bool" where
  "onion_name v \<longleftrightarrow>
     length v = 62 \<and> list_all (\<lambda>c. is_lower c \<or> in_range CHR ''2'' CHR ''7'' c) (take 56 v) \<and> drop 56 v = ''.onion''"

definition onion_hostname :: "tor_host \<Rightarrow> string \<Rightarrow> string option" where
  "onion_hostname host d =
     (case tor_file host (Join2 d ''hostname'') of
        None \<Rightarrow> None
      | Some text \<Rightarrow> if onion_name (trim_space text) then Some (trim_space text) else None)"

definition data_below :: "string \<Rightarrow> string \<Rightarrow> bool" where
  "data_below dataDirectory d \<longleftrightarrow> d \<noteq> dataDirectory \<and> has_prefix d (dataDirectory @ ''/'')"

text \<open>
  The services found so far, and whether the last one is the one ports belong to (\<^verbatim>\<open>cur\<close> is the last or nil).
\<close>

definition hidden_line :: "tor_host \<Rightarrow> string \<Rightarrow> string \<Rightarrow> onion list \<times> bool \<Rightarrow> onion list \<times> bool" where
  "hidden_line host dataDirectory raw = (\<lambda>(items, cur).
     let l = trim_space raw in
     if l = '''' \<or> has_prefix l ''#'' then (items, cur)
     else case FindSubmatch dir_re l of
            Some g \<Rightarrow>
              let d = Clean (g 1) in
              if \<not> data_below dataDirectory d then (items, False)
              else (items @ [\<lparr>onID = trim_prefix (Base d) ''aegisadmin-'', onHostname = onion_hostname host d, onPorts = []\<rparr>], True)
          | None \<Rightarrow>
              (case FindSubmatch onion_port_re l of
                 None \<Rightarrow> (items, cur)
               | Some g \<Rightarrow>
                   let n = fst (atoi (g 1)) in
                   if cur \<and> 1 \<le> n \<and> n \<le> 65535
                   then (butlast items @ [last items\<lparr>onPorts := onPorts (last items) @ [(n, g 2)]\<rparr>], cur)
                   else (items, cur)))"

definition scan_complete :: "string \<Rightarrow> bool" where
  "scan_complete text \<longleftrightarrow> list_all (\<lambda>l. length l < 65536) (lines_of text)"

definition hidden :: "tor_host \<Rightarrow> string \<Rightarrow> string \<Rightarrow> onion list option" where
  "hidden host path dataDirectory =
     (case tor_file host path of
        None \<Rightarrow> None
      | Some text \<Rightarrow>
          if scan_complete text
          then Some (sort_key (map byte_val \<circ> onID) (fst (fold (hidden_line host dataDirectory) (scan_lines text) ([], False))))
          else None)"

definition onion_json :: "onion \<Rightarrow> json" where
  "onion_json s =
     JObject [(''id'', JString (onID s)), (''hostname'', case onHostname s of None \<Rightarrow> JNull | Some v \<Rightarrow> JString v),
       (''ports'', JArray (map (\<lambda>(n, target). JObject [(''public_port'', JInt n), (''target'', JString target)]) (onPorts s)))]"

section \<open>Commands of the domain\<close>

definition verify_config :: "tor_backend \<Rightarrow> string list" where
  "verify_config b =
     tbBinary b # (if tbDefaults b \<noteq> '''' then [''--defaults-torrc'', tbDefaults b] else []) @
     [''-f'', tbConfig b, ''--RunAsDaemon'', ''0'', ''--verify-config'']"

definition journal_command :: "tor_backend \<Rightarrow> string list" where
  "journal_command b = [''/usr/bin/journalctl'', ''--unit='' @ tbUnit b, ''--output=cat'', ''--no-pager'', ''--lines=300'']"

definition bootstrap_re :: re where
  "bootstrap_re = seqs [Lit ''Bootstrapped '', Group 1 (Plus digit), Char CHR ''%'']"

definition bootstrap_json :: "string \<Rightarrow> json" where
  "bootstrap_json text =
     (case rev (FindAllSubmatch bootstrap_re text) of
        [] \<Rightarrow> JNull
      | g # gs \<Rightarrow> if fst (atoi (g 1)) \<le> 100 then JInt (fst (atoi (g 1))) else JNull)"

definition tor_status :: "tor_host \<Rightarrow> tor_backend \<Rightarrow> history \<Rightarrow> backend_reply \<times> history" where
  "tor_status host b h =
     (case unit_status (tor_run host) (tor_order host) (tbUnit b) (tbService b) h of
        ((ex, act, shown), h1) \<Rightarrow>
          if \<not> ex then (success (shown @ [(''bootstrap_percent'', JNull)]), h1)
          else case tor_run host (journal_command b) h1 of
                 ((o1, ok), h2) \<Rightarrow> (success (shown @ [(''bootstrap_percent'', bootstrap_json o1)]), h2))"

definition tor_info :: "tor_host \<Rightarrow> tor_backend \<Rightarrow> history \<Rightarrow> backend_reply \<times> history" where
  "tor_info host b h =
     (case tor_run host [tbBinary b, ''--version''] h of ((o1, ok), h1) \<Rightarrow>
        let v = trim_suffix (trim_prefix (hd (lines_of o1)) ''Tor version '') ''.'' in
        if \<not> ok \<or> v = '''' \<or> v = o1 then (failure 10 ''TOR_VERSION_INVALID'', h1)
        else (success [(''product'', JString ''Tor''), (''version'', JString v), (''config_file'', JString (tbConfig b)),
                       (''service'', JString (tbService b)), (''unit'', JString (tbUnit b))], h1))"

definition must_exist :: "tor_host \<Rightarrow> tor_backend \<Rightarrow> (history \<Rightarrow> backend_reply \<times> history) \<Rightarrow> history \<Rightarrow> backend_reply \<times> history" where
  "must_exist host b rest h =
     (case unit_exists (tor_run host) (tbUnit b) h of (ex, h1) \<Rightarrow> if ex then rest h1 else (failure 5 ''TOR_SERVICE_NOT_FOUND'', h1))"

definition tor_reload :: "tor_host \<Rightarrow> tor_backend \<Rightarrow> history \<Rightarrow> backend_reply \<times> history" where
  "tor_reload host b =
     must_succeed (tor_run host) (verify_config b) 9 ''TOR_CONFIG_INVALID'' (must_exist host b (
     must_succeed (tor_run host) (ask_unit ''is-active'' (tbUnit b)) 7 ''TOR_SERVICE_NOT_ACTIVE'' (
     must_succeed (tor_run host) [systemctl_path, ''reload'', ''--'', tbUnit b] 10 ''TOR_RELOAD_FAILED'' (\<lambda>h.
     (success (action_json ''reload'' (tbService b) ''success''), h)))))"

definition tor_restart :: "tor_host \<Rightarrow> tor_backend \<Rightarrow> history \<Rightarrow> backend_reply \<times> history" where
  "tor_restart host b =
     must_succeed (tor_run host) (verify_config b) 9 ''TOR_CONFIG_INVALID'' (must_exist host b (
     must_succeed (tor_run host) (restart_later (tbUnit b)) 10 ''TOR_RESTART_FAILED'' (\<lambda>h.
     (success (action_json ''restart'' (tbService b) ''scheduled'' @ [(''delay_seconds'', JInt 5)]), h))))"

definition tor_execute :: "tor_host \<Rightarrow> tor_backend \<Rightarrow> string \<Rightarrow> history \<Rightarrow> backend_reply \<times> history" where
  "tor_execute host b c h =
     (if c = ''info'' then tor_info host b h
      else if c = ''status'' then tor_status host b h
      else if c = ''configtest'' then
        must_succeed (tor_run host) (verify_config b) 9 ''TOR_CONFIG_INVALID'' (\<lambda>h1.
        (success [(''valid'', JBool True), (''message'', JString ''La configuration de Tor est valide.'')], h1)) h
      else if c = ''hidden-services'' then
        (case hidden host (tbConfig b) (tbDataDirectory b) of
           None \<Rightarrow> (failure 10 ''TOR_HIDDEN_SERVICES_FAILED'', h)
         | Some s \<Rightarrow> (success [(''services'', JArray (map onion_json s))], h))
      else if c = ''reload'' then tor_reload host b h
      else if c = ''restart'' then tor_restart host b h
      else (success [], h))"

definition tor_handle :: "tor_host \<Rightarrow> tor_backend \<Rightarrow> history backend_handler" where
  "tor_handle host b command args h =
     (if command = '''' then (failure 2 ''MISSING_COMMAND'', h)
      else if command \<notin> {''info'', ''status'', ''configtest'', ''hidden-services'', ''reload'', ''restart''} then (failure 4 ''COMMAND_NOT_FOUND'', h)
      else if args \<noteq> [] then (failure 2 ''INVALID_ARGUMENT_COUNT'', h)
      else if \<not> tor_executable host (tbBinary b) then (failure 5 ''TOR_NOT_INSTALLED'', h)
      else if tor_file host (tbConfig b) = None then (failure 5 ''TOR_CONFIG_NOT_FOUND'', h)
      else tor_execute host b command h)"

section \<open>The domain is confined\<close>

definition tor_permitted :: "tor_host \<Rightarrow> tor_backend \<Rightarrow> string \<Rightarrow> string list \<Rightarrow> string list \<Rightarrow> bool" where
  "tor_permitted host b command a argv \<longleftrightarrow>
     argv \<in> set (unit_questions (tbUnit b)) \<or> argv \<in> {[tbBinary b, ''--version''], verify_config b, journal_command b} \<or>
     command = ''reload'' \<and> argv = [systemctl_path, ''reload'', ''--'', tbUnit b] \<or>
     command = ''restart'' \<and> argv = restart_later (tbUnit b)"

lemma tor_permitted_reads [simp]:
  "argv \<in> set (unit_questions (tbUnit b)) \<Longrightarrow> tor_permitted host b command a argv"
  "tor_permitted host b command a [tbBinary b, ''--version'']" "tor_permitted host b command a (verify_config b)"
  "tor_permitted host b command a (journal_command b)"
  "tor_permitted host b command a (show_property (tbUnit b) ''LoadState'')" "tor_permitted host b command a (ask_unit ''is-active'' (tbUnit b))"
  by (simp_all add: tor_permitted_def unit_questions_def)

lemma tor_permitted_switch:
  "tor_permitted host b ''reload'' a [systemctl_path, ''reload'', ''--'', tbUnit b]" "tor_permitted host b ''restart'' a (restart_later (tbUnit b))"
  by (simp_all add: tor_permitted_def)

lemma tor_run_history [simp]: "snd (tor_run host argv h) = h @ [argv]"
  by (rule tor.run_history)

lemma must_exist_after:
  "extends (tor_permitted host b command a) h0 h \<Longrightarrow> (\<And>h'. extends (tor_permitted host b command a) h0 h' \<Longrightarrow> extends (tor_permitted host b command a) h0 (snd (rest h')))
   \<Longrightarrow> extends (tor_permitted host b command a) h0 (snd (must_exist host b rest h))"
  by (simp add: must_exist_def case_prod_beta extends_add)

lemma must_exist_ok: "(\<And>h'. reply_ok (fst (rest h'))) \<Longrightarrow> reply_ok (fst (must_exist host b rest h))"
  by (auto simp: must_exist_def case_prod_beta)

lemma tor_execute_confined: "extends (tor_permitted host b command a) h (snd (tor_execute host b command h))"
proof -
  have status: "extends (tor_permitted host b c a) h (snd (tor_status host b h))" for c
    using tor.unit_status_extends [of "tbUnit b" "tor_permitted host b c a" h host "tor_order host" "tbService b"]
    by (auto simp: tor_status_def case_prod_beta)
  have info: "extends (tor_permitted host b c a) h (snd (tor_info host b h))" for c
    by (simp add: tor_info_def case_prod_beta Let_def)
  have test: "extends (tor_permitted host b c a) h (snd (must_succeed (tor_run host) (verify_config b) 9 ''TOR_CONFIG_INVALID'' (\<lambda>h1. (rep, h1)) h))" for c rep
    by (rule tor.must_succeed_after) auto
  have reload: "extends (tor_permitted host b ''reload'' a) h (snd (tor_reload host b h))"
    unfolding tor_reload_def by (intro tor.must_succeed_after must_exist_after extends_refl) (auto simp: tor_permitted_switch)
  have restart: "extends (tor_permitted host b ''restart'' a) h (snd (tor_restart host b h))"
    unfolding tor_restart_def by (intro tor.must_succeed_after must_exist_after extends_refl) (auto simp: tor_permitted_switch)
  show ?thesis
    using status info test reload restart by (simp add: tor_execute_def split: option.split)
qed

lemma tor_execute_ok: "reply_ok (fst (tor_execute host b command h))"
proof -
  have "reply_ok (fst (tor_reload host b h))" "reply_ok (fst (tor_restart host b h))"
    by (simp_all add: tor_reload_def tor_restart_def must_succeed_ok must_exist_ok)
  moreover have "reply_ok (fst (tor_status host b h))" "reply_ok (fst (tor_info host b h))"
    by (simp_all add: tor_status_def tor_info_def case_prod_beta Let_def)
  ultimately show ?thesis by (simp add: tor_execute_def must_succeed_ok split: option.split)
qed

interpretation tor: confined_handler "tor_handle host b" "tor_permitted host b" for host b
  by unfold_locales (auto simp: tor_handle_def tor_execute_ok tor_execute_confined)

section \<open>Onion services are well formed\<close>

definition onion_ok :: "onion \<Rightarrow> bool" where
  "onion_ok s \<longleftrightarrow>
     (case onHostname s of None \<Rightarrow> True | Some v \<Rightarrow> onion_name v) \<and> list_all (\<lambda>(n, target). 1 \<le> n \<and> n \<le> 65535) (onPorts s)"

lemma onion_hostname_ok: "onion_hostname host d = Some v \<Longrightarrow> onion_name v"
  by (auto simp: onion_hostname_def split: option.splits if_splits)

definition hidden_ok :: "onion list \<times> bool \<Rightarrow> bool" where
  "hidden_ok st \<longleftrightarrow> list_all onion_ok (fst st) \<and> (snd st \<longrightarrow> fst st \<noteq> [])"

lemma onion_ok_port: "onion_ok s \<Longrightarrow> 1 \<le> n \<Longrightarrow> n \<le> 65535 \<Longrightarrow> onion_ok (s\<lparr>onPorts := onPorts s @ [(n, target)]\<rparr>)"
  by (simp add: onion_ok_def)

lemma hidden_ok_port:
  assumes "hidden_ok (items, True)" "1 \<le> n" "n \<le> 65535"
  shows "hidden_ok (butlast items @ [last items\<lparr>onPorts := onPorts (last items) @ [(n, target)]\<rparr>], True)"
  using assms by (auto simp: hidden_ok_def list_all_iff dest: in_set_butlastD intro!: onion_ok_port)

lemma hidden_line_ok: "hidden_ok st \<Longrightarrow> hidden_ok (hidden_line host dir raw st)"
proof (cases st)
  case (Pair items cur)
  assume ok: "hidden_ok st"
  have new: "hidden_ok (items @ [\<lparr>onID = i, onHostname = onion_hostname host d, onPorts = []\<rparr>], True)" for i d
    using ok Pair by (auto simp: hidden_ok_def onion_ok_def onion_hostname_ok split: option.split)
  have none: "hidden_ok (items, False)" using ok Pair by (simp add: hidden_ok_def)
  show ?thesis
    using ok Pair new none hidden_ok_port [of items]
    by (auto simp: hidden_line_def Let_def split: option.split)
qed

lemma fold_hidden_ok: "hidden_ok st \<Longrightarrow> hidden_ok (fold (hidden_line host dir) ls st)"
  by (induction ls arbitrary: st) (auto simp: hidden_line_ok)

text \<open>
  Whatever the configuration of Tor and the files beside it hold, every onion service the domain reports has
  either no host name or one of 56 characters of the base-32 alphabet followed by \<^verbatim>\<open>.onion\<close>, its public ports are
  between 1 and 65535, and the services come in the order of their names.
\<close>

theorem onion_services_wellformed:
  assumes "hidden host path dir = Some services"
  shows "list_all onion_ok services \<and> sorted (map (map byte_val \<circ> onID) services)"
proof -
  obtain content where "services = sort_key (map byte_val \<circ> onID) (fst (fold (hidden_line host dir) (scan_lines content) ([], False)))"
    using assms by (auto simp: hidden_def split: option.splits if_splits)
  moreover have "hidden_ok (fold (hidden_line host dir) (scan_lines content) ([], False))"
    by (rule fold_hidden_ok) (simp add: hidden_ok_def)
  ultimately show ?thesis by (auto simp: hidden_ok_def list_all_iff)
qed

definition sample_tor :: tor_host where
  "sample_tor =
     \<lparr>tor_executable = (\<lambda>_. True), tor_regular = (\<lambda>_. True),
      tor_file = [''torrc'' \<mapsto> ''HiddenServiceDir /d/b'' @ [CHR 0x0A] @ ''HiddenServicePort 80 x'' @ [CHR 0x0A] @ ''HiddenServicePort 0 x''],
      tor_order = (\<lambda>_. []), tor_exec = (\<lambda>_ _. \<lparr>out = '''', err = '''', status = 0\<rparr>)\<rparr>"

lemma sample_lines:
  "scan_lines (''HiddenServiceDir /d/b'' @ [CHR 0x0A] @ ''HiddenServicePort 80 x'' @ [CHR 0x0A] @ ''HiddenServicePort 0 x'') =
     [''HiddenServiceDir /d/b'', ''HiddenServicePort 80 x'', ''HiddenServicePort 0 x'']"
  "scan_complete (''HiddenServiceDir /d/b'' @ [CHR 0x0A] @ ''HiddenServicePort 80 x'' @ [CHR 0x0A] @ ''HiddenServicePort 0 x'')"
  by (simp_all add: scan_lines_def scan_complete_def drop_cr_def Let_def)

lemma sample_hidden: "hidden sample_tor ''torrc'' ''/d'' = Some [\<lparr>onID = ''b'', onHostname = None, onPorts = [(80, ''x'')]\<rparr>]"
proof -
  have 1: "hidden_line sample_tor ''/d'' ''HiddenServiceDir /d/b'' ([], False) = ([\<lparr>onID = ''b'', onHostname = None, onPorts = []\<rparr>], True)"
    by code_simp
  have 2: "FindSubmatch dir_re (trim_space ''HiddenServicePort 80 x'') = None" "FindSubmatch dir_re (trim_space ''HiddenServicePort 0 x'') = None"
    by code_simp+
  have 3: "map_option (\<lambda>g. (g 1, g 2)) (FindSubmatch onion_port_re (trim_space ''HiddenServicePort 80 x'')) = Some (''80'', ''x'')"
    "map_option (\<lambda>g. (g 1, g 2)) (FindSubmatch onion_port_re (trim_space ''HiddenServicePort 0 x'')) = Some (''0'', ''x'')"
    by code_simp+
  have 4: "fst (atoi ''80'') = 80" "fst (atoi ''0'') = 0" by code_simp+
  have 5: "trim_space ''HiddenServicePort 80 x'' = ''HiddenServicePort 80 x''" "trim_space ''HiddenServicePort 0 x'' = ''HiddenServicePort 0 x''"
    by code_simp+
  have 6: "hidden_line sample_tor ''/d'' ''HiddenServicePort 80 x'' ([s], True) = ([s\<lparr>onPorts := onPorts s @ [(80, ''x'')]\<rparr>], True)"
    "hidden_line sample_tor ''/d'' ''HiddenServicePort 0 x'' ([s], True) = ([s], True)" for s
    using 2 3 4 5 by (auto simp: hidden_line_def Let_def go_string split: option.split)
  have torrc: "tor_file sample_tor ''torrc'' = Some (''HiddenServiceDir /d/b'' @ [CHR 0x0A] @ ''HiddenServicePort 80 x'' @ [CHR 0x0A] @ ''HiddenServicePort 0 x'')"
    by (simp add: sample_tor_def)
  show ?thesis
    unfolding hidden_def torrc option.case sample_lines(1) using sample_lines(2) by (simp add: 1 6)
qed

theorem onion_services_wellformed_witness:
  "hidden sample_tor ''torrc'' ''/d'' = Some [\<lparr>onID = ''b'', onHostname = None, onPorts = [(80, ''x'')]\<rparr>] \<and>
   list_all onion_ok [\<lparr>onID = ''b'', onHostname = None, onPorts = [(80, ''x'')]\<rparr>]"
  using onion_services_wellformed [OF sample_hidden] sample_hidden by simp

section \<open>Tested before it is switched\<close>

abbreviation tor_switches :: "tor_backend \<Rightarrow> string list list" where
  "tor_switches b \<equiv> [[systemctl_path, ''reload'', ''--'', tbUnit b], restart_later (tbUnit b)]"

lemma snd_must_succeed_tor: "snd (must_succeed (tor_run host) argv x code rest h) =
    (if succeeded (tor_exec host h argv) then snd (rest (h @ [argv])) else h @ [argv])"
  by (simp add: must_succeed_def tor_run_def run_command_def)

lemma verify_config_hd: "verify_config b = tbBinary b # tl (verify_config b)" "''--verify-config'' \<in> set (verify_config b)"
  by (simp_all add: verify_config_def)

lemma tor_switch_distinct:
  "argv \<in> set (tor_switches b) \<Longrightarrow> argv \<notin> {verify_config b, show_property (tbUnit b) p, ask_unit ''is-active'' (tbUnit b)}"
  by (auto simp: restart_later_def verify_config_def show_property_def ask_unit_def)

lemma tor_switch_tested:
  assumes "snd (tor_handle host b command a h) = h @ new" "argv \<in> set new" "argv \<in> set (tor_switches b)"
  shows "hd new = verify_config b \<and> succeeded (tor_exec host h (verify_config b)) \<and> argv = last new"
proof -
  have "tor_permitted host b command a argv"
    using tor.handle_confined [of host b command a h] assms(1,2) by (simp add: extends_append list_all_iff)
  then have cmd: "command = ''reload'' \<or> command = ''restart''"
    using assms(3) tor_switch_distinct [OF assms(3)]
    by (auto simp: tor_permitted_def unit_questions_def show_property_def ask_unit_def restart_later_def journal_command_def)
  have "new \<noteq> []" using assms(2) by auto
  then have run: "snd (if command = ''reload'' then tor_reload host b h else tor_restart host b h) = h @ new"
    using assms(1) cmd by (auto simp: tor_handle_def tor_execute_def split: if_splits)
  show ?thesis
    using run assms(2) tor_switch_distinct [OF assms(3)]
    by (auto simp: tor_reload_def tor_restart_def must_exist_def case_prod_beta snd_must_succeed_tor split: if_splits)
qed

end
