(* ===== verification/Domain_Mysql.thy ===== *)
theory Domain_Mysql
  imports Backend_Units
begin

text \<open>
  The MySQL domain of the daemon (\<^verbatim>\<open>internal/domain/mysql/mysql.go\<close>): the service, four fixed queries through the
  client on the command line, and the restart of the service.
\<close>

record mysql_host =
  my_executable :: executable
  my_lstat :: "string \<Rightarrow> (bool \<times> bool \<times> nat) option"
  my_lower :: "nat \<Rightarrow> nat"
  my_fault :: "history \<Rightarrow> string list \<Rightarrow> fault"
  my_exec :: executor

definition statusVariables :: "string list" where
  "statusVariables =
     [''Aborted_connects'', ''Bytes_received'', ''Bytes_sent'', ''Connections'', ''Created_tmp_disk_tables'', ''Created_tmp_tables'',
      ''Innodb_buffer_pool_bytes_data'', ''Innodb_buffer_pool_bytes_dirty'', ''Innodb_buffer_pool_pages_free'',
      ''Innodb_buffer_pool_pages_total'', ''Innodb_rows_deleted'', ''Innodb_rows_inserted'', ''Innodb_rows_read'', ''Innodb_rows_updated'',
      ''Open_tables'', ''Opened_tables'', ''Queries'', ''Questions'', ''Slow_queries'', ''Table_locks_waited'', ''Threads_cached'',
      ''Threads_connected'', ''Threads_created'', ''Threads_running'', ''Uptime'']"

definition configurationVariables :: "string list" where
  "configurationVariables =
     [''bind_address'', ''character_set_server'', ''collation_server'', ''innodb_buffer_pool_size'', ''innodb_flush_log_at_trx_commit'',
      ''innodb_log_file_size'', ''long_query_time'', ''max_allowed_packet'', ''max_connections'', ''max_heap_table_size'',
      ''performance_schema'', ''slow_query_log'', ''sql_mode'', ''table_open_cache'', ''thread_cache_size'', ''tmp_table_size'']"

definition systemDatabases :: "string list" where
  "systemDatabases = [''information_schema'', ''mysql'', ''performance_schema'', ''sys'']"

definition mysql_clients :: "string list" where
  "mysql_clients = [''/usr/bin/mysql'', ''/usr/bin/mariadb'', ''/usr/local/bin/mysql'', ''/usr/local/bin/mariadb'']"

abbreviation credentialsFile :: string where "credentialsFile \<equiv> ''/etc/aegisadmin-system/mysql-client.cnf''"

text \<open>What a command that ran printed, what it printed as errors, and whether it succeeded.\<close>

definition mysql_run :: "mysql_host \<Rightarrow> string list \<Rightarrow> history \<Rightarrow> (string \<times> string \<times> bool) step" where
  "mysql_run host argv h =
     (case my_fault host h argv of
        TimedOut \<Rightarrow> (Inl (failure 124 ''MYSQL_COMMAND_TIMEOUT''), h @ [argv])
      | NotStarted \<Rightarrow> (Inl (failure 10 ''MYSQL_COMMAND_FAILED''), h @ [argv])
      | NoFault \<Rightarrow> (case run_command (my_exec host) argv h of
                       (r, h1) \<Rightarrow> (Inr (trim_space (ToValidUTF8 (out r)), trim_space (ToValidUTF8 (err r)), succeeded r), h1)))"

definition mysql_client :: "mysql_host \<Rightarrow> backend_reply + string" where
  "mysql_client host =
     (case find (my_executable host) mysql_clients of None \<Rightarrow> Inl (failure 4 ''MYSQL_CLIENT_NOT_FOUND'') | Some p \<Rightarrow> Inr p)"

text \<open>The permission bits of group and others (\<^verbatim>\<open>0o077\<close>) are the last six.\<close>

definition validCredentialsFile :: "mysql_host \<Rightarrow> bool" where
  "validCredentialsFile host \<longleftrightarrow>
     (case my_lstat host credentialsFile of
        None \<Rightarrow> False
      | Some (symlink, regular, perm) \<Rightarrow> \<not> symlink \<and> regular \<and> perm mod 64 = 0)"

definition query_command :: "mysql_host \<Rightarrow> string \<Rightarrow> string \<Rightarrow> string list" where
  "query_command host client sql =
     client # (if validCredentialsFile host then [''--defaults-extra-file='' @ credentialsFile] else []) @
     [''--batch'', ''--raw'', ''--skip-column-names'', ''--protocol=socket'', ''--connect-timeout=5'', ''--execute'', sql]"

definition rows_of :: "string \<Rightarrow> string list list" where
  "rows_of text = map (split_char CHR 0x09) (filter (\<lambda>l. l \<noteq> '''') (lines_of text))"

definition query :: "mysql_host \<Rightarrow> string \<Rightarrow> history \<Rightarrow> string list list step" where
  "query host sql h =
     (case mysql_client host of
        Inl rep \<Rightarrow> (Inl rep, h)
      | Inr client \<Rightarrow>
          and_then (mysql_run host (query_command host client sql) h) (\<lambda>(text, errors, ok) h1.
            if ok then (Inr (rows_of text), h1) else (Inl (failure 10 ''MYSQL_QUERY_FAILED''), h1)))"

definition number_value :: "string \<Rightarrow> backend_reply + int" where
  "number_value v =
     (if \<not> snd (atoi v) \<or> fst (atoi v) < 0 then Inl (failure 10 ''INVALID_MYSQL_NUMERIC_VALUE'') else Inr (fst (atoi v)))"

section \<open>The service\<close>

record mysql_service =
  msUnit :: string
  msActive :: bool
  msEnabled :: bool
  msState :: string

definition mysql_units :: "string list" where
  "mysql_units = [''mysql.service'', ''mariadb.service'', ''mysqld.service'']"

definition systemctlValue :: "mysql_host \<Rightarrow> string \<Rightarrow> string \<Rightarrow> history \<Rightarrow> string step" where
  "systemctlValue host unit property h =
     and_then (mysql_run host (show_property unit property) h) (\<lambda>(text, errors, ok) h1. (Inr (if ok then text else ''''), h1))"

definition mysql_state :: "string \<Rightarrow> string \<Rightarrow> string" where
  "mysql_state sub act = (if sub \<noteq> '''' then sub else if act \<noteq> '''' then act else ''unknown'')"

definition mysql_unit :: "mysql_host \<Rightarrow> string \<Rightarrow> history \<Rightarrow> mysql_service list step" where
  "mysql_unit host unit h =
     and_then (systemctlValue host unit ''LoadState'' h) (\<lambda>load h1.
       if \<not> unit_loaded load then (Inr [], h1)
       else and_then (systemctlValue host unit ''ActiveState'' h1) (\<lambda>act h2.
            and_then (systemctlValue host unit ''UnitFileState'' h2) (\<lambda>enabled h3.
            and_then (systemctlValue host unit ''SubState'' h3) (\<lambda>sub h4.
              (Inr [\<lparr>msUnit = unit, msActive = (act = ''active''), msEnabled = (enabled \<in> {''enabled'', ''enabled-runtime'', ''static''}),
                     msState = mysql_state sub act\<rparr>], h4)))))"

fun mysql_items :: "mysql_host \<Rightarrow> string list \<Rightarrow> history \<Rightarrow> mysql_service list step" where
  "mysql_items host [] h = (Inr [], h)"
| "mysql_items host (unit # units) h =
     and_then (mysql_unit host unit h) (\<lambda>item h1. and_then (mysql_items host units h1) (\<lambda>items h2. (Inr (item @ items), h2)))"

text \<open>The stable sort puts the active ones first.\<close>

definition service_of :: "mysql_host \<Rightarrow> history \<Rightarrow> mysql_service option step" where
  "service_of host h =
     and_then (mysql_items host mysql_units h) (\<lambda>items h1.
       (Inr (case sort_key (\<lambda>s. if msActive s then 0 else (1::nat)) items of [] \<Rightarrow> None | s # ss \<Rightarrow> Some s), h1))"

definition mysql_service_json :: "mysql_service option \<Rightarrow> (string \<times> json) list" where
  "mysql_service_json s =
     (case s of
        None \<Rightarrow> [(''unit'', JNull), (''service'', JNull), (''exists'', JBool False), (''active'', JBool False), (''enabled'', JBool False),
                 (''state'', JString ''not-found'')]
      | Some s \<Rightarrow> [(''unit'', JString (msUnit s)), (''service'', JString (trim_suffix (msUnit s) ''.service'')), (''exists'', JBool True),
                   (''active'', JBool (msActive s)), (''enabled'', JBool (msEnabled s)), (''state'', JString (msState s))])"

section \<open>Queries\<close>

definition infoSQL :: string where
  "infoSQL = ''SELECT @@version, @@version_comment, @@hostname, @@port, @@socket, @@datadir, @@default_storage_engine''"

definition databasesSQL :: string where
  "databasesSQL = ''CALL aegisadmin_monitoring.database_inventory_v2()''"

definition inSQL :: "string \<Rightarrow> string list \<Rightarrow> string" where
  "inSQL prefix names = prefix @ '' ('' @ join '', '' (map (\<lambda>n. [CHR 0x27] @ n @ [CHR 0x27]) names) @ '')''"

definition statusSQL :: string where
  "statusSQL = inSQL ''SHOW GLOBAL STATUS WHERE Variable_name IN'' statusVariables"

definition variablesSQL :: string where
  "variablesSQL = inSQL ''SHOW GLOBAL VARIABLES WHERE Variable_name IN'' configurationVariables"

definition info_row_ok :: "string list \<Rightarrow> bool" where
  "info_row_ok r \<longleftrightarrow>
     trim_space (r ! 0) \<noteq> '''' \<and> trim_space (r ! 2) \<noteq> '''' \<and> has_prefix (r ! 4) ''/'' \<and> has_prefix (r ! 5) ''/'' \<and> trim_space (r ! 6) \<noteq> ''''"

definition product_of :: "(nat \<Rightarrow> nat) \<Rightarrow> string list \<Rightarrow> string" where
  "product_of low r =
     (let combined = to_lower low (r ! 0 @ '' '' @ r ! 1) in
      if contains combined ''mariadb'' then ''MariaDB'' else if contains combined ''mysql'' then ''MySQL'' else ''Compatible MySQL'')"

definition mysql_info :: "mysql_host \<Rightarrow> history \<Rightarrow> (string \<times> json) list step" where
  "mysql_info host h =
     and_then (query host infoSQL h) (\<lambda>rows h1.
       case rows of
         [r] \<Rightarrow>
           if length r \<noteq> 7 \<or> \<not> info_row_ok r then (Inl (failure 10 ''INVALID_MYSQL_INFO_RESPONSE''), h1)
           else and_then (number_value (r ! 3), h1) (\<lambda>port h2.
                and_then (service_of host h2) (\<lambda>s h3.
                  (Inr [(''product'', JString (product_of (my_lower host) r)), (''version'', JString (r ! 0)),
                        (''version_comment'', JString (r ! 1)), (''hostname'', JString (r ! 2)), (''port'', JInt port),
                        (''socket'', JString (r ! 4)), (''data_directory'', JString (r ! 5)), (''default_storage_engine'', JString (r ! 6)),
                        (''client'', JString (case mysql_client host of Inl _ \<Rightarrow> '''' | Inr c \<Rightarrow> c)), (''service'', JObject (mysql_service_json s))], h3)))
       | _ \<Rightarrow> (Inl (failure 10 ''INVALID_MYSQL_INFO_RESPONSE''), h1))"

fun metrics_of :: "(nat \<Rightarrow> nat) \<Rightarrow> (string \<Rightarrow> string option) \<Rightarrow> string list \<Rightarrow> backend_reply + (string \<times> json) list \<times> string list" where
  "metrics_of low raw [] = Inr ([], [])"
| "metrics_of low raw (name # names) =
     (case raw name of
        None \<Rightarrow> (case metrics_of low raw names of Inl rep \<Rightarrow> Inl rep | Inr (ms, missing) \<Rightarrow> Inr (ms, name # missing))
      | Some v \<Rightarrow>
          (case number_value v of
             Inl rep \<Rightarrow> Inl rep
           | Inr n \<Rightarrow> (case metrics_of low raw names of Inl rep \<Rightarrow> Inl rep | Inr (ms, missing) \<Rightarrow> Inr ((to_lower low name, JInt n) # ms, missing))))"

definition pairs_of :: "string list list \<Rightarrow> (string \<times> string) list option" where
  "pairs_of rows = (if list_all (\<lambda>r. length r = 2) rows then Some (map (\<lambda>r. (r ! 0, r ! 1)) rows) else None)"

definition mysql_status :: "mysql_host \<Rightarrow> history \<Rightarrow> (string \<times> json) list step" where
  "mysql_status host h =
     and_then (query host statusSQL h) (\<lambda>rows h1.
       case pairs_of rows of
         None \<Rightarrow> (Inl (failure 10 ''INVALID_MYSQL_STATUS_RESPONSE''), h1)
       | Some ps \<Rightarrow>
           and_then (metrics_of (my_lower host) (map_of (rev ps)) statusVariables, h1) (\<lambda>(ms, missing) h2.
             (Inr [(''metrics'', JObject ms), (''missing_variables'', JArray (map JString missing))], h2)))"

definition database_of :: "string list \<Rightarrow> backend_reply + json" where
  "database_of r =
     (if length r \<noteq> 3 \<or> trim_space (r ! 0) = '''' then Inl (failure 10 ''INVALID_MYSQL_DATABASES_RESPONSE'')
      else case number_value (r ! 1) of
             Inl rep \<Rightarrow> Inl rep
           | Inr bytes \<Rightarrow>
               (case number_value (r ! 2) of
                  Inl rep \<Rightarrow> Inl rep
                | Inr tables \<Rightarrow>
                    Inr (JObject [(''name'', JString (r ! 0)), (''kind'', JString (if r ! 0 \<in> set systemDatabases then ''system'' else ''user'')),
                          (''size_bytes'', JInt bytes), (''table_count'', JInt tables)])))"

fun databases_of :: "string list list \<Rightarrow> backend_reply + json list" where
  "databases_of [] = Inr []"
| "databases_of (r # rs) =
     (case database_of r of
        Inl rep \<Rightarrow> Inl rep
      | Inr d \<Rightarrow> (case databases_of rs of Inl rep \<Rightarrow> Inl rep | Inr ds \<Rightarrow> Inr (d # ds)))"

definition mysql_databases :: "mysql_host \<Rightarrow> history \<Rightarrow> (string \<times> json) list step" where
  "mysql_databases host h =
     and_then (query host databasesSQL h) (\<lambda>rows h1.
     and_then (databases_of rows, h1) (\<lambda>items h2. (Inr [(''databases'', JArray items)], h2)))"

definition mysql_variables :: "mysql_host \<Rightarrow> history \<Rightarrow> (string \<times> json) list step" where
  "mysql_variables host h =
     and_then (query host variablesSQL h) (\<lambda>rows h1.
       case pairs_of rows of
         None \<Rightarrow> (Inl (failure 10 ''INVALID_MYSQL_VARIABLES_RESPONSE''), h1)
       | Some ps \<Rightarrow>
           (Inr [(''variables'', JObject (fold (\<lambda>(k, v). AList.update (to_lower (my_lower host) k) (JString v)) ps []))], h1))"

definition mysql_restart :: "mysql_host \<Rightarrow> history \<Rightarrow> (string \<times> json) list step" where
  "mysql_restart host h =
     and_then (service_of host h) (\<lambda>s h1.
       case s of
         None \<Rightarrow> (Inl (failure 4 ''MYSQL_SERVICE_NOT_FOUND''), h1)
       | Some s \<Rightarrow>
           and_then (mysql_run host (restart_later (msUnit s)) h1) (\<lambda>(text, errors, ok) h2.
             if \<not> ok then (Inl (failure 10 ''MYSQL_RESTART_SCHEDULE_FAILED''), h2)
             else (Inr (action_json ''restart'' (trim_suffix (msUnit s) ''.service'') ''scheduled'' @ [(''delay_seconds'', JInt 5)]), h2)))"

definition mysql_execute :: "mysql_host \<Rightarrow> string \<Rightarrow> history \<Rightarrow> (string \<times> json) list step" where
  "mysql_execute host command h =
     (if command = ''service'' then and_then (service_of host h) (\<lambda>s h1. (Inr (mysql_service_json s), h1))
      else if command = ''info'' then mysql_info host h
      else if command = ''status'' then mysql_status host h
      else if command = ''databases'' then mysql_databases host h
      else if command = ''variables'' then mysql_variables host h
      else if command = ''restart'' then mysql_restart host h
      else (Inr [], h))"

definition mysql_handle :: "mysql_host \<Rightarrow> history backend_handler" where
  "mysql_handle host command args h =
     (if command = '''' then (failure 2 ''MISSING_COMMAND'', h)
      else if command \<notin> {''service'', ''info'', ''status'', ''databases'', ''variables'', ''restart''} then (failure 4 ''COMMAND_NOT_FOUND'', h)
      else if args \<noteq> [] then (failure 2 ''INVALID_ARGUMENT_COUNT'', h)
      else reply_of (mysql_execute host command h))"

section \<open>The domain is confined\<close>

definition mysql_questions :: "string list list" where
  "mysql_questions = concat (map (\<lambda>unit. map (show_property unit) [''LoadState'', ''ActiveState'', ''UnitFileState'', ''SubState'']) mysql_units)"

definition mysql_permitted :: "mysql_host \<Rightarrow> string \<Rightarrow> string list \<Rightarrow> string list \<Rightarrow> bool" where
  "mysql_permitted host command a argv \<longleftrightarrow>
     argv \<in> set mysql_questions \<or>
     (\<exists>client \<in> set mysql_clients. \<exists>sql \<in> {infoSQL, statusSQL, databasesSQL, variablesSQL}. argv = query_command host client sql) \<or>
     command = ''restart'' \<and> (\<exists>unit \<in> set mysql_units. argv = restart_later unit)"

lemma mysql_run_after: "extends P h0 h \<Longrightarrow> P argv \<Longrightarrow> extends P h0 (snd (mysql_run host argv h))"
  by (auto simp: mysql_run_def run_command_def split: fault.split)

lemma mysql_run_ok: "step_ok (mysql_run host argv h)"
  by (simp add: mysql_run_def run_command_def split: fault.split)

lemma query_after:
  assumes "extends (mysql_permitted host command a) h0 h" "sql \<in> {infoSQL, statusSQL, databasesSQL, variablesSQL}"
  shows "extends (mysql_permitted host command a) h0 (snd (query host sql h))"
proof (cases "mysql_client host")
  case (Inr client)
  then have "client \<in> set mysql_clients" by (auto simp: mysql_client_def find_Some_iff split: option.splits)
  then have "mysql_permitted host command a (query_command host client sql)" using assms(2) by (auto simp: mysql_permitted_def)
  then show ?thesis
    using assms(1) Inr by (auto simp: query_def split: prod.split intro!: and_then_after mysql_run_after)
qed (use assms in \<open>simp add: query_def\<close>)

lemma systemctlValue_after:
  assumes "extends (mysql_permitted host command a) h0 h" "unit \<in> set mysql_units" "p \<in> {''LoadState'', ''ActiveState'', ''UnitFileState'', ''SubState''}"
  shows "extends (mysql_permitted host command a) h0 (snd (systemctlValue host unit p h))"
proof -
  have "mysql_permitted host command a (show_property unit p)"
    using assms(2,3) by (auto simp: mysql_permitted_def mysql_questions_def)
  then show ?thesis using assms(1) by (auto simp: systemctlValue_def split: prod.split intro!: and_then_after mysql_run_after)
qed

lemma mysql_unit_after:
  "extends (mysql_permitted host command a) h0 h \<Longrightarrow> unit \<in> set mysql_units \<Longrightarrow> extends (mysql_permitted host command a) h0 (snd (mysql_unit host unit h))"
  unfolding mysql_unit_def by (auto intro!: and_then_after systemctlValue_after)

lemma mysql_items_after:
  "extends (mysql_permitted host command a) h0 h \<Longrightarrow> set units \<subseteq> set mysql_units \<Longrightarrow> extends (mysql_permitted host command a) h0 (snd (mysql_items host units h))"
  by (induction units arbitrary: h) (auto intro!: and_then_after mysql_unit_after)

lemma service_of_after:
  "extends (mysql_permitted host command a) h0 h \<Longrightarrow> extends (mysql_permitted host command a) h0 (snd (service_of host h))"
  unfolding service_of_def by (auto intro!: and_then_after mysql_items_after)

lemma mysql_unit_known: "fst (mysql_unit host unit h) = Inr items \<Longrightarrow> s \<in> set items \<Longrightarrow> msUnit s = unit"
  by (auto simp: mysql_unit_def and_then_def split: prod.splits sum.splits if_splits)

lemma mysql_items_known: "mysql_items host units h = (Inr items, h') \<Longrightarrow> s \<in> set items \<Longrightarrow> msUnit s \<in> set units"
proof (induction units arbitrary: h items h')
  case (Cons unit units)
  obtain i h1 j h2 where "mysql_unit host unit h = (Inr i, h1)" "mysql_items host units h1 = (Inr j, h2)" "items = i @ j"
    using Cons.prems(1) by (auto simp: and_then_def split: prod.splits sum.splits)
  then show ?case using Cons.IH Cons.prems(2) mysql_unit_known [of host unit h i s] by auto
qed simp

lemma service_of_known: "fst (service_of host h) = Inr (Some s) \<Longrightarrow> msUnit s \<in> set mysql_units"
proof -
  assume s: "fst (service_of host h) = Inr (Some s)"
  obtain items h1 where items: "mysql_items host mysql_units h = (Inr items, h1)"
    using s by (auto simp: service_of_def and_then_def split: prod.splits sum.splits)
  obtain ss where "sort_key (\<lambda>s. if msActive s then 0 else (1::nat)) items = s # ss"
    using s items by (auto simp: service_of_def and_then_def split: list.splits)
  then have "s \<in> set items" using set_sort [of "\<lambda>s. if msActive s then 0 else (1::nat)" items] by auto
  then show ?thesis by (rule mysql_items_known [OF items])
qed

lemma mysql_execute_confined:
  "extends (mysql_permitted host command a) h (snd (mysql_execute host command h))"
proof -
  have s: "extends (mysql_permitted host c a) h (snd (and_then (service_of host h) (\<lambda>s h1. (Inr (mysql_service_json s), h1))))" for c
    by (auto intro!: and_then_after service_of_after)
  have i: "extends (mysql_permitted host c a) h (snd (mysql_info host h))" for c
    unfolding mysql_info_def by (auto intro!: and_then_after query_after service_of_after split: list.split)
  have st: "extends (mysql_permitted host c a) h (snd (mysql_status host h))" for c
    unfolding mysql_status_def by (auto intro!: and_then_after query_after split: option.split)
  have d: "extends (mysql_permitted host c a) h (snd (mysql_databases host h))" for c
    unfolding mysql_databases_def by (auto intro!: and_then_after query_after)
  have v: "extends (mysql_permitted host c a) h (snd (mysql_variables host h))" for c
    unfolding mysql_variables_def by (auto intro!: and_then_after query_after split: option.split)
  have "mysql_permitted host ''restart'' a (restart_later (msUnit s))" if "fst (service_of host h) = Inr (Some s)" for s
    using service_of_known [OF that] by (auto simp: mysql_permitted_def)
  then have r: "extends (mysql_permitted host ''restart'' a) h (snd (mysql_restart host h))"
    unfolding mysql_restart_def by (auto intro!: and_then_after service_of_after mysql_run_after split: option.split prod.split)
  show ?thesis using s i st d v r by (simp add: mysql_execute_def)
qed

lemma number_value_ok: "step_ok (number_value v, h)"
  by (simp add: number_value_def)

lemma query_ok: "step_ok (query host sql h)"
  by (auto simp: query_def mysql_client_def split: option.split sum.split intro!: step_ok_and_then mysql_run_ok)

lemma service_of_ok: "step_ok (service_of host h)"
proof -
  have "step_ok (systemctlValue host unit p h)" for unit p h
    by (auto simp: systemctlValue_def intro!: step_ok_and_then mysql_run_ok)
  then have "step_ok (mysql_unit host unit h)" for unit h
    by (auto simp: mysql_unit_def intro!: step_ok_and_then)
  then have "step_ok (mysql_items host units h)" for units h
    by (induction units arbitrary: h) (auto intro!: step_ok_and_then)
  then show ?thesis by (auto simp: service_of_def intro!: step_ok_and_then)
qed

lemma number_value_refusal: "number_value v = Inl rep \<Longrightarrow> reply_ok rep \<and> exit_code rep \<noteq> 0"
  by (auto simp: number_value_def split: if_splits)

lemma metrics_of_ok: "metrics_of low raw names = Inl rep \<Longrightarrow> reply_ok rep \<and> exit_code rep \<noteq> 0"
  by (induction names) (auto split: option.splits sum.splits dest: number_value_refusal)

lemma databases_of_ok: "databases_of rows = Inl rep \<Longrightarrow> reply_ok rep \<and> exit_code rep \<noteq> 0"
  by (induction rows) (auto simp: database_of_def split: sum.splits if_splits dest: number_value_refusal)

lemma mysql_execute_ok: "step_ok (mysql_execute host command h)"
proof -
  have m: "step_ok (metrics_of low raw names, h)" and d: "step_ok (databases_of rows, h)" for low raw names rows and h :: history
    by (auto simp: step_ok_def split: sum.split dest: metrics_of_ok databases_of_ok)
  have "step_ok (mysql_info host h)"
    unfolding mysql_info_def by (auto intro!: step_ok_and_then query_ok service_of_ok number_value_ok split: list.split)
  moreover have "step_ok (mysql_status host h)" "step_ok (mysql_databases host h)" "step_ok (mysql_variables host h)"
    unfolding mysql_status_def mysql_databases_def mysql_variables_def
    by (auto intro!: step_ok_and_then query_ok m d split: option.split)
  moreover have "step_ok (mysql_restart host h)"
    unfolding mysql_restart_def by (auto intro!: step_ok_and_then service_of_ok mysql_run_ok split: option.split)
  moreover have "step_ok (and_then (service_of host h) (\<lambda>s h1. (Inr (mysql_service_json s), h1)))"
    by (rule step_ok_and_then [OF service_of_ok]) simp
  ultimately show ?thesis by (simp add: mysql_execute_def)
qed

interpretation mysql: confined_handler "mysql_handle host" "mysql_permitted host" for host
  by unfold_locales (auto simp: mysql_handle_def mysql_execute_ok reply_of_ok mysql_execute_confined)

end
