(* ===== verification/Backend_Files.thy ===== *)
theory Backend_Files
  imports Backend_Effects Go_Path
begin

text \<open>
  What files hold, as the domains that write files see it: the effect of those steps of the history that
  succeeded (\<^verbatim>\<open>(write)\<close>, \<^verbatim>\<open>(rename)\<close>, \<^verbatim>\<open>(remove)\<close>) on the files there were at first. Commands and the other steps
  leave the content of files alone.
\<close>

definition file_step :: "string list \<Rightarrow> (string \<rightharpoonup> string) \<Rightarrow> (string \<rightharpoonup> string)" where
  "file_step argv f =
     (if length argv = 3 \<and> argv ! 0 = ''(write)'' then f(argv ! 1 \<mapsto> argv ! 2)
      else if length argv = 3 \<and> argv ! 0 = ''(rename)'' then f(argv ! 2 := f (argv ! 1), argv ! 1 := None)
      else if length argv = 2 \<and> argv ! 0 = ''(remove)'' then f(argv ! 1 := None)
      else f)"

text \<open>The history is kept with the last step first while it is replayed.\<close>

fun replay :: "executor \<Rightarrow> (string \<rightharpoonup> string) \<Rightarrow> string list list \<Rightarrow> (string \<rightharpoonup> string)" where
  "replay x f [] = f"
| "replay x f (argv # earlier) =
     (if succeeded (x (rev earlier) argv) then file_step argv (replay x f earlier) else replay x f earlier)"

definition Dir :: "string \<Rightarrow> string" where
  "Dir p = Clean (rev (dropWhile (\<lambda>c. c \<noteq> CHR ''/'') (rev p)))"

text \<open>Paths without an element that begins like the temporary files of the daemon last.\<close>

definition lasting :: "string \<Rightarrow> bool" where
  "lasting p \<longleftrightarrow> \<not> contains p ''/.aegisadmin-''"

lemma file_step_command [simp]: "argv = c # cs \<Longrightarrow> c \<notin> {''(write)'', ''(rename)'', ''(remove)''} \<Longrightarrow> file_step argv f = f"
  by (simp add: file_step_def)

lemma file_step_simps [simp]:
  "file_step [''(write)'', p, c] f = f(p \<mapsto> c)" "file_step [''(rename)'', p, q] f = f(q := f p, p := None)"
  "file_step [''(remove)'', p] f = f(p := None)"
  by (simp_all add: file_step_def)

end
