(* ===== verification/Go_Net_Text.thy ===== *)
theory Go_Net_Text
  imports Go_Net
begin

text \<open>
  The characters of a text that \<^verbatim>\<open>net.ParseIP\<close> accepts: hexadecimal digits, colons and dots only.
\<close>

definition address_char :: "char \<Rightarrow> bool" where
  "address_char c \<longleftrightarrow> hex_value c \<noteq> None \<or> c = CHR '':'' \<or> c = CHR ''.''"

lemma address_char_digit: "is_digit c \<Longrightarrow> address_char c"
  by (simp add: address_char_def hex_value_def)

lemma split_char_chars: "x \<in> set s \<Longrightarrow> x \<noteq> c \<Longrightarrow> \<exists>w \<in> set (split_char c s). x \<in> set w"
proof (induction s)
  case (Cons a s)
  then show ?case by (cases "split_char c s") (auto split: if_splits)
qed simp

lemma all_some_Some: "all_some xs = Some ys \<Longrightarrow> x \<in> set xs \<Longrightarrow> x \<noteq> None"
  by (induction xs arbitrary: ys rule: all_some.induct) auto

lemma ipv4_field_digits: "ipv4_field w \<noteq> None \<Longrightarrow> list_all is_digit w"
  by (auto simp: ipv4_field_def split: if_splits)

lemma parse_ipv4_chars: "parse_ipv4 s = Some v \<Longrightarrow> list_all address_char s"
proof -
  assume "parse_ipv4 s = Some v"
  then have v: "all_some (map ipv4_field (split_char CHR ''.'' s)) = Some v" by (auto simp: parse_ipv4_def Let_def split: if_splits)
  have digits: "list_all is_digit w" if "w \<in> set (split_char CHR ''.'' s)" for w
    using all_some_Some [OF v, of "ipv4_field w"] that by (intro ipv4_field_digits) simp
  have "address_char x" if "x \<in> set s" for x
  proof (cases "x = CHR ''.''")
    case False
    then obtain w where "w \<in> set (split_char CHR ''.'' s)" "x \<in> set w" using split_char_chars \<open>x \<in> set s\<close> by blast
    then show ?thesis using digits by (auto simp: list_all_iff address_char_digit)
  qed (simp add: address_char_def)
  then show ?thesis by (simp add: list_all_iff)
qed

lemma ipv6_groups_chars: "ipv6_groups k s bs ell = Some (bs', ell', []) \<Longrightarrow> list_all address_char s"
proof (induction k arbitrary: s bs ell)
  case (Suc k)
  define digits where "digits = takeWhile (\<lambda>c. hex_value c \<noteq> None) s"
  define rest where "rest = drop (length digits) s"
  have s: "s = digits @ rest" unfolding rest_def digits_def by (metis dropWhile_eq_drop takeWhile_dropWhile_id)
  have hex: "list_all address_char digits" by (auto simp: digits_def list_all_iff address_char_def dest: set_takeWhileD)
  note step = Suc.prems [unfolded ipv6_groups.simps Let_def, folded digits_def, folded rest_def]
  consider "rest = []" | v where "parse_ipv4 s = Some v"
    | rest' where "rest = CHR '':'' # CHR '':'' # rest'" "rest' = [] \<or> (\<exists>bs ell. ipv6_groups k rest' bs ell = Some (bs', ell', []))"
    | rest' bs ell where "rest = CHR '':'' # rest'" "ipv6_groups k rest' bs ell = Some (bs', ell', [])"
    using step by (simp split: if_splits list.splits option.splits) blast+
  then have "list_all address_char s \<or> list_all address_char rest"
  proof cases
    case 2
    then show ?thesis using parse_ipv4_chars by blast
  next
    case 3
    then have "list_all address_char rest'" using Suc.IH by auto
    then show ?thesis using 3 by (simp add: address_char_def [of "CHR '':''"])
  next
    case 4
    then show ?thesis using Suc.IH by (auto simp: address_char_def [of "CHR '':''"])
  qed simp
  then show ?case using s hex by auto
qed simp

lemma has_prefix_drop: "has_prefix s p \<Longrightarrow> s = p @ drop (length p) s"
  by (induction s p rule: has_prefix.induct) auto

lemma parse_ipv6_chars:
  assumes "parse_ipv6 s = Some (bs, '''')"
  shows "list_all address_char s"
proof -
  have zone: "cut_char CHR ''%'' s = None"
    using assms by (cases "cut_char CHR ''%'' s") (auto simp: parse_ipv6_def Let_def split: if_splits option.splits)
  define s' where "s' = (if has_prefix s ''::'' then drop 2 s else s)"
  have "s' = [] \<or> (\<exists>bs' ell ell'. ipv6_groups 8 s' [] ell = Some (bs', ell', []))"
    using assms zone by (auto simp: parse_ipv6_def Let_def s'_def split: if_splits option.splits) blast+
  then have "list_all address_char s'" using ipv6_groups_chars by auto
  moreover have "s = s' \<or> s = ''::'' @ s'"
    using has_prefix_drop [of s "''::''"] by (auto simp: s'_def numeral_2_eq_2)
  ultimately show ?thesis by (auto simp: address_char_def)
qed

lemma ParseIP_chars: "ParseIP s \<noteq> None \<Longrightarrow> list_all address_char s \<and> s \<noteq> ''''"
  by (auto simp: ParseIP_def ParseAddr_def split: option.splits if_splits dest: parse_ipv4_chars parse_ipv6_chars)

text \<open>Such characters are ASCII, not white space, and none of those a profile gives a meaning to.\<close>

lemma address_char_plain:
  "address_char c \<Longrightarrow> byte_val c < 128 \<and> \<not> space1 (byte_val c) \<and> c \<notin> {CHR ''#'', CHR 0x0A, CHR 0x0D, CHR '','', CHR ''*''}"
  by (auto simp: address_char_def hex_value_def is_digit_def in_range_def space1_def split: if_splits)

end
