(* ===== verification/Domain_Admin_Access.thy ===== *)
theory Domain_Admin_Access
  imports Backend_Files Backend_Units Go_Net_Text
begin

text \<open>
  The domain of the dedicated administration access (\<^verbatim>\<open>internal/domain/adminaccess/adminaccess.go\<close>): where the
  administration listens and who may connect, kept in a profile, and published either by Apache or by the web
  server itself. An update writes files, restarts or reloads the server, and puts the old files back when a
  step fails.

  Steps on files are entries of the history (\<^verbatim>\<open>(create-temp)\<close>, \<^verbatim>\<open>(write)\<close>, \<^verbatim>\<open>(rename)\<close>, \<^verbatim>\<open>(remove)\<close>), and what a file holds
  after a history is the effect of those of its steps that succeeded, on the files there were at first. Other
  programs are not expected to change these files meanwhile. The JSON of a request is decoded outside.
\<close>

record aa_settings =
  seEnabled :: bool
  sePort :: int
  seAddress :: string
  seAllowFrom :: string

record aa_profile =
  prEnabled :: bool
  prAppRoot :: string
  prAddress :: string
  prAllowFrom :: string
  prPort :: int

record aa_apache =
  apService :: string
  apControl :: string
  apSitesAvailable :: string
  apSitesEnabled :: string
  apEnable :: string
  apDisable :: string

record aa_host =
  aa_files :: "string \<rightharpoonup> string"
  aa_symlink :: "history \<Rightarrow> string \<Rightarrow> bool"
  aa_present :: "history \<Rightarrow> string \<Rightarrow> bool"
  aa_runnable :: "string \<Rightarrow> bool"
  aa_decode :: "string \<Rightarrow> aa_settings option"
  aa_exec :: executor

abbreviation adminProfile :: string where "adminProfile \<equiv> ''/etc/aegisadmin-system/admin-web''"
abbreviation apacheProfile :: string where "apacheProfile \<equiv> ''/etc/aegisadmin-system/apache''"
abbreviation admin_certificate :: string where "admin_certificate \<equiv> ''/etc/aegisadmin-system/tls/admin-local.crt''"
abbreviation admin_privateKey :: string where "admin_privateKey \<equiv> ''/etc/aegisadmin-system/tls/admin-local.key''"
abbreviation webProfile :: string where "webProfile \<equiv> ''/etc/aegisadmin-system/web-server''"

section \<open>Files\<close>

definition files_after :: "aa_host \<Rightarrow> history \<Rightarrow> (string \<rightharpoonup> string)" where
  "files_after host h = replay (aa_exec host) (aa_files host) (rev h)"

text \<open>\<^verbatim>\<open>atomicWrite\<close>: the temporary file is closed and removed whatever happens.\<close>

definition atomicWrite :: "aa_host \<Rightarrow> string \<Rightarrow> string \<Rightarrow> string \<Rightarrow> history \<Rightarrow> bool \<times> history" where
  "atomicWrite host path content mode h =
     (case run_command (aa_exec host) [''(create-temp)'', Dir path, ''.aegisadmin-*''] h of (r, h1) \<Rightarrow>
        if \<not> succeeded r then (False, h1)
        else let name = out r in
          case attempts (aa_exec host) [[''(chmod)'', name, mode], [''(write)'', name, content]] h1 of (ok, h2) \<Rightarrow>
          case run_command (aa_exec host) [''(close)'', name] h2 of (r3, h3) \<Rightarrow>
            if \<not> ok \<or> \<not> succeeded r3 then (False, h3 @ [[''(remove)'', name]])
            else case run_command (aa_exec host) [''(rename)'', name, path] h3 of (r4, h4) \<Rightarrow>
                   (succeeded r4, h4 @ [[''(remove)'', name]]))"

definition aa_run :: "aa_host \<Rightarrow> string list \<Rightarrow> history \<Rightarrow> bool \<times> history" where
  "aa_run host argv h = (case run_command (aa_exec host) argv h of (r, h1) \<Rightarrow> (succeeded r, h1))"

section \<open>Profiles\<close>

definition profile_pairs :: "string \<Rightarrow> (string \<times> string) list" where
  "profile_pairs text =
     concat (map (\<lambda>raw. case cut_char CHR ''='' (without_comment raw) of None \<Rightarrow> [] | Some (k, x) \<Rightarrow> [(trim_space k, trim_space x)]) (lines_of text))"

text \<open>A value, or the empty text where there is none (a missing key of a Go map).\<close>

definition readProfile :: "string option \<Rightarrow> (string \<Rightarrow> string) option" where
  "readProfile content =
     map_option (\<lambda>text k. case map_of (rev (profile_pairs text)) k of None \<Rightarrow> '''' | Some v \<Rightarrow> v) content"

text \<open>\<^verbatim>\<open>strings.FieldsFunc\<close> with the separators of a list of addresses.\<close>

definition address_separator :: "char \<Rightarrow> bool" where
  "address_separator c \<longleftrightarrow> c \<in> {CHR '','', CHR 0x0A, CHR 0x0D, CHR '' '', CHR 0x09}"

fun split_where :: "(char \<Rightarrow> bool) \<Rightarrow> string \<Rightarrow> string list" where
  "split_where p [] = [[]]"
| "split_where p (c # cs) =
     (if p c then [] # split_where p cs else case split_where p cs of [] \<Rightarrow> [[c]] | w # ws \<Rightarrow> (c # w) # ws)"

definition fields_where :: "(char \<Rightarrow> bool) \<Rightarrow> string \<Rightarrow> string list" where
  "fields_where p s = filter (\<lambda>w. w \<noteq> '''') (split_where p s)"

fun check_addresses :: "nat \<Rightarrow> string list \<Rightarrow> string list \<Rightarrow> string list option" where
  "check_addresses n seen [] = Some seen"
| "check_addresses n seen (item # items) =
     (if item = ''*'' \<and> n \<noteq> 1 then None
      else if item \<noteq> ''*'' \<and> ParseIP item = None then None
      else if item \<in> set seen then None
      else check_addresses n (seen @ [item]) items)"

definition parseAddresses :: "string \<Rightarrow> string list option" where
  "parseAddresses value =
     (let items = fields_where address_separator value in
      if items = [] \<or> 16 < length items then None else check_addresses (length items) [] items)"

definition ParseCIDR :: "string \<Rightarrow> bool" where
  "ParseCIDR s \<longleftrightarrow>
     (case cut_char CHR ''/'' s of
        None \<Rightarrow> False
      | Some (addr, bits) \<Rightarrow>
          (case ParseAddr addr of
             None \<Rightarrow> False
           | Some (is4, bs, zone) \<Rightarrow>
               zone = '''' \<and> bits \<noteq> '''' \<and> list_all is_digit bits \<and> fst (atoi bits) \<le> (if is4 then 32 else 128)))"

definition aa_validate :: "aa_settings \<Rightarrow> bool" where
  "aa_validate s \<longleftrightarrow>
     1024 \<le> sePort s \<and> sePort s \<le> 65535 \<and> parseAddresses (seAddress s) \<noteq> None \<and>
     (seAllowFrom s = ''all'' \<or> ParseIP (seAllowFrom s) \<noteq> None \<or> ParseCIDR (seAllowFrom s))"

definition loadAdmin :: "string option \<Rightarrow> aa_profile option" where
  "loadAdmin content =
     (case readProfile content of
        None \<Rightarrow> None
      | Some v \<Rightarrow>
          if \<not> snd (atoi (v ''port'')) then None
          else let p = \<lparr>prEnabled = (v ''enabled'' = ''true''), prAppRoot = v ''app_root'', prAddress = v ''address'',
                        prAllowFrom = v ''allow_from'', prPort = fst (atoi (v ''port''))\<rparr>
               in if prAppRoot p = '''' \<or>
                     \<not> aa_validate \<lparr>seEnabled = False, sePort = prPort p, seAddress = prAddress p, seAllowFrom = prAllowFrom p\<rparr>
                  then None else Some p)"

definition apache_value :: "(string \<Rightarrow> string) \<Rightarrow> string \<Rightarrow> string \<Rightarrow> string" where
  "apache_value v k d = (if (IsAbs (v k) \<or> k = ''service'') \<and> v k \<noteq> '''' then v k else d)"

definition loadApache :: "string option \<Rightarrow> aa_apache" where
  "loadApache content =
     (let v = (case readProfile content of None \<Rightarrow> (\<lambda>_. '''') | Some v \<Rightarrow> v) in
      \<lparr>apService = apache_value v ''service'' ''apache2'', apControl = apache_value v ''control'' ''/usr/sbin/apachectl'',
       apSitesAvailable = apache_value v ''sites_available'' ''/etc/apache2/sites-available'',
       apSitesEnabled = apache_value v ''sites_enabled'' ''/etc/apache2/sites-enabled'',
       apEnable = apache_value v ''enable_command'' ''/usr/sbin/a2ensite'',
       apDisable = apache_value v ''disable_command'' ''/usr/sbin/a2dissite''\<rparr>)"

definition apacheAvailable :: "aa_host \<Rightarrow> aa_apache \<Rightarrow> bool" where
  "apacheAvailable host a \<longleftrightarrow> list_all (aa_runnable host) [apControl a, apEnable a, apDisable a]"

definition boolean_text :: "bool \<Rightarrow> string" where
  "boolean_text b = (if b then ''true'' else ''false'')"

abbreviation nl :: string where "nl \<equiv> [CHR 0x0A]"

definition profile_text :: "aa_profile \<Rightarrow> string" where
  "profile_text p =
     ''enabled='' @ boolean_text (prEnabled p) @ nl @ ''app_root='' @ prAppRoot p @ nl @ ''address='' @ prAddress p @ nl @
     ''port='' @ itoa (prPort p) @ nl @ ''allow_from='' @ prAllowFrom p @ nl"

definition new_profile :: "aa_profile \<Rightarrow> aa_settings \<Rightarrow> string list \<Rightarrow> aa_profile" where
  "new_profile p s addresses =
     p\<lparr>prEnabled := seEnabled s, prAddress := join '','' addresses, prPort := sePort s, prAllowFrom := seAllowFrom s\<rparr>"

section \<open>Status\<close>

definition addresses_of :: "string \<Rightarrow> string list" where
  "addresses_of value = (case parseAddresses value of None \<Rightarrow> [] | Some as \<Rightarrow> as)"

abbreviation admin_site :: string where "admin_site \<equiv> ''aegisadmin-admin.conf''"

definition access_json :: "aa_profile \<Rightarrow> bool \<Rightarrow> string \<Rightarrow> (string \<times> json) list" where
  "access_json p enabled mode =
     [(''available'', JBool True), (''enabled'', JBool enabled), (''address'', JString (join nl (addresses_of (prAddress p)))),
      (''port'', JInt (prPort p)), (''allow_from'', JString (prAllowFrom p)),
      (''url'', JString (''https://adresse-ip-du-serveur:'' @ itoa (prPort p))), (''mode'', JString mode)]"

definition aa_status :: "aa_host \<Rightarrow> history \<Rightarrow> (string \<times> json) list" where
  "aa_status host h =
     (case loadAdmin (files_after host h adminProfile) of
        None \<Rightarrow> [(''available'', JBool False), (''enabled'', JBool False)]
      | Some p \<Rightarrow>
          let a = loadApache (files_after host h apacheProfile) in
          if \<not> apacheAvailable host a then access_json p (prEnabled p) ''direct''
          else access_json p (prEnabled p \<and> aa_present host h (Join2 (apSitesEnabled a) admin_site)) ''apache'')"

section \<open>Updates\<close>

definition JoinHostPort :: "string \<Rightarrow> string \<Rightarrow> string" where
  "JoinHostPort host port = (if CHR '':'' \<in> set host then ''['' @ host @ '']:'' @ port else host @ '':'' @ port)"

definition directListenAddresses :: "string list \<Rightarrow> int \<Rightarrow> bool \<Rightarrow> string list" where
  "directListenAddresses addresses port enabled =
     (if \<not> enabled then [''127.0.0.1:9080'']
      else map (\<lambda>address. if address = ''*'' then '':'' @ itoa port else JoinHostPort address (itoa port)) addresses)"

definition web_text :: "string list \<Rightarrow> string \<Rightarrow> string" where
  "web_text listeners allow_from =
     ''# Adresse HTTPS du serveur web Go AegisAdmin.'' @ nl @ ''AEGISADMIN_WEB_LISTEN='' @ join '','' listeners @ nl @
     ''AEGISADMIN_WEB_ALLOW_FROM='' @ allow_from @ nl"

abbreviation restart_web :: "string list" where
  "restart_web \<equiv> [systemctl_path, ''restart'', ''aegisadmin-web.service'']"

definition write_back :: "aa_host \<Rightarrow> string \<Rightarrow> string \<Rightarrow> string option \<Rightarrow> history \<Rightarrow> history" where
  "write_back host path mode old h = (case old of None \<Rightarrow> h | Some content \<Rightarrow> snd (atomicWrite host path content mode h))"

definition restore_direct :: "aa_host \<Rightarrow> string option \<Rightarrow> string option \<Rightarrow> history \<Rightarrow> history" where
  "restore_direct host oldWeb oldAdmin h =
     snd (aa_run host restart_web (write_back host adminProfile ''0640'' oldAdmin (write_back host webProfile ''0640'' oldWeb h)))"

text \<open>The result of an update is whether it succeeded.\<close>

definition updateDirect :: "aa_host \<Rightarrow> aa_profile \<Rightarrow> aa_settings \<Rightarrow> history \<Rightarrow> bool \<times> history" where
  "updateDirect host p s h =
     (if aa_symlink host h adminProfile \<or> aa_symlink host h webProfile then (False, h)
      else let addresses = addresses_of (seAddress s);
               listeners = directListenAddresses addresses (sePort s) (seEnabled s);
               oldWeb = files_after host h webProfile; oldAdmin = files_after host h adminProfile
           in case atomicWrite host webProfile (web_text listeners (seAllowFrom s)) ''0640'' h of (ok, h1) \<Rightarrow>
              if \<not> ok then (False, h1)
              else case atomicWrite host adminProfile (profile_text (new_profile p s addresses)) ''0640'' h1 of (ok, h2) \<Rightarrow>
                   if \<not> ok then (False, restore_direct host oldWeb oldAdmin h2)
                   else case aa_run host restart_web h2 of (ok, h3) \<Rightarrow>
                        if \<not> ok then (False, restore_direct host oldWeb oldAdmin h3) else (True, h3))"

definition endpoint :: "int \<Rightarrow> string \<Rightarrow> string" where
  "endpoint port address = (if address = ''*'' then ''*:'' @ itoa port else JoinHostPort address (itoa port))"

definition in_quotes :: "string \<Rightarrow> string" where
  "in_quotes s = [CHR 0x22] @ s @ [CHR 0x22]"

definition render_site :: "string list \<Rightarrow> string \<Rightarrow> string" where
  "render_site endpoints requirement =
     join nl
       [''Listen '' @ join (nl @ ''Listen '') endpoints,
        '''',
        ''<VirtualHost '' @ join '' '' endpoints @ ''>'',
        ''    ServerName aegisadmin.local'',
        '''',
        ''    SSLEngine on'',
        ''    SSLProtocol all -SSLv3 -TLSv1 -TLSv1.1'',
        ''    SSLCertificateFile '' @ in_quotes admin_certificate,
        ''    SSLCertificateKeyFile '' @ in_quotes admin_privateKey,
        ''    SSLProxyEngine on'',
        ''    SSLProxyVerify none'',
        ''    SSLProxyCheckPeerName off'',
        '''',
        ''    Header always set X-Content-Type-Options '' @ in_quotes ''nosniff'',
        ''    Header always set Referrer-Policy '' @ in_quotes ''no-referrer'',
        ''    Header always set X-Frame-Options '' @ in_quotes ''DENY'',
        '''',
        ''    <Location />'',
        ''        '' @ requirement,
        ''        ProxyPass https://127.0.0.1:9080/'',
        ''        ProxyPassReverse https://127.0.0.1:9080/'',
        ''    </Location>'',
        ''</VirtualHost>'',
        '''']"

definition requirement_of :: "string \<Rightarrow> string" where
  "requirement_of allow_from = (if allow_from = ''all'' then ''Require all granted'' else ''Require ip '' @ allow_from)"

definition restore_site :: "aa_host \<Rightarrow> aa_apache \<Rightarrow> string option \<Rightarrow> bool \<Rightarrow> history \<Rightarrow> history" where
  "restore_site host a old wasEnabled h =
     (let target = Join2 (apSitesAvailable a) admin_site;
          h1 = (case old of Some content \<Rightarrow> snd (atomicWrite host target content ''0644'' h) | None \<Rightarrow> snd (aa_run host [''(remove)'', target] h));
          h2 = (if apSitesAvailable a = apSitesEnabled a then h1
                else snd (aa_run host [if wasEnabled then apEnable a else apDisable a, admin_site] h1));
          h3 = snd (aa_run host [apControl a, ''configtest''] h2)
      in snd (aa_run host [systemctl_path, ''reload'', apService a] h3))"

text \<open>Removing a file that is not there counts as success (\<^verbatim>\<open>os.IsNotExist\<close>).\<close>

definition switch_site :: "aa_host \<Rightarrow> aa_apache \<Rightarrow> bool \<Rightarrow> bool \<Rightarrow> history \<Rightarrow> bool \<times> history" where
  "switch_site host a enabled wasEnabled h =
     (let target = Join2 (apSitesAvailable a) admin_site; enabledTarget = Join2 (apSitesEnabled a) admin_site in
      if enabled then
        (if apSitesAvailable a \<noteq> apSitesEnabled a \<and> \<not> aa_present host h enabledTarget
         then aa_run host [apEnable a, admin_site] h else (True, h))
      else if apSitesAvailable a = apSitesEnabled a then
        (case run_command (aa_exec host) [''(remove)'', target] h of (r, h1) \<Rightarrow> (succeeded r \<or> err r = ''not exist'', h1))
      else if wasEnabled then aa_run host [apDisable a, admin_site] h
      else (True, h))"

definition publish_site :: "aa_host \<Rightarrow> aa_profile \<Rightarrow> aa_apache \<Rightarrow> aa_settings \<Rightarrow> string list \<Rightarrow> bool \<Rightarrow> history \<Rightarrow> bool \<times> history" where
  "publish_site host p a s addresses wasEnabled h =
     (case switch_site host a (seEnabled s) wasEnabled h of (ok, h1) \<Rightarrow>
        if \<not> ok then (False, h1)
        else case aa_run host [apControl a, ''configtest''] h1 of (ok, h2) \<Rightarrow>
             if \<not> ok then (False, h2)
             else case aa_run host [systemctl_path, ''reload'', apService a] h2 of (ok, h3) \<Rightarrow>
                  if \<not> ok then (False, h3)
                  else atomicWrite host adminProfile (profile_text (new_profile p s addresses)) ''0640'' h3)"

definition updateApache :: "aa_host \<Rightarrow> aa_profile \<Rightarrow> aa_apache \<Rightarrow> aa_settings \<Rightarrow> history \<Rightarrow> bool \<times> history" where
  "updateApache host p a s h =
     (let target = Join2 (apSitesAvailable a) admin_site; enabledTarget = Join2 (apSitesEnabled a) admin_site in
      if \<not> IsAbs (prAppRoot p) \<or> list_ex (\<lambda>c. c \<in> {CHR 0x22, CHR 0x0D, CHR 0x0A}) (prAppRoot p) then (False, h)
      else if list_ex (aa_symlink host h) [adminProfile, admin_certificate, admin_privateKey, target] then (False, h)
      else let addresses = addresses_of (seAddress s);
               content = render_site (map (endpoint (sePort s)) addresses) (requirement_of (seAllowFrom s));
               old = files_after host h target; wasEnabled = aa_present host h enabledTarget
           in case atomicWrite host target content ''0644'' h of (ok, h1) \<Rightarrow>
              if \<not> ok then (False, h1)
              else case publish_site host p a s addresses wasEnabled h1 of (ok, h2) \<Rightarrow>
                   if \<not> ok then (False, restore_site host a old wasEnabled h2) else (True, h2))"

definition aa_update :: "aa_host \<Rightarrow> aa_settings \<Rightarrow> history \<Rightarrow> bool \<times> history" where
  "aa_update host s h =
     (if \<not> aa_validate s then (False, h)
      else case loadAdmin (files_after host h adminProfile) of
             None \<Rightarrow> (False, h)
           | Some p \<Rightarrow>
               let a = loadApache (files_after host h apacheProfile) in
               if apacheAvailable host a then updateApache host p a s h else updateDirect host p s h)"

definition reconcilePackage :: "aa_host \<Rightarrow> history \<Rightarrow> bool \<times> history" where
  "reconcilePackage host h =
     (case loadAdmin (files_after host h adminProfile) of
        None \<Rightarrow> (False, h)
      | Some p \<Rightarrow>
          aa_update host \<lparr>seEnabled = prEnabled p, sePort = prPort p, seAddress = prAddress p, seAllowFrom = prAllowFrom p\<rparr> h)"

definition update_reply :: "aa_host \<Rightarrow> string \<Rightarrow> bool \<times> history \<Rightarrow> backend_reply \<times> history" where
  "update_reply host code = (\<lambda>(ok, h). (if ok then success (aa_status host h) else failure 2 code, h))"

definition admin_access_handle :: "aa_host \<Rightarrow> history backend_handler" where
  "admin_access_handle host command args h =
     (if command = ''status'' \<and> args = [] then (success (aa_status host h), h)
      else if command = ''update'' \<and> length args = 1 then
        (case aa_decode host (args ! 0) of
           None \<Rightarrow> (failure 2 ''INVALID_ARGUMENT'', h)
         | Some s \<Rightarrow> update_reply host ''ADMIN_ACCESS_UPDATE_FAILED'' (aa_update host s h))
      else if command = ''reconcile-package'' \<and> args = [] then
        update_reply host ''ADMIN_ACCESS_RECONCILE_FAILED'' (reconcilePackage host h)
      else if command = '''' then (failure 2 ''MISSING_COMMAND'', h)
      else (failure 2 ''COMMAND_NOT_FOUND'', h))"

interpretation admin_access: domain_handler "admin_access_handle host" for host
  by unfold_locales (auto simp: admin_access_handle_def update_reply_def split: option.split prod.split)

section \<open>What the steps do to files\<close>

text \<open>
  \<^verbatim>\<open>os.CreateTemp\<close> with the pattern of the code: the name ends in an element that begins with \<^verbatim>\<open>.aegisadmin-\<close>.
\<close>

definition temp_names :: "aa_host \<Rightarrow> bool" where
  "temp_names host \<longleftrightarrow>
     (\<forall>h dir. let r = aa_exec host h [''(create-temp)'', dir, ''.aegisadmin-*''] in succeeded r \<longrightarrow> \<not> lasting (out r))"

lemma lasting_profiles [simp]: "lasting adminProfile" "lasting webProfile" "lasting apacheProfile"
  by code_simp+

lemma files_after_snoc:
  "files_after host (h @ [argv]) =
     (if succeeded (aa_exec host h argv) then file_step argv (files_after host h) else files_after host h)"
  by (simp add: files_after_def)

lemma atomicWrite_files:
  assumes "temp_names host" "lasting path" "lasting q"
  shows "files_after host (snd (atomicWrite host path content mode h)) q =
           (if fst (atomicWrite host path content mode h) \<and> q = path then Some content else files_after host h q)"
proof (cases "succeeded (aa_exec host h [''(create-temp)'', Dir path, ''.aegisadmin-*''])")
  case False
  then show ?thesis by (simp add: atomicWrite_def run_command_def files_after_snoc)
next
  case True
  let ?name = "out (aa_exec host h [''(create-temp)'', Dir path, ''.aegisadmin-*''])"
  have "\<not> lasting ?name" using assms(1) True by (simp add: temp_names_def Let_def)
  then have "?name \<noteq> q" "?name \<noteq> path" using assms(2,3) by auto
  then show ?thesis
    using True by (auto simp: atomicWrite_def run_command_def files_after_snoc Let_def simp del: append_assoc)
qed

lemma aa_run_files: "c \<notin> {''(write)'', ''(rename)'', ''(remove)''} \<Longrightarrow> files_after host (snd (aa_run host (c # cs) h)) = files_after host h"
  by (simp add: aa_run_def run_command_def files_after_snoc)

lemma aa_run_eq: "aa_run host argv h = (ok, h') \<longleftrightarrow> ok = succeeded (aa_exec host h argv) \<and> h' = h @ [argv]"
  by (auto simp: aa_run_def run_command_def)

definition restorable :: "aa_host \<Rightarrow> history \<Rightarrow> string \<Rightarrow> bool" where
  "restorable host h p \<longleftrightarrow>
     (case files_after host h p of
        Some content \<Rightarrow> \<forall>mode h'. fst (atomicWrite host p content mode h')
      | None \<Rightarrow> \<forall>h'. succeeded (aa_exec host h' [''(remove)'', p]))"

lemma write_back_files:
  assumes "temp_names host" "lasting p" "lasting q" "restorable host h p" "files_after host h p \<noteq> None"
  shows "files_after host (write_back host p mode (files_after host h p) h') q = (if q = p then files_after host h p else files_after host h' q)"
  using assms by (auto simp: write_back_def restorable_def atomicWrite_files)

lemma restore_direct_files:
  assumes "temp_names host" "lasting q" "restorable host h webProfile" "restorable host h adminProfile"
    "files_after host h webProfile \<noteq> None" "files_after host h adminProfile \<noteq> None"
  shows "files_after host (restore_direct host (files_after host h webProfile) (files_after host h adminProfile) h') q =
           (if q = webProfile \<or> q = adminProfile then files_after host h q else files_after host h' q)"
  using assms by (auto simp: restore_direct_def aa_run_files write_back_files)

definition direct_text :: "aa_settings \<Rightarrow> string" where
  "direct_text s = web_text (directListenAddresses (addresses_of (seAddress s)) (sePort s) (seEnabled s)) (seAllowFrom s)"

definition admin_text :: "aa_profile \<Rightarrow> aa_settings \<Rightarrow> string" where
  "admin_text p s = profile_text (new_profile p s (addresses_of (seAddress s)))"

lemma updateDirect_cases:
  assumes "updateDirect host p s h = (ok, h')"
  obtains "\<not> ok" "h' = h"
  | h1 where "\<not> ok" "atomicWrite host webProfile (direct_text s) ''0640'' h = (False, h1)" "h' = h1"
  | h1 ok2 h2 h3 where "\<not> ok" "atomicWrite host webProfile (direct_text s) ''0640'' h = (True, h1)"
      "atomicWrite host adminProfile (admin_text p s) ''0640'' h1 = (ok2, h2)" "h3 = h2 \<or> h3 = h2 @ [restart_web]"
      "h' = restore_direct host (files_after host h webProfile) (files_after host h adminProfile) h3"
  | h1 h2 where ok "atomicWrite host webProfile (direct_text s) ''0640'' h = (True, h1)"
      "atomicWrite host adminProfile (admin_text p s) ''0640'' h1 = (True, h2)" "h' = h2 @ [restart_web]"
proof -
  obtain ok1 h1 where 1: "atomicWrite host webProfile (direct_text s) ''0640'' h = (ok1, h1)" by fastforce
  obtain ok2 h2 where 2: "atomicWrite host adminProfile (admin_text p s) ''0640'' h1 = (ok2, h2)" by fastforce
  note u = assms [unfolded updateDirect_def direct_text_def [symmetric] admin_text_def [symmetric] Let_def 1 2 prod.case]
  consider "h' = h" "\<not> ok" | "\<not> ok1" "h' = h1" "\<not> ok"
    | ok1 "\<not> ok2" "\<not> ok" "h' = restore_direct host (files_after host h webProfile) (files_after host h adminProfile) h2"
    | ok1 ok2 "\<not> ok" "h' = restore_direct host (files_after host h webProfile) (files_after host h adminProfile) (h2 @ [restart_web])"
    | ok1 ok2 ok "h' = h2 @ [restart_web]"
    using u 2 by (auto simp: aa_run_def run_command_def split: if_splits)
  then show thesis using 1 2 that by cases auto
qed

lemma updateDirect_failed:
  assumes "temp_names host" "restorable host h webProfile" "restorable host h adminProfile"
    "files_after host h webProfile \<noteq> None" "files_after host h adminProfile \<noteq> None"
    and "updateDirect host p s h = (False, h')" "lasting q"
  shows "files_after host h' q = files_after host h q"
  using assms(6)
proof (cases rule: updateDirect_cases)
  case (2 h1)
  then show ?thesis using atomicWrite_files [OF assms(1) _ assms(7), of webProfile "direct_text s" "''0640''" h] by simp
next
  case (3 h1 ok2 h2 h3)
  have "files_after host h3 q = files_after host h2 q" using 3(4) by (auto simp: files_after_snoc)
  then show ?thesis
    using 3 atomicWrite_files [OF assms(1) _ assms(7), of webProfile "direct_text s" "''0640''" h]
      atomicWrite_files [OF assms(1) _ assms(7), of adminProfile "admin_text p s" "''0640''" h1]
      restore_direct_files [OF assms(1) assms(7) assms(2-5)]
    by (auto split: if_splits)
qed auto

lemma updateDirect_done:
  assumes "temp_names host" "updateDirect host p s h = (True, h')"
  shows "files_after host h' adminProfile = Some (admin_text p s)" "files_after host h' webProfile = Some (direct_text s)"
proof -
  from assms(2) obtain h1 h2 where "atomicWrite host webProfile (direct_text s) ''0640'' h = (True, h1)"
      "atomicWrite host adminProfile (admin_text p s) ''0640'' h1 = (True, h2)" "h' = h2 @ [restart_web]"
    by (cases rule: updateDirect_cases) auto
  then show "files_after host h' adminProfile = Some (admin_text p s)" "files_after host h' webProfile = Some (direct_text s)"
    using atomicWrite_files [OF assms(1), of webProfile webProfile "direct_text s" "''0640''" h]
      atomicWrite_files [OF assms(1), of adminProfile webProfile "admin_text p s" "''0640''" h1]
      atomicWrite_files [OF assms(1), of adminProfile adminProfile "admin_text p s" "''0640''" h1]
    by (simp_all add: files_after_snoc)
qed

section \<open>Publication by Apache\<close>

abbreviation site_of :: "aa_apache \<Rightarrow> string" where
  "site_of a \<equiv> Join2 (apSitesAvailable a) admin_site"

definition apache_paths :: "aa_apache \<Rightarrow> bool" where
  "apache_paths a \<longleftrightarrow> list_all IsAbs [apControl a, apEnable a, apDisable a]"

lemma apache_paths_loaded: "apache_paths (loadApache content)"
  by (auto simp: apache_paths_def loadApache_def apache_value_def Let_def IsAbs_def split: option.split)

lemma absolute_command: "IsAbs c \<Longrightarrow> c \<notin> {''(write)'', ''(rename)'', ''(remove)''}"
  by (auto simp: IsAbs_def)

definition commands_only :: "string list list \<Rightarrow> bool" where
  "commands_only new \<longleftrightarrow> list_all (\<lambda>argv. argv \<noteq> [] \<and> IsAbs (hd argv)) new"

lemma commands_files: "commands_only new \<Longrightarrow> files_after host (h @ new) = files_after host h"
proof (induction new arbitrary: h)
  case (Cons argv new)
  then obtain c cs where "argv = c # cs" "IsAbs c" by (cases argv) (auto simp: commands_only_def)
  then have "files_after host (h @ [argv]) = files_after host h" using absolute_command [of c] by (simp add: files_after_snoc)
  moreover have "files_after host ((h @ [argv]) @ new) = files_after host (h @ [argv])"
    using Cons by (intro Cons.IH) (simp add: commands_only_def)
  ultimately show ?case by simp
qed simp

lemma commands_only_apache [simp]:
  assumes "apache_paths a"
  shows "commands_only [[apEnable a, x]]" "commands_only [[apDisable a, x]]" "commands_only [[apControl a, x]]"
    "commands_only [[apControl a, x], [systemctl_path, y, z]]" "commands_only [[systemctl_path, y, z]]"
  using assms by (auto simp: commands_only_def apache_paths_def IsAbs_def)

lemma switch_site_files:
  assumes "switch_site host a enabled wasEnabled h = (ok, h')" "apache_paths a" "q \<noteq> site_of a"
  shows "files_after host h' q = files_after host h q"
proof -
  have "h' = h \<or> (\<exists>new. h' = h @ new \<and> commands_only new) \<or> h' = h @ [[''(remove)'', site_of a]]"
    using assms(1,2) by (auto simp: switch_site_def Let_def aa_run_eq run_command_def split: if_splits)
  then show ?thesis using assms(3) commands_files by (auto simp: files_after_snoc)
qed

lemma publish_site_files:
  assumes "temp_names host" "publish_site host p a s addresses wasEnabled h = (ok, h')" "apache_paths a" "lasting q" "q \<noteq> site_of a"
  shows "files_after host h' q =
           (if ok \<and> q = adminProfile then Some (profile_text (new_profile p s addresses)) else files_after host h q)"
proof -
  obtain ok1 h1 where sw: "switch_site host a (seEnabled s) wasEnabled h = (ok1, h1)" by fastforce
  note f = switch_site_files [OF sw assms(3,5)]
  let ?h = "h1 @ [[apControl a, ''configtest''], [systemctl_path, ''reload'', apService a]]"
    and ?text = "profile_text (new_profile p s addresses)"
  let ?c = "[[apControl a, ''configtest'']]"
  have pub: "publish_site host p a s addresses wasEnabled h =
      (if \<not> ok1 then (False, h1) else if \<not> succeeded (aa_exec host h1 [apControl a, ''configtest'']) then (False, h1 @ ?c)
       else if \<not> succeeded (aa_exec host (h1 @ ?c) [systemctl_path, ''reload'', apService a]) then (False, ?h)
       else atomicWrite host adminProfile ?text ''0640'' ?h)"
    by (simp add: publish_site_def sw aa_run_def run_command_def)
  have c: "files_after host (h1 @ ?c) = files_after host h1" "files_after host ?h = files_after host h1"
    using commands_files [of ?c host h1] commands_files [of "[[apControl a, ''configtest''], [systemctl_path, ''reload'', apService a]]" host h1]
      commands_only_apache [OF assms(3)] by blast+
  consider "\<not> ok" "h' = h1" | "\<not> ok" "h' = h1 @ ?c" | "\<not> ok" "h' = ?h" | "atomicWrite host adminProfile ?text ''0640'' ?h = (ok, h')"
    using assms(2) unfolding pub by (metis (no_types, lifting) prod.inject)
  then show ?thesis
    using f c atomicWrite_files [OF assms(1) _ assms(4), of adminProfile ?text "''0640''" ?h] by cases simp_all
qed

lemma restore_site_files:
  assumes "temp_names host" "restorable host h0 (site_of a)" "apache_paths a" "lasting (site_of a)" "lasting q"
  shows "files_after host (restore_site host a (files_after host h0 (site_of a)) wasEnabled h) q =
           (if q = site_of a then files_after host h0 q else files_after host h q)"
proof -
  define h1 where "h1 = (case files_after host h0 (site_of a) of Some content \<Rightarrow> snd (atomicWrite host (site_of a) content ''0644'' h)
      | None \<Rightarrow> snd (aa_run host [''(remove)'', site_of a] h))"
  have "files_after host h1 q = (if q = site_of a then files_after host h0 q else files_after host h q)"
    using assms by (auto simp: h1_def restorable_def atomicWrite_files aa_run_def run_command_def files_after_snoc split: option.split)
  moreover have "restore_site host a (files_after host h0 (site_of a)) wasEnabled h =
      h1 @ ((if apSitesAvailable a = apSitesEnabled a then [] else [[if wasEnabled then apEnable a else apDisable a, admin_site]]) @
            [[apControl a, ''configtest''], [systemctl_path, ''reload'', apService a]])" (is "_ = h1 @ ?new")
    unfolding h1_def by (simp add: restore_site_def Let_def aa_run_def run_command_def split: option.split)
  moreover have "commands_only ?new" using assms(3) by (auto simp: commands_only_def apache_paths_def IsAbs_def)
  ultimately show ?thesis using commands_files [of ?new host h1] by simp
qed

definition admin_site_text :: "aa_settings \<Rightarrow> string" where
  "admin_site_text s = render_site (map (endpoint (sePort s)) (addresses_of (seAddress s))) (requirement_of (seAllowFrom s))"

lemma updateApache_cases:
  assumes "updateApache host p a s h = (ok, h')"
  obtains "\<not> ok" "h' = h"
  | "\<not> ok" "atomicWrite host (site_of a) (admin_site_text s) ''0644'' h = (False, h')"
  | h1 h2 wasEnabled where "\<not> ok" "atomicWrite host (site_of a) (admin_site_text s) ''0644'' h = (True, h1)"
      "publish_site host p a s (addresses_of (seAddress s)) wasEnabled h1 = (False, h2)"
      "h' = restore_site host a (files_after host h (site_of a)) wasEnabled h2"
  | h1 wasEnabled where ok "atomicWrite host (site_of a) (admin_site_text s) ''0644'' h = (True, h1)"
      "publish_site host p a s (addresses_of (seAddress s)) wasEnabled h1 = (True, h')"
proof -
  obtain ok1 h1 where 1: "atomicWrite host (site_of a) (admin_site_text s) ''0644'' h = (ok1, h1)" by fastforce
  obtain ok2 h2 where 2: "publish_site host p a s (addresses_of (seAddress s)) (aa_present host h (Join2 (apSitesEnabled a) admin_site)) h1 = (ok2, h2)"
    by fastforce
  note u = assms [unfolded updateApache_def admin_site_text_def [symmetric] Let_def 1 2 prod.case]
  show thesis using u 1 2 that by (cases ok1; cases ok2) (auto split: if_splits)
qed

lemma updateApache_failed:
  assumes "temp_names host" "restorable host h (site_of a)" "apache_paths a" "lasting (site_of a)"
    and "updateApache host p a s h = (False, h')" "lasting q"
  shows "files_after host h' q = files_after host h q"
  using assms(5)
proof (cases rule: updateApache_cases)
  case 2
  then show ?thesis using atomicWrite_files [OF assms(1,4,6), of "admin_site_text s" "''0644''" h] by simp
next
  case (3 h1 h2 wasEnabled)
  have "files_after host h1 q = files_after host h q" if "q \<noteq> site_of a"
    using that 3(2) atomicWrite_files [OF assms(1,4,6), of "admin_site_text s" "''0644''" h] by simp
  then show ?thesis
    using publish_site_files [OF assms(1) 3(3) assms(3,6)] restore_site_files [OF assms(1-4,6)] 3(4) by simp
qed auto

lemma updateApache_done:
  assumes "temp_names host" "apache_paths a" "site_of a \<noteq> adminProfile" "updateApache host p a s h = (True, h')"
  shows "files_after host h' adminProfile = Some (admin_text p s)"
  using assms(4)
proof (cases rule: updateApache_cases)
  case (4 h1 wasEnabled)
  then show ?thesis
    using publish_site_files [OF assms(1) 4(3) assms(2) _ assms(3) [symmetric]] by (simp add: admin_text_def)
qed auto

lemma site_not_profile: "IsAbs (apSitesAvailable a) \<Longrightarrow> site_of a \<noteq> adminProfile"
proof -
  assume abs: "IsAbs (apSitesAvailable a)"
  then have "IsAbs (apSitesAvailable a @ CHR ''/'' # admin_site)" by (cases "apSitesAvailable a") (auto simp: IsAbs_def)
  then have "elements (site_of a) = elements (apSitesAvailable a) @ [admin_site]"
    using abs elements_snoc [of admin_site "apSitesAvailable a"] elements_Clean [of "apSitesAvailable a @ CHR ''/'' # admin_site"]
    by (auto simp: Join2_def plain_name_def IsAbs_def)
  moreover have "last (elements adminProfile) \<noteq> admin_site" by code_simp
  ultimately show ?thesis by auto
qed

section \<open>The profile reads back\<close>

definition trimmed :: "string \<Rightarrow> bool" where
  "trimmed s \<longleftrightarrow> space_width s = 0 \<and> space_width_rev (rev s) = 0"

lemma trimmed_id: "trimmed s \<Longrightarrow> trim_space s = s"
  by (simp add: trimmed_def trim_space_id)

lemma space_width_prefix: "space_width (u @ v) = 0 \<Longrightarrow> space_width u = 0"
  by (cases u; cases "tl u"; cases "tl (tl u)") (auto simp: space_width_zero split: list.splits)

lemma trimmed_trim_space: "trimmed (trim_space s)"
proof -
  obtain v where "rev (trim_left s) = v @ trim_left_rev (rev (trim_left s))" using trim_left_rev_suffix by blast
  then have "trim_left s = trim_space s @ rev v" unfolding trim_space_def by (metis rev_append rev_rev_ident)
  then have "space_width (trim_space s) = 0" using trim_left_head [of s] space_width_prefix by metis
  then show ?thesis by (simp add: trimmed_def trim_space_def trim_left_rev_end)
qed

lemma ascii_width:
  assumes "byte_val c < 128" "\<not> space1 (byte_val c)"
  shows "space_width (c # s) = 0" "space_width_rev (c # s) = 0"
  using assms by (auto simp: space_width_zero space_width_rev_zero space2_def space3_def split: list.splits)

lemma width_rev_ascii: "space_width_rev w = 0 \<Longrightarrow> w \<noteq> [] \<Longrightarrow> byte_val d < 128 \<Longrightarrow> space_width_rev (w @ d # t) = 0"
  by (cases w; cases "tl w"; cases "tl (tl w)") (auto simp: space_width_rev_zero space2_def space3_def split: list.splits)

text \<open>An entry of the profile: a key of lower-case letters and a value without white space at its ends.\<close>

lemma trimmed_entry:
  assumes "k = c # cs" "byte_val c < 128" "\<not> space1 (byte_val c)" "trimmed v"
  shows "trimmed (k @ CHR ''='' # v)"
proof (cases "v = []")
  case True
  then show ?thesis using assms ascii_width [of "CHR ''=''" "rev k"] by (simp add: trimmed_def ascii_width space1_def)
next
  case False
  then have "space_width_rev (rev v @ CHR ''='' # rev k) = 0"
    using assms(4) by (intro width_rev_ascii) (auto simp: trimmed_def)
  then show ?thesis using assms(1-3) by (simp add: trimmed_def ascii_width)
qed


lemma trimmed_ascii: "list_all (\<lambda>c. byte_val c < 128 \<and> \<not> space1 (byte_val c)) s \<Longrightarrow> trimmed s"
proof (cases "s = []")
  case False
  assume s: "list_all (\<lambda>c. byte_val c < 128 \<and> \<not> space1 (byte_val c)) s"
  obtain c cs where "s = c # cs" using False by (cases s) auto
  moreover obtain d ds where "rev s = d # ds" using False by (cases "rev s") auto
  moreover have "d \<in> set s" using calculation(2) by (metis list.set_intros(1) set_rev)
  ultimately show ?thesis using s by (auto simp: trimmed_def list_all_iff ascii_width)
qed (simp add: trimmed_def)

section \<open>Lists of addresses read back\<close>

lemma split_where_sep: "list_all (\<lambda>x. \<not> p x) w \<Longrightarrow> p c \<Longrightarrow> split_where p (w @ c # r) = w # split_where p r"
  by (induction w) auto

lemma split_where_none: "list_all (\<lambda>x. \<not> p x) w \<Longrightarrow> split_where p w = [w]"
  by (induction w) auto

lemma split_where_nonempty [simp]: "split_where p s \<noteq> []"
  by (induction s) (auto split: list.splits)

lemma split_where_parts: "w \<in> set (split_where p s) \<Longrightarrow> list_all (\<lambda>x. \<not> p x) w"
  by (induction s arbitrary: w) (auto split: if_splits list.splits)

lemma fields_where_parts: "w \<in> set (fields_where p s) \<Longrightarrow> list_all (\<lambda>x. \<not> p x) w \<and> w \<noteq> ''''"
  by (auto simp: fields_where_def split_where_parts)

lemma fields_where_join:
  assumes "\<forall>w \<in> set ws. list_all (\<lambda>x. \<not> p x) w \<and> w \<noteq> ''''" "p c" "ws \<noteq> []"
  shows "fields_where p (join [c] ws) = ws"
  using assms
proof (induction "[c]" ws rule: join.induct)
  case (3 w v ws)
  then show ?case by (simp add: fields_where_def split_where_sep)
qed (auto simp: fields_where_def split_where_none)

lemma check_addresses_result: "check_addresses n seen items = Some r \<Longrightarrow> r = seen @ items"
  by (induction n seen items rule: check_addresses.induct) (auto split: if_splits)

lemma check_addresses_items: "check_addresses n seen items = Some r \<Longrightarrow> w \<in> set items \<Longrightarrow> w = ''*'' \<or> ParseIP w \<noteq> None"
  by (induction n seen items rule: check_addresses.induct) (auto split: if_splits)

lemma parseAddresses_fields: "parseAddresses value = Some as \<Longrightarrow> as = fields_where address_separator value \<and> as \<noteq> []"
  by (auto simp: parseAddresses_def Let_def split: if_splits dest: check_addresses_result)

lemma parseAddresses_join:
  assumes "parseAddresses value = Some as"
  shows "parseAddresses (join '','' as) = Some as"
proof -
  have as: "as = fields_where address_separator value" "as \<noteq> []" using parseAddresses_fields [OF assms] by auto
  have "fields_where address_separator (join '','' as) = as"
    using as by (intro fields_where_join) (auto simp: address_separator_def dest!: fields_where_parts)
  then show ?thesis using assms as by (simp add: parseAddresses_def Let_def)
qed

definition value_char :: "char \<Rightarrow> bool" where
  "value_char c \<longleftrightarrow> byte_val c < 128 \<and> \<not> space1 (byte_val c) \<and> c \<noteq> CHR ''#'' \<and> c \<noteq> CHR 0x0A"

lemma value_char_address: "address_char c \<Longrightarrow> value_char c"
  using address_char_plain [of c] by (simp add: value_char_def)

lemma parseAddresses_chars:
  assumes "parseAddresses value = Some as"
  shows "list_all value_char (join '','' as)"
proof -
  have "list_all value_char w" if "w \<in> set as" for w
  proof -
    have "w = ''*'' \<or> ParseIP w \<noteq> None"
      using assms that check_addresses_items [of _ "[]" _ as w] parseAddresses_fields [OF assms]
      by (auto simp: parseAddresses_def Let_def split: if_splits)
    then show ?thesis
      using ParseIP_chars [of w] by (auto simp: list_all_iff value_char_address value_char_def [of "CHR ''*''"] space1_def)
  qed
  then show ?thesis
    using join_subset [of "'',''" as] by (fastforce simp: list_all_iff value_char_def space1_def)
qed

lemma cut_char_parts: "cut_char c s = Some (a, b) \<Longrightarrow> s = a @ c # b"
  by (induction s arbitrary: a b) (auto split: if_splits option.splits)

lemma allow_from_chars:
  assumes "aa_validate s"
  shows "list_all value_char (seAllowFrom s)"
proof -
  consider "seAllowFrom s = ''all''" | "ParseIP (seAllowFrom s) \<noteq> None" | "ParseCIDR (seAllowFrom s)"
    using assms by (auto simp: aa_validate_def)
  then show ?thesis
  proof cases
    case 1
    then show ?thesis by (simp add: value_char_def space1_def)
  next
    case 2
    then show ?thesis using ParseIP_chars by (auto simp: list_all_iff value_char_address)
  next
    case 3
    then obtain addr bits where cut: "cut_char CHR ''/'' (seAllowFrom s) = Some (addr, bits)"
      and bits: "list_all is_digit bits" and "ParseIP addr \<noteq> None"
      by (auto simp: ParseCIDR_def ParseIP_def split: option.splits)
    then have "list_all address_char addr" using ParseIP_chars by blast
    then show ?thesis
      using cut_char_parts [OF cut] bits
      by (auto simp: list_all_iff value_char_address address_char_digit value_char_def [of "CHR ''/''"] space1_def)
  qed
qed

section \<open>The profile as a whole\<close>

definition entry_value :: "string \<Rightarrow> bool" where
  "entry_value v \<longleftrightarrow> trimmed v \<and> CHR ''#'' \<notin> set v \<and> CHR 0x0A \<notin> set v"

lemma value_char_not: "\<not> value_char CHR ''#''" "\<not> value_char CHR 0x0A"
  by (simp_all add: value_char_def)

lemma entry_value_chars: "list_all value_char v \<Longrightarrow> entry_value v"
proof -
  assume v: "list_all value_char v"
  then have "trimmed v" by (intro trimmed_ascii) (auto simp: list_all_iff value_char_def)
  then show ?thesis using v value_char_not by (auto simp: entry_value_def list_all_iff)
qed

definition entry_key :: "string \<Rightarrow> bool" where
  "entry_key k \<longleftrightarrow> k \<noteq> [] \<and> list_all value_char k \<and> CHR ''='' \<notin> set k"

lemma before_char_id: "c \<notin> set s \<Longrightarrow> before_char c s = s"
  by (auto simp: before_char_def takeWhile_eq_all_conv)

lemma cut_char_key: "CHR ''='' \<notin> set k \<Longrightarrow> cut_char CHR ''='' (k @ CHR ''='' # v) = Some (k, v)"
  by (induction k) auto

lemma profile_pairs_entry:
  assumes "entry_key k" "entry_value v"
  shows "profile_pairs (k @ CHR ''='' # v @ CHR 0x0A # rest) = (k, v) # profile_pairs rest"
proof -
  let ?line = "k @ CHR ''='' # v"
  have k: "trimmed k" "CHR ''#'' \<notin> set k" "CHR 0x0A \<notin> set k" "CHR ''='' \<notin> set k"
    using assms(1) entry_value_chars [of k] by (simp_all add: entry_key_def entry_value_def)
  have v: "trimmed v" "CHR ''#'' \<notin> set v" "CHR 0x0A \<notin> set v" using assms(2) by (auto simp: entry_value_def)
  obtain c cs where "k = c # cs" using assms(1) by (cases k) (auto simp: entry_key_def)
  then have "trimmed ?line" using assms(1) v(1) by (intro trimmed_entry [of k c cs]) (auto simp: entry_key_def value_char_def)
  then have "without_comment ?line = ?line" using k v by (simp add: without_comment_def before_char_id trimmed_id)
  moreover have "lines_of (?line @ CHR 0x0A # rest) = ?line # lines_of rest"
    using k v by (intro split_char_append_sep) auto
  ultimately show ?thesis using k v by (simp add: profile_pairs_def cut_char_key trimmed_id)
qed

lemma profile_pairs_empty: "profile_pairs '''' = []"
  by code_simp

lemma entry_keys: "entry_key ''enabled''" "entry_key ''app_root''" "entry_key ''address''" "entry_key ''port''" "entry_key ''allow_from''"
  by (simp_all add: entry_key_def value_char_def space1_def)

lemma itoa_value: "0 \<le> i \<Longrightarrow> entry_value (itoa i)"
  using decimal_digits [of "nat i"]
  by (intro entry_value_chars) (auto simp: itoa_def list_all_iff value_char_address address_char_digit)

lemma boolean_value: "entry_value (boolean_text b)"
  by (intro entry_value_chars) (simp add: boolean_text_def value_char_def space1_def)

lemma profile_pairs_text:
  assumes "entry_value (prAppRoot p)" "entry_value (prAddress p)" "entry_value (prAllowFrom p)" "0 \<le> prPort p"
  shows "profile_pairs (profile_text p) =
           [(''enabled'', boolean_text (prEnabled p)), (''app_root'', prAppRoot p), (''address'', prAddress p), (''port'', itoa (prPort p)),
            (''allow_from'', prAllowFrom p)]"
proof -
  note e = profile_pairs_entry [OF entry_keys(1) boolean_value [of "prEnabled p"]] profile_pairs_entry [OF entry_keys(2) assms(1)]
    profile_pairs_entry [OF entry_keys(3) assms(2)] profile_pairs_entry [OF entry_keys(4) itoa_value [OF assms(4)]]
    profile_pairs_entry [OF entry_keys(5) assms(3)]
  show ?thesis
    using e(5) [of "''''"] unfolding profile_text_def
    by (simp add: e [simplified] profile_pairs_empty)
qed

lemma loadAdmin_text:
  assumes "entry_value (prAppRoot p)" "prAppRoot p \<noteq> ''''"
    and "aa_validate \<lparr>seEnabled = e, sePort = prPort p, seAddress = prAddress p, seAllowFrom = prAllowFrom p\<rparr>"
    and "entry_value (prAddress p)"
  shows "loadAdmin (Some (profile_text p)) = Some p"
proof -
  have port: "1024 \<le> prPort p" "prPort p \<le> 65535" using assms(3) by (auto simp: aa_validate_def)
  have allow: "entry_value (prAllowFrom p)" using allow_from_chars [OF assms(3)] by (intro entry_value_chars) simp
  have "atoi (itoa (prPort p)) = (prPort p, True)" using port by (intro atoi_itoa) auto
  moreover have "aa_validate \<lparr>seEnabled = False, sePort = prPort p, seAddress = prAddress p, seAllowFrom = prAllowFrom p\<rparr>"
    using assms(3) by (simp add: aa_validate_def)
  ultimately show ?thesis
    using assms(2) profile_pairs_text [OF assms(1,4) allow] port
    by (cases p) (auto simp: loadAdmin_def readProfile_def boolean_text_def Let_def)
qed

text \<open>The root of the application in a profile that was read.\<close>

lemma profile_pairs_value: "(k, v) \<in> set (profile_pairs content) \<Longrightarrow> entry_value v"
proof -
  assume "(k, v) \<in> set (profile_pairs content)"
  then obtain raw k' x where raw: "raw \<in> set (lines_of content)" "cut_char CHR ''='' (without_comment raw) = Some (k', x)" "v = trim_space x"
    by (auto simp: profile_pairs_def split: option.splits) (metis (no_types, lifting))
  have "set v \<subseteq> set x" using raw(3) trim_space_set by simp
  also have "\<dots> \<subseteq> set (without_comment raw)" using cut_char_parts [OF raw(2)] by auto
  also have "\<dots> \<subseteq> set raw - {CHR ''#''}"
    unfolding without_comment_def using trim_space_set [of "before_char CHR ''#'' raw"] set_before_char [of "CHR ''#''" raw] by blast
  finally show ?thesis
    using raw(1,3) split_char_parts_no_sep [of raw] trimmed_trim_space by (auto simp: entry_value_def)
qed

lemma loadAdmin_root:
  assumes "loadAdmin content = Some p"
  shows "entry_value (prAppRoot p) \<and> prAppRoot p \<noteq> ''''"
proof -
  obtain t where t: "prAppRoot p = (case map_of (rev (profile_pairs t)) ''app_root'' of None \<Rightarrow> '''' | Some v \<Rightarrow> v)" and ne: "prAppRoot p \<noteq> ''''"
    using assms by (cases content) (auto simp: loadAdmin_def readProfile_def Let_def split: if_splits)
  then obtain v where v: "map_of (rev (profile_pairs t)) ''app_root'' = Some v" "prAppRoot p = v" by (auto split: option.splits)
  then have "(''app_root'', v) \<in> set (profile_pairs t)" using map_of_SomeD [OF v(1)] by simp
  then show ?thesis using ne v(2) profile_pairs_value by simp
qed

section \<open>Updates take effect or change nothing\<close>

lemma new_profile_reads_back:
  assumes "loadAdmin content = Some p" "aa_validate s"
  shows "loadAdmin (Some (admin_text p s)) = Some (new_profile p s (addresses_of (seAddress s)))"
proof -
  obtain as where as: "parseAddresses (seAddress s) = Some as" using assms(2) by (auto simp: aa_validate_def)
  let ?p = "new_profile p s as"
  have "aa_validate \<lparr>seEnabled = True, sePort = prPort ?p, seAddress = prAddress ?p, seAllowFrom = prAllowFrom ?p\<rparr>"
    using assms(2) parseAddresses_join [OF as] by (simp add: aa_validate_def new_profile_def)
  moreover have "entry_value (prAppRoot ?p)" "prAppRoot ?p \<noteq> ''''" using loadAdmin_root [OF assms(1)] by (simp_all add: new_profile_def)
  moreover have "entry_value (prAddress ?p)" using entry_value_chars [OF parseAddresses_chars [OF as]] by (simp add: new_profile_def)
  ultimately have "loadAdmin (Some (profile_text ?p)) = Some ?p" by (intro loadAdmin_text)
  then show ?thesis using as by (simp add: admin_text_def addresses_of_def)
qed

abbreviation apache_of :: "aa_host \<Rightarrow> history \<Rightarrow> aa_apache" where
  "apache_of host h \<equiv> loadApache (files_after host h apacheProfile)"

lemma apache_of_available: "IsAbs (apSitesAvailable (loadApache content))"
  by (auto simp: loadApache_def apache_value_def Let_def IsAbs_def split: option.split)

lemma aa_update_cases:
  assumes "aa_update host s h = (ok, h')"
  obtains "\<not> ok" "h' = h"
  | p where "aa_validate s" "loadAdmin (files_after host h adminProfile) = Some p" "updateApache host p (apache_of host h) s h = (ok, h')"
      "apacheAvailable host (apache_of host h)"
  | p where "aa_validate s" "loadAdmin (files_after host h adminProfile) = Some p" "updateDirect host p s h = (ok, h')"
      "\<not> apacheAvailable host (apache_of host h)"
  using assms by (auto simp: aa_update_def Let_def split: if_splits option.splits)

text \<open>
  C19: an update of the administration access that succeeds takes effect: the profile, read again, gives exactly the
  settings that were asked for (whether the access is enabled, the port, the addresses in their order, who may
  connect) and the root of the application it had before. This holds for both ways of publishing the access.
\<close>

theorem admin_update_takes_effect:
  assumes "temp_names host" "aa_update host s h = (True, h')"
  shows "\<exists>p p'. loadAdmin (files_after host h adminProfile) = Some p \<and> loadAdmin (files_after host h' adminProfile) = Some p' \<and>
           prEnabled p' = seEnabled s \<and> prPort p' = sePort s \<and> prAllowFrom p' = seAllowFrom s \<and> prAppRoot p' = prAppRoot p \<and>
           parseAddresses (prAddress p') = parseAddresses (seAddress s)"
proof -
  obtain p where valid: "aa_validate s" and p: "loadAdmin (files_after host h adminProfile) = Some p"
    and written: "files_after host h' adminProfile = Some (admin_text p s)"
    using assms(2)
  proof (cases rule: aa_update_cases)
    case (2 p)
    then show ?thesis
      using that updateApache_done [OF assms(1) apache_paths_loaded site_not_profile [OF apache_of_available]] by blast
  next
    case (3 p)
    then show ?thesis using that updateDirect_done(1) [OF assms(1)] by blast
  qed simp
  obtain as where as: "parseAddresses (seAddress s) = Some as" using valid by (auto simp: aa_validate_def)
  show ?thesis
    using p written new_profile_reads_back [OF p valid] as parseAddresses_join [OF as] by (auto simp: new_profile_def addresses_of_def)
qed

text \<open>What must be in place for a failed update to be undone: the old files can be written back.\<close>

definition undoable :: "aa_host \<Rightarrow> history \<Rightarrow> bool" where
  "undoable host h \<longleftrightarrow>
     temp_names host \<and> lasting (site_of (apache_of host h)) \<and>
     (if apacheAvailable host (apache_of host h) then restorable host h (site_of (apache_of host h))
      else restorable host h webProfile \<and> restorable host h adminProfile \<and> files_after host h webProfile \<noteq> None)"


section \<open>An example\<close>

definition sample_admin_profile :: string where
  "sample_admin_profile = ''enabled=true'' @ nl @ ''app_root=/a'' @ nl @ ''address=*'' @ nl @ ''port=9443'' @ nl @ ''allow_from=all'' @ nl"

text \<open>A host without Apache on which every step succeeds, except, if so chosen, the restart of the web server.\<close>

definition sample_aa :: "bool \<Rightarrow> aa_host" where
  "sample_aa restarts =
     \<lparr>aa_files = [adminProfile \<mapsto> sample_admin_profile, webProfile \<mapsto> ''old''], aa_symlink = (\<lambda>_ _. False), aa_present = (\<lambda>_ _. False),
      aa_runnable = (\<lambda>_. False), aa_decode = (\<lambda>_. None),
      aa_exec = (\<lambda>h argv. \<lparr>out = (if hd argv = ''(create-temp)'' then ''/.aegisadmin-1'' else ''''), err = '''',
                          status = (if argv = restart_web \<and> \<not> restarts then 1 else 0)\<rparr>)\<rparr>"

definition sample_settings :: aa_settings where
  "sample_settings = \<lparr>seEnabled = True, sePort = 9444, seAddress = ''192.0.2.1'', seAllowFrom = ''192.0.2.0/24''\<rparr>"

lemma sample_temp_names: "temp_names (sample_aa b)"
proof -
  have "\<not> lasting ''/.aegisadmin-1''" by code_simp
  then show ?thesis by (simp add: temp_names_def sample_aa_def)
qed

lemma sample_valid: "aa_validate sample_settings"
  by code_simp

lemma sample_profile: "loadAdmin (Some sample_admin_profile) \<noteq> None"
  by code_simp

lemma sample_writes: "fst (atomicWrite (sample_aa b) path content mode h)"
  by (simp add: atomicWrite_def run_command_def sample_aa_def Let_def)

lemma sample_files: "files_after (sample_aa b) [] adminProfile = Some sample_admin_profile" "files_after (sample_aa b) [] webProfile = Some ''old''"
  by (simp_all add: files_after_def sample_aa_def)

lemma sample_no_apache: "\<not> apacheAvailable (sample_aa b) a"
  by (simp add: apacheAvailable_def sample_aa_def)

lemma sample_restart: "succeeded (aa_exec (sample_aa b) h restart_web) = b"
  by (simp add: sample_aa_def)

lemma sample_update: "fst (aa_update (sample_aa b) sample_settings []) = b"
proof -
  obtain p where p: "loadAdmin (Some sample_admin_profile) = Some p" using sample_profile by blast
  have links: "\<not> aa_symlink (sample_aa b) h q" for h q by (simp add: sample_aa_def)
  show ?thesis
    using sample_writes [of b]
    by (simp add: aa_update_def sample_valid sample_files p sample_no_apache Let_def updateDirect_def links aa_run_def run_command_def
          case_prod_beta sample_restart)
qed

theorem admin_update_takes_effect_witness:
  "\<exists>p'. loadAdmin (files_after (sample_aa True) (snd (aa_update (sample_aa True) sample_settings [])) adminProfile) = Some p' \<and>
     prPort p' = 9444 \<and> prAllowFrom p' = ''192.0.2.0/24''"
proof -
  have "aa_update (sample_aa True) sample_settings [] = (True, snd (aa_update (sample_aa True) sample_settings []))"
    using sample_update [of True] by (metis prod.collapse)
  from admin_update_takes_effect [OF sample_temp_names this] show ?thesis by (auto simp: sample_settings_def)
qed


end
