(* ===== verification/Daemon.thy ===== *)
theory Daemon
  imports Domain_Services Domain_Logs Domain_Cron Domain_Firewall Domain_Fail2ban Domain_Tor Domain_Mysql Domain_Admin_Access
begin

text \<open>
  The daemon as \<^verbatim>\<open>cmd/aegisadmin-daemon/main.go\<close> puts it together: sixteen domains registered with the router, one
  connection after the other. The handlers of the eight domains modelled here are those of their theories;
  those of the other eight are a parameter about which nothing is assumed.
\<close>

record daemon_hosts =
  dh_admin :: aa_host
  dh_cron :: cron_host
  dh_cron_backend :: cron_backend
  dh_f2b :: f2b_host
  dh_f2b_backend :: f2b_backend
  dh_firewall :: fw_host
  dh_logs :: logs_host
  dh_logs_policy :: "string list \<times> string list"
  dh_mysql :: mysql_host
  dh_services :: services_host
  dh_tor :: tor_host

text \<open>In the order of the source.\<close>

definition registrations :: "daemon_hosts \<Rightarrow> (string \<Rightarrow> history backend_handler) \<Rightarrow> (string \<times> history backend_handler) list" where
  "registrations d others =
     [(''admin-access'', admin_access_handle (dh_admin d)), (''certbot'', others ''certbot''), (''configuration'', others ''configuration''),
      (''cron'', cron_handle (dh_cron d) (dh_cron_backend d)), (''fail2ban'', fail2ban_handle (dh_f2b d) (dh_f2b_backend d)),
      (''firewall'', firewall_handle (dh_firewall d)), (''apache'', others ''apache''), (''logs'', logs_handle (dh_logs d) (dh_logs_policy d)),
      (''mysql'', mysql_handle (dh_mysql d)), (''network'', others ''network''), (''php'', others ''php''),
      (''services'', services_handle (dh_services d)), (''storage'', others ''storage''), (''system'', others ''system''),
      (''tor'', tor_handle (dh_tor d) (tor_NewLinuxBackend (dh_tor d))), (''updates'', others ''updates'')]"

definition daemon_router :: "daemon_hosts \<Rightarrow> (string \<Rightarrow> history backend_handler) \<Rightarrow> history router option" where
  "daemon_router d others = register_all (registrations d others) New_router"

definition other_domains :: "string list" where
  "other_domains = [''apache'', ''certbot'', ''configuration'', ''network'', ''php'', ''storage'', ''system'', ''updates'']"

lemma registrations_domains: "distinct (map fst (registrations d others))" "set (map fst (registrations d others)) = set knownDomains"
  by (simp_all add: registrations_def knownDomains_def insert_commute)

lemma daemon_router_total: "\<exists>r. daemon_router d others = Some r"
proof -
  have "list_all domainPattern (map fst (registrations d others))"
    using knownDomains_pattern(1) unfolding list_all_iff registrations_domains(2) .
  moreover have "\<forall>domain \<in> set (map fst (registrations d others)). map_of New_router domain = None" by (simp add: New_router_def)
  ultimately show ?thesis
    unfolding daemon_router_def by (rule register_all_total [OF registrations_domains(1)])
qed

lemma daemon_lookup: "daemon_router d others = Some r \<Longrightarrow> map_of r domain = map_of (registrations d others) domain"
  unfolding daemon_router_def by (drule register_all_lookup [of _ _ _ domain]) (simp add: New_router_def)

lemma registered: "domain \<in> set knownDomains \<Longrightarrow> \<exists>handle. map_of (registrations d others) domain = Some handle"
  using registrations_domains(2) [of d others] by (metis list.set_map map_of_eq_None_iff not_Some_eq)

lemma modelled_ok:
  assumes "map_of (registrations d others) domain = Some handle" "domain \<notin> set other_domains"
  shows "reply_ok (fst (handle command args h))"
  using assms
  by (auto simp: registrations_def other_domains_def admin_access.handle_ok cron.handle_ok fail2ban.handle_ok firewall.handle_ok
        logs.handle_ok mysql.handle_ok services.handle_ok tor.handle_ok split: if_splits)

text \<open>
  C10: the daemon answers in its protocol. It starts (no registration panics), every domain it knows has a handler,
  and whatever a client sends, the answer is well formed: a success has data, no error and exit code 0; a
  failure has an error code, no data and an exit code other than 0. This holds for a message that cannot be
  decoded, for a domain the daemon does not know, and for every command of the domains modelled here.
\<close>

theorem daemon_replies_wellformed:
  "\<exists>r. daemon_router d others = Some r \<and> (\<forall>domain \<in> set knownDomains. map_of r domain \<noteq> None) \<and>
     (\<forall>decoded h. (case decoded of None \<Rightarrow> True | Some req \<Rightarrow> qDomain req \<notin> set other_domains) \<longrightarrow>
        reply_ok (fst (handleConnection r decoded h)))"
proof -
  obtain r where r: "daemon_router d others = Some r" using daemon_router_total by blast
  have "reply_ok (fst (Route r req h))" if "qDomain req \<notin> set other_domains" for req h
    using that modelled_ok by (auto simp: Route_def daemon_lookup [OF r] split: option.split)
  then show ?thesis
    using r registered by (auto simp: daemon_lookup [OF r] handleConnection_def split: option.splits)
qed

section \<open>The daemon is confined\<close>

definition daemon_permitted :: "daemon_hosts \<Rightarrow> backend_request \<Rightarrow> string list \<Rightarrow> bool" where
  "daemon_permitted d req argv \<longleftrightarrow>
     (let c = qCommand req; a = qArguments req; domain = qDomain req in
      domain = ''cron'' \<and> cron_permitted (dh_cron d) (dh_cron_backend d) c a argv \<or>
      domain = ''fail2ban'' \<and> f2b_permitted (dh_f2b d) (dh_f2b_backend d) c a argv \<or>
      domain = ''firewall'' \<and> firewall_permitted (dh_firewall d) c a argv \<or>
      domain = ''logs'' \<and> logs_permitted (dh_logs d) (dh_logs_policy d) c a argv \<or>
      domain = ''mysql'' \<and> mysql_permitted (dh_mysql d) c a argv \<or>
      domain = ''services'' \<and> services_permitted (dh_services d) c a argv \<or>
      domain = ''tor'' \<and> tor_permitted (dh_tor d) (tor_NewLinuxBackend (dh_tor d)) c a argv)"

fun serve_connections :: "history router \<Rightarrow> backend_request option list \<Rightarrow> history \<Rightarrow> history" where
  "serve_connections r [] h = h"
| "serve_connections r (decoded # rest) h = serve_connections r rest (snd (handleConnection r decoded h))"

lemma daemon_permitted_domain:
  "qDomain req = ''cron'' \<Longrightarrow> daemon_permitted d req = cron_permitted (dh_cron d) (dh_cron_backend d) (qCommand req) (qArguments req)"
  "qDomain req = ''fail2ban'' \<Longrightarrow> daemon_permitted d req = f2b_permitted (dh_f2b d) (dh_f2b_backend d) (qCommand req) (qArguments req)"
  "qDomain req = ''firewall'' \<Longrightarrow> daemon_permitted d req = firewall_permitted (dh_firewall d) (qCommand req) (qArguments req)"
  "qDomain req = ''logs'' \<Longrightarrow> daemon_permitted d req = logs_permitted (dh_logs d) (dh_logs_policy d) (qCommand req) (qArguments req)"
  "qDomain req = ''mysql'' \<Longrightarrow> daemon_permitted d req = mysql_permitted (dh_mysql d) (qCommand req) (qArguments req)"
  "qDomain req = ''services'' \<Longrightarrow> daemon_permitted d req = services_permitted (dh_services d) (qCommand req) (qArguments req)"
  "qDomain req = ''tor'' \<Longrightarrow>
     daemon_permitted d req = tor_permitted (dh_tor d) (tor_NewLinuxBackend (dh_tor d)) (qCommand req) (qArguments req)"
  by (auto simp: fun_eq_iff daemon_permitted_def)

lemma Route_confined:
  assumes "daemon_router d others = Some r" "qDomain req \<notin> set (''admin-access'' # other_domains)"
  shows "extends (daemon_permitted d req) h (snd (Route r req h))"
proof -
  have "extends (daemon_permitted d req) h (snd (handle (qCommand req) (qArguments req) h))"
    if "map_of (registrations d others) (qDomain req) = Some handle" for handle
    using that assms(2)
    by (auto simp: registrations_def other_domains_def daemon_permitted_domain cron.handle_confined fail2ban.handle_confined
          firewall.handle_confined logs.handle_confined mysql.handle_confined services.handle_confined tor.handle_confined split: if_splits)
  then show ?thesis by (auto simp: Route_def daemon_lookup [OF assms(1)] split: option.split)
qed

lemma serve_connections_confined:
  assumes "daemon_router d others = Some r"
    and "\<forall>req. Some req \<in> set msgs \<longrightarrow> qDomain req \<notin> set (''admin-access'' # other_domains)"
  shows "extends (\<lambda>argv. \<exists>req. Some req \<in> set msgs \<and> daemon_permitted d req argv) h (serve_connections r msgs h)"
  using assms(2)
proof (induction msgs arbitrary: h)
  case (Cons decoded msgs)
  let ?P = "\<lambda>argv. \<exists>req. Some req \<in> set (decoded # msgs) \<and> daemon_permitted d req argv"
  have "extends ?P h (snd (handleConnection r decoded h))"
  proof (cases decoded)
    case (Some req)
    then show ?thesis
      using Cons.prems extends_mono [OF Route_confined [OF assms(1), of req h], of ?P] by (auto simp: handleConnection_def)
  qed (simp add: handleConnection_def)
  also have "extends ?P (snd (handleConnection r decoded h)) (serve_connections r msgs (snd (handleConnection r decoded h)))"
    using Cons by (intro extends_mono [OF Cons.IH]) auto
  finally show ?case by simp
qed simp

text \<open>
  C8: whatever messages the daemon receives, one after the other, for the domains whose commands are confined, every
  command it runs is one that the domain of some request among them permits for that request; messages that
  cannot be decoded and domains it does not know make it run nothing.
\<close>

theorem daemon_confined:
  assumes "daemon_router d others = Some r"
    and "\<forall>req. Some req \<in> set msgs \<longrightarrow> qDomain req \<notin> set (''admin-access'' # other_domains)"
    and "argv \<in> set (serve_connections r msgs [])"
  shows "\<exists>req. Some req \<in> set msgs \<and> qDomain req \<in> set knownDomains \<and> daemon_permitted d req argv"
proof -
  obtain req where "Some req \<in> set msgs" "daemon_permitted d req argv"
    using serve_connections_confined [OF assms(1,2), of "[]"] assms(3) by (auto simp: extends_def list_all_iff)
  moreover from this have "qDomain req \<in> set knownDomains" by (auto simp: daemon_permitted_def knownDomains_def Let_def)
  ultimately show ?thesis by blast
qed

section \<open>Tested before it is switched\<close>


section \<open>An example\<close>

definition sample_daemon :: daemon_hosts where
  "sample_daemon =
     \<lparr>dh_admin = sample_aa True, dh_cron = sample_cron_host, dh_cron_backend = NewLinuxBackend (\<lambda>_. True) None, dh_f2b = sample_f2b,
      dh_f2b_backend = sample_f2b_backend, dh_firewall = sample_firewall, dh_logs = sample_logs,
      dh_logs_policy = loadPolicy (policy_file sample_logs),
      dh_mysql = \<lparr>my_executable = (\<lambda>_. True), my_lstat = (\<lambda>_. None), my_lower = (\<lambda>n. n), my_fault = (\<lambda>_ _. NoFault),
                  my_exec = (\<lambda>_ _. \<lparr>out = '''', err = '''', status = 0\<rparr>)\<rparr>,
      dh_services = \<lparr>services_file = None, services_exec = (\<lambda>_ _. \<lparr>out = '''', err = '''', status = 0\<rparr>)\<rparr>, dh_tor = sample_tor\<rparr>"

definition sample_others :: "string \<Rightarrow> history backend_handler" where
  "sample_others domain command args h = (failure 8 ''FEATURE_NOT_AVAILABLE'', h)"

definition sample_request :: "string \<Rightarrow> string list \<Rightarrow> backend_request" where
  "sample_request command args = \<lparr>qDomain = ''fail2ban'', qCommand = command, qArguments = args\<rparr>"

abbreviation sample_router :: "history router" where
  "sample_router \<equiv> the (daemon_router sample_daemon sample_others)"

lemma sample_router: "daemon_router sample_daemon sample_others = Some sample_router"
  using daemon_router_total [of sample_daemon sample_others] by auto

lemma sample_route:
  "Route sample_router (sample_request command args) h = fail2ban_handle sample_f2b sample_f2b_backend command args h"
proof -
  have "domainPattern ''fail2ban''" "''fail2ban'' \<in> set knownDomains" by code_simp+
  then show ?thesis
    by (simp add: Route_def sample_request_def daemon_lookup [OF sample_router] registrations_def) (simp add: sample_daemon_def)
qed

theorem daemon_replies_wellformed_witness:
  "\<exists>r. daemon_router sample_daemon sample_others = Some r \<and> reply_ok (fst (handleConnection r (Some (sample_request ''ban'' [])) []))"
proof -
  have "qDomain (sample_request ''ban'' []) \<notin> set other_domains" by code_simp
  then show ?thesis using daemon_replies_wellformed [of sample_daemon sample_others] by auto
qed

theorem daemon_confined_witness:
  "daemon_permitted sample_daemon (sample_request ''ban'' [''sshd'', ''192.0.2.7'']) [f2b_client, ''set'', ''sshd'', ''banip'', ''192.0.2.7'']"
proof -
  let ?msgs = "[Some (sample_request ''ban'' [''sshd'', ''192.0.2.7''])]"
  have "\<forall>req. Some req \<in> set ?msgs \<longrightarrow> qDomain req \<notin> set (''admin-access'' # other_domains)"
    by (simp add: sample_request_def other_domains_def)
  moreover have "[f2b_client, ''set'', ''sshd'', ''banip'', ''192.0.2.7''] \<in> set (serve_connections sample_router ?msgs [])"
    using sample_ban by (simp add: handleConnection_def sample_route)
  ultimately show ?thesis using daemon_confined [OF sample_router] by fastforce
qed

lemma sample_reload:
  "snd (fail2ban_handle sample_f2b sample_f2b_backend ''reload'' [] []) =
     [] @ [show_property ''fail2ban.service'' ''LoadState'', ask_unit ''is-active'' ''fail2ban.service'', [f2b_client, ''--test''], [f2b_client, ''reload'']]"
proof -
  have act: "requireActive sample_f2b sample_f2b_backend [] =
      (None, [show_property ''fail2ban.service'' ''LoadState'', ask_unit ''is-active'' ''fail2ban.service''])"
    by (simp add: requireActive_def unit_exists_def unit_value_def unit_active_def unit_loaded_def case_prod_beta)
  have ok: "succeeded (f2b_exec sample_f2b h argv)" for h argv by (simp add: sample_f2b_def)
  show ?thesis
    by (simp add: fail2ban_handle_def f2b_counts_def f2b_execute_def f2b_reload_def unless_refused_beta act snd_must_succeed_f2b ok)
qed


end
