(* ===== verification/Spec2Isabelle.thy ===== *)
theory Spec2Isabelle
  imports Webapp_Admin Daemon
begin

text \<open>
  AegisAdmin is an administration panel for a Linux server, written in Go (\<^verbatim>\<open>backend/go\<close>). It has two long-running
  programs. The web server (\<^verbatim>\<open>cmd/aegisadmin-web\<close>, \<^verbatim>\<open>internal/webapp\<close>) runs without privileges: it keeps accounts, permissions
  and settings in an SQLite database, keeps sessions, and decides who may do what. The daemon
  (\<^verbatim>\<open>cmd/aegisadmin-daemon\<close>) runs as root: it receives requests (a domain, a command and arguments) on a Unix socket, and
  a router hands each to the handler of its domain, which runs commands and changes files. A third program,
  \<^verbatim>\<open>aegisadmin-backup\<close>, is started by cron or by the daemon. The development models the core of all three and proves
  what makes the way from a browser to a command run as root safe: who gets a session, which requests of a
  session reach the daemon, and what the daemon then does.

  \<^bold>\<open>How the code is modelled.\<close> A Go string or byte slice is a \<^typ>\<open>string\<close> of bytes. Structs are records, enumerations
  datatypes, \<^verbatim>\<open>int\<close> and \<^verbatim>\<open>int64\<close> are integers (the conversions that can overflow, such as \<^verbatim>\<open>Atoi\<close>, saturate as they do in
  Go; the 32-bit arithmetic of the hashes is modulo 2 to the 32). A function that changes state takes the state and
  returns it; every early return and error is a value. Loops are recursive functions with proved termination.
  What the sources use of Go's library is defined: strings and white space in UTF-8, numbers, base-32 and
  base-64, SHA-1, SHA-256 and HMAC, addresses, paths, regular expressions, timeouts. What is not in the
  sources is an argument of the definitions that use it: the key derivation functions, AES-GCM, random bytes,
  the clock, the lower case of letters beyond ASCII, JSON, the file system, and what commands print.

  \<^bold>\<open>Theories.\<close> First the library:
  \<^item> \<open>Go_Prelude\<close>, \<open>Go_Words\<close>, \<open>Go_Base_Encoding\<close>, \<open>Go_Crypto\<close>, \<open>Go_Net\<close>, \<open>Go_Net_Text\<close>, \<open>Go_Path\<close> and \<open>Go_Regexp\<close>: the parts of
    Go's library named above with their lemmas, the collections of simplification rules, and the locale for
    invariants of step relations.

  Then the web server, from the inside out:
  \<^item> \<open>Websession\<close> (\<^verbatim>\<open>internal/websession\<close>): sessions in memory and on disk. Its invariant holds after any sequence of
    operations and restarts; saving and loading is a round trip; rotation, destruction, CSRF tokens.
  \<^item> \<open>Webauth_Limiter\<close>, \<open>Webauth_Totp\<close>, \<open>Webauth_Password\<close>, \<open>Webauth_Authentication\<close> (\<^verbatim>\<open>internal/webauth\<close>): the limiter of
    logins, the second factor, password hashes, and the decision of a login, exact on every branch.
  \<^item> \<open>Authstore_Schema\<close>, \<open>Authstore_Users\<close>, \<open>Authstore_Navigation\<close>, \<open>Authstore_Settings\<close>, \<open>Authstore_Access_Log\<close>,
    \<open>Authstore_Lifecycle\<close>, \<open>Authstore\<close> (\<^verbatim>\<open>internal/authstore\<close>): the tables, one function per operation of the store, and the
    step relation of all of them; every reachable database satisfies the constraints of the schema, and
    the version of an account protects its credentials.
  \<^item> \<open>Webapp_Request\<close>, \<open>Webapp_Login\<close>, \<open>Webapp_Protocol\<close>, \<open>Webapp_Refinement\<close>, \<open>Webapp\<close> (\<^verbatim>\<open>internal/webapp/webapp.go\<close>): the gate of every
    request, the handlers of login and account, the abstract login protocol, and the proof that every run of
    the handlers is a run of the protocol. From it follows that an authenticated session has given the proofs
    its account asks for.
  \<^item> \<open>Webapp_Actions\<close>, \<open>Webapp_Admin\<close> (\<^verbatim>\<open>webapp.go\<close>, \<^verbatim>\<open>modules.go\<close>, \<^verbatim>\<open>system_modules.go\<close>, \<^verbatim>\<open>users.go\<close>, \<^verbatim>\<open>settings.go\<close>, \<^verbatim>\<open>configuration.go\<close>): every
    handler that makes the daemon act or that is reserved for root, with the effects it has; an effect needs an
    unexpired session of an active account at its current version with the permission for the module, or root.

  Then the daemon:
  \<^item> \<open>Backend_Protocol\<close> (\<^verbatim>\<open>internal/api\<close>, \<^verbatim>\<open>protocol\<close>, \<^verbatim>\<open>router\<close>, \<^verbatim>\<open>server\<close>, \<^verbatim>\<open>client\<close>): replies, the router, one connection, and the retries
    of the client, which end.
  \<^item> \<open>Backend_System\<close>, \<open>Backend_Effects\<close>, \<open>Backend_Units\<close>: what the domains share. The state of the daemon is the list of
    commands it has run and of steps it has made on files; an executor says how each ends. The locale
    \<open>confined_handler\<close> is the interface of a domain: well-formed replies, and only commands its specification
    permits for the request. \<open>command_runner\<close> is the interface of what runs commands for a domain.
  \<^item> \<open>Domain_Services\<close>, \<open>Domain_Logs\<close>, \<open>Domain_Crontab\<close>, \<open>Domain_Cron_Jobs\<close>, \<open>Domain_Cron\<close>, \<open>Domain_Firewall\<close>, \<open>Domain_Fail2ban\<close>,
    \<open>Domain_Tor\<close>, \<open>Domain_Mysql\<close>, \<open>Domain_Admin_Access\<close> (\<^verbatim>\<open>internal/domain\<close>): eight domains with every command of their handlers.
    Each is an interpretation of the interface, so its replies are well formed and (but for the
    administration access, whose commands depend on the state of its files) its commands are confined. Beyond
    that: logs stay below \<^verbatim>\<open>/var/log\<close>; editing a crontab changes one task only, and root's crontab is never
    touched; a firewall rule is deleted only as it was shown; an address is banned only in a listed jail;
    services are switched only after their configuration was tested; a failed update of the administration
    access is undone, and a successful one reads back.
  \<^item> \<open>Backup_Runner\<close> (\<^verbatim>\<open>internal/backup\<close>): a run of the backup program stays within its storage.
  \<^item> \<open>Daemon\<close> (\<^verbatim>\<open>cmd/aegisadmin-daemon\<close>): the sixteen registrations and any sequence of connections; the daemon starts,
    answers in its protocol, and is confined.

  \<^bold>\<open>Bounds and fuel.\<close> No definition uses fuel. The retry loop of the client terminates because time advances by the
  delay between attempts; the bound of 40 attempts is the retry window divided by the delay. The search of
  a regular expression terminates because a repetition stops at an iteration that reads nothing; expressions
  are matched over bytes, which is exact for the expressions of the sources, since they only tell apart ASCII
  characters. \<^verbatim>\<open>bufio.Scanner\<close> stops at a line of 64 KiB, which the model keeps.

  \<^bold>\<open>Hypotheses.\<close> The properties that speak of code outside the sources name what they rely on: time does not run
  backwards (\<open>forward\<close>), random bytes do not repeat, names in a directory have no slash (\<open>plain_names\<close>), temporary files get
  names of the pattern they were asked for (\<open>temp_names\<close>, \<open>cron_env\<close>), a key derivation gives keys of the length asked for,
  decryption inverts encryption. Where a loop over a Go map makes the order of commands unspecified, the order is a
  parameter. Each has a witness on a concrete instance.

  \<^bold>\<open>Not modelled.\<close> HTML and translations; the pages that only show what the daemon reports, and the packages that
  decode its replies for them; the domains for Apache, Certbot, configuration snapshots, network, PHP,
  storage, system and updates, whose handlers are a parameter of \<open>Daemon\<close> about which nothing is assumed: the first two
  and PHP act through commands like the domains that are modelled, the snapshots depend on all domains, and
  the others only read the state of the kernel or of package managers; the set-up of MySQL, the download
  statistics, flags and signals of the programs, and the texts of messages. Requests are handled one after
  the other: the locks of the session manager, the limiter and the cron domain are respected by that,
  and interleavings below the level of one operation are not considered.
\<close>

end
